(* ===== verification/Prelude.thy ===== *)
theory Prelude
  imports Complex_Main "HOL-Library.AList" "HOL-Library.Char_ord" "HOL-Library.List_Lexorder"
    "HOL-Library.Sublist" "HOL-Library.Product_Lexorder"
begin

text \<open>
  Shared vocabulary of the development: Python strings as ASCII character
  lists, dictionaries as association lists in insertion order, JSON values,
  the exceptions the modelled code raises, and the interfaces (locales) that
  several components implement.  Every component theory imports this one.
\<close>

named_theorems dict_simps \<open>lookup and domain facts of dictionaries\<close>
named_theorems inv_intros \<open>preservation of component invariants\<close>
named_theorems json_simps \<open>reading the keys of written JSON objects\<close>

section \<open>Characters and strings\<close>

text \<open>Python strings are modelled as lists of 8-bit characters and the text
  operations (strip, lower, upper, split) act on the ASCII classes.\<close>

definition is_ws :: "char \<Rightarrow> bool" where
  "is_ws c = (let n = of_char c :: nat in (9 \<le> n \<and> n \<le> 13) \<or> (28 \<le> n \<and> n \<le> 32))"

definition is_digit :: "char \<Rightarrow> bool" where
  "is_digit c = (let n = of_char c :: nat in 48 \<le> n \<and> n \<le> 57)"

definition is_upper :: "char \<Rightarrow> bool" where
  "is_upper c = (let n = of_char c :: nat in 65 \<le> n \<and> n \<le> 90)"

definition is_lower :: "char \<Rightarrow> bool" where
  "is_lower c = (let n = of_char c :: nat in 97 \<le> n \<and> n \<le> 122)"

definition char_lower :: "char \<Rightarrow> char" where
  "char_lower c = (if is_upper c then char_of ((of_char c :: nat) + 32) else c)"

definition char_upper :: "char \<Rightarrow> char" where
  "char_upper c = (if is_lower c then char_of ((of_char c :: nat) - 32) else c)"

definition lower :: "string \<Rightarrow> string" where
  "lower s = map char_lower s"

definition upper :: "string \<Rightarrow> string" where
  "upper s = map char_upper s"

definition lstrip :: "string \<Rightarrow> string" where
  "lstrip s = dropWhile is_ws s"

definition rstrip :: "string \<Rightarrow> string" where
  "rstrip s = rev (dropWhile is_ws (rev s))"

definition strip :: "string \<Rightarrow> string" where
  "strip s = rstrip (lstrip s)"

lemma strip_no_ws: "list_all (\<lambda>c. \<not> is_ws c) s \<Longrightarrow> strip s = s"
proof -
  assume a: "list_all (\<lambda>c. \<not> is_ws c) s"
  have d: "list_all (\<lambda>c. \<not> is_ws c) t \<Longrightarrow> dropWhile is_ws t = t" for t
    by (cases t) auto
  have "list_all (\<lambda>c. \<not> is_ws c) (rev s)" using a by (simp add: list_all_iff)
  then show ?thesis using d[OF a] d[of "rev s"] by (simp add: strip_def lstrip_def rstrip_def)
qed

definition starts_with :: "string \<Rightarrow> string \<Rightarrow> bool" where
  "starts_with p s = (take (length p) s = p)"

text \<open>The split method of Python strings, on one character.\<close>
fun split_char :: "char \<Rightarrow> string \<Rightarrow> string list" where
  "split_char c [] = [[]]" |
  "split_char c (x # xs) =
     (if x = c then [] # split_char c xs
      else (case split_char c xs of
              [] \<Rightarrow> [[x]]
            | w # ws \<Rightarrow> (x # w) # ws))"

text \<open>The partition method of Python strings, on one character: the text before the
  first occurrence, whether there was one, and the text after it.\<close>
fun partition_char :: "char \<Rightarrow> string \<Rightarrow> string \<times> bool \<times> string" where
  "partition_char c [] = ([], False, [])" |
  "partition_char c (x # xs) =
     (if x = c then ([], True, xs)
      else (let (a, f, b) = partition_char c xs in (x # a, f, b)))"

fun join_with :: "string \<Rightarrow> string list \<Rightarrow> string" where
  "join_with sep [] = []" |
  "join_with sep [w] = w" |
  "join_with sep (w # v # ws) = w @ sep @ join_with sep (v # ws)"

lemma split_char_nonempty [simp]: "split_char c s \<noteq> []"
  by (induction s) (auto split: list.splits)

lemma join_split_char: "join_with [c] (split_char c s) = s"
proof (induction s)
  case Nil
  then show ?case by simp
next
  case (Cons x xs)
  obtain w ws where W: "split_char c xs = w # ws"
    by (cases "split_char c xs") auto
  with Cons show ?case by (cases ws) auto
qed

lemma split_char_no_sep: "w \<in> set (split_char c s) \<Longrightarrow> c \<notin> set w"
  by (induction s arbitrary: w) (auto split: list.splits if_splits)

lemma split_char_free: "c \<notin> set s \<Longrightarrow> split_char c s = [s]"
  by (induction s) auto

lemma split_char_append:
  "c \<notin> set w \<Longrightarrow> split_char c (w @ c # rest) = w # split_char c rest"
  by (induction w) auto

lemma split_join_char:
  "ws \<noteq> [] \<Longrightarrow> (\<forall>w \<in> set ws. c \<notin> set w) \<Longrightarrow> split_char c (join_with [c] ws) = ws"
  by (induction "[c]" ws rule: join_with.induct)
     (auto simp: split_char_free split_char_append)

lemma partition_char_no_sep: "c \<notin> set (fst (partition_char c s))"
  by (induction s) (auto split: prod.splits)

lemma partition_char_append:
  "c \<notin> set w \<Longrightarrow> partition_char c (w @ c # rest) = (w, True, rest)"
  by (induction w) auto

lemma partition_char_free: "c \<notin> set w \<Longrightarrow> partition_char c w = (w, False, [])"
  by (induction w) auto

lemma partition_char_join:
  "partition_char c s = (a, True, b) \<Longrightarrow> s = a @ c # b"
  by (induction s arbitrary: a) (auto split: prod.splits if_splits)

lemma starts_with_append [simp]: "starts_with p (p @ s)"
  by (simp add: starts_with_def)

lemma starts_with_prefix: "starts_with p s \<longleftrightarrow> prefix p s"
  unfolding starts_with_def prefix_def by (metis append_eq_conv_conj)

lemma char_lower_idem [simp]: "char_lower (char_lower c) = char_lower c"
proof (cases "is_upper c")
  case True
  then have n: "65 \<le> (of_char c :: nat)" "(of_char c :: nat) \<le> 90"
    by (auto simp: is_upper_def Let_def)
  then have "(of_char (char_lower c) :: nat) = of_char c + 32"
    using True by (simp add: char_lower_def)
  then have "\<not> is_upper (char_lower c)" using n by (simp add: is_upper_def Let_def)
  then show ?thesis by (simp add: char_lower_def)
qed (simp add: char_lower_def)

lemma lower_idem [simp]: "lower (lower s) = lower s"
  by (simp add: lower_def)

lemma lower_append [simp]: "lower (a @ b) = lower a @ lower b"
  by (simp add: lower_def)

lemma lower_length [simp]: "length (lower s) = length s"
  by (simp add: lower_def)

section \<open>JSON values and Python equality\<close>

datatype json =
    JNull
  | JBool bool
  | JInt int
  | JFloat rat
  | JStr string
  | JArr "json list"
  | JObj "(string \<times> json) list"

text \<open>Values that may be dictionary keys or set members; the others raise
  TypeError when hashed.\<close>
fun hashable :: "json \<Rightarrow> bool" where
  "hashable (JArr _) = False" |
  "hashable (JObj _) = False" |
  "hashable _ = True"

text \<open>Python identifies True with 1 and 1.0 with 1 in comparisons and as keys;
  the canonical key picks one representative of each class.\<close>
fun hkey :: "json \<Rightarrow> json" where
  "hkey (JBool b) = JInt (if b then 1 else 0)" |
  "hkey (JFloat r) = (if of_int \<lfloor>r\<rfloor> = r then JInt \<lfloor>r\<rfloor> else JFloat r)" |
  "hkey v = v"

text \<open>The truth value of a JSON value, as the if statement and the operators
  and, or read it.\<close>
fun truthy :: "json \<Rightarrow> bool" where
  "truthy JNull = False" |
  "truthy (JBool b) = b" |
  "truthy (JInt i) = (i \<noteq> 0)" |
  "truthy (JFloat r) = (r \<noteq> 0)" |
  "truthy (JStr s) = (s \<noteq> [])" |
  "truthy (JArr xs) = (xs \<noteq> [])" |
  "truthy (JObj kvs) = (kvs \<noteq> [])"

lemma hkey_hkey [simp]: "hkey (hkey v) = hkey v"
  by (cases v) auto

lemma hashable_hkey [simp]: "hashable (hkey v) = hashable v"
  by (cases v) auto

text \<open>The built-in exceptions the modelled code lets escape, and the one its hooks abort with.\<close>
datatype py_error =
    KeyError string
  | TypeError
  | ValueError
  | AttributeError
  | OverflowError
  | RecursionError
  | IndexError
  | RuntimeError
  | DispatchHookError

section \<open>Dictionaries\<close>

text \<open>A Python dictionary iterates in insertion order and assignment to a
  present key keeps its place: the association lists of the library, updated
  by AList.update and AList.delete.\<close>

type_synonym ('k, 'v) dict = "('k \<times> 'v) list"
type_synonym jobj = "(string, json) dict"

abbreviation dict_get :: "('k, 'v) dict \<Rightarrow> 'k \<Rightarrow> 'v option" where
  "dict_get d k \<equiv> map_of d k"

abbreviation dict_set :: "'k \<Rightarrow> 'v \<Rightarrow> ('k, 'v) dict \<Rightarrow> ('k, 'v) dict" where
  "dict_set k v d \<equiv> AList.update k v d"

abbreviation dict_del :: "'k \<Rightarrow> ('k, 'v) dict \<Rightarrow> ('k, 'v) dict" where
  "dict_del k d \<equiv> AList.delete k d"

abbreviation dict_keys :: "('k, 'v) dict \<Rightarrow> 'k list" where
  "dict_keys d \<equiv> map fst d"

abbreviation dict_values :: "('k, 'v) dict \<Rightarrow> 'v list" where
  "dict_values d \<equiv> map snd d"

text \<open>A dictionary proper: no key twice.\<close>
abbreviation dict_ok :: "('k, 'v) dict \<Rightarrow> bool" where
  "dict_ok d \<equiv> distinct (map fst d)"

text \<open>The value of a key with a default: Python's two-argument get.\<close>
definition get_or :: "'v \<Rightarrow> ('k, 'v) dict \<Rightarrow> 'k \<Rightarrow> 'v" where
  "get_or dflt d k = (case dict_get d k of None \<Rightarrow> dflt | Some v \<Rightarrow> v)"

lemma dict_get_set [simp, dict_simps]:
  "dict_get (dict_set k v d) k' = (if k' = k then Some v else dict_get d k')"
  by (simp add: AList.update_conv')

lemma dict_get_del [simp, dict_simps]:
  "dict_get (dict_del k d) k' = (if k' = k then None else dict_get d k')"
  by (simp add: AList.delete_conv')

lemma dict_ok_set [simp, intro]: "dict_ok d \<Longrightarrow> dict_ok (dict_set k v d)"
  by (rule AList.distinct_update)

lemma dict_ok_del [simp, intro]: "dict_ok d \<Longrightarrow> dict_ok (dict_del k d)"
  by (rule AList.distinct_delete)

lemma dict_get_mem: "dict_ok d \<Longrightarrow> dict_get d k = Some v \<longleftrightarrow> (k, v) \<in> set d"
  by (rule map_of_eq_Some_iff)

lemma dict_ok_filter: "dict_ok d \<Longrightarrow> dict_ok (filter P d)"
  by (induction d) auto

lemma dict_get_filter:
  "dict_ok d \<Longrightarrow>
   dict_get (filter P d) k = (case dict_get d k of
      None \<Rightarrow> None | Some v \<Rightarrow> if P (k, v) then Some v else None)"
  by (induction d) (auto split: option.splits simp: dom_map_of_conv_image_fst[symmetric])

section \<open>Conversions of JSON values\<close>

text \<open>Decimal notation of natural numbers and integers.\<close>
fun digits_of_nat :: "nat \<Rightarrow> string" where
  "digits_of_nat n =
     (if n < 10 then [char_of (48 + n)]
      else digits_of_nat (n div 10) @ [char_of (48 + n mod 10)])"

declare digits_of_nat.simps [simp del]

definition show_int :: "int \<Rightarrow> string" where
  "show_int i = (if i < 0 then CHR ''-'' # digits_of_nat (nat (- i)) else digits_of_nat (nat i))"

fun nat_of_digits :: "nat \<Rightarrow> string \<Rightarrow> nat" where
  "nat_of_digits acc [] = acc" |
  "nat_of_digits acc (c # cs) = nat_of_digits (10 * acc + (of_char c - 48)) cs"

definition all_digits :: "string \<Rightarrow> bool" where
  "all_digits s = (s \<noteq> [] \<and> list_all is_digit s)"

text \<open>A literal of Python's int, without surrounding space: an optional sign
  and groups of digits separated by single underscores.\<close>
definition parse_unsigned :: "string \<Rightarrow> nat option" where
  "parse_unsigned s =
     (if list_all all_digits (split_char (CHR ''_'') s)
      then Some (nat_of_digits 0 (filter (\<lambda>c. c \<noteq> CHR ''_'') s)) else None)"

fun parse_int :: "string \<Rightarrow> int option" where
  "parse_int (CHR ''-'' # s) = map_option (\<lambda>n. - int n) (parse_unsigned s)" |
  "parse_int (CHR ''+'' # s) = map_option int (parse_unsigned s)" |
  "parse_int s = map_option int (parse_unsigned s)"

text \<open>The decimal literals of Python's float without exponent (the words inf
  and nan and exponents are outside the model: they are ValueError here).\<close>
definition parse_udecimal :: "string \<Rightarrow> rat option" where
  "parse_udecimal s =
     (case partition_char (CHR ''.'') s of
        (a, dot, b) \<Rightarrow>
          if (a = [] \<and> b = []) \<or> \<not> (a = [] \<or> all_digits a) \<or> \<not> (b = [] \<or> all_digits b) then None
          else Some (of_nat (nat_of_digits 0 a) + of_nat (nat_of_digits 0 b) / 10 ^ length b))"

fun parse_decimal :: "string \<Rightarrow> rat option" where
  "parse_decimal (CHR ''-'' # s) = map_option uminus (parse_udecimal s)" |
  "parse_decimal (CHR ''+'' # s) = parse_udecimal s" |
  "parse_decimal s = parse_udecimal s"

text \<open>Truncation towards zero, as int on a float.\<close>
definition trunc :: "rat \<Rightarrow> int" where
  "trunc r = (if r < 0 then \<lceil>r\<rceil> else \<lfloor>r\<rfloor>)"

fun py_int :: "json \<Rightarrow> py_error + int" where
  "py_int (JInt i) = Inr i" |
  "py_int (JBool b) = Inr (if b then 1 else 0)" |
  "py_int (JFloat r) = Inr (trunc r)" |
  "py_int (JStr s) = (case parse_int (strip s) of None \<Rightarrow> Inl ValueError | Some i \<Rightarrow> Inr i)" |
  "py_int _ = Inl TypeError"

fun py_float :: "json \<Rightarrow> py_error + rat" where
  "py_float (JInt i) = Inr (of_int i)" |
  "py_float (JBool b) = Inr (if b then 1 else 0)" |
  "py_float (JFloat r) = Inr r" |
  "py_float (JStr s) = (case parse_decimal (strip s) of None \<Rightarrow> Inl ValueError | Some r \<Rightarrow> Inr r)" |
  "py_float _ = Inl TypeError"

text \<open>The numeric value of a JSON value in an ordering comparison; the other
  values raise TypeError there.\<close>
fun num_of :: "json \<Rightarrow> rat option" where
  "num_of (JInt i) = Some (of_int i)" |
  "num_of (JFloat r) = Some r" |
  "num_of (JBool b) = Some (if b then 1 else 0)" |
  "num_of _ = None"

text \<open>Python's str.  The rendering of floats and containers is the argument.\<close>
fun py_str :: "(json \<Rightarrow> string) \<Rightarrow> json \<Rightarrow> string" where
  "py_str repr (JStr s) = s" |
  "py_str repr JNull = ''None''" |
  "py_str repr (JBool b) = (if b then ''True'' else ''False'')" |
  "py_str repr (JInt i) = show_int i" |
  "py_str repr v = repr v"

text \<open>Iterating a JSON value: list elements, dictionary keys, characters.\<close>
fun iter_items :: "json \<Rightarrow> py_error + json list" where
  "iter_items (JArr xs) = Inr xs" |
  "iter_items (JObj kvs) = Inr (map (JStr \<circ> fst) kvs)" |
  "iter_items (JStr s) = Inr (map (\<lambda>c. JStr [c]) s)" |
  "iter_items _ = Inl TypeError"

text \<open>Building a dictionary with string keys from a value: a mapping, or a
  sequence of two-element sequences.\<close>
fun pair_items :: "json list \<Rightarrow> py_error + jobj" where
  "pair_items [] = Inr []" |
  "pair_items (JArr [JStr k, v] # rest) =
     (case pair_items rest of Inl e \<Rightarrow> Inl e | Inr d \<Rightarrow> Inr (AList.updates (dict_keys d) (dict_values d) [(k, v)]))" |
  "pair_items (JArr xs # rest) = Inl (if length xs = 2 then TypeError else ValueError)" |
  "pair_items (JStr [a, b] # rest) =
     (case pair_items rest of Inl e \<Rightarrow> Inl e | Inr d \<Rightarrow> Inr (AList.updates (dict_keys d) (dict_values d) [([a], JStr [b])]))" |
  "pair_items (JStr s # rest) = Inl ValueError" |
  "pair_items (_ # rest) = Inl TypeError"

fun py_dict :: "json \<Rightarrow> py_error + jobj" where
  "py_dict (JObj kvs) = Inr kvs" |
  "py_dict (JArr xs) = pair_items xs" |
  "py_dict (JStr s) = (if s = [] then Inr [] else Inl ValueError)" |
  "py_dict _ = Inl TypeError"

text \<open>The value of a key, with None for an absent one, and the Python idiom
  d.get(k) or dflt.\<close>
definition jget :: "jobj \<Rightarrow> string \<Rightarrow> json" where
  "jget d k = (case dict_get d k of None \<Rightarrow> JNull | Some v \<Rightarrow> v)"

definition jor :: "json \<Rightarrow> json \<Rightarrow> json" where
  "jor v dflt = (if truthy v then v else dflt)"

lemma jor_truthy [simp]: "truthy v \<Longrightarrow> jor v w = v"
  by (simp add: jor_def)

lemma jget_simps [json_simps]:
  "jget [] k = JNull"
  "jget ((k', v) # d) k = (if k = k' then v else jget d k)"
  by (simp_all add: jget_def)

lemma jor_null [simp]: "jor JNull v = v"
  by (simp add: jor_def)

section \<open>Results\<close>

text \<open>Sequencing of fallible computations.\<close>
definition bind_res :: "'e + 'a \<Rightarrow> ('a \<Rightarrow> 'e + 'b) \<Rightarrow> 'e + 'b" where
  "bind_res r f = (case r of Inl e \<Rightarrow> Inl e | Inr x \<Rightarrow> f x)"

lemma bind_res_simps [simp]:
  "bind_res (Inl e) f = Inl e"
  "bind_res (Inr x) f = f x"
  by (simp_all add: bind_res_def)

lemma bind_res_Inr: "bind_res r f = Inr y \<longleftrightarrow> (\<exists>x. r = Inr x \<and> f x = Inr y)"
  by (cases r) auto

lemma bind_res_Inl: "bind_res r f = Inl e \<longleftrightarrow> r = Inl e \<or> (\<exists>x. r = Inr x \<and> f x = Inl e)"
  by (cases r) auto

definition is_ok :: "'e + 'a \<Rightarrow> bool" where
  "is_ok r = (case r of Inl _ \<Rightarrow> False | Inr _ \<Rightarrow> True)"

lemma is_ok_simps [simp]: "is_ok (Inr x)" "\<not> is_ok (Inl e)"
  by (simp_all add: is_ok_def)

text \<open>A comprehension whose element expression may raise.\<close>
fun map_res :: "('a \<Rightarrow> 'e + 'b) \<Rightarrow> 'a list \<Rightarrow> 'e + 'b list" where
  "map_res f [] = Inr []" |
  "map_res f (x # xs) = bind_res (f x) (\<lambda>y. bind_res (map_res f xs) (\<lambda>ys. Inr (y # ys)))"

lemma map_res_mem: "map_res f xs = Inr ys \<Longrightarrow> y \<in> set ys \<Longrightarrow> \<exists>x \<in> set xs. f x = Inr y"
  by (induction xs arbitrary: ys) (auto simp: bind_res_Inr)

lemma map_res_all:
  assumes "map_res f xs = Inr ys" and "\<And>x y. f x = Inr y \<Longrightarrow> P y"
  shows "list_all P ys"
  unfolding list_all_iff using map_res_mem[OF assms(1)] assms(2) by blast

lemma fold_keeps:
  assumes "\<And>x s. P s \<Longrightarrow> P (f x s)" and "P s"
  shows "P (fold f xs s)"
  using assms(2) by (induction xs arbitrary: s) (simp_all add: assms(1))

section \<open>Facts on decimal notation\<close>

lemma of_char_digit: "n < 10 \<Longrightarrow> (of_char (char_of (48 + n) :: char) :: nat) = 48 + n"
  by simp

lemma nat_of_digits_append:
  "nat_of_digits acc (a @ b) = nat_of_digits (nat_of_digits acc a) b"
  by (induction a arbitrary: acc) auto

lemma nat_of_digits_of_nat: "nat_of_digits 0 (digits_of_nat n) = n"
proof (induction n rule: digits_of_nat.induct)
  case (1 n)
  show ?case
  proof (cases "n < 10")
    case True
    then show ?thesis by (simp add: digits_of_nat.simps of_char_digit)
  next
    case False
    with 1 show ?thesis
      by (simp add: digits_of_nat.simps[of n] nat_of_digits_append of_char_digit)
  qed
qed

lemma is_digit_char [simp]: "n < (10::nat) \<Longrightarrow> is_digit (char_of (48 + n))"
  by (simp add: is_digit_def Let_def)

lemma digits_of_nat_digits: "list_all is_digit (digits_of_nat n)"
proof (induction n rule: digits_of_nat.induct)
  case (1 n)
  then show ?case by (cases "n < 10") (auto simp: digits_of_nat.simps[of n])
qed

lemma digits_of_nat_nonempty [simp]: "digits_of_nat n \<noteq> []"
  by (subst digits_of_nat.simps) simp

lemma all_digits_of_nat [simp]: "all_digits (digits_of_nat n)"
  by (simp add: all_digits_def digits_of_nat_digits)

section \<open>Interfaces\<close>

subsection \<open>Keyed stores\<close>

text \<open>A component that keeps one value per key behind two mutators.  The
  provider promises that its representation invariant is kept and that its
  lookup behaves as a map; the client reasons about any sequence of calls as
  about a map.\<close>

datatype ('k, 'v) kv_op = Put 'k 'v | Remove 'k

fun run_ops :: "('k \<Rightarrow> 'v \<Rightarrow> 's \<Rightarrow> 's) \<Rightarrow> ('k \<Rightarrow> 's \<Rightarrow> 's) \<Rightarrow> ('k, 'v) kv_op list \<Rightarrow> 's \<Rightarrow> 's" where
  "run_ops put rem [] s = s" |
  "run_ops put rem (Put k v # ops) s = run_ops put rem ops (put k v s)" |
  "run_ops put rem (Remove k # ops) s = run_ops put rem ops (rem k s)"

fun map_ops :: "('k, 'v) kv_op list \<Rightarrow> ('k \<rightharpoonup> 'v) \<Rightarrow> ('k \<rightharpoonup> 'v)" where
  "map_ops [] m = m" |
  "map_ops (Put k v # ops) m = map_ops ops (m(k \<mapsto> v))" |
  "map_ops (Remove k # ops) m = map_ops ops (m(k := None))"

locale keyed_store =
  fixes find :: "'s \<Rightarrow> 'k \<Rightarrow> 'v option"
    and put :: "'k \<Rightarrow> 'v \<Rightarrow> 's \<Rightarrow> 's"
    and rem :: "'k \<Rightarrow> 's \<Rightarrow> 's"
    and inv :: "'s \<Rightarrow> bool"
    and fits :: "'k \<Rightarrow> 'v \<Rightarrow> bool"
  assumes put_inv: "inv s \<Longrightarrow> fits k v \<Longrightarrow> inv (put k v s)"
    and rem_inv: "inv s \<Longrightarrow> inv (rem k s)"
    and find_put: "inv s \<Longrightarrow> fits k v \<Longrightarrow> find (put k v s) = (find s)(k \<mapsto> v)"
    and find_rem: "inv s \<Longrightarrow> find (rem k s) = (find s)(k := None)"
begin

definition fit_op :: "('k, 'v) kv_op \<Rightarrow> bool" where
  "fit_op op = (case op of Put k v \<Rightarrow> fits k v | Remove k \<Rightarrow> True)"

lemma run_ops_inv: "inv s \<Longrightarrow> list_all fit_op ops \<Longrightarrow> inv (run_ops put rem ops s)"
proof (induction ops arbitrary: s)
  case Nil
  then show ?case by simp
next
  case (Cons op ops)
  then show ?case by (cases op) (auto simp: fit_op_def put_inv rem_inv)
qed

lemma run_ops_map:
  "inv s \<Longrightarrow> list_all fit_op ops \<Longrightarrow> find (run_ops put rem ops s) = map_ops ops (find s)"
proof (induction ops arbitrary: s)
  case Nil
  then show ?case by simp
next
  case (Cons op ops)
  then show ?case
    by (cases op) (auto simp: fit_op_def put_inv rem_inv find_put find_rem)
qed

end

subsection \<open>Machines with absorbing states\<close>

text \<open>A component whose state may enter a set of states that no event of its
  interface leaves.\<close>

fun run_events :: "('e \<Rightarrow> 's \<Rightarrow> 's) \<Rightarrow> 'e list \<Rightarrow> 's \<Rightarrow> 's" where
  "run_events step [] s = s" |
  "run_events step (e # es) s = run_events step es (step e s)"

lemma run_events_append: "run_events step (a @ b) s = run_events step b (run_events step a s)"
  by (induction a arbitrary: s) auto

text \<open>Every event of a run is admissible in the state it meets.\<close>
fun all_fit :: "('e \<Rightarrow> 's \<Rightarrow> 's) \<Rightarrow> ('e \<Rightarrow> 's \<Rightarrow> bool) \<Rightarrow> 'e list \<Rightarrow> 's \<Rightarrow> bool" where
  "all_fit step fits [] s = True" |
  "all_fit step fits (e # es) s = (fits e s \<and> all_fit step fits es (step e s))"

lemma all_fit_True [simp]: "all_fit step (\<lambda>e s. True) es s"
  by (induction es arbitrary: s) auto

locale absorbing_machine =
  fixes step :: "'e \<Rightarrow> 's \<Rightarrow> 's"
    and fits :: "'e \<Rightarrow> 's \<Rightarrow> bool"
    and ok :: "'s \<Rightarrow> bool"
    and held :: "'s \<Rightarrow> 'h option"
  assumes step_ok: "ok s \<Longrightarrow> fits e s \<Longrightarrow> ok (step e s)"
    and step_held: "ok s \<Longrightarrow> fits e s \<Longrightarrow> held s = Some h \<Longrightarrow> held (step e s) = Some h"
begin

lemma run_ok: "ok s \<Longrightarrow> all_fit step fits es s \<Longrightarrow> ok (run_events step es s)"
  by (induction es arbitrary: s) (auto simp: step_ok)

lemma run_held:
  "ok s \<Longrightarrow> all_fit step fits es s \<Longrightarrow> held s = Some h \<Longrightarrow> held (run_events step es s) = Some h"
  by (induction es arbitrary: s) (auto simp: step_ok step_held)

end

subsection \<open>Last-writer-wins replicas\<close>

text \<open>The winner of a conflict: the local value unless the remote one carries a
  strictly later stamp.\<close>
definition newer :: "('v \<Rightarrow> 't::linorder) \<Rightarrow> 'v option \<Rightarrow> 'v option \<Rightarrow> 'v option" where
  "newer stamp mine theirs =
     (case theirs of
        None \<Rightarrow> mine
      | Some t \<Rightarrow> (case mine of
          None \<Rightarrow> theirs
        | Some m \<Rightarrow> if stamp m \<ge> stamp t then mine else theirs))"

lemma newer_simps [simp]:
  "newer stamp mine None = mine"
  "newer stamp None (Some t) = Some t"
  "newer stamp (Some m) (Some t) = (if stamp m \<ge> stamp t then Some m else Some t)"
  by (simp_all add: newer_def)

lemma newer_None [simp]: "newer stamp None b = b"
  by (cases b) simp_all

lemma newer_idem [simp]: "newer stamp a a = a"
  by (cases a) simp_all

lemma newer_absorb [simp]: "newer stamp (newer stamp a b) b = newer stamp a b"
  by (cases a; cases b) auto

lemma newer_assoc:
  "newer stamp (newer stamp a b) c = newer stamp a (newer stamp b c)"
  by (cases a; cases b; cases c) auto

text \<open>Without two different values of one stamp the winner does not depend on
  the side.\<close>
lemma newer_commute:
  "(\<And>x y. a = Some x \<Longrightarrow> b = Some y \<Longrightarrow> stamp x = stamp y \<Longrightarrow> x = y) \<Longrightarrow>
   newer stamp a b = newer stamp b a"
  by (cases a; cases b) auto

locale lww_replica =
  fixes view :: "'s \<Rightarrow> 'k \<Rightarrow> 'v option"
    and absorb :: "'v \<Rightarrow> 's \<Rightarrow> 's"
    and key :: "'v \<Rightarrow> 'k"
    and stamp :: "'v \<Rightarrow> 't::linorder"
    and inv :: "'s \<Rightarrow> bool"
  assumes absorb_inv: "inv s \<Longrightarrow> inv (absorb v s)"
    and absorb_view: "inv s \<Longrightarrow>
      view (absorb v s) = (view s)(key v := newer stamp (view s (key v)) (Some v))"
begin

lemma absorb_all_inv: "inv s \<Longrightarrow> inv (fold absorb vs s)"
  by (induction vs arbitrary: s) (auto simp: absorb_inv)

lemma absorb_all_view:
  "inv s \<Longrightarrow> distinct (map key vs) \<Longrightarrow>
   view (fold absorb vs s) k = newer stamp (view s k) (map_of (map (\<lambda>v. (key v, v)) vs) k)"
proof (induction vs arbitrary: s)
  case Nil
  then show ?case by simp
next
  case (Cons v vs)
  have "map_of (map (\<lambda>v. (key v, v)) vs) (key v) = None"
    using Cons.prems(2) by (auto simp: map_of_eq_None_iff image_iff)
  then show ?case
    using Cons.IH[of "absorb v s"] Cons.prems by (auto simp: absorb_inv absorb_view)
qed

text \<open>Absorbing a value twice changes nothing more, and a value never loses
  to an older one.\<close>
lemma absorb_twice: "inv s \<Longrightarrow> view (absorb v (absorb v s)) = view (absorb v s)"
  by (rule ext) (auto simp: absorb_inv absorb_view)

lemma absorb_stamp_mono:
  "inv s \<Longrightarrow> view s k = Some x \<Longrightarrow> \<exists>y. view (absorb v s) k = Some y \<and> stamp x \<le> stamp y"
  by (auto simp: absorb_view)

lemma absorb_commute:
  assumes "inv s" and tie: "key v = key w \<Longrightarrow> stamp v = stamp w \<Longrightarrow> v = w"
  shows "view (absorb v (absorb w s)) = view (absorb w (absorb v s))"
proof (cases "key v = key w")
  case False
  then show ?thesis using assms(1) by (simp add: absorb_inv absorb_view fun_upd_twist)
next
  case True
  have "newer stamp (newer stamp x (Some w)) (Some v) = newer stamp (newer stamp x (Some v)) (Some w)" for x
    using tie[OF True] by (auto simp: newer_assoc)
  then show ?thesis using assms(1) True by (simp add: absorb_inv absorb_view)
qed

end

end
