(* ===== verification/Presence_Records.thy ===== *)
theory Presence_Records
  imports Prelude
begin

text \<open>
  presence/records.py: the visibility posture and the presence record, the
  expiry rule of a record, and its projections to the announcement, discovery
  and gossip shapes together with the reconstruction of a gossiped record.
  Wall-clock epochs are rationals; the clock is an argument.
\<close>

record visibility =
  v_presence_mode :: string
  v_disclosure_mode :: string
  v_audience_scope :: string

definition default_visibility :: visibility where
  "default_visibility = \<lparr>v_presence_mode = ''public'', v_disclosure_mode = ''capabilities'',
     v_audience_scope = ''''\<rparr>"

definition visibility_to_dict :: "visibility \<Rightarrow> jobj" where
  "visibility_to_dict v =
     [(''presence_mode'', JStr (v_presence_mode v)),
      (''disclosure_mode'', JStr (v_disclosure_mode v)),
      (''audience_scope'', JStr (v_audience_scope v))]"

definition visibility_from_dict :: "(json \<Rightarrow> string) \<Rightarrow> json \<Rightarrow> visibility" where
  "visibility_from_dict repr data =
     (case data of
        JObj d \<Rightarrow>
          \<lparr>v_presence_mode = py_str repr (get_or (JStr ''public'') d ''presence_mode''),
           v_disclosure_mode = py_str repr (get_or (JStr ''capabilities'') d ''disclosure_mode''),
           v_audience_scope = py_str repr (get_or (JStr '''') d ''audience_scope'')\<rparr>
      | _ \<Rightarrow> default_visibility)"

definition DEFAULT_TTL_SECONDS :: int where
  "DEFAULT_TTL_SECONDS = 60"

record presence_record =
  p_agent_id :: string
  p_result_entry :: jobj
  p_scopes :: "json list"
  p_visibility :: visibility
  p_announced_at :: string
  p_announced_at_epoch :: rat
  p_ttl_seconds :: int
  p_owner_domain :: json
  p_attachment :: json
  p_signature :: json

definition expires_at :: "presence_record \<Rightarrow> rat option" where
  "expires_at r =
     (if p_ttl_seconds r \<le> 0 then None
      else Some (p_announced_at_epoch r + of_int (p_ttl_seconds r)))"

definition is_expired :: "presence_record \<Rightarrow> rat \<Rightarrow> bool" where
  "is_expired r now = (case expires_at r of None \<Rightarrow> False | Some expiry \<Rightarrow> expiry \<le> now)"

definition to_announcement_dict :: "presence_record \<Rightarrow> jobj" where
  "to_announcement_dict r =
     [(''agent_id'', JStr (p_agent_id r)),
      (''visibility'', JObj (visibility_to_dict (p_visibility r))),
      (''scopes'', JArr (p_scopes r)),
      (''timestamp'', JStr (p_announced_at r)),
      (''signature'', p_signature r)]"

definition to_result_entry :: "presence_record \<Rightarrow> jobj" where
  "to_result_entry r = p_result_entry r"

definition to_gossip_dict :: "presence_record \<Rightarrow> jobj" where
  "to_gossip_dict r =
     [(''agent_id'', JStr (p_agent_id r)),
      (''result_entry'', JObj (p_result_entry r)),
      (''scopes'', JArr (p_scopes r)),
      (''visibility'', JObj (visibility_to_dict (p_visibility r))),
      (''owner_domain'', p_owner_domain r),
      (''announced_at'', JStr (p_announced_at r)),
      (''announced_at_epoch'', JFloat (p_announced_at_epoch r)),
      (''ttl_seconds'', JInt (p_ttl_seconds r)),
      (''signature'', p_signature r)]"

text \<open>The arguments of the constructor are evaluated in the order written, and
  the first conversion that fails raises.\<close>
definition from_gossip_dict ::
  "(json \<Rightarrow> string) \<Rightarrow> string \<Rightarrow> jobj \<Rightarrow> py_error + presence_record" where
  "from_gossip_dict repr now_iso data =
     (case dict_get data ''agent_id'' of
        None \<Rightarrow> Inl (KeyError ''agent_id'')
      | Some a \<Rightarrow>
        bind_res (py_dict (jor (jget data ''result_entry'') (JObj []))) (\<lambda>entry.
        bind_res (iter_items (jor (jget data ''scopes'') (JArr []))) (\<lambda>sc.
        bind_res (py_float (jor (jget data ''announced_at_epoch'') (JFloat 0))) (\<lambda>epoch.
        bind_res (py_int (jor (jget data ''ttl_seconds'') (JInt DEFAULT_TTL_SECONDS))) (\<lambda>ttl.
          Inr \<lparr>p_agent_id = py_str repr a,
               p_result_entry = entry,
               p_scopes = sc,
               p_visibility = visibility_from_dict repr (jget data ''visibility''),
               p_announced_at = py_str repr (jor (jget data ''announced_at'') (JStr now_iso)),
               p_announced_at_epoch = epoch,
               p_ttl_seconds = ttl,
               p_owner_domain = jget data ''owner_domain'',
               p_attachment = JNull,
               p_signature = jget data ''signature''\<rparr>)))))"

section \<open>Expiry\<close>

lemma is_expired_iff:
  "is_expired r now \<longleftrightarrow>
     0 < p_ttl_seconds r \<and> p_announced_at_epoch r + of_int (p_ttl_seconds r) \<le> now"
  by (auto simp: is_expired_def expires_at_def)

lemma is_expired_mono: "is_expired r t \<Longrightarrow> t \<le> t' \<Longrightarrow> is_expired r t'"
  by (auto simp: is_expired_iff)

lemma never_expires: "p_ttl_seconds r \<le> 0 \<Longrightarrow> \<not> is_expired r now"
  by (simp add: is_expired_iff)

section \<open>The visibility and gossip shapes\<close>

lemma visibility_roundtrip [simp]:
  "visibility_from_dict repr (JObj (visibility_to_dict v)) = v"
  by (simp add: visibility_from_dict_def visibility_to_dict_def get_or_def)

text \<open>What a peer reads back from the gossip shape, on every record: the node
  local attachment is gone, an empty announce time is replaced by the peer's
  clock, and a TTL of zero becomes the default.\<close>
lemma from_to_gossip_dict:
  "from_gossip_dict repr now_iso (to_gossip_dict r) =
     Inr (r\<lparr>p_attachment := JNull,
            p_announced_at := (if p_announced_at r = [] then now_iso else p_announced_at r),
            p_ttl_seconds := (if p_ttl_seconds r = 0 then DEFAULT_TTL_SECONDS else p_ttl_seconds r)\<rparr>)"
  by (cases r) (simp add: from_gossip_dict_def to_gossip_dict_def jget_def jor_def)

end
