(* ===== verification/Presence_Store.thy ===== *)
theory Presence_Store
  imports Presence_Records "HOL-Library.Multiset"
begin

text \<open>
  presence/store.py: the coordinator's presence store, a dictionary of records
  by Agent-ID and an inverted index from capability to Agent-IDs.  Every
  mutator is a state transformer (the lock makes each call atomic), and a call
  that raises part way returns the state it leaves behind with the error.  The
  invariant states that the index is exactly what the records dictate.
\<close>

section \<open>State and operations\<close>

record presence_store =
  s_records :: "(string, presence_record) dict"
  s_by_capability :: "(json, string list) dict"

definition empty_store :: presence_store where
  "empty_store = \<lparr>s_records = [], s_by_capability = []\<rparr>"

text \<open>Every set loses the Agent-ID and empty sets are popped.\<close>
fun drop_from_index :: "string \<Rightarrow> (json, string list) dict \<Rightarrow> (json, string list) dict" where
  "drop_from_index aid [] = []" |
  "drop_from_index aid ((cap, ids) # rest) =
     (let ids' = removeAll aid ids in
      if ids' = [] then drop_from_index aid rest
      else (cap, ids') # drop_from_index aid rest)"

definition drop_indexes :: "string \<Rightarrow> presence_store \<Rightarrow> presence_store" where
  "drop_indexes aid s = s\<lparr>s_by_capability := drop_from_index aid (s_by_capability s)\<rparr>"

definition index_add :: "json \<Rightarrow> string \<Rightarrow> (json, string list) dict \<Rightarrow> (json, string list) dict" where
  "index_add cap aid idx = dict_set cap (List.insert aid (get_or [] idx cap)) idx"

text \<open>The loop over the capabilities of the entry: an unhashable one raises
  and leaves the ones before it indexed.\<close>
fun index_caps :: "string \<Rightarrow> json list \<Rightarrow> (json, string list) dict
    \<Rightarrow> (json, string list) dict \<times> py_error option" where
  "index_caps aid [] idx = (idx, None)" |
  "index_caps aid (cap # caps) idx =
     (if hashable cap then index_caps aid caps (index_add (hkey cap) aid idx)
      else (idx, Some TypeError))"

definition announce :: "presence_record \<Rightarrow> presence_store \<Rightarrow> presence_store \<times> py_error option" where
  "announce r s =
     (let s1 = drop_indexes (p_agent_id r) s;
          s2 = s1\<lparr>s_records := dict_set (p_agent_id r) r (s_records s1)\<rparr>
      in case iter_items (get_or (JArr []) (p_result_entry r) ''capabilities'') of
           Inl e \<Rightarrow> (s2, Some e)
         | Inr caps \<Rightarrow>
             (let (idx, err) = index_caps (p_agent_id r) caps (s_by_capability s2)
              in (s2\<lparr>s_by_capability := idx\<rparr>, err)))"

definition withdraw :: "string \<Rightarrow> presence_store \<Rightarrow> presence_store \<times> bool" where
  "withdraw aid s =
     (let existed = (dict_get (s_records s) aid \<noteq> None);
          s1 = drop_indexes aid s
      in (s1\<lparr>s_records := dict_del aid (s_records s1)\<rparr>, existed))"

definition probe :: "string \<Rightarrow> rat \<Rightarrow> presence_store \<Rightarrow> presence_store \<times> presence_record option" where
  "probe aid now s =
     (case dict_get (s_records s) aid of
        None \<Rightarrow> (s, None)
      | Some r \<Rightarrow>
          if is_expired r now then
            (let s1 = drop_indexes aid s
             in (s1\<lparr>s_records := dict_del aid (s_records s1)\<rparr>, None))
          else (s, Some r))"

fun sweep_loop :: "string list \<Rightarrow> presence_store \<Rightarrow> presence_store" where
  "sweep_loop [] s = s" |
  "sweep_loop (aid # aids) s =
     (let s1 = drop_indexes aid s
      in sweep_loop aids (s1\<lparr>s_records := dict_del aid (s_records s1)\<rparr>))"

definition sweep_locked :: "rat \<Rightarrow> presence_store \<Rightarrow> presence_store \<times> nat" where
  "sweep_locked now s =
     (let expired = map fst (filter (\<lambda>(aid, r). is_expired r now) (s_records s))
      in (sweep_loop expired s, length expired))"

definition sweep_expired :: "rat \<Rightarrow> presence_store \<Rightarrow> presence_store \<times> nat" where
  "sweep_expired now s = sweep_locked now s"

definition query_population ::
  "string option \<Rightarrow> int option \<Rightarrow> json option \<Rightarrow> int option \<Rightarrow> rat \<Rightarrow> presence_store
   \<Rightarrow> presence_store \<times> presence_record list" where
  "query_population capability tier owner_domain limit now s0 =
     (let s = fst (sweep_locked now s0);
          candidates =
            (case capability of
               None \<Rightarrow> dict_values (s_records s)
             | Some c \<Rightarrow>
                 List.map_filter (dict_get (s_records s))
                   (get_or [] (s_by_capability s) (JStr (lower (strip c)))));
          candidates =
            (case tier of
               None \<Rightarrow> candidates
             | Some t \<Rightarrow> filter (\<lambda>r. hkey (jget (p_result_entry r) ''trust_tier'') = JInt t) candidates);
          candidates =
            (case owner_domain of
               None \<Rightarrow> candidates
             | Some d \<Rightarrow> filter (\<lambda>r. p_owner_domain r = d) candidates);
          candidates = sort_key p_agent_id candidates
      in (s, case limit of
               None \<Rightarrow> candidates
             | Some n \<Rightarrow> if 0 \<le> n then take (nat n) candidates else candidates))"

definition all_records :: "rat \<Rightarrow> presence_store \<Rightarrow> presence_store \<times> presence_record list" where
  "all_records now s0 = (let s = fst (sweep_locked now s0) in (s, dict_values (s_records s)))"

definition digest :: "rat \<Rightarrow> presence_store \<Rightarrow> presence_store \<times> (string, rat) dict" where
  "digest now s0 =
     (let s = fst (sweep_locked now s0)
      in (s, map (\<lambda>(aid, r). (aid, p_announced_at_epoch r)) (s_records s)))"

definition merge_record :: "presence_record \<Rightarrow> presence_store
    \<Rightarrow> presence_store \<times> (py_error + bool)" where
  "merge_record r s =
     (let replace =
        (let s1 = drop_indexes (p_agent_id r) s;
             s2 = s1\<lparr>s_records := dict_set (p_agent_id r) r (s_records s1)\<rparr>
         in case iter_items (get_or (JArr []) (p_result_entry r) ''capabilities'') of
              Inl e \<Rightarrow> (s2, Inl e)
            | Inr caps \<Rightarrow>
                (let (idx, err) = index_caps (p_agent_id r) caps (s_by_capability s2)
                 in (s2\<lparr>s_by_capability := idx\<rparr>,
                     case err of None \<Rightarrow> Inr True | Some e \<Rightarrow> Inl e)))
      in case dict_get (s_records s) (p_agent_id r) of
           None \<Rightarrow> replace
         | Some existing \<Rightarrow>
             if p_announced_at_epoch existing \<ge> p_announced_at_epoch r then (s, Inr False)
             else replace)"

text \<open>The digest of a peer is JSON: an epoch that is not a number makes the
  comparison raise.\<close>
fun peer_needs :: "jobj \<Rightarrow> (string, presence_record) dict \<Rightarrow> py_error + presence_record list" where
  "peer_needs remote_digest [] = Inr []" |
  "peer_needs remote_digest ((aid, r) # rest) =
     (let remote_epoch = jget remote_digest aid in
      if remote_epoch = JNull
      then bind_res (peer_needs remote_digest rest) (\<lambda>out. Inr (r # out))
      else (case num_of remote_epoch of
              None \<Rightarrow> Inl TypeError
            | Some e \<Rightarrow>
                bind_res (peer_needs remote_digest rest)
                  (\<lambda>out. Inr (if p_announced_at_epoch r > e then r # out else out))))"

definition records_peer_needs :: "jobj \<Rightarrow> rat \<Rightarrow> presence_store
    \<Rightarrow> presence_store \<times> (py_error + presence_record list)" where
  "records_peer_needs remote_digest now s0 =
     (let s = fst (sweep_locked now s0) in (s, peer_needs remote_digest (s_records s)))"

definition count :: "rat \<Rightarrow> presence_store \<Rightarrow> presence_store \<times> nat" where
  "count now s0 = (let s = fst (sweep_locked now s0) in (s, length (s_records s)))"

section \<open>The index invariant\<close>

definition indexed_caps :: "presence_record \<Rightarrow> json list" where
  "indexed_caps r =
     (case iter_items (get_or (JArr []) (p_result_entry r) ''capabilities'') of
        Inl e \<Rightarrow> []
      | Inr caps \<Rightarrow> map hkey (takeWhile hashable caps))"

definition index_of :: "presence_store \<Rightarrow> json \<Rightarrow> string list" where
  "index_of s cap = get_or [] (s_by_capability s) cap"

definition record_at :: "presence_store \<Rightarrow> string \<Rightarrow> presence_record option" where
  "record_at s aid = dict_get (s_records s) aid"

definition index_shape :: "(json, string list) dict \<Rightarrow> bool" where
  "index_shape idx = (dict_ok idx \<and> (\<forall>(cap, ids) \<in> set idx. ids \<noteq> [] \<and> distinct ids))"

definition store_ok :: "presence_store \<Rightarrow> bool" where
  "store_ok s =
     (dict_ok (s_records s) \<and>
      (\<forall>(aid, r) \<in> set (s_records s). p_agent_id r = aid) \<and>
      index_shape (s_by_capability s) \<and>
      (\<forall>cap aid. aid \<in> set (index_of s cap) \<longleftrightarrow>
         (\<exists>r. record_at s aid = Some r \<and> cap \<in> set (indexed_caps r))))"

lemma drop_from_index_keys: "set (map fst (drop_from_index aid idx)) \<subseteq> set (map fst idx)"
proof (induction aid idx rule: drop_from_index.induct)
  case (1 aid)
  then show ?case by simp
next
  case (2 aid cap ids rest)
  then show ?case by (cases "removeAll aid ids = []") (simp_all add: Let_def subset_insertI2)
qed

lemma drop_from_index_shape: "index_shape idx \<Longrightarrow> index_shape (drop_from_index aid idx)"
proof (induction aid idx rule: drop_from_index.induct)
  case (1 aid)
  then show ?case by simp
next
  case (2 aid cap ids rest)
  from 2(3) have "index_shape rest" "distinct ids" "cap \<notin> fst ` set rest"
    by (auto simp: index_shape_def)
  moreover have "cap \<notin> fst ` set (drop_from_index aid rest)"
    using \<open>cap \<notin> fst ` set rest\<close> drop_from_index_keys[of aid rest] by auto
  ultimately show ?case using 2(1,2) by (auto simp: index_shape_def Let_def distinct_removeAll)
qed

lemma drop_from_index_get:
  "dict_ok idx \<Longrightarrow> get_or [] (drop_from_index aid idx) cap = removeAll aid (get_or [] idx cap)"
proof (induction aid idx rule: drop_from_index.induct)
  case (1 aid)
  then show ?case by (simp add: get_or_def)
next
  case (2 aid c ids rest)
  have "c \<notin> fst ` set (drop_from_index aid rest)"
    using 2(3) drop_from_index_keys[of aid rest] by auto
  then have "dict_get (drop_from_index aid rest) c = None"
    by (simp add: map_of_eq_None_iff)
  then show ?case using 2 by (auto simp: get_or_def Let_def)
qed

lemma index_add_shape: "index_shape idx \<Longrightarrow> index_shape (index_add cap aid idx)"
  unfolding index_shape_def index_add_def
proof (intro conjI ballI, goal_cases)
  case 1
  then show ?case by simp
next
  case (2 x)
  obtain c ids where x: "x = (c, ids)" by (cases x)
  let ?new = "List.insert aid (get_or [] idx cap)"
  from 2 have ok: "dict_ok idx" and all: "\<forall>(cap, ids) \<in> set idx. ids \<noteq> [] \<and> distinct ids"
    by auto
  have get: "dict_get (dict_set cap ?new idx) c = Some ids"
    using 2(2) x ok by (intro map_of_is_SomeI dict_ok_set) auto
  have old: "distinct (get_or [] idx cap)"
    using all by (auto simp: get_or_def split: option.splits dest!: map_of_SomeD)
  show ?case
  proof (cases "c = cap")
    case True
    then show ?thesis using get x old by (auto simp: List.insert_def split: if_splits)
  next
    case False
    then show ?thesis using get x all by (auto dest!: map_of_SomeD)
  qed
qed

lemma index_add_get:
  "set (get_or [] (index_add cap aid idx) c) =
     (if c = cap then insert aid (set (get_or [] idx c)) else set (get_or [] idx c))"
  by (auto simp: index_add_def get_or_def)

lemma index_caps_err:
  "snd (index_caps aid caps idx) = (if list_all hashable caps then None else Some TypeError)"
  by (induction aid caps idx rule: index_caps.induct) auto

lemma index_caps_shape: "index_shape idx \<Longrightarrow> index_shape (fst (index_caps aid caps idx))"
  by (induction aid caps idx rule: index_caps.induct) (auto simp: index_add_shape)

lemma index_caps_get:
  "set (get_or [] (fst (index_caps aid caps idx)) c) =
     set (get_or [] idx c) \<union> (if c \<in> set (map hkey (takeWhile hashable caps)) then {aid} else {})"
  by (induction aid caps idx rule: index_caps.induct) (auto simp: index_add_get)

section \<open>Announce and withdraw keep the invariant and act on the record map\<close>

lemma announce_records [simp]:
  "s_records (fst (announce r s)) = dict_set (p_agent_id r) r (s_records s)"
  by (simp add: announce_def drop_indexes_def Let_def split: sum.splits prod.splits)

lemma announce_index:
  "index_shape (s_by_capability s) \<Longrightarrow>
   index_shape (s_by_capability (fst (announce r s))) \<and>
   set (index_of (fst (announce r s)) cap) =
     set (index_of s cap) - {p_agent_id r} \<union> (if cap \<in> set (indexed_caps r) then {p_agent_id r} else {})"
proof -
  assume shape: "index_shape (s_by_capability s)"
  let ?d = "drop_from_index (p_agent_id r) (s_by_capability s)"
  have d: "index_shape ?d" using shape by (rule drop_from_index_shape)
  have g: "set (get_or [] ?d cap) = set (index_of s cap) - {p_agent_id r}"
    using shape by (simp add: drop_from_index_get index_shape_def index_of_def)
  show ?thesis
  proof (cases "iter_items (get_or (JArr []) (p_result_entry r) ''capabilities'')")
    case (Inl e)
    then show ?thesis using d g
      by (simp add: announce_def drop_indexes_def Let_def indexed_caps_def index_of_def)
  next
    case (Inr caps)
    have "s_by_capability (fst (announce r s)) = fst (index_caps (p_agent_id r) caps ?d)"
      using Inr by (simp add: announce_def drop_indexes_def Let_def split: prod.splits)
    then show ?thesis using Inr d g
      by (simp add: index_caps_shape index_caps_get index_of_def indexed_caps_def)
  qed
qed

lemma withdraw_records [simp]:
  "s_records (fst (withdraw aid s)) = dict_del aid (s_records s)"
  by (simp add: withdraw_def drop_indexes_def Let_def)

lemma withdraw_index:
  "index_shape (s_by_capability s) \<Longrightarrow>
   index_shape (s_by_capability (fst (withdraw aid s))) \<and>
   index_of (fst (withdraw aid s)) cap = removeAll aid (index_of s cap)"
  by (simp add: withdraw_def drop_indexes_def Let_def index_of_def drop_from_index_shape
      drop_from_index_get index_shape_def[of "s_by_capability s"])

lemma store_ok_announce [inv_intros]:
  assumes "store_ok s" shows "store_ok (fst (announce r s))"
proof -
  from assms have sh: "index_shape (s_by_capability s)" by (simp add: store_ok_def)
  have keys: "\<forall>(aid, q) \<in> set (dict_set (p_agent_id r) r (s_records s)). p_agent_id q = aid"
  proof safe
    fix aid q assume "(aid, q) \<in> set (dict_set (p_agent_id r) r (s_records s))"
    then have "dict_get (dict_set (p_agent_id r) r (s_records s)) aid = Some q"
      using assms by (intro map_of_is_SomeI dict_ok_set) (auto simp: store_ok_def)
    then show "p_agent_id q = aid"
      using assms by (auto simp: store_ok_def split: if_splits dest!: map_of_SomeD)
  qed
  have "aid \<in> set (index_of (fst (announce r s)) cap) \<longleftrightarrow>
      (\<exists>q. record_at (fst (announce r s)) aid = Some q \<and> cap \<in> set (indexed_caps q))" for cap aid
    using announce_index[OF sh, of r cap] assms
    by (auto simp: record_at_def store_ok_def split: if_splits)
  then show ?thesis
    using announce_index[OF sh, of r] keys assms by (simp add: store_ok_def)
qed

lemma store_ok_withdraw [inv_intros]:
  assumes "store_ok s" shows "store_ok (fst (withdraw aid s))"
proof -
  from assms have sh: "index_shape (s_by_capability s)" by (simp add: store_ok_def)
  have "set (dict_del aid (s_records s)) \<subseteq> set (s_records s)"
    by (auto simp: AList.delete_eq)
  then have "\<forall>(a, q) \<in> set (dict_del aid (s_records s)). p_agent_id q = a"
    using assms by (auto simp: store_ok_def)
  then show ?thesis using withdraw_index[OF sh, of aid] assms
    by (simp add: store_ok_def record_at_def)
qed

lemma store_ok_empty [simp, inv_intros]: "store_ok empty_store"
  by (simp add: store_ok_def empty_store_def index_shape_def index_of_def record_at_def get_or_def)

text \<open>The store is a keyed store of records.\<close>
interpretation pstore: keyed_store record_at "\<lambda>aid r s. fst (announce r s)"
    "\<lambda>aid s. fst (withdraw aid s)" store_ok "\<lambda>aid r. p_agent_id r = aid"
  by unfold_locales
     (auto simp: store_ok_announce store_ok_withdraw record_at_def fun_eq_iff)

section \<open>The other operations in terms of the two\<close>

lemma probe_withdraw:
  "probe aid now s =
     (case record_at s aid of
        None \<Rightarrow> (s, None)
      | Some r \<Rightarrow> if is_expired r now then (fst (withdraw aid s), None) else (s, Some r))"
  by (simp add: probe_def withdraw_def record_at_def Let_def split: option.splits)

lemma sweep_loop_withdraw:
  "sweep_loop aids s = run_ops (\<lambda>aid r s. fst (announce r s)) (\<lambda>aid s. fst (withdraw aid s))
     (map Remove aids) s"
  by (induction aids s rule: sweep_loop.induct) (auto simp: withdraw_def Let_def)

lemma sweep_loop_records:
  "s_records (sweep_loop aids s) = filter (\<lambda>(a, r). a \<notin> set aids) (s_records s)"
proof (induction aids s rule: sweep_loop.induct)
  case (1 s)
  then show ?case by (simp add: case_prod_unfold)
next
  case (2 aid aids s)
  then show ?case
    by (simp add: Let_def drop_indexes_def AList.delete_eq case_prod_unfold conj_commute)
       (rule filter_cong, auto)
qed

lemma store_ok_sweep [inv_intros]:
  "store_ok s \<Longrightarrow> store_ok (fst (sweep_locked now s))"
  by (auto simp: sweep_locked_def sweep_loop_withdraw list.pred_map list_all_iff pstore.fit_op_def
      intro!: pstore.run_ops_inv)

lemma sweep_records:
  assumes "store_ok s"
  shows "s_records (fst (sweep_locked now s)) =
         filter (\<lambda>(a, r). \<not> is_expired r now) (s_records s)"
proof -
  from assms have ok: "dict_ok (s_records s)" by (simp add: store_ok_def)
  show ?thesis
    unfolding sweep_locked_def Let_def fst_conv sweep_loop_records
  proof (rule filter_cong[OF refl])
    fix x assume "x \<in> set (s_records s)"
    then show "(case x of (a, r) \<Rightarrow>
          a \<notin> set (map fst (filter (\<lambda>(aid, r). is_expired r now) (s_records s)))) =
        (case x of (a, r) \<Rightarrow> \<not> is_expired r now)"
      using ok by (auto simp: distinct_map inj_on_def image_iff split: prod.splits)
        (metis fst_conv snd_conv)+
  qed
qed

lemma sweep_record_at:
  "store_ok s \<Longrightarrow> record_at (fst (sweep_locked now s)) aid =
     (case record_at s aid of
        None \<Rightarrow> None | Some r \<Rightarrow> if is_expired r now then None else Some r)"
  by (auto simp: record_at_def sweep_records store_ok_def dict_get_filter split: option.splits)

lemma merge_record_eq:
  "merge_record r s =
     (case record_at s (p_agent_id r) of
        Some q \<Rightarrow> if p_announced_at_epoch q \<ge> p_announced_at_epoch r then (s, Inr False)
          else (fst (announce r s), case snd (announce r s) of None \<Rightarrow> Inr True | Some e \<Rightarrow> Inl e)
      | None \<Rightarrow> (fst (announce r s), case snd (announce r s) of None \<Rightarrow> Inr True | Some e \<Rightarrow> Inl e))"
  by (auto simp: merge_record_def announce_def record_at_def Let_def
      split: option.splits sum.splits prod.splits)

lemma store_ok_merge [inv_intros]: "store_ok s \<Longrightarrow> store_ok (fst (merge_record r s))"
  by (auto simp: merge_record_eq store_ok_announce split: option.splits)

lemma store_ok_probe [inv_intros]: "store_ok s \<Longrightarrow> store_ok (fst (probe aid now s))"
  by (auto simp: probe_withdraw store_ok_withdraw split: option.splits)

section \<open>The store as a machine of calls\<close>

datatype store_call =
    Announce presence_record
  | Withdraw string
  | Probe string rat
  | Query "string option" "int option" "json option" "int option" rat
  | AllRecords rat
  | Digest rat
  | Merge presence_record
  | PeerNeeds jobj rat
  | Sweep rat
  | CountLive rat

fun store_step :: "store_call \<Rightarrow> presence_store \<Rightarrow> presence_store" where
  "store_step (Announce r) s = fst (announce r s)" |
  "store_step (Withdraw aid) s = fst (withdraw aid s)" |
  "store_step (Probe aid now) s = fst (probe aid now s)" |
  "store_step (Query c t d l now) s = fst (query_population c t d l now s)" |
  "store_step (AllRecords now) s = fst (all_records now s)" |
  "store_step (Digest now) s = fst (digest now s)" |
  "store_step (Merge r) s = fst (merge_record r s)" |
  "store_step (PeerNeeds dg now) s = fst (records_peer_needs dg now s)" |
  "store_step (Sweep now) s = fst (sweep_expired now s)" |
  "store_step (CountLive now) s = fst (count now s)"

lemma store_ok_step [inv_intros]: "store_ok s \<Longrightarrow> store_ok (store_step c s)"
  by (cases c) (simp_all add: inv_intros query_population_def all_records_def digest_def
      records_peer_needs_def sweep_expired_def count_def Let_def)

lemma store_ok_run: "store_ok s \<Longrightarrow> store_ok (run_events store_step cs s)"
  by (induction cs arbitrary: s) (auto simp: store_ok_step)

text \<open>C10: whatever calls the coordinator's store has served, in whatever order and
  including the ones that raised on a malformed capability list, its inverted index
  is exact: an Agent-ID is listed under a capability if and only if a record is held
  for it whose indexable capabilities contain that one, no empty set is kept, and
  every record is filed under its own Agent-ID.\<close>
theorem store_index_exact:
  "let s = run_events store_step cs empty_store in
   dict_ok (s_records s) \<and> index_shape (s_by_capability s) \<and>
   list_all (\<lambda>(aid, r). p_agent_id r = aid) (s_records s) \<and>
   (aid \<in> set (index_of s cap) \<longleftrightarrow>
     (case record_at s aid of None \<Rightarrow> False | Some r \<Rightarrow> cap \<in> set (indexed_caps r)))"
  using store_ok_run[OF store_ok_empty, of cs]
  by (auto simp: Let_def store_ok_def list_all_iff split: option.splits)

section \<open>The population query against a scan\<close>

definition matches_filter ::
  "string option \<Rightarrow> int option \<Rightarrow> json option \<Rightarrow> rat \<Rightarrow> presence_record \<Rightarrow> bool" where
  "matches_filter capability tier owner_domain now r =
     (\<not> is_expired r now \<and>
      (case capability of None \<Rightarrow> True
         | Some c \<Rightarrow> JStr (lower (strip c)) \<in> set (indexed_caps r)) \<and>
      (case tier of None \<Rightarrow> True
         | Some t \<Rightarrow> hkey (jget (p_result_entry r) ''trust_tier'') = JInt t) \<and>
      (case owner_domain of None \<Rightarrow> True | Some d \<Rightarrow> p_owner_domain r = d))"

definition scan_population ::
  "string option \<Rightarrow> int option \<Rightarrow> json option \<Rightarrow> int option \<Rightarrow> rat \<Rightarrow> presence_store
   \<Rightarrow> presence_record list" where
  "scan_population capability tier owner_domain limit now s =
     (let hits = sort_key p_agent_id
            (filter (matches_filter capability tier owner_domain now) (dict_values (s_records s)))
      in case limit of None \<Rightarrow> hits | Some n \<Rightarrow> if 0 \<le> n then take (nat n) hits else hits)"

lemma sort_key_set_eq:
  assumes "set xs = set ys" "distinct (map f xs)" "distinct (map f ys)"
  shows "sort_key f xs = sort_key f ys"
proof -
  have "mset xs = mset ys"
    using assms by (metis distinct_map set_eq_iff_mset_eq_distinct)
  then show ?thesis
    using assms by (intro sort_key_inj_key_eq) (auto simp: distinct_map)
qed

lemma store_ok_ids:
  "store_ok s \<Longrightarrow> map p_agent_id (dict_values (s_records s)) = dict_keys (s_records s)"
  by (auto simp: store_ok_def)

lemma store_ok_values_distinct:
  "store_ok s \<Longrightarrow> distinct (map p_agent_id (filter P (dict_values (s_records s))))"
  by (metis distinct_map_filter store_ok_def store_ok_ids)

lemma store_ok_values_set:
  "store_ok s \<Longrightarrow> r \<in> set (dict_values (s_records s)) \<longleftrightarrow> record_at s (p_agent_id r) = Some r"
  by (auto simp: store_ok_def record_at_def dict_get_mem) (metis case_prodD image_iff snd_conv)+

lemma index_of_distinct: "store_ok s \<Longrightarrow> distinct (index_of s cap)"
  by (auto simp: store_ok_def index_shape_def index_of_def get_or_def split: option.splits
      dest!: map_of_SomeD)

lemma map_filter_index:
  fixes cap :: json
  assumes "store_ok s"
  defines "rs \<equiv> List.map_filter (record_at s) (index_of s cap)"
  shows "map p_agent_id rs = index_of s cap"
    and "set rs = {r \<in> set (dict_values (s_records s)). cap \<in> set (indexed_caps r)}"
proof -
  have own: "record_at s aid = Some r \<Longrightarrow> p_agent_id r = aid" for aid r
    using assms(1) by (auto simp: store_ok_def record_at_def dest!: map_of_SomeD)
  have ex: "aid \<in> set (index_of s cap) \<Longrightarrow> \<exists>r. record_at s aid = Some r \<and> p_agent_id r = aid" for aid
    using assms(1) own by (auto simp: store_ok_def)
  have "(\<forall>a \<in> set ids. \<exists>r. record_at s a = Some r \<and> p_agent_id r = a) \<Longrightarrow>
        map p_agent_id (List.map_filter (record_at s) ids) = ids" for ids
    by (induction ids) (auto simp: map_filter_simps)
  then show "map p_agent_id rs = index_of s cap" using ex unfolding rs_def by blast
  show "set rs = {r \<in> set (dict_values (s_records s)). cap \<in> set (indexed_caps r)}"
  proof safe
    fix r assume "r \<in> set rs"
    then obtain aid where a: "aid \<in> set (index_of s cap)" "record_at s aid = Some r"
      by (auto simp: rs_def List.map_filter_def)
    then show "r \<in> set (dict_values (s_records s))" "cap \<in> set (indexed_caps r)"
      using assms(1) own[OF a(2)] store_ok_values_set[OF assms(1), of r]
      by (auto simp: store_ok_def)
  next
    fix r assume r: "r \<in> set (dict_values (s_records s))" "cap \<in> set (indexed_caps r)"
    then have at: "record_at s (p_agent_id r) = Some r"
      using store_ok_values_set[OF assms(1)] by blast
    then have "p_agent_id r \<in> set (index_of s cap)"
      using assms(1) r(2) by (auto simp: store_ok_def)
    then show "r \<in> set rs" using at by (force simp: rs_def List.map_filter_def)
  qed
qed

text \<open>The answer of the query is the same for the index as for a scan of the
  live records.\<close>
lemma query_candidates:
  assumes ok: "store_ok s0"
  shows "snd (query_population capability tier owner_domain limit now s0) =
         scan_population capability tier owner_domain limit now s0"
proof -
  define s where "s = fst (sweep_locked now s0)"
  have ok1: "store_ok s" using ok by (simp add: s_def store_ok_sweep)
  have live: "dict_values (s_records s) = filter (\<lambda>r. \<not> is_expired r now) (dict_values (s_records s0))"
    using ok by (simp add: s_def sweep_records filter_map o_def case_prod_unfold)
  define base where "base = (case capability of None \<Rightarrow> dict_values (s_records s)
    | Some c \<Rightarrow> List.map_filter (record_at s) (index_of s (JStr (lower (strip c)))))"
  have base_set: "set base = {r \<in> set (dict_values (s_records s)).
      case capability of None \<Rightarrow> True | Some c \<Rightarrow> JStr (lower (strip c)) \<in> set (indexed_caps r)}"
    using map_filter_index(2)[OF ok1] by (auto simp: base_def split: option.splits)
  have base_dist: "distinct (map p_agent_id base)"
    using map_filter_index(1)[OF ok1] index_of_distinct[OF ok1]
      store_ok_values_distinct[OF ok1, of "\<lambda>_. True"]
    by (auto simp: base_def split: option.splits)
  define rest where "rest = (\<lambda>r::presence_record.
     (case tier of None \<Rightarrow> True | Some t \<Rightarrow> hkey (jget (p_result_entry r) ''trust_tier'') = JInt t) \<and>
     (case owner_domain of None \<Rightarrow> True | Some d \<Rightarrow> p_owner_domain r = d))"
  have "sort_key p_agent_id (filter rest base) = sort_key p_agent_id
      (filter (matches_filter capability tier owner_domain now) (dict_values (s_records s0)))"
  proof (rule sort_key_set_eq)
    show "set (filter rest base) = set
      (filter (matches_filter capability tier owner_domain now) (dict_values (s_records s0)))"
      using base_set live by (auto simp: rest_def matches_filter_def)
    show "distinct (map p_agent_id (filter rest base))"
      using base_dist by (rule distinct_map_filter)
  qed (rule store_ok_values_distinct[OF ok])
  moreover
  have flt: "(case owner_domain of
        None \<Rightarrow> (case tier of None \<Rightarrow> base
           | Some t \<Rightarrow> filter (\<lambda>r. hkey (jget (p_result_entry r) ''trust_tier'') = JInt t) base)
      | Some d \<Rightarrow> filter (\<lambda>r. p_owner_domain r = d)
          (case tier of None \<Rightarrow> base
           | Some t \<Rightarrow> filter (\<lambda>r. hkey (jget (p_result_entry r) ''trust_tier'') = JInt t) base))
      = filter rest base"
    by (cases tier; cases owner_domain) (auto simp: rest_def intro: filter_cong)
  have base_alt: "(case capability of
        None \<Rightarrow> dict_values (s_records (fst (sweep_locked now s0)))
      | Some c \<Rightarrow> List.map_filter (dict_get (s_records (fst (sweep_locked now s0))))
          (get_or [] (s_by_capability (fst (sweep_locked now s0))) (JStr (lower (strip c))))) = base"
    by (simp add: base_def s_def record_at_def[abs_def] index_of_def split: option.splits)
  have "snd (query_population capability tier owner_domain limit now s0) =
      (let hits = sort_key p_agent_id (filter rest base)
       in case limit of None \<Rightarrow> hits | Some n \<Rightarrow> if 0 \<le> n then take (nat n) hits else hits)"
    by (simp only: query_population_def Let_def snd_conv base_alt flt)
  ultimately show ?thesis by (simp add: scan_population_def Let_def)
qed

text \<open>C9: the population query is correct against a specification that knows nothing
  of the index: after any history of calls, its answer is the list of all live
  records that satisfy the capability, tier and owner-domain filters, sorted by
  Agent-ID and cut to the limit when that is not negative.\<close>
theorem query_population_is_scan:
  "snd (query_population capability tier owner_domain limit now (run_events store_step cs empty_store)) =
   scan_population capability tier owner_domain limit now (run_events store_step cs empty_store)"
  by (rule query_candidates) (rule store_ok_run[OF store_ok_empty])

lemma probe_evicts:
  assumes "store_ok s" and none: "snd (probe aid now s) = None"
  shows "record_at (fst (probe aid now s)) aid = None"
    and "aid \<notin> set (index_of (fst (probe aid now s)) cap)"
    and "list_all (\<lambda>r. p_agent_id r \<noteq> aid)
           (snd (query_population c t d l later (fst (probe aid now s))))"
proof -
  let ?s = "fst (probe aid now s)"
  have ok: "store_ok ?s" using assms(1) by (rule store_ok_probe)
  show gone: "record_at ?s aid = None"
    using none pstore.find_rem[OF assms(1), of aid]
    by (auto simp: probe_withdraw split: option.splits if_splits)
  then show "aid \<notin> set (index_of ?s cap)" using ok by (auto simp: store_ok_def)
  have "p_agent_id r \<noteq> aid"
    if "r \<in> set (snd (query_population c t d l later ?s))" for r
  proof -
    from that have "r \<in> set (dict_values (s_records ?s))"
      unfolding query_candidates[OF ok] scan_population_def Let_def
      by (auto split: option.splits if_splits dest!: in_set_takeD)
    then show ?thesis using gone store_ok_values_set[OF ok, of r] by auto
  qed
  then show "list_all (\<lambda>r. p_agent_id r \<noteq> aid) (snd (query_population c t d l later ?s))"
    by (simp add: list_all_iff)
qed

text \<open>After any history of calls, a PROBE returns a record exactly when one is held
  for the Agent-ID and its TTL window has not passed; otherwise the store is left with
  no record and no index entry for that Agent-ID, and a query with any filter, limit
  and time does not return it.\<close>
theorem probe_live_or_evicted:
  "let s = run_events store_step cs empty_store; (s', found) = probe aid now s in
   found = (case record_at s aid of
              None \<Rightarrow> None | Some r \<Rightarrow> if is_expired r now then None else Some r) \<and>
   (case found of
      Some r \<Rightarrow> s' = s
    | None \<Rightarrow> record_at s' aid = None \<and> (\<forall>cap. aid \<notin> set (index_of s' cap)) \<and>
        list_all (\<lambda>r. p_agent_id r \<noteq> aid) (snd (query_population c t d l later s')))"
proof -
  define s where "s = run_events store_step cs empty_store"
  have ok: "store_ok s" by (simp add: s_def store_ok_run)
  obtain s' found where p: "probe aid now s = (s', found)" by (cases "probe aid now s")
  have f: "found = (case record_at s aid of
              None \<Rightarrow> None | Some r \<Rightarrow> if is_expired r now then None else Some r)"
    using p by (auto simp: probe_withdraw split: option.splits if_splits)
  have "found = Some r \<Longrightarrow> s' = s" for r
    using p by (auto simp: probe_withdraw split: option.splits if_splits)
  moreover have "case found of
      Some r \<Rightarrow> s' = s
    | None \<Rightarrow> record_at s' aid = None \<and> (\<forall>cap. aid \<notin> set (index_of s' cap)) \<and>
        list_all (\<lambda>r. p_agent_id r \<noteq> aid) (snd (query_population c t d l later s'))"
    using p probe_evicts[OF ok, of aid now] calculation by (cases found) simp_all
  ultimately show ?thesis using p f unfolding s_def[symmetric] by simp
qed

end
