(* ===== verification/Presence_Gossip.thy ===== *)
theory Presence_Gossip
  imports Presence_Store
begin

text \<open>
  presence/gossip.py: one anti-entropy round between two coordinators, with
  the REPLICATE handler of presence/methods.py on the peer's side.  The
  transport is an argument that threads the peer's state; the JSON encoding on
  the wire is the identity.  Peer selection is an argument, as in the source.
\<close>

section \<open>The exchange\<close>

definition build_replicate_request :: "rat \<Rightarrow> presence_store \<Rightarrow> presence_store \<times> jobj" where
  "build_replicate_request now s =
     (let (s1, recs) = all_records now s;
          (s2, dg) = digest now s1
      in (s2, [(''records'', JArr (map (JObj \<circ> to_gossip_dict) recs)),
               (''digest'', JObj (map (\<lambda>(aid, e). (aid, JFloat e)) dg))]))"

text \<open>Reading one raw entry: KeyError, TypeError and ValueError are caught by
  the callers and skip the entry; they are the only errors it raises.\<close>
definition read_record :: "(json \<Rightarrow> string) \<Rightarrow> string \<Rightarrow> json \<Rightarrow> presence_record option" where
  "read_record repr now_iso raw =
     (case raw of
        JObj d \<Rightarrow> (case from_gossip_dict repr now_iso d of Inl e \<Rightarrow> None | Inr r \<Rightarrow> Some r)
      | _ \<Rightarrow> None)"

text \<open>The receiving loop: counts of merged and rejected entries.\<close>
fun merge_loop :: "(json \<Rightarrow> string) \<Rightarrow> string \<Rightarrow> (presence_record \<Rightarrow> bool) option
    \<Rightarrow> json list \<Rightarrow> nat \<Rightarrow> nat \<Rightarrow> presence_store \<Rightarrow> presence_store \<times> (py_error + nat \<times> nat)" where
  "merge_loop repr now_iso verify [] merged rejected s = (s, Inr (merged, rejected))" |
  "merge_loop repr now_iso verify (raw # raws) merged rejected s =
     (case read_record repr now_iso raw of
        None \<Rightarrow> merge_loop repr now_iso verify raws merged rejected s
      | Some r \<Rightarrow>
          if (case verify of None \<Rightarrow> False | Some check \<Rightarrow> \<not> check r)
          then merge_loop repr now_iso verify raws merged (Suc rejected) s
          else (case merge_record r s of
                  (s1, Inl e) \<Rightarrow> (s1, Inl e)
                | (s1, Inr changed) \<Rightarrow>
                    merge_loop repr now_iso verify raws
                      (if changed then Suc merged else merged) rejected s1))"

definition apply_replicate :: "(json \<Rightarrow> string) \<Rightarrow> string \<Rightarrow> rat
    \<Rightarrow> (presence_record \<Rightarrow> bool) option \<Rightarrow> jobj \<Rightarrow> presence_store
    \<Rightarrow> presence_store \<times> (py_error + jobj)" where
  "apply_replicate repr now_iso now verify body s =
     (case iter_items (jor (jget body ''records'') (JArr [])) of
        Inl e \<Rightarrow> (s, Inl e)
      | Inr raws \<Rightarrow>
         (case merge_loop repr now_iso verify raws 0 0 s of
            (s1, Inl e) \<Rightarrow> (s1, Inl e)
          | (s1, Inr (merged, rejected)) \<Rightarrow>
             (let remote_digest =
                (case jor (jget body ''digest'') (JObj []) of JObj d \<Rightarrow> d | _ \<Rightarrow> [])
              in case records_peer_needs remote_digest now s1 of
                   (s2, Inl e) \<Rightarrow> (s2, Inl e)
                 | (s2, Inr delta) \<Rightarrow>
                     (s2, Inr [(''merged'', JInt (int merged)), (''rejected'', JInt (int rejected)),
                               (''records'', JArr (map (JObj \<circ> to_gossip_dict) delta))]))))"

text \<open>What the transport hands back: a network or framing failure, or a status
  with a body that is empty or not JSON (None) or a JSON value.\<close>
datatype send_result = NetFail | Reply int "json option"

definition gossip_once :: "(json \<Rightarrow> string) \<Rightarrow> string \<Rightarrow> rat \<Rightarrow> (jobj \<Rightarrow> 'p \<Rightarrow> 'p \<times> send_result)
    \<Rightarrow> (presence_record \<Rightarrow> bool) option \<Rightarrow> presence_store \<Rightarrow> 'p
    \<Rightarrow> presence_store \<times> 'p \<times> (py_error + nat \<times> nat)" where
  "gossip_once repr now_iso now send verify s0 peer =
     (let (s, request_body) = build_replicate_request now s0;
          pushed = length (s_records s);
          (peer', resp) = send request_body peer
      in case resp of
           NetFail \<Rightarrow> (s, peer', Inr (0, 0))
         | Reply status body \<Rightarrow>
             (if status \<noteq> 200 then (s, peer', Inr (pushed, 0))
              else case body of
                None \<Rightarrow> (s, peer', Inr (pushed, 0))
              | Some (JObj reply) \<Rightarrow>
                  (case iter_items (jor (jget reply ''records'') (JArr [])) of
                     Inl e \<Rightarrow> (s, peer', Inl e)
                   | Inr raws \<Rightarrow>
                       (case merge_loop repr now_iso verify raws 0 0 s of
                          (s1, Inl e) \<Rightarrow> (s1, peer', Inl e)
                        | (s1, Inr (pulled, _)) \<Rightarrow> (s1, peer', Inr (pushed, pulled))))
              | Some _ \<Rightarrow> (s, peer', Inl AttributeError)))"

text \<open>The peer's REPLICATE handler: an error that escapes it becomes a 500
  response of the server.\<close>
definition handle_replicate :: "(json \<Rightarrow> string) \<Rightarrow> string \<Rightarrow> rat
    \<Rightarrow> (presence_record \<Rightarrow> bool) option \<Rightarrow> jobj \<Rightarrow> presence_store
    \<Rightarrow> presence_store \<times> send_result" where
  "handle_replicate repr now_iso now verify body s =
     (case apply_replicate repr now_iso now verify body s of
        (s1, Inl e) \<Rightarrow> (s1, Reply 500 None)
      | (s1, Inr reply) \<Rightarrow> (s1, Reply 200 (Some (JObj reply))))"

text \<open>Splitting the endpoint at its last colon.\<close>
definition rpartition_colon :: "string \<Rightarrow> string \<times> string" where
  "rpartition_colon s =
     (case partition_char (CHR '':'') (rev s) of
        (a, found, b) \<Rightarrow> if found then (rev b, rev a) else ([], s))"

fun gossip_round_loop :: "(string \<Rightarrow> int \<Rightarrow> presence_store \<Rightarrow> 'w \<Rightarrow> presence_store \<times> 'w \<times> (py_error + nat \<times> nat))
    \<Rightarrow> string list \<Rightarrow> nat \<Rightarrow> presence_store \<Rightarrow> 'w \<Rightarrow> presence_store \<times> 'w \<times> (py_error + nat)" where
  "gossip_round_loop once [] contacted s w = (s, w, Inr contacted)" |
  "gossip_round_loop once (endpoint # rest) contacted s w =
     (let (host, port_s) = rpartition_colon endpoint in
      if host = [] \<or> \<not> all_digits port_s then gossip_round_loop once rest contacted s w
      else case once host (int (nat_of_digits 0 port_s)) s w of
             (s1, w1, Inl e) \<Rightarrow> (s1, w1, Inl e)
           | (s1, w1, Inr (pushed, pulled)) \<Rightarrow>
               gossip_round_loop once rest
                 (if pushed \<noteq> 0 \<or> pulled \<noteq> 0 then Suc contacted else contacted) s1 w1)"

definition gossip_round :: "(string \<Rightarrow> int \<Rightarrow> presence_store \<Rightarrow> 'w \<Rightarrow> presence_store \<times> 'w \<times> (py_error + nat \<times> nat))
    \<Rightarrow> (string list \<Rightarrow> nat \<Rightarrow> string list) \<Rightarrow> nat \<Rightarrow> string list \<Rightarrow> presence_store \<Rightarrow> 'w
    \<Rightarrow> presence_store \<times> 'w \<times> (py_error + nat)" where
  "gossip_round once selector fanout peers s w =
     (if peers = [] then (s, w, Inr 0)
      else gossip_round_loop once (selector peers fanout) 0 s w)"

text \<open>The default selector, with the random sampling as an argument.\<close>
definition default_select :: "(string list \<Rightarrow> nat \<Rightarrow> string list) \<Rightarrow> string list \<Rightarrow> nat \<Rightarrow> string list" where
  "default_select sample peers fanout = (if length peers \<le> fanout then peers else sample peers fanout)"

section \<open>Records that survive the wire\<close>

definition relayed :: "presence_record \<Rightarrow> presence_record" where
  "relayed r = r\<lparr>p_attachment := JNull\<rparr>"

definition announce_ok :: "presence_record \<Rightarrow> bool" where
  "announce_ok r =
     (case iter_items (get_or (JArr []) (p_result_entry r) ''capabilities'') of
        Inl e \<Rightarrow> False | Inr caps \<Rightarrow> list_all hashable caps)"

text \<open>A record of the shape build_record makes: a hashable capability list, an
  announce time and a TTL that is not zero.\<close>
definition gossipable :: "presence_record \<Rightarrow> bool" where
  "gossipable r = (announce_ok r \<and> p_announced_at r \<noteq> [] \<and> p_ttl_seconds r \<noteq> 0)"

lemma announce_ok_iff: "announce_ok r \<longleftrightarrow> snd (announce r s) = None"
proof -
  have "snd (case index_caps a caps idx of (i, err) \<Rightarrow> (f i, err)) = snd (index_caps a caps idx)"
    for a caps idx and f :: "(json, string list) dict \<Rightarrow> presence_store"
    by (simp split: prod.splits)
  then show ?thesis
    by (auto simp: announce_ok_def announce_def Let_def index_caps_err split: sum.splits)
qed

lemma read_relayed [simp]:
  "gossipable r \<Longrightarrow> read_record repr now_iso (JObj (to_gossip_dict r)) = Some (relayed r)"
  by (cases r) (simp add: read_record_def from_to_gossip_dict gossipable_def relayed_def)

lemma relayed_simps [simp]:
  "p_agent_id (relayed r) = p_agent_id r"
  "p_announced_at_epoch (relayed r) = p_announced_at_epoch r"
  "is_expired (relayed r) now = is_expired r now"
  "gossipable (relayed r) = gossipable r"
  "relayed (relayed r) = relayed r"
  "announce_ok (relayed r) = announce_ok r"
  by (cases r, simp add: relayed_def is_expired_def expires_at_def gossipable_def announce_ok_def)+

definition absorb :: "presence_record \<Rightarrow> presence_store \<Rightarrow> presence_store" where
  "absorb r s = fst (merge_record r s)"

lemma merge_ok: "announce_ok r \<Longrightarrow> \<exists>b. merge_record r s = (absorb r s, Inr b)"
  using announce_ok_iff[of r s]
  by (auto simp: merge_record_eq absorb_def split: option.splits)

text \<open>The store is a last-writer-wins replica: the laws of the interface hold
  for every record, well-formed or not.\<close>
interpretation plww: lww_replica record_at absorb p_agent_id p_announced_at_epoch store_ok
proof
  show "store_ok s \<Longrightarrow> store_ok (absorb r s)" for s r
    by (simp add: absorb_def store_ok_merge)
  show "store_ok s \<Longrightarrow> record_at (absorb r s) =
      (record_at s)(p_agent_id r := newer p_announced_at_epoch (record_at s (p_agent_id r)) (Some r))"
    for s r
    by (auto simp: absorb_def merge_record_eq pstore.find_put fun_eq_iff split: option.splits)
qed

lemma merge_loop_absorb:
  assumes "list_all gossipable rs" "verify = None \<or> (\<exists>check. verify = Some check \<and> list_all (\<lambda>r. check (relayed r)) rs)"
  shows "\<exists>m. merge_loop repr now_iso verify (map (JObj \<circ> to_gossip_dict) rs) merged rejected s =
           (fold absorb (map relayed rs) s, Inr (m, rejected))"
  using assms
proof (induction rs arbitrary: merged s)
  case Nil
  then show ?case by simp
next
  case (Cons r rs)
  have "announce_ok (relayed r)" using Cons.prems(1) by (simp add: gossipable_def)
  then obtain b where "merge_record (relayed r) s = (absorb (relayed r) s, Inr b)"
    using merge_ok by blast
  then show ?case using Cons by (auto simp: option.case_eq_if)
qed

section \<open>One round between two stores\<close>

definition gossip_pair :: "(json \<Rightarrow> string) \<Rightarrow> string \<Rightarrow> rat \<Rightarrow> (presence_record \<Rightarrow> bool) option
    \<Rightarrow> presence_store \<Rightarrow> presence_store
    \<Rightarrow> presence_store \<times> presence_store \<times> (py_error + nat \<times> nat)" where
  "gossip_pair repr now_iso now verify a b =
     gossip_once repr now_iso now (handle_replicate repr now_iso now verify) verify a b"

definition all_live :: "rat \<Rightarrow> presence_store \<Rightarrow> bool" where
  "all_live now s = list_all (\<lambda>r. \<not> is_expired r now) (dict_values (s_records s))"

definition all_gossipable :: "presence_store \<Rightarrow> bool" where
  "all_gossipable s = list_all gossipable (dict_values (s_records s))"

lemma view_list_all:
  assumes ok: "store_ok s"
  shows "list_all P (dict_values (s_records s)) \<longleftrightarrow>
     (\<forall>k r. record_at s k = Some r \<longrightarrow> P r)"
proof
  assume l: "list_all P (dict_values (s_records s))"
  show "\<forall>k r. record_at s k = Some r \<longrightarrow> P r"
  proof (intro allI impI)
    fix k r assume "record_at s k = Some r"
    then have "(k, r) \<in> set (s_records s)" by (simp add: record_at_def map_of_SomeD)
    then show "P r" using l by (force simp: list_all_iff)
  qed
next
  assume a: "\<forall>k r. record_at s k = Some r \<longrightarrow> P r"
  then show "list_all P (dict_values (s_records s))"
    unfolding list_all_iff using store_ok_values_set[OF ok] by blast
qed

lemma sweep_live: "all_live now s \<Longrightarrow> fst (sweep_locked now s) = s"
proof -
  assume "all_live now s"
  then have "filter (\<lambda>(aid, r). is_expired r now) (s_records s) = []"
    by (auto simp: all_live_def list_all_iff filter_empty_conv)
  then show ?thesis by (simp add: sweep_locked_def)
qed

lemma all_live_sweep: "store_ok s \<Longrightarrow> all_live now (fst (sweep_locked now s))"
  by (auto simp: all_live_def sweep_records list_all_iff)

lemma build_request_eq:
  fixes now :: rat
  assumes "store_ok a"
  defines "a1 \<equiv> fst (sweep_locked now a)"
  shows "build_replicate_request now a =
     (a1, [(''records'', JArr (map (JObj \<circ> to_gossip_dict) (dict_values (s_records a1)))),
           (''digest'', JObj (map (\<lambda>(aid, r). (aid, JFloat (p_announced_at_epoch r))) (s_records a1)))])"
  using sweep_live[OF all_live_sweep[OF assms(1), of now]]
  by (simp add: build_replicate_request_def all_records_def digest_def Let_def a1_def o_def
      case_prod_unfold)

lemma relayed_map_of:
  "\<forall>(k, r) \<in> set l. p_agent_id r = k \<Longrightarrow>
   map_of (map (\<lambda>v. (p_agent_id v, v)) (map relayed (map snd l))) k = map_option relayed (map_of l k)"
  by (induction l) auto

lemma relayed_ids: "\<forall>(k, r) \<in> set l. p_agent_id r = k \<Longrightarrow>
   map p_agent_id (map relayed (map snd l)) = map fst l"
  by (induction l) auto

lemma absorb_relayed_view:
  assumes "store_ok s" "dict_ok l" "\<forall>(k, r) \<in> set l. p_agent_id r = k"
  shows "record_at (fold absorb (map relayed (map snd l)) s) k =
         newer p_announced_at_epoch (record_at s k) (map_option relayed (map_of l k))"
  using plww.absorb_all_view[OF assms(1), of "map relayed (map snd l)" k] assms(2)
  by (simp only: relayed_map_of[OF assms(3)] relayed_ids[OF assms(3)])

lemma peer_needs_digest:
  assumes "\<And>k. jget d k = (case record_at a k of None \<Rightarrow> JNull | Some q \<Rightarrow> JFloat (p_announced_at_epoch q))"
  shows "peer_needs d l = Inr (map snd (filter (\<lambda>(k, r). case record_at a k of
            None \<Rightarrow> True | Some q \<Rightarrow> p_announced_at_epoch r > p_announced_at_epoch q) l))"
proof (induction l)
  case Nil
  then show ?case by simp
next
  case (Cons kr l)
  then show ?case by (cases kr; cases "record_at a (fst kr)") (simp_all add: assms Let_def)
qed

lemma jget_digest:
  "jget (map (\<lambda>(aid, r). (aid, JFloat (p_announced_at_epoch r))) l) k =
     (case map_of l k of None \<Rightarrow> JNull | Some q \<Rightarrow> JFloat (p_announced_at_epoch q))"
  by (induction l) (auto simp: jget_def)

text \<open>The two stores after the round, computed by last-writer-wins absorption.\<close>
definition round_needs :: "presence_store \<Rightarrow> presence_store \<Rightarrow> (string, presence_record) dict" where
  "round_needs a b = filter (\<lambda>(k, r). case record_at a k of
     None \<Rightarrow> True | Some q \<Rightarrow> p_announced_at_epoch r > p_announced_at_epoch q) (s_records b)"

definition pushed_to :: "presence_store \<Rightarrow> presence_store \<Rightarrow> presence_store" where
  "pushed_to a b = fold absorb (map relayed (dict_values (s_records a))) b"

definition pulled_from :: "presence_store \<Rightarrow> presence_store \<Rightarrow> presence_store" where
  "pulled_from a b = fold absorb (map relayed (dict_values (round_needs a b))) a"

lemma store_ok_own: "store_ok s \<Longrightarrow> dict_ok (s_records s) \<and> (\<forall>(k, r) \<in> set (s_records s). p_agent_id r = k)"
  by (simp add: store_ok_def)

lemma pushed_view:
  "store_ok a \<Longrightarrow> store_ok b \<Longrightarrow>
   record_at (pushed_to a b) k =
     newer p_announced_at_epoch (record_at b k) (map_option relayed (record_at a k))"
  unfolding pushed_to_def using store_ok_own[of a]
  by (subst absorb_relayed_view) (simp_all add: record_at_def)

lemma pulled_view:
  assumes "store_ok a" "store_ok b"
  shows "record_at (pulled_from a b) k =
     newer p_announced_at_epoch (record_at a k) (map_option relayed (record_at b k))"
proof -
  have own: "dict_ok (round_needs a b)" "\<forall>(k, r) \<in> set (round_needs a b). p_agent_id r = k"
    using store_ok_own[OF assms(2)] unfolding round_needs_def
    by (simp add: dict_ok_filter, fastforce)
  have "map_of (round_needs a b) k = (case record_at b k of None \<Rightarrow> None
      | Some r \<Rightarrow> if (case record_at a k of None \<Rightarrow> True
          | Some q \<Rightarrow> p_announced_at_epoch r > p_announced_at_epoch q) then Some r else None)"
    using store_ok_own[OF assms(2)] unfolding record_at_def[of b]
    by (cases "dict_get (s_records b) k") (simp_all add: round_needs_def dict_get_filter)
  then show ?thesis
    unfolding pulled_from_def absorb_relayed_view[OF assms(1) own]
    by (auto split: option.splits)
qed

lemma pushed_ok: "store_ok b \<Longrightarrow> store_ok (pushed_to a b)"
  by (simp add: pushed_to_def plww.absorb_all_inv)

lemma pulled_ok: "store_ok a \<Longrightarrow> store_ok (pulled_from a b)"
  by (simp add: pulled_from_def plww.absorb_all_inv)

lemma pushed_all:
  assumes "store_ok a" "store_ok b" and P: "\<And>r. P (relayed r) = P r"
    and "list_all P (dict_values (s_records a))" "list_all P (dict_values (s_records b))"
  shows "list_all P (dict_values (s_records (pushed_to a b)))"
proof -
  have pa: "\<And>k r. record_at a k = Some r \<Longrightarrow> P r" and pb: "\<And>k r. record_at b k = Some r \<Longrightarrow> P r"
    using assms(4,5) by (simp_all add: view_list_all assms(1,2))
  have "P r" if "record_at (pushed_to a b) k = Some r" for k r
    using that unfolding pushed_view[OF assms(1,2)]
    by (cases "record_at a k"; cases "record_at b k") (auto simp: P dest: pa pb split: if_splits)
  then show ?thesis by (simp add: view_list_all pushed_ok assms(2))
qed

lemma gossip_pair_eq:
  assumes ok: "store_ok a" "store_ok b"
    and live: "all_live now b" and g: "all_gossipable a" "all_gossipable b"
  defines "a1 \<equiv> fst (sweep_locked now a)"
  shows "\<exists>n. gossip_pair repr now_iso now None a b =
     (pulled_from a1 (pushed_to a1 b), pushed_to a1 b, Inr (length (s_records a1), n))"
proof -
  define b1 where "b1 = pushed_to a1 b"
  have oka: "store_ok a1" using ok by (simp add: a1_def store_ok_sweep)
  have okb: "store_ok b1" using ok by (simp add: b1_def pushed_ok)
  have ga: "all_gossipable a1"
    using g(1) ok(1) by (auto simp: a1_def all_gossipable_def sweep_records list_all_iff)
  have gb: "all_gossipable b1"
    using pushed_all[OF oka ok(2), of gossipable] ga g(2) by (simp add: all_gossipable_def b1_def)
  have lb: "all_live now b1"
    using pushed_all[OF oka ok(2), of "\<lambda>r. \<not> is_expired r now"] live all_live_sweep[OF ok(1), of now]
    by (simp add: all_live_def b1_def a1_def)
  define d where "d = map (\<lambda>(aid, r). (aid, JFloat (p_announced_at_epoch r))) (s_records a1)"
  define raws where "raws = map (JObj \<circ> to_gossip_dict) (dict_values (s_records a1))"
  have req: "build_replicate_request now a = (a1, [(''records'', JArr raws), (''digest'', JObj d)])"
    using build_request_eq[OF ok(1), of now] by (simp add: a1_def d_def raws_def)
  have r1: "iter_items (jor (JArr xs) (JArr [])) = Inr xs" for xs
    by (simp add: jor_def)
  have r2: "(case jor (JObj d) (JObj []) of JObj d \<Rightarrow> d | _ \<Rightarrow> []) = d"
    by (simp add: jor_def)
  obtain m where m: "merge_loop repr now_iso None raws 0 0 b = (b1, Inr (m, 0))"
    using merge_loop_absorb[of "dict_values (s_records a1)" None repr now_iso 0 0 b] ga
    by (auto simp: all_gossipable_def raws_def b1_def pushed_to_def)
  have dj: "jget d k = (case record_at a1 k of None \<Rightarrow> JNull | Some q \<Rightarrow> JFloat (p_announced_at_epoch q))" for k
    unfolding d_def jget_digest record_at_def ..
  have pn: "records_peer_needs d now b1 = (b1, Inr (dict_values (round_needs a1 b1)))"
    using peer_needs_digest[OF dj, of "s_records b1"] sweep_live[OF lb]
    by (simp add: records_peer_needs_def round_needs_def)
  define delta where "delta = map (JObj \<circ> to_gossip_dict) (dict_values (round_needs a1 b1))"
  have gd: "list_all gossipable (dict_values (round_needs a1 b1))"
    using gb by (auto simp: all_gossipable_def round_needs_def list_all_iff)
  obtain n where n: "merge_loop repr now_iso None delta 0 0 a1 = (pulled_from a1 b1, Inr (n, 0))"
    using merge_loop_absorb[OF gd, of None repr now_iso 0 0 a1]
    by (auto simp: delta_def pulled_from_def)
  have h: "handle_replicate repr now_iso now None [(''records'', JArr raws), (''digest'', JObj d)] b
     = (b1, Reply 200 (Some (JObj [(''merged'', JInt (int m)), (''rejected'', JInt 0),
          (''records'', JArr delta)])))"
    using m pn r2 by (simp add: handle_replicate_def apply_replicate_def jget_def r1 delta_def)
  have "gossip_pair repr now_iso now None a b =
      (pulled_from a1 b1, b1, Inr (length (s_records a1), n))"
    using n by (simp add: gossip_pair_def gossip_once_def req h jget_def r1)
  then show ?thesis by (auto simp: b1_def)
qed

lemma newer_relayed:
  fixes x y :: "presence_record option"
  defines "st \<equiv> p_announced_at_epoch"
  assumes "\<And>ra rb. x = Some ra \<Longrightarrow> y = Some rb \<Longrightarrow> st ra = st rb \<Longrightarrow> relayed ra = relayed rb"
  shows "map_option relayed (newer st x (map_option relayed (newer st y (map_option relayed x)))) =
           map_option relayed (newer st y (map_option relayed x)) \<and>
         map_option relayed (newer st y (map_option relayed x)) =
           newer st (map_option relayed x) (map_option relayed y)"
proof (cases x; cases y)
  fix ra rb assume xy: "x = Some ra" "y = Some rb"
  consider "st ra < st rb" | "st rb < st ra" | "st ra = st rb" by fastforce
  then show ?thesis using assms(2)[OF xy] xy by cases (simp_all add: st_def)
qed (simp_all add: st_def)

text \<open>No two different records of one agent with the same announce epoch.\<close>
definition tie_free :: "presence_store \<Rightarrow> presence_store \<Rightarrow> bool" where
  "tie_free a b = (\<forall>k ra rb. record_at a k = Some ra \<longrightarrow> record_at b k = Some rb \<longrightarrow>
     p_announced_at_epoch ra = p_announced_at_epoch rb \<longrightarrow> relayed ra = relayed rb)"

text \<open>C12: one gossip round makes two coordinators agree.  If no record of the peer is
  past its TTL at the time of the round, every record has a hashable capability list,
  an announce time and a nonzero TTL, and two live records of one agent with the same
  announce epoch do not differ, then after the round the initiator and the peer serve,
  for every Agent-ID, the same record up to the node-local attachment: the one with
  the later announce epoch of the two they held.\<close>
theorem gossip_round_converges:
  assumes "store_ok a" "store_ok b" "all_live now b" "all_gossipable a" "all_gossipable b"
    and "tie_free (fst (sweep_locked now a)) b"
  shows "case gossip_pair repr now_iso now None a b of (a', b', outcome) \<Rightarrow>
     is_ok outcome \<and> store_ok a' \<and> store_ok b' \<and>
     (\<forall>k. map_option relayed (record_at a' k) = map_option relayed (record_at b' k) \<and>
          map_option relayed (record_at b' k) =
            newer p_announced_at_epoch
              (map_option relayed (record_at (fst (sweep_locked now a)) k))
              (map_option relayed (record_at b k)))"
proof -
  define a1 where "a1 = fst (sweep_locked now a)"
  have oka: "store_ok a1" using assms(1) by (simp add: a1_def store_ok_sweep)
  have okp: "store_ok (pushed_to a1 b)" using assms(2) by (rule pushed_ok)
  have "map_option relayed (record_at (pulled_from a1 (pushed_to a1 b)) k) =
          map_option relayed (record_at (pushed_to a1 b) k) \<and>
        map_option relayed (record_at (pushed_to a1 b) k) =
          newer p_announced_at_epoch (map_option relayed (record_at a1 k)) (map_option relayed (record_at b k))"
    for k
    unfolding pulled_view[OF oka okp] pushed_view[OF oka assms(2)]
    by (rule newer_relayed) (use assms(6) in \<open>auto simp: a1_def[symmetric] tie_free_def\<close>)
  moreover obtain n where "gossip_pair repr now_iso now None a b =
     (pulled_from a1 (pushed_to a1 b), pushed_to a1 b, Inr (length (s_records a1), n))"
    using gossip_pair_eq[OF assms(1-5), of repr now_iso] unfolding a1_def by blast
  ultimately show ?thesis
    using pulled_ok[OF oka] okp unfolding a1_def[symmetric] by simp
qed

text \<open>Two sample coordinators: each holds one agent of its own, and both hold
  agent c, whose later announcement is at the second.\<close>
definition sample_record :: "string \<Rightarrow> rat \<Rightarrow> presence_record" where
  "sample_record aid epoch =
     \<lparr>p_agent_id = aid, p_result_entry = [(''capabilities'', JArr [JStr ''book''])],
      p_scopes = [], p_visibility = default_visibility, p_announced_at = ''t'',
      p_announced_at_epoch = epoch, p_ttl_seconds = 60, p_owner_domain = JNull,
      p_attachment = JNull, p_signature = JNull\<rparr>"

definition sample_a :: presence_store where
  "sample_a = fst (announce (sample_record ''c'' 1) (fst (announce (sample_record ''a'' 5) empty_store)))"

definition sample_b :: presence_store where
  "sample_b = fst (announce (sample_record ''c'' 2) (fst (announce (sample_record ''b'' 5) empty_store)))"

lemma sample_facts:
  "store_ok sample_a" "store_ok sample_b" "all_live 10 sample_a" "all_live 10 sample_b"
  "all_gossipable sample_a" "all_gossipable sample_b"
  "s_records sample_a = [(''a'', sample_record ''a'' 5), (''c'', sample_record ''c'' 1)]"
  "s_records sample_b = [(''b'', sample_record ''b'' 5), (''c'', sample_record ''c'' 2)]"
  by (simp_all add: sample_a_def sample_b_def store_ok_announce all_live_def all_gossipable_def
      empty_store_def sample_record_def is_expired_iff gossipable_def announce_ok_def get_or_def
      store_ok_empty[unfolded empty_store_def])

lemma gossip_round_converges_witness:
  "case gossip_pair (\<lambda>_. '''') ''now'' 10 None sample_a sample_b of (a', b', outcome) \<Rightarrow>
     is_ok outcome \<and>
     map_option relayed (record_at a' ''c'') = Some (relayed (sample_record ''c'' 2)) \<and>
     map_option relayed (record_at b' ''a'') = Some (relayed (sample_record ''a'' 5))"
proof -
  have ties: "tie_free (fst (sweep_locked 10 sample_a)) sample_b"
    by (auto simp: tie_free_def sweep_live sample_facts record_at_def sample_record_def split: if_splits)
  obtain a' b' outcome where p: "gossip_pair (\<lambda>_. '''') ''now'' 10 None sample_a sample_b = (a', b', outcome)"
    by (cases "gossip_pair (\<lambda>_. '''') ''now'' 10 None sample_a sample_b")
  note agree = gossip_round_converges[OF sample_facts(1,2,4,5,6) ties,
      where repr = "\<lambda>_. ''''" and now_iso = "''now''", unfolded p prod.case]
  have at: "record_at (fst (sweep_locked 10 sample_a)) = map_of [(''a'', sample_record ''a'' 5), (''c'', sample_record ''c'' 1)]"
    "record_at sample_b = map_of [(''b'', sample_record ''b'' 5), (''c'', sample_record ''c'' 2)]"
    by (simp_all add: fun_eq_iff record_at_def sweep_live sample_facts)
  have both: "map_option relayed (record_at a' k) = map_option relayed (record_at b' k)"
    "map_option relayed (record_at b' k) = newer p_announced_at_epoch
       (map_option relayed (map_of [(''a'', sample_record ''a'' 5), (''c'', sample_record ''c'' 1)] k))
       (map_option relayed (map_of [(''b'', sample_record ''b'' 5), (''c'', sample_record ''c'' 2)] k))" for k
    using agree unfolding at by blast+
  show ?thesis
    unfolding p prod.case using agree both(1)[of "''c''"] both(2)[of "''c''"] both(2)[of "''a''"]
    by (simp add: sample_record_def)
qed

text \<open>A tie is never reconciled.  When the two coordinators hold records of one
  agent with the same announce epoch, a round leaves each with its own record, however
  the records differ; so agreement after a round is not a property of every pair of
  stores.\<close>
theorem gossip_tie_keeps_both:
  assumes "store_ok a" "store_ok b" "all_live now b" "all_gossipable a" "all_gossipable b"
    and "record_at (fst (sweep_locked now a)) k = Some ra" "record_at b k = Some rb"
    and "p_announced_at_epoch ra = p_announced_at_epoch rb"
  shows "case gossip_pair repr now_iso now None a b of (a', b', outcome) \<Rightarrow>
     record_at a' k = Some ra \<and> record_at b' k = Some rb"
proof -
  define a1 where "a1 = fst (sweep_locked now a)"
  have oka: "store_ok a1" using assms(1) by (simp add: a1_def store_ok_sweep)
  have okp: "store_ok (pushed_to a1 b)" using assms(2) by (rule pushed_ok)
  obtain n where "gossip_pair repr now_iso now None a b =
     (pulled_from a1 (pushed_to a1 b), pushed_to a1 b, Inr (length (s_records a1), n))"
    using gossip_pair_eq[OF assms(1-5), of repr now_iso] unfolding a1_def by blast
  then show ?thesis
    using assms(6-8) by (simp add: pulled_view[OF oka okp] pushed_view[OF oka assms(2)] a1_def[symmetric])
qed

lemma gossip_tie_keeps_both_witness:
  "case gossip_pair (\<lambda>_. '''') ''now'' 10 None
          (fst (announce (sample_record ''c'' 2) empty_store))
          (fst (announce ((sample_record ''c'' 2)\<lparr>p_scopes := [JStr ''x'']\<rparr>) empty_store)) of
     (a', b', outcome) \<Rightarrow>
       record_at a' ''c'' = Some (sample_record ''c'' 2) \<and>
       record_at b' ''c'' = Some ((sample_record ''c'' 2)\<lparr>p_scopes := [JStr ''x'']\<rparr>)"
proof -
  let ?a = "fst (announce (sample_record ''c'' 2) empty_store)"
  let ?b = "fst (announce ((sample_record ''c'' 2)\<lparr>p_scopes := [JStr ''x'']\<rparr>) empty_store)"
  have rec: "s_records ?a = [(''c'', sample_record ''c'' 2)]"
    "s_records ?b = [(''c'', (sample_record ''c'' 2)\<lparr>p_scopes := [JStr ''x'']\<rparr>)]"
    by (simp_all add: empty_store_def sample_record_def)
  have live: "all_live 10 ?a" "all_live 10 ?b" "all_gossipable ?a" "all_gossipable ?b"
    unfolding all_live_def all_gossipable_def rec
    by (simp_all add: sample_record_def is_expired_iff gossipable_def announce_ok_def get_or_def)
  have ok: "store_ok ?a" "store_ok ?b" by (simp_all add: store_ok_announce)
  have at: "record_at (fst (sweep_locked 10 ?a)) ''c'' = Some (sample_record ''c'' 2)"
    "record_at ?b ''c'' = Some ((sample_record ''c'' 2)\<lparr>p_scopes := [JStr ''x'']\<rparr>)"
    by (simp_all add: sweep_live[OF live(1)] record_at_def rec del: announce_records)
  show ?thesis
    by (rule gossip_tie_keeps_both[OF ok live(2,3,4) at]) simp
qed

end
