(* ===== verification/Presence_Visibility.thy ===== *)
theory Presence_Visibility
  imports Presence_Records
begin

text \<open>
  presence/visibility.py: the audience-expression tokenizer and its recursive
  descent evaluator, the presence gate, the disclosure projection and the
  bounding of a requested posture by a certificate envelope.  The evaluator is
  compared with the grammar of its documentation, stated as an inductive
  definition.  The mutual recursion of the parser runs on fuel; the amount
  taken by the entry point is shown to be enough for every token list.
\<close>

section \<open>Requesters and orders\<close>

definition PRESENCE_ORDER :: "string list" where
  "PRESENCE_ORDER = [''public'', ''tier-scoped'', ''owner-domain'', ''explicit-only'', ''invisible'']"

definition DISCLOSURE_ORDER :: "string list" where
  "DISCLOSURE_ORDER = [''full'', ''capabilities'', ''identity-only'', ''existence-only'']"

text \<open>The index of the first occurrence, or the length when there is none.\<close>
fun rank_in :: "string list \<Rightarrow> string \<Rightarrow> nat" where
  "rank_in [] m = 0" |
  "rank_in (x # xs) m = (if x = m then 0 else Suc (rank_in xs m))"

definition presence_rank :: "string \<Rightarrow> nat" where
  "presence_rank mode = rank_in PRESENCE_ORDER mode"

definition disclosure_rank :: "string \<Rightarrow> nat" where
  "disclosure_rank mode = rank_in DISCLOSURE_ORDER mode"

record requester =
  q_agent_id :: string
  q_tier :: "int option"
  q_owner_domain :: "string option"
  q_capabilities :: "string list"
  q_industry :: "string option"
  q_region :: "string option"
  q_governance_group :: "string option"

definition ANONYMOUS :: requester where
  "ANONYMOUS = \<lparr>q_agent_id = '''', q_tier = None, q_owner_domain = None, q_capabilities = [],
     q_industry = None, q_region = None, q_governance_group = None\<rparr>"

section \<open>Tokens and the evaluator\<close>

definition is_paren :: "char \<Rightarrow> bool" where
  "is_paren c = (c = CHR ''('' \<or> c = CHR '')'')"

definition word_char :: "char \<Rightarrow> bool" where
  "word_char c = (\<not> is_ws c \<and> \<not> is_paren c)"

function tokenize :: "string \<Rightarrow> string list" where
  "tokenize [] = []" |
  "tokenize (c # cs) =
     (if is_ws c then tokenize cs
      else if is_paren c then [c] # tokenize cs
      else (c # takeWhile word_char cs) # tokenize (dropWhile word_char cs))"
  by pat_completeness auto
termination
  by (relation "measure length") (auto simp: less_Suc_eq_le length_dropWhile_le)

text \<open>None stands for the raised audience error.\<close>
definition eval_predicate :: "string \<Rightarrow> requester \<Rightarrow> bool option" where
  "eval_predicate token q =
     (case partition_char (CHR '':'') token of
        (k, colon, v) \<Rightarrow>
          if \<not> colon then None
          else (let key = lower (strip k); val = strip v in
            if key = ''tier'' then
              (case parse_int val of
                 None \<Rightarrow> None
               | Some threshold \<Rightarrow>
                   Some (case q_tier q of None \<Rightarrow> False | Some t \<Rightarrow> t \<le> threshold))
            else if key = ''owner-domain'' then
              Some (case q_owner_domain q of None \<Rightarrow> False | Some d \<Rightarrow> d \<noteq> [] \<and> d = val)
            else if key = ''capability'' then Some (lower val \<in> set (q_capabilities q))
            else if key = ''agent-id'' then Some (q_agent_id q \<noteq> [] \<and> q_agent_id q = val)
            else if key = ''industry'' then
              Some (case q_industry q of None \<Rightarrow> False | Some d \<Rightarrow> d \<noteq> [] \<and> d = val)
            else if key = ''region'' then
              Some (case q_region q of None \<Rightarrow> False | Some d \<Rightarrow> d \<noteq> [] \<and> d = val)
            else if key = ''governance-group'' then
              Some (case q_governance_group q of None \<Rightarrow> False | Some d \<Rightarrow> d \<noteq> [] \<and> d = val)
            else None))"

text \<open>An outcome of a parsing method: fuel gone, the audience error, or a value
  with the tokens not yet consumed.\<close>
datatype parse_out = NoFuel | Bad | Val bool "string list"

definition reserved :: "string \<Rightarrow> bool" where
  "reserved tok = (upper tok \<in> {''AND'', ''OR'', ''NOT''})"

text \<open>The methods of the parser class; a loop of a method carries the value
  accumulated so far.\<close>
datatype parse_method = M_or | M_or_loop bool | M_and | M_and_loop bool | M_not | M_atom

fun run_parser :: "requester \<Rightarrow> nat \<Rightarrow> parse_method \<Rightarrow> string list \<Rightarrow> parse_out" where
  "run_parser q 0 m ts = NoFuel" |
  "run_parser q (Suc n) M_or ts =
     (case run_parser q n M_and ts of
        Val v rest \<Rightarrow> run_parser q n (M_or_loop v) rest
      | out \<Rightarrow> out)" |
  "run_parser q (Suc n) (M_or_loop v) ts =
     (if ts \<noteq> [] \<and> upper (hd ts) = ''OR''
      then (case run_parser q n M_and (tl ts) of
              Val rhs rest \<Rightarrow> run_parser q n (M_or_loop (v \<or> rhs)) rest
            | out \<Rightarrow> out)
      else Val v ts)" |
  "run_parser q (Suc n) M_and ts =
     (case run_parser q n M_not ts of
        Val v rest \<Rightarrow> run_parser q n (M_and_loop v) rest
      | out \<Rightarrow> out)" |
  "run_parser q (Suc n) (M_and_loop v) ts =
     (if ts \<noteq> [] \<and> upper (hd ts) = ''AND''
      then (case run_parser q n M_not (tl ts) of
              Val rhs rest \<Rightarrow> run_parser q n (M_and_loop (v \<and> rhs)) rest
            | out \<Rightarrow> out)
      else Val v ts)" |
  "run_parser q (Suc n) M_not ts =
     (if ts \<noteq> [] \<and> upper (hd ts) = ''NOT''
      then (case run_parser q n M_not (tl ts) of Val v rest \<Rightarrow> Val (\<not> v) rest | out \<Rightarrow> out)
      else run_parser q n M_atom ts)" |
  "run_parser q (Suc n) M_atom ts =
     (case ts of
        [] \<Rightarrow> Bad
      | tok # ts' \<Rightarrow>
          if tok = ''('' then
            (case run_parser q n M_or ts' of
               Val v rest \<Rightarrow> if rest \<noteq> [] \<and> hd rest = '')'' then Val v (tl rest) else Bad
             | out \<Rightarrow> out)
          else if tok = '')'' then Bad
          else if reserved tok then Bad
          else (case eval_predicate tok q of None \<Rightarrow> Bad | Some v \<Rightarrow> Val v ts'))"

definition parse_fuel :: "string list \<Rightarrow> nat" where
  "parse_fuel ts = 4 * length ts + 4"

text \<open>The method parse, with None for the audience error.\<close>
definition parse_audience :: "requester \<Rightarrow> string list \<Rightarrow> bool option" where
  "parse_audience q ts =
     (case run_parser q (parse_fuel ts) M_or ts of
        Val v [] \<Rightarrow> Some v
      | _ \<Rightarrow> None)"

definition audience_allows :: "string \<Rightarrow> requester \<Rightarrow> bool" where
  "audience_allows audience_scope q =
     (let expr = strip audience_scope in
      if expr = [] then True
      else let tokens = tokenize expr in
        if tokens = [] then True
        else (case parse_audience q tokens of None \<Rightarrow> False | Some v \<Rightarrow> v))"

definition explicit_allow :: "string \<Rightarrow> string list" where
  "explicit_allow audience_scope =
     map (\<lambda>tok. strip (snd (snd (partition_char (CHR '':'') tok))))
       (filter (\<lambda>tok. starts_with ''agent-id:'' (lower tok)) (tokenize audience_scope))"

section \<open>Visibility decisions\<close>

definition subject_tier :: "presence_record \<Rightarrow> int option" where
  "subject_tier r =
     (case jget (p_result_entry r) ''trust_tier'' of
        JInt i \<Rightarrow> Some i
      | JBool b \<Rightarrow> Some (if b then 1 else 0)
      | _ \<Rightarrow> None)"

definition subject_owner_domain :: "presence_record \<Rightarrow> json" where
  "subject_owner_domain r =
     (if truthy (p_owner_domain r) then p_owner_domain r
      else jget (p_result_entry r) ''owner_id'')"

definition presence_gate :: "presence_record \<Rightarrow> requester \<Rightarrow> bool" where
  "presence_gate r q =
     (let vis = p_visibility r; mode = v_presence_mode vis in
      if mode = ''invisible'' then False
      else if mode = ''public'' then True
      else if mode = ''tier-scoped'' then
        (case (q_tier q, subject_tier r) of
           (Some t, Some s) \<Rightarrow> t \<le> s
         | _ \<Rightarrow> False)
      else if mode = ''owner-domain'' then
        (let dom = subject_owner_domain r in
         truthy dom \<and> (case q_owner_domain q of None \<Rightarrow> False | Some d \<Rightarrow> JStr d = dom))
      else if mode = ''explicit-only'' then
        q_agent_id q \<in> set (explicit_allow (v_audience_scope vis))
      else False)"

definition is_visible :: "presence_record \<Rightarrow> requester \<Rightarrow> bool" where
  "is_visible r q =
     (if \<not> presence_gate r q then False
      else audience_allows (v_audience_scope (p_visibility r)) q)"

definition identity_fields :: "string list" where
  "identity_fields = [''agent_id'', ''manifest_uri'', ''name'', ''trust_tier'', ''verification_path'']"

definition shape_entry :: "presence_record \<Rightarrow> jobj" where
  "shape_entry r =
     (let entry = p_result_entry r; mode = v_disclosure_mode (p_visibility r) in
      if mode = ''full'' \<or> mode = ''capabilities'' then entry
      else if mode = ''identity-only'' then filter (\<lambda>(k, v). k \<in> set identity_fields) entry
      else [(''agent_id'', jget entry ''agent_id'')])"

definition bound_visibility :: "visibility option \<Rightarrow> visibility \<Rightarrow> visibility" where
  "bound_visibility envelope requested =
     (case envelope of
        None \<Rightarrow> requested
      | Some env \<Rightarrow>
          (let presence =
                 (if presence_rank (v_presence_mode requested) \<ge> presence_rank (v_presence_mode env)
                  then v_presence_mode requested else v_presence_mode env);
               disclosure =
                 (if disclosure_rank (v_disclosure_mode requested) \<ge> disclosure_rank (v_disclosure_mode env)
                  then v_disclosure_mode requested else v_disclosure_mode env);
               env_aud = strip (v_audience_scope env);
               req_aud = strip (v_audience_scope requested);
               audience =
                 (if env_aud \<noteq> [] \<and> req_aud \<noteq> []
                  then ''('' @ env_aud @ '') AND ('' @ req_aud @ '')''
                  else if env_aud \<noteq> [] then env_aud else req_aud)
           in \<lparr>v_presence_mode = presence, v_disclosure_mode = disclosure,
               v_audience_scope = audience\<rparr>))"

section \<open>Fuel\<close>

fun fuel_need :: "parse_method \<Rightarrow> nat \<Rightarrow> nat" where
  "fuel_need M_or k = 4 * k + 4" |
  "fuel_need M_and k = 4 * k + 3" |
  "fuel_need M_not k = 4 * k + 2" |
  "fuel_need _ k = 4 * k + 1"

fun is_loop :: "parse_method \<Rightarrow> bool" where
  "is_loop (M_or_loop v) = True" |
  "is_loop (M_and_loop v) = True" |
  "is_loop _ = False"

definition fed :: "parse_method \<Rightarrow> string list \<Rightarrow> parse_out \<Rightarrow> bool" where
  "fed m ts out =
     (case out of
        NoFuel \<Rightarrow> False
      | Bad \<Rightarrow> True
      | Val v rest \<Rightarrow> if is_loop m then length rest \<le> length ts else length rest < length ts)"

lemma run_parser_fed: "fuel_need m (length ts) \<le> n \<Longrightarrow> fed m ts (run_parser q n m ts)"
proof (induction q n m ts rule: run_parser.induct)
  case (1 q m ts)
  then show ?case by (cases m) auto
next
  case (2 q n ts)
  have f: "fed M_and ts (run_parser q n M_and ts)" using 2 by simp
  show ?case
  proof (cases "run_parser q n M_and ts")
    case (Val v rest)
    with f have "length rest < length ts" by (simp add: fed_def)
    moreover have "fed (M_or_loop v) rest (run_parser q n (M_or_loop v) rest)"
      using 2 Val calculation by simp
    ultimately show ?thesis using Val by (auto simp: fed_def split: parse_out.splits)
  qed (use f in \<open>auto simp: fed_def\<close>)
next
  case (3 q n v ts)
  show ?case
  proof (cases "ts \<noteq> [] \<and> upper (hd ts) = ''OR''")
    case True
    have f: "fed M_and (tl ts) (run_parser q n M_and (tl ts))"
      using 3 True by (cases ts) auto
    show ?thesis
    proof (cases "run_parser q n M_and (tl ts)")
      case (Val rhs rest)
      with f have l: "length rest < length (tl ts)" by (simp add: fed_def)
      moreover have "fed (M_or_loop (v \<or> rhs)) rest (run_parser q n (M_or_loop (v \<or> rhs)) rest)"
        using 3(2)[OF True Val] 3(3) l by simp
      ultimately show ?thesis using Val True by (auto simp: fed_def split: parse_out.splits)
    qed (use f True in \<open>auto simp: fed_def\<close>)
  qed (auto simp: fed_def)
next
  case (4 q n ts)
  have f: "fed M_not ts (run_parser q n M_not ts)" using 4 by simp
  show ?case
  proof (cases "run_parser q n M_not ts")
    case (Val v rest)
    with f have "length rest < length ts" by (simp add: fed_def)
    moreover have "fed (M_and_loop v) rest (run_parser q n (M_and_loop v) rest)"
      using 4 Val calculation by simp
    ultimately show ?thesis using Val by (auto simp: fed_def split: parse_out.splits)
  qed (use f in \<open>auto simp: fed_def\<close>)
next
  case (5 q n v ts)
  show ?case
  proof (cases "ts \<noteq> [] \<and> upper (hd ts) = ''AND''")
    case True
    have f: "fed M_not (tl ts) (run_parser q n M_not (tl ts))"
      using 5 True by (cases ts) auto
    show ?thesis
    proof (cases "run_parser q n M_not (tl ts)")
      case (Val rhs rest)
      with f have l: "length rest < length (tl ts)" by (simp add: fed_def)
      moreover have "fed (M_and_loop (v \<and> rhs)) rest (run_parser q n (M_and_loop (v \<and> rhs)) rest)"
        using 5(2)[OF True Val] 5(3) l by simp
      ultimately show ?thesis using Val True by (auto simp: fed_def split: parse_out.splits)
    qed (use f True in \<open>auto simp: fed_def\<close>)
  qed (auto simp: fed_def)
next
  case (6 q n ts)
  show ?case
  proof (cases "ts \<noteq> [] \<and> upper (hd ts) = ''NOT''")
    case True
    have "fed M_not (tl ts) (run_parser q n M_not (tl ts))"
      using 6 True by (cases ts) auto
    then show ?thesis using True by (auto simp: fed_def split: parse_out.splits)
  next
    case False
    then have "fed M_atom ts (run_parser q n M_atom ts)" using 6 by simp
    then show ?thesis using False by (auto simp: fed_def split: parse_out.splits)
  qed
next
  case (7 q n ts)
  show ?case
  proof (cases ts)
    case Nil
    then show ?thesis by (simp add: fed_def)
  next
    case (Cons tok ts')
    have "tok = ''('' \<Longrightarrow> fed M_or ts' (run_parser q n M_or ts')"
      using 7 Cons by simp
    then show ?thesis using Cons
      by (auto simp: fed_def split: parse_out.splits option.splits)
  qed
qed

lemma run_parser_fuel: "run_parser q (parse_fuel ts) M_or ts \<noteq> NoFuel"
  using run_parser_fed[of M_or ts "parse_fuel ts" q] by (auto simp: fed_def parse_fuel_def)

lemma run_parser_step:
  "run_parser q n m ts \<noteq> NoFuel \<Longrightarrow> run_parser q (Suc n) m ts = run_parser q n m ts"
proof (induction q n m ts rule: run_parser.induct)
  case (2 q n ts)
  note unf = run_parser.simps(2)[of q n ts] run_parser.simps(2)[of q "Suc n" ts]
  from 2 show ?case
    unfolding unf by (cases "run_parser q n M_and ts") (simp_all del: run_parser.simps(2-))
next
  case (3 q n v ts)
  note unf = run_parser.simps(3)[of q n v ts] run_parser.simps(3)[of q "Suc n" v ts]
  show ?case
  proof (cases "ts \<noteq> [] \<and> upper (hd ts) = ''OR''")
    case True
    from 3 show ?thesis
      unfolding unf if_P[OF True] using True
      by (cases "run_parser q n M_and (tl ts)") (simp_all del: run_parser.simps(2-))
  next
    case False
    from 3 show ?thesis
      unfolding unf if_not_P[OF False] using False by (simp del: run_parser.simps(2-))
  qed
next
  case (4 q n ts)
  note unf = run_parser.simps(4)[of q n ts] run_parser.simps(4)[of q "Suc n" ts]
  from 4 show ?case
    unfolding unf by (cases "run_parser q n M_not ts") (simp_all del: run_parser.simps(2-))
next
  case (5 q n v ts)
  note unf = run_parser.simps(5)[of q n v ts] run_parser.simps(5)[of q "Suc n" v ts]
  show ?case
  proof (cases "ts \<noteq> [] \<and> upper (hd ts) = ''AND''")
    case True
    from 5 show ?thesis
      unfolding unf if_P[OF True] using True
      by (cases "run_parser q n M_not (tl ts)") (simp_all del: run_parser.simps(2-))
  next
    case False
    from 5 show ?thesis
      unfolding unf if_not_P[OF False] using False by (simp del: run_parser.simps(2-))
  qed
next
  case (6 q n ts)
  note unf = run_parser.simps(6)[of q n ts] run_parser.simps(6)[of q "Suc n" ts]
  show ?case
  proof (cases "ts \<noteq> [] \<and> upper (hd ts) = ''NOT''")
    case True
    from 6 show ?thesis
      unfolding unf if_P[OF True] using True
      by (cases "run_parser q n M_not (tl ts)") (simp_all del: run_parser.simps(2-))
  next
    case False
    from 6 show ?thesis
      unfolding unf if_not_P[OF False] using False by (simp del: run_parser.simps(2-))
  qed
next
  case (7 q n ts)
  show ?case
  proof (cases ts)
    case Nil
    then show ?thesis by simp
  next
    case (Cons tok ts')
    note unf = run_parser.simps(7)[of q n "tok # ts'"] run_parser.simps(7)[of q "Suc n" "tok # ts'"]
    from 7 show ?thesis
      unfolding Cons unf list.case
      by (cases "tok = ''(''"; cases "run_parser q n M_or ts'") (simp_all del: run_parser.simps(2-))
  qed
qed simp

lemma run_parser_mono:
  "run_parser q n m ts \<noteq> NoFuel \<Longrightarrow> n \<le> n' \<Longrightarrow> run_parser q n' m ts = run_parser q n m ts"
proof (induction "n' - n" arbitrary: n')
  case 0
  then show ?case by simp
next
  case (Suc d)
  then obtain k where k: "n' = Suc k" by (cases n') auto
  with Suc have "run_parser q k m ts = run_parser q n m ts" by (simp del: run_parser.simps)
  then show ?case using run_parser_step[of q k m ts] Suc.prems(1) unfolding k
    by (simp del: run_parser.simps)
qed

section \<open>The grammar of audience expressions\<close>

text \<open>The grammar of the parser's documentation with its meaning, star by star:
  or_expr is and_expr (OR and_expr)*, and_expr is not_expr (AND not_expr)*,
  not_expr is NOT not_expr or an atom, an atom is a parenthesised or_expr or a
  predicate.\<close>

definition predicate_token :: "string \<Rightarrow> bool" where
  "predicate_token tok = (tok \<noteq> ''('' \<and> tok \<noteq> '')'' \<and> \<not> reserved tok)"

inductive derives :: "requester \<Rightarrow> parse_method \<Rightarrow> string list \<Rightarrow> bool \<Rightarrow> bool" for q where
  D_or: "derives q M_and ts v \<Longrightarrow> derives q (M_or_loop v) us w \<Longrightarrow> derives q M_or (ts @ us) w"
| D_or_end: "derives q (M_or_loop v) [] v"
| D_or_more: "upper op = ''OR'' \<Longrightarrow> derives q M_and ts rhs \<Longrightarrow> derives q (M_or_loop (v \<or> rhs)) us w \<Longrightarrow>
     derives q (M_or_loop v) (op # ts @ us) w"
| D_and: "derives q M_not ts v \<Longrightarrow> derives q (M_and_loop v) us w \<Longrightarrow> derives q M_and (ts @ us) w"
| D_and_end: "derives q (M_and_loop v) [] v"
| D_and_more: "upper op = ''AND'' \<Longrightarrow> derives q M_not ts rhs \<Longrightarrow> derives q (M_and_loop (v \<and> rhs)) us w \<Longrightarrow>
     derives q (M_and_loop v) (op # ts @ us) w"
| D_not: "upper op = ''NOT'' \<Longrightarrow> derives q M_not ts v \<Longrightarrow> derives q M_not (op # ts) (\<not> v)"
| D_atom: "derives q M_atom ts v \<Longrightarrow> derives q M_not ts v"
| D_paren: "derives q M_or ts v \<Longrightarrow> derives q M_atom (''('' # ts @ ['')'']) v"
| D_pred: "predicate_token tok \<Longrightarrow> eval_predicate tok q = Some v \<Longrightarrow> derives q M_atom [tok] v"

inductive_cases derives_atomE: "derives q M_atom ts v"
inductive_cases derives_or_loopE: "derives q (M_or_loop v) ts w"
inductive_cases derives_and_loopE: "derives q (M_and_loop v) ts w"

lemma run_parser_sound:
  "run_parser q n m ts = Val v rest \<Longrightarrow> \<exists>used. ts = used @ rest \<and> derives q m used v"
proof (induction q n m ts arbitrary: v rest rule: run_parser.induct)
  case (2 q n ts)
  then obtain v1 r1 where r: "run_parser q n M_and ts = Val v1 r1"
    "run_parser q n (M_or_loop v1) r1 = Val v rest"
    by (auto split: parse_out.splits)
  from 2(1)[OF r(1)] 2(2)[OF r] obtain a b where
    "ts = a @ r1" "derives q M_and a v1" "r1 = b @ rest" "derives q (M_or_loop v1) b v" by blast
  then show ?case using D_or[of q a v1 b v] by (intro exI[of _ "a @ b"]) simp
next
  case (3 q n v0 ts)
  show ?case
  proof (cases "ts \<noteq> [] \<and> upper (hd ts) = ''OR''")
    case True
    with 3(3) obtain v1 r1 where r: "run_parser q n M_and (tl ts) = Val v1 r1"
      "run_parser q n (M_or_loop (v0 \<or> v1)) r1 = Val v rest"
      by (auto split: parse_out.splits)
    from 3(1)[OF True r(1)] 3(2)[OF True r] obtain a b where
      d: "tl ts = a @ r1" "derives q M_and a v1" "r1 = b @ rest" "derives q (M_or_loop (v0 \<or> v1)) b v"
      by blast
    then have "ts = (hd ts # a @ b) @ rest" using True by (cases ts) auto
    moreover have "derives q (M_or_loop v0) (hd ts # a @ b) v"
      by (rule D_or_more) (use True d in auto)
    ultimately show ?thesis by blast
  next
    case False
    then show ?thesis using 3(3) D_or_end[of q v] by (auto split: if_splits)
  qed
next
  case (4 q n ts)
  then obtain v1 r1 where r: "run_parser q n M_not ts = Val v1 r1"
    "run_parser q n (M_and_loop v1) r1 = Val v rest"
    by (auto split: parse_out.splits)
  from 4(1)[OF r(1)] 4(2)[OF r] obtain a b where
    "ts = a @ r1" "derives q M_not a v1" "r1 = b @ rest" "derives q (M_and_loop v1) b v" by blast
  then show ?case using D_and[of q a v1 b v] by (intro exI[of _ "a @ b"]) simp
next
  case (5 q n v0 ts)
  show ?case
  proof (cases "ts \<noteq> [] \<and> upper (hd ts) = ''AND''")
    case True
    with 5(3) obtain v1 r1 where r: "run_parser q n M_not (tl ts) = Val v1 r1"
      "run_parser q n (M_and_loop (v0 \<and> v1)) r1 = Val v rest"
      by (auto split: parse_out.splits)
    from 5(1)[OF True r(1)] 5(2)[OF True r] obtain a b where
      d: "tl ts = a @ r1" "derives q M_not a v1" "r1 = b @ rest" "derives q (M_and_loop (v0 \<and> v1)) b v"
      by blast
    then have "ts = (hd ts # a @ b) @ rest" using True by (cases ts) auto
    moreover have "derives q (M_and_loop v0) (hd ts # a @ b) v"
      by (rule D_and_more) (use True d in auto)
    ultimately show ?thesis by blast
  next
    case False
    then show ?thesis using 5(3) D_and_end[of q v] by (auto split: if_splits)
  qed
next
  case (6 q n ts)
  show ?case
  proof (cases "ts \<noteq> [] \<and> upper (hd ts) = ''NOT''")
    case True
    with 6(3) obtain v1 where r: "run_parser q n M_not (tl ts) = Val v1 rest" "v = (\<not> v1)"
      by (auto split: parse_out.splits)
    from 6(1)[OF True r(1)] obtain a where d: "tl ts = a @ rest" "derives q M_not a v1" by blast
    then have "ts = (hd ts # a) @ rest" using True by (cases ts) auto
    then show ?thesis using D_not[of "hd ts" q a v1] True d r by blast
  next
    case False
    then have "run_parser q n M_atom ts = Val v rest" using 6(3) by (auto split: if_splits)
    then show ?thesis using 6(2)[OF False] D_atom by blast
  qed
next
  case (7 q n ts)
  then obtain tok ts' where ts: "ts = tok # ts'" by (cases ts) auto
  show ?case
  proof (cases "tok = ''(''")
    case True
    with 7(2) ts obtain r1 where r: "run_parser q n M_or ts' = Val v r1" "r1 = '')'' # rest"
      by (auto split: parse_out.splits if_splits) (metis list.collapse)
    with 7(1)[OF ts True] obtain a where "ts' = a @ '')'' # rest" "derives q M_or a v" by blast
    then have "ts = (''('' # a @ ['')'']) @ rest" "derives q M_atom (''('' # a @ ['')'']) v"
      using ts True D_paren by auto
    then show ?thesis by blast
  next
    case False
    then have "predicate_token tok" "eval_predicate tok q = Some v" "rest = ts'"
      using 7(2) ts by (auto simp: predicate_token_def split: if_splits option.splits)
    then show ?thesis using ts D_pred[of tok q v] by (intro exI[of _ "[tok]"]) simp
  qed
qed simp

text \<open>The tokens that may follow a phrase without extending it.\<close>
fun follow :: "parse_method \<Rightarrow> string list \<Rightarrow> bool" where
  "follow m [] = True" |
  "follow M_or (t # ts) = (upper t \<noteq> ''OR'' \<and> upper t \<noteq> ''AND'')" |
  "follow (M_or_loop v) (t # ts) = (upper t \<noteq> ''OR'' \<and> upper t \<noteq> ''AND'')" |
  "follow M_and (t # ts) = (upper t \<noteq> ''AND'')" |
  "follow (M_and_loop v) (t # ts) = (upper t \<noteq> ''AND'')" |
  "follow m (t # ts) = True"

lemma or_loop_head: "derives q (M_or_loop v) us w \<Longrightarrow> us = [] \<or> (us \<noteq> [] \<and> upper (hd us) = ''OR'')"
  by (erule derives_or_loopE) auto

lemma and_loop_head: "derives q (M_and_loop v) us w \<Longrightarrow> us = [] \<or> (us \<noteq> [] \<and> upper (hd us) = ''AND'')"
  by (erule derives_and_loopE) auto

lemma atom_head: "derives q M_atom ts v \<Longrightarrow> ts \<noteq> [] \<and> upper (hd ts) \<noteq> ''NOT''"
  by (erule derives_atomE)
     (auto simp: predicate_token_def reserved_def, simp add: upper_def char_upper_def is_lower_def)

lemma run_two:
  assumes "run_parser q n1 m1 ts1 = Val v1 r1" "run_parser q n2 m2 ts2 = Val v2 r2"
  shows "\<exists>n. run_parser q n m1 ts1 = Val v1 r1 \<and> run_parser q n m2 ts2 = Val v2 r2"
  using run_parser_mono[of q n1 m1 ts1 "max n1 n2"] run_parser_mono[of q n2 m2 ts2 "max n1 n2"] assms
  by (intro exI[of _ "max n1 n2"]) (simp del: run_parser.simps)

lemma upper_paren [simp]: "upper '')'' = '')''" "upper ''('' = ''(''"
  by (simp_all add: upper_def char_upper_def is_lower_def)

lemma run_parser_complete:
  "derives q m ts v \<Longrightarrow> follow m rest \<Longrightarrow> \<exists>n. run_parser q n m (ts @ rest) = Val v rest"
proof (induction m ts v arbitrary: rest rule: derives.induct)
  case (D_or ts v us w)
  have "follow M_and (us @ rest)"
    using or_loop_head[OF D_or(2)] D_or(5) by (cases us; cases rest) auto
  with D_or(3) obtain n1 where "run_parser q n1 M_and (ts @ us @ rest) = Val v (us @ rest)" by blast
  moreover from D_or(4)[of rest] D_or(5) obtain n2 where
    "run_parser q n2 (M_or_loop v) (us @ rest) = Val w rest" by (cases rest) auto
  ultimately obtain n where "run_parser q n M_and (ts @ us @ rest) = Val v (us @ rest)"
    "run_parser q n (M_or_loop v) (us @ rest) = Val w rest" using run_two by blast
  then show ?case by (intro exI[of _ "Suc n"]) simp
next
  case (D_or_end v)
  then show ?case by (intro exI[of _ 1]) (cases rest; simp)
next
  case (D_or_more op ts rhs v us w)
  have "follow M_and (us @ rest)"
    using or_loop_head[OF D_or_more(3)] D_or_more(6) by (cases us; cases rest) auto
  with D_or_more(4) obtain n1 where "run_parser q n1 M_and (ts @ us @ rest) = Val rhs (us @ rest)" by blast
  moreover from D_or_more(5)[of rest] D_or_more(6) obtain n2 where
    "run_parser q n2 (M_or_loop (v \<or> rhs)) (us @ rest) = Val w rest" by (cases rest) auto
  ultimately obtain n where "run_parser q n M_and (ts @ us @ rest) = Val rhs (us @ rest)"
    "run_parser q n (M_or_loop (v \<or> rhs)) (us @ rest) = Val w rest" using run_two by blast
  then show ?case using D_or_more(1) by (intro exI[of _ "Suc n"]) simp
next
  case (D_and ts v us w)
  from D_and(3)[of "us @ rest"] obtain n1 where
    "run_parser q n1 M_not (ts @ us @ rest) = Val v (us @ rest)" by (cases "us @ rest") auto
  moreover from D_and(4)[of rest] D_and(5) obtain n2 where
    "run_parser q n2 (M_and_loop v) (us @ rest) = Val w rest" by (cases rest) auto
  ultimately obtain n where "run_parser q n M_not (ts @ us @ rest) = Val v (us @ rest)"
    "run_parser q n (M_and_loop v) (us @ rest) = Val w rest" using run_two by blast
  then show ?case by (intro exI[of _ "Suc n"]) simp
next
  case (D_and_end v)
  then show ?case by (intro exI[of _ 1]) (cases rest; simp)
next
  case (D_and_more op ts rhs v us w)
  from D_and_more(4)[of "us @ rest"] obtain n1 where
    "run_parser q n1 M_not (ts @ us @ rest) = Val rhs (us @ rest)" by (cases "us @ rest") auto
  moreover from D_and_more(5)[of rest] D_and_more(6) obtain n2 where
    "run_parser q n2 (M_and_loop (v \<and> rhs)) (us @ rest) = Val w rest" by (cases rest) auto
  ultimately obtain n where "run_parser q n M_not (ts @ us @ rest) = Val rhs (us @ rest)"
    "run_parser q n (M_and_loop (v \<and> rhs)) (us @ rest) = Val w rest" using run_two by blast
  then show ?case using D_and_more(1) by (intro exI[of _ "Suc n"]) simp
next
  case (D_not op ts v)
  from D_not(3)[of rest] obtain n where "run_parser q n M_not (ts @ rest) = Val v rest"
    by (cases rest) auto
  then show ?case using D_not(1) by (intro exI[of _ "Suc n"]) simp
next
  case (D_atom ts v)
  from D_atom(2)[of rest] obtain n where "run_parser q n M_atom (ts @ rest) = Val v rest"
    by (cases rest) auto
  then show ?case using atom_head[OF D_atom(1)] by (intro exI[of _ "Suc n"]) (cases ts; simp)
next
  case (D_paren ts v)
  from D_paren(2)[of "'')'' # rest"] obtain n where
    "run_parser q n M_or (ts @ '')'' # rest) = Val v ('')'' # rest)" by auto
  then show ?case by (intro exI[of _ "Suc n"]) simp
next
  case (D_pred tok v)
  then show ?case by (intro exI[of _ 1]) (simp add: predicate_token_def)
qed

lemma parse_audience_iff: "parse_audience q ts = Some v \<longleftrightarrow> derives q M_or ts v"
proof
  assume "parse_audience q ts = Some v"
  then have "run_parser q (parse_fuel ts) M_or ts = Val v []"
    by (auto simp: parse_audience_def split: parse_out.splits list.splits)
  then show "derives q M_or ts v" using run_parser_sound by fastforce
next
  assume "derives q M_or ts v"
  then obtain n where n: "run_parser q n M_or ts = Val v []"
    using run_parser_complete[of q M_or ts v "[]"] by auto
  have "run_parser q (max n (parse_fuel ts)) M_or ts = Val v []"
    using run_parser_mono[of q n M_or ts "max n (parse_fuel ts)"] n by (simp del: run_parser.simps)
  moreover have "run_parser q (max n (parse_fuel ts)) M_or ts = run_parser q (parse_fuel ts) M_or ts"
    by (rule run_parser_mono[OF run_parser_fuel]) simp
  ultimately show "parse_audience q ts = Some v" by (simp add: parse_audience_def del: run_parser.simps)
qed

lemma derives_unique: "derives q M_or ts v \<Longrightarrow> derives q M_or ts w \<Longrightarrow> v = w"
  by (metis parse_audience_iff option.inject)

section \<open>Audience decisions\<close>

lemma takeWhile_sep:
  "rest = [] \<or> \<not> P (hd rest) \<Longrightarrow>
   takeWhile P (xs @ rest) = takeWhile P xs \<and> dropWhile P (xs @ rest) = dropWhile P xs @ rest"
  by (induction xs) (cases rest; auto)+

lemma tokenize_append:
  "rest = [] \<or> \<not> word_char (hd rest) \<Longrightarrow> tokenize (s @ rest) = tokenize s @ tokenize rest"
  by (induction s rule: tokenize.induct) (auto simp: takeWhile_sep)

lemma tokenize_spaces: "list_all is_ws s \<Longrightarrow> tokenize s = []"
  by (induction s) auto

lemma tokenize_lstrip: "tokenize (lstrip s) = tokenize s"
  unfolding lstrip_def by (induction s) auto

lemma tokenize_rstrip: "tokenize (rstrip s) = tokenize s"
proof -
  define ws where "ws = rev (takeWhile is_ws (rev s))"
  have s: "s = rstrip s @ ws"
    unfolding rstrip_def ws_def rev_append[symmetric] takeWhile_dropWhile_id by simp
  have w: "list_all is_ws ws" by (auto simp: ws_def list_all_iff dest: set_takeWhileD)
  then have "ws = [] \<or> \<not> word_char (hd ws)" by (cases ws) (auto simp: word_char_def)
  then have "tokenize s = tokenize (rstrip s) @ tokenize ws"
    using tokenize_append[of ws "rstrip s"] s by simp
  then show ?thesis using tokenize_spaces[OF w] by simp
qed

lemma tokenize_strip [simp]: "tokenize (strip s) = tokenize s"
  by (simp add: strip_def tokenize_rstrip tokenize_lstrip)

lemma audience_allows_parse:
  "audience_allows a q \<longleftrightarrow> tokenize a = [] \<or> parse_audience q (tokenize a) = Some True"
proof -
  have "strip a = [] \<Longrightarrow> tokenize a = []" using tokenize_strip[of a] by simp
  then show ?thesis by (auto simp: audience_allows_def Let_def split: option.splits)
qed


lemma tokenize_conj:
  "tokenize (''('' @ e @ '') AND ('' @ r @ '')'') =
   (''('' # tokenize e @ ['')'']) @ ''AND'' # (''('' # tokenize r @ ['')'']) @ []"
proof -
  have p: "is_paren (CHR ''('')" "is_paren (CHR '')'')" "\<not> is_ws (CHR ''('')" "\<not> is_ws (CHR '')'')"
    by (simp_all add: is_paren_def is_ws_def)
  have w: "is_ws (CHR '' '')" "word_char (CHR ''A'')" "word_char (CHR ''N'')" "word_char (CHR ''D'')"
    "\<not> word_char (CHR '' '')"
    by (simp_all add: word_char_def is_paren_def is_ws_def)
  have "tokenize (e @ '') AND ('' @ r @ '')'') = tokenize e @ tokenize ('') AND ('' @ r @ '')'')"
    by (rule tokenize_append) (simp add: word_char_def is_paren_def)
  moreover have "tokenize (r @ '')'') = tokenize r @ ['')'']"
    using p by (subst tokenize_append) (simp_all add: word_char_def)
  moreover have "tokenize (''AND ('' @ r @ '')'') = ''AND'' # tokenize ('' ('' @ r @ '')'')"
    using w by (simp add: word_char_def)
  ultimately show ?thesis using p w by simp
qed

lemma derives_singleton: "derives q M_atom ts v \<Longrightarrow> derives q M_and ts v"
  using D_and[OF D_atom, of q ts v "[]" v] D_and_end by simp

lemma derives_and_pair:
  assumes "derives q M_atom ts v" "derives q M_atom us w"
  shows "derives q M_or (ts @ ''AND'' # us @ []) (v \<and> w)"
proof -
  have "derives q (M_and_loop v) (''AND'' # us @ []) (v \<and> w)"
    by (rule D_and_more[OF _ D_atom[OF assms(2)] D_and_end])
       (simp add: upper_def char_upper_def is_lower_def)
  from D_and[OF D_atom[OF assms(1)] this] show ?thesis
    using D_or[OF _ D_or_end, of q "ts @ ''AND'' # us @ []" "v \<and> w"] by simp
qed

lemma audience_conj:
  assumes "parse_audience q (tokenize e) = Some ve" "parse_audience q (tokenize r) = Some vr"
  shows "audience_allows (''('' @ e @ '') AND ('' @ r @ '')'') q \<longleftrightarrow> ve \<and> vr"
proof -
  have "derives q M_or (tokenize (''('' @ e @ '') AND ('' @ r @ '')'')) (ve \<and> vr)"
    unfolding tokenize_conj
    by (rule derives_and_pair; rule D_paren) (use assms parse_audience_iff in blast)+
  then show ?thesis
    unfolding audience_allows_parse parse_audience_iff tokenize_conj
    using derives_unique by fastforce
qed

section \<open>Bounding a requested posture by an envelope\<close>

definition self_contained :: "requester \<Rightarrow> string \<Rightarrow> bool" where
  "self_contained q a = (tokenize a = [] \<or> parse_audience q (tokenize a) \<noteq> None)"

lemma tokenize_blank: "tokenize a = [] \<Longrightarrow> strip a = []"
proof -
  assume "tokenize a = []"
  then have w: "list_all is_ws a" by (induction a rule: tokenize.induct) (auto split: if_splits)
  then have "lstrip a = []" by (simp add: list_all_iff lstrip_def)
  then show ?thesis by (simp add: strip_def rstrip_def)
qed

lemma audience_allows_strip [simp]: "audience_allows (strip a) q = audience_allows a q"
  by (simp add: audience_allows_parse)

lemma audience_allows_blank: "strip a = [] \<Longrightarrow> audience_allows a q"
  using tokenize_strip[of a] by (simp add: audience_allows_parse)

lemma bound_audience:
  assumes "self_contained q (v_audience_scope env)" "self_contained q (v_audience_scope req)"
  shows "audience_allows (v_audience_scope (bound_visibility (Some env) req)) q \<longleftrightarrow>
         audience_allows (v_audience_scope env) q \<and> audience_allows (v_audience_scope req) q"
proof (cases "strip (v_audience_scope env) \<noteq> [] \<and> strip (v_audience_scope req) \<noteq> []")
  case True
  then have ne: "tokenize (v_audience_scope env) \<noteq> []" "tokenize (v_audience_scope req) \<noteq> []"
    using tokenize_blank by blast+
  then obtain ve vr where v: "parse_audience q (tokenize (v_audience_scope env)) = Some ve"
    "parse_audience q (tokenize (v_audience_scope req)) = Some vr"
    using assms by (auto simp: self_contained_def)
  then have "audience_allows (''('' @ strip (v_audience_scope env) @ '') AND ('' @
      strip (v_audience_scope req) @ '')'') q \<longleftrightarrow> ve \<and> vr"
    by (intro audience_conj) simp_all
  then show ?thesis using True v ne
    by (simp add: bound_visibility_def Let_def audience_allows_parse)
next
  case False
  then show ?thesis by (auto simp: bound_visibility_def Let_def audience_allows_blank)
qed

lemma explicit_allow_strip [simp]: "explicit_allow (strip a) = explicit_allow a"
  by (simp add: explicit_allow_def)

lemma explicit_allow_conj:
  "explicit_allow (''('' @ e @ '') AND ('' @ r @ '')'') = explicit_allow e @ explicit_allow r"
  unfolding explicit_allow_def tokenize_conj
  by (simp add: starts_with_def lower_def char_lower_def is_upper_def)

lemma explicit_allow_blank: "strip a = [] \<Longrightarrow> explicit_allow a = []"
  using tokenize_strip[of a] by (simp add: explicit_allow_def)

lemma bound_explicit:
  "explicit_allow (v_audience_scope (bound_visibility (Some env) req)) =
   explicit_allow (v_audience_scope env) @ explicit_allow (v_audience_scope req)"
proof -
  let ?e = "strip (v_audience_scope env)" and ?r = "strip (v_audience_scope req)"
  have b: "v_audience_scope (bound_visibility (Some env) req) =
     (if ?e \<noteq> [] \<and> ?r \<noteq> [] then ''('' @ ?e @ '') AND ('' @ ?r @ '')''
      else if ?e \<noteq> [] then ?e else ?r)"
    by (simp add: bound_visibility_def Let_def)
  consider "?e \<noteq> []" "?r \<noteq> []" | "?e = []" | "?e \<noteq> []" "?r = []" by blast
  then show ?thesis
  proof cases
    case 1
    then have "explicit_allow (v_audience_scope (bound_visibility (Some env) req)) =
        explicit_allow ?e @ explicit_allow ?r"
      unfolding b explicit_allow_conj[symmetric] by (simp only: if_True simp_thms not_False_eq_True)
    then show ?thesis by simp
  next
    case 2
    then show ?thesis by (simp add: b explicit_allow_blank)
  next
    case 3
    then show ?thesis by (simp add: b explicit_allow_blank)
  qed
qed

lemma rank_in_inj: "rank_in xs a = rank_in xs b \<Longrightarrow> rank_in xs b < length xs \<Longrightarrow> a = b"
  by (induction xs) (auto split: if_splits)

lemma restricted_gate: "4 \<le> presence_rank (v_presence_mode (p_visibility r)) \<Longrightarrow> \<not> presence_gate r q"
  by (auto simp: presence_rank_def PRESENCE_ORDER_def presence_gate_def Let_def split: if_splits)

text \<open>The pairs of presence modes for which taking the more restrictive mode keeps
  the gate of the envelope: the envelope gates nobody or everybody, the request
  hides the agent, or the envelope's own mode is kept and the request does not
  extend an explicit list.\<close>
definition presence_compatible :: "visibility \<Rightarrow> visibility \<Rightarrow> bool" where
  "presence_compatible env req =
     (v_presence_mode env = ''public'' \<or>
      4 \<le> presence_rank (v_presence_mode env) \<or> 4 \<le> presence_rank (v_presence_mode req) \<or>
      (presence_rank (v_presence_mode req) \<le> presence_rank (v_presence_mode env) \<and>
       (v_presence_mode env = ''explicit-only'' \<longrightarrow> explicit_allow (v_audience_scope req) = [])))"

lemma presence_gate_reduces:
  assumes "presence_compatible env req"
    and g: "presence_gate (r\<lparr>p_visibility := bound_visibility (Some env) req\<rparr>) q"
  shows "presence_gate (r\<lparr>p_visibility := env\<rparr>) q"
proof -
  let ?b = "bound_visibility (Some env) req"
  have m: "v_presence_mode ?b =
     (if presence_rank (v_presence_mode req) \<ge> presence_rank (v_presence_mode env)
      then v_presence_mode req else v_presence_mode env)"
    by (simp add: bound_visibility_def Let_def)
  have "\<not> 4 \<le> presence_rank (v_presence_mode ?b)"
    using restricted_gate[of "r\<lparr>p_visibility := ?b\<rparr>" q] g by auto
  then have low: "presence_rank (v_presence_mode env) < 4" "presence_rank (v_presence_mode req) < 4"
    using m by (auto split: if_splits)
  show ?thesis
  proof (cases "v_presence_mode env = ''public''")
    case True
    then show ?thesis by (simp add: presence_gate_def Let_def)
  next
    case False
    then have c: "presence_rank (v_presence_mode req) \<le> presence_rank (v_presence_mode env)"
      "v_presence_mode env = ''explicit-only'' \<Longrightarrow> explicit_allow (v_audience_scope req) = []"
      using assms low by (auto simp: presence_compatible_def)
    then have same: "v_presence_mode ?b = v_presence_mode env"
      using m low rank_in_inj[of PRESENCE_ORDER "v_presence_mode req" "v_presence_mode env"]
      by (auto simp: presence_rank_def PRESENCE_ORDER_def)
    show ?thesis
      using g c(2) bound_explicit[of env req]
      by (auto simp: presence_gate_def Let_def same subject_tier_def subject_owner_domain_def
          split: if_splits option.splits)
  qed
qed

text \<open>C13: applying a requested posture within a certificate envelope never shows the
  agent to a requester the envelope hides it from, provided each audience expression is
  blank or parses on its own and the two presence modes are compatible; and then the
  requested audience has to be satisfied too.\<close>
theorem bound_visibility_reduces:
  assumes "self_contained q (v_audience_scope env)" "self_contained q (v_audience_scope req)"
    and "presence_compatible env req"
    and "is_visible (r\<lparr>p_visibility := bound_visibility (Some env) req\<rparr>) q"
  shows "is_visible (r\<lparr>p_visibility := env\<rparr>) q \<and> audience_allows (v_audience_scope req) q"
proof -
  have g: "presence_gate (r\<lparr>p_visibility := bound_visibility (Some env) req\<rparr>) q"
    and a: "audience_allows (v_audience_scope (bound_visibility (Some env) req)) q"
    using assms(4) by (auto simp: is_visible_def split: if_splits)
  show ?thesis
    using presence_gate_reduces[OF assms(3) g] bound_audience[OF assms(1,2)] a
    by (simp add: is_visible_def)
qed

definition sample_subject :: presence_record where
  "sample_subject =
     \<lparr>p_agent_id = ''s'', p_result_entry = [(''agent_id'', JStr ''s''), (''trust_tier'', JInt 1)],
      p_scopes = [], p_visibility = default_visibility, p_announced_at = ''t'',
      p_announced_at_epoch = 0, p_ttl_seconds = 60, p_owner_domain = JStr ''acme'',
      p_attachment = JNull, p_signature = JNull\<rparr>"

definition posture :: "string \<Rightarrow> string \<Rightarrow> visibility" where
  "posture mode audience =
     \<lparr>v_presence_mode = mode, v_disclosure_mode = ''capabilities'', v_audience_scope = audience\<rparr>"

definition seen_under :: "visibility \<Rightarrow> requester \<Rightarrow> bool" where
  "seen_under v q = is_visible (sample_subject\<lparr>p_visibility := v\<rparr>) q"

lemma bound_visibility_reduces_witness:
  "seen_under (posture ''public'' ''tier:2'') (ANONYMOUS\<lparr>q_agent_id := ''b'', q_tier := Some 1\<rparr>)"
proof -
  let ?q = "ANONYMOUS\<lparr>q_agent_id := ''b'', q_tier := Some 1\<rparr>"
  have "self_contained ?q ''tier:2''" "self_contained ?q ''NOT tier:0''"
    "presence_compatible (posture ''public'' ''tier:2'') (posture ''tier-scoped'' ''NOT tier:0'')"
    "is_visible (sample_subject\<lparr>p_visibility := bound_visibility (Some (posture ''public'' ''tier:2''))
        (posture ''tier-scoped'' ''NOT tier:0'')\<rparr>) ?q"
    by code_simp+
  then show ?thesis
    using bound_visibility_reduces[of ?q "posture ''public'' ''tier:2''"
        "posture ''tier-scoped'' ''NOT tier:0''" sample_subject]
    by (simp add: seen_under_def posture_def)
qed

text \<open>The bound is not a reduction in general.  (1) A requested audience with
  unbalanced parentheses escapes the conjunction and widens the audience of the
  envelope.  (2) An explicit-only envelope takes Agent-IDs from the requested audience.
  (3) A tier-scoped envelope is replaced by a requested owner-domain gate, which shows
  the agent to a requester of too low a tier.  Each conjunct is a requester who sees the
  agent under the bounded posture and not under the envelope.\<close>
theorem bound_visibility_can_widen:
  "(let env = posture ''public'' ''tier:1''; req = posture ''public'' ''tier:1) OR (tier:9'';
        q = ANONYMOUS\<lparr>q_agent_id := ''b'', q_tier := Some 5\<rparr>
    in seen_under (bound_visibility (Some env) req) q \<and> \<not> seen_under env q) \<and>
   (let env = posture ''explicit-only'' ''NOT agent-id:a''; req = posture ''explicit-only'' ''agent-id:b'';
        q = ANONYMOUS\<lparr>q_agent_id := ''b''\<rparr>
    in seen_under (bound_visibility (Some env) req) q \<and> \<not> seen_under env q) \<and>
   (let env = posture ''tier-scoped'' ''''; req = posture ''owner-domain'' '''';
        q = ANONYMOUS\<lparr>q_agent_id := ''b'', q_tier := Some 9, q_owner_domain := Some ''acme''\<rparr>
    in seen_under (bound_visibility (Some env) req) q \<and> \<not> seen_under env q)"
  by code_simp

section \<open>Disclosure\<close>

text \<open>The three shapes, from the least to the most.\<close>
lemma shape_existence:
  "dict_get (p_result_entry r) ''agent_id'' = Some a \<Longrightarrow>
   (''agent_id'', jget (p_result_entry r) ''agent_id'') \<in> set (p_result_entry r)"
  by (simp add: jget_def map_of_SomeD)

lemma rank_in_le: "rank_in xs m \<le> length xs"
  by (induction xs) auto

lemma disclosure_cases:
  "disclosure_rank m = 0 \<and> m = ''full'' \<or> disclosure_rank m = 1 \<and> m = ''capabilities'' \<or>
   disclosure_rank m = 2 \<and> m = ''identity-only'' \<or> disclosure_rank m = 3 \<and> m = ''existence-only'' \<or>
   disclosure_rank m = 4 \<and> m \<notin> {''full'', ''capabilities'', ''identity-only'', ''existence-only''}"
  by (auto simp: disclosure_rank_def DISCLOSURE_ORDER_def)

lemma shape_by_rank:
  "shape_entry r =
     (let entry = p_result_entry r; k = disclosure_rank (v_disclosure_mode (p_visibility r)) in
      if k \<le> 1 then entry
      else if k = 2 then filter (\<lambda>(k, v). k \<in> set identity_fields) entry
      else [(''agent_id'', jget entry ''agent_id'')])"
  using disclosure_cases[of "v_disclosure_mode (p_visibility r)"]
  by (auto simp: shape_entry_def Let_def)

text \<open>Whatever posture is requested, the entry shown under the bounded posture holds
  only fields of the entry that the envelope would show, with the same values, for every
  record whose entry names its agent; and no address field is ever added.\<close>
theorem bound_disclosure_reduces:
  assumes "dict_get (p_result_entry r) ''agent_id'' = Some a"
  shows "set (shape_entry (r\<lparr>p_visibility := bound_visibility (Some env) req\<rparr>)) \<subseteq>
           set (shape_entry (r\<lparr>p_visibility := env\<rparr>)) \<and>
         set (shape_entry (r\<lparr>p_visibility := bound_visibility (Some env) req\<rparr>)) \<subseteq>
           set (shape_entry (r\<lparr>p_visibility := req\<rparr>)) \<and>
         set (shape_entry (r\<lparr>p_visibility := env\<rparr>)) \<subseteq> set (p_result_entry r)"
proof -
  have mono: "set (shape_entry (r\<lparr>p_visibility := v\<rparr>)) \<subseteq> set (shape_entry (r\<lparr>p_visibility := w\<rparr>))"
    if "disclosure_rank (v_disclosure_mode w) \<le> disclosure_rank (v_disclosure_mode v)" for v w
    using that shape_existence[OF assms]
    by (auto simp: shape_by_rank Let_def identity_fields_def)
  have "disclosure_rank (v_disclosure_mode (bound_visibility (Some env) req)) =
      max (disclosure_rank (v_disclosure_mode env)) (disclosure_rank (v_disclosure_mode req))"
    by (simp add: bound_visibility_def Let_def max_def)
  moreover have "set (shape_entry (r\<lparr>p_visibility := env\<rparr>)) \<subseteq> set (p_result_entry r)"
    using shape_existence[OF assms] by (auto simp: shape_by_rank Let_def)
  ultimately show ?thesis by (simp add: mono)
qed

lemma bound_disclosure_reduces_witness:
  "set (shape_entry (sample_subject\<lparr>p_visibility :=
       bound_visibility (Some (posture ''public'' '''')) (posture ''public'' '''')\<rparr>))
     \<subseteq> set (p_result_entry sample_subject)"
  using bound_disclosure_reduces[of sample_subject "JStr ''s''" "posture ''public'' ''''"
      "posture ''public'' ''''"]
  by (auto simp: sample_subject_def)

end
