(* ===== verification/DHT_Distance.thy ===== *)
theory DHT_Distance
  imports Prelude
begin

unbundle bit_operations_syntax

text \<open>
  dht/distance.py: parsing of 256-bit identifiers, the XOR metric and the
  bucket index.  Python's base-16 int accepts a sign, a 0x prefix and
  underscores, so the parser accepts more texts than the 64 hexadecimal digits
  its documentation names; the bounds are proved for the latter.
\<close>

section \<open>Definitions\<close>

definition ID_HEX_LEN :: nat where
  "ID_HEX_LEN = 64"

definition is_hex_lower :: "char \<Rightarrow> bool" where
  "is_hex_lower c = (is_digit c \<or> (let n = of_char c :: nat in 97 \<le> n \<and> n \<le> 102))"

definition hex_value :: "char \<Rightarrow> nat" where
  "hex_value c = (if is_digit c then of_char c - 48 else of_char c - 87)"

fun nat_of_hex :: "nat \<Rightarrow> string \<Rightarrow> nat" where
  "nat_of_hex acc [] = acc" |
  "nat_of_hex acc (c # cs) = nat_of_hex (16 * acc + hex_value c) cs"

text \<open>Python's int with base 16 on lowercase text without outer space.\<close>
definition parse_hex_groups :: "string \<Rightarrow> nat option" where
  "parse_hex_groups s =
     (if list_all (\<lambda>g. g \<noteq> [] \<and> list_all is_hex_lower g) (split_char (CHR ''_'') s)
      then Some (nat_of_hex 0 (filter (\<lambda>c. c \<noteq> CHR ''_'') s)) else None)"

definition parse_hex_unsigned :: "string \<Rightarrow> nat option" where
  "parse_hex_unsigned s =
     (if starts_with ''0x_'' s then parse_hex_groups (drop 3 s)
      else if starts_with ''0x'' s then parse_hex_groups (drop 2 s)
      else parse_hex_groups s)"

definition parse_hex :: "string \<Rightarrow> int option" where
  "parse_hex s =
     (if starts_with ''-'' s then map_option (\<lambda>n. - int n) (parse_hex_unsigned (drop 1 s))
      else if starts_with ''+'' s then map_option int (parse_hex_unsigned (drop 1 s))
      else map_option int (parse_hex_unsigned s))"

text \<open>None stands for the raised InvalidNodeID.\<close>
definition to_int :: "string \<Rightarrow> int option" where
  "to_int node_id =
     (let text = lower (strip node_id) in
      if length text \<noteq> ID_HEX_LEN then None else parse_hex text)"

definition xor_distance :: "string \<Rightarrow> string \<Rightarrow> int option" where
  "xor_distance a b =
     (case to_int a of
        None \<Rightarrow> None
      | Some x \<Rightarrow> (case to_int b of None \<Rightarrow> None | Some y \<Rightarrow> Some (x XOR y)))"

fun nat_bit_length :: "nat \<Rightarrow> nat" where
  "nat_bit_length n = (if n = 0 then 0 else Suc (nat_bit_length (n div 2)))"

declare nat_bit_length.simps [simp del]

definition bit_length :: "int \<Rightarrow> nat" where
  "bit_length d = nat_bit_length (nat \<bar>d\<bar>)"

definition bucket_index :: "string \<Rightarrow> string \<Rightarrow> int option" where
  "bucket_index node_id key =
     (case xor_distance node_id key of
        None \<Rightarrow> None
      | Some d \<Rightarrow> if d = 0 then Some (- 1) else Some (int (bit_length d) - 1))"

section \<open>The metric\<close>

text \<open>What the routing needs of a distance: it separates points, it is
  symmetric, and at most one point lies at a given distance from a key.\<close>
locale unidirectional_metric =
  fixes dist :: "'a \<Rightarrow> 'a \<Rightarrow> int"
  assumes dist_zero: "dist a b = 0 \<longleftrightarrow> a = b"
    and dist_sym: "dist a b = dist b a"
    and dist_unique: "dist a key = dist b key \<Longrightarrow> a = b"
begin

lemma sorted_dist_strict:
  "distinct xs \<Longrightarrow> sorted (map (\<lambda>x. dist x key) xs) \<Longrightarrow> sorted_wrt (<) (map (\<lambda>x. dist x key) xs)"
  by (simp add: strict_sorted_iff distinct_map inj_on_def dist_unique)

end

interpretation xor: unidirectional_metric "(XOR) :: int \<Rightarrow> int \<Rightarrow> int"
proof
  show "(a XOR b = 0) = (a = b)" for a b :: int
    by (metis xor.assoc xor_self_eq xor.right_neutral xor.left_neutral)
  show "a XOR b = b XOR a" for a b :: int
    by (rule xor.commute)
  show "a XOR key = b XOR key \<Longrightarrow> a = b" for a b key :: int
    by (metis xor.assoc xor_self_eq xor.right_neutral)
qed

section \<open>Well-formed identifiers\<close>

definition is_hex :: "char \<Rightarrow> bool" where
  "is_hex c = is_hex_lower (char_lower c)"

text \<open>The documented form of an identifier: 64 hexadecimal digits.\<close>
definition hex_id :: "string \<Rightarrow> bool" where
  "hex_id s = (length s = ID_HEX_LEN \<and> list_all is_hex s)"

definition id_value :: "string \<Rightarrow> nat" where
  "id_value s = nat_of_hex 0 (lower s)"

lemma hex_value_less: "is_hex_lower c \<Longrightarrow> hex_value c < 16"
  by (auto simp: is_hex_lower_def hex_value_def is_digit_def Let_def)

lemma nat_of_hex_less:
  "list_all is_hex_lower s \<Longrightarrow> acc < 16 ^ m \<Longrightarrow> nat_of_hex acc s < 16 ^ (m + length s)"
proof (induction s arbitrary: acc m)
  case Nil
  then show ?case by simp
next
  case (Cons c s)
  then have "16 * acc + hex_value c < 16 ^ Suc m" using hex_value_less[of c] by auto
  from Cons.IH[OF _ this] Cons.prems show ?case by simp
qed

lemma is_hex_not_ws: "is_hex c \<Longrightarrow> \<not> is_ws c"
proof -
  assume h: "is_hex c"
  show ?thesis
  proof
    assume w: "is_ws c"
    then have "\<not> is_upper c" by (auto simp: is_ws_def is_upper_def Let_def)
    then have "char_lower c = c" by (simp add: char_lower_def)
    with h w show False by (auto simp: is_hex_def is_hex_lower_def is_ws_def is_digit_def Let_def)
  qed
qed

lemma hex_id_parse:
  assumes "hex_id s" shows "to_int s = Some (int (id_value s))"
proof -
  have ws: "list_all (\<lambda>c. \<not> is_ws c) s" and len: "length s = 64"
    using assms is_hex_not_ws by (auto simp: hex_id_def list_all_iff ID_HEX_LEN_def)
  have hex: "list_all is_hex_lower (lower s)"
    using assms by (auto simp: hex_id_def lower_def list_all_iff is_hex_def)
  have no: "CHR ''_'' \<notin> set (lower s)" "CHR ''x'' \<notin> set (lower s)" "CHR ''-'' \<notin> set (lower s)"
    "CHR ''+'' \<notin> set (lower s)"
    using hex by (auto simp: list_all_iff is_hex_lower_def is_digit_def Let_def)
  have pre: "starts_with p (lower s) \<Longrightarrow> set p \<subseteq> set (lower s)" for p
    by (metis starts_with_def set_take_subset)
  have "\<not> starts_with ''0x_'' (lower s)" "\<not> starts_with ''0x'' (lower s)"
    "\<not> starts_with ''-'' (lower s)" "\<not> starts_with ''+'' (lower s)"
    using no pre by fastforce+
  moreover have "filter (\<lambda>c. c \<noteq> CHR ''_'') (lower s) = lower s"
    using no(1) by (auto simp: filter_id_conv)
  moreover have "lower s \<noteq> []" using len by (metis lower_length list.size(3) zero_neq_numeral)
  ultimately show ?thesis
    using hex no(1) strip_no_ws[OF ws] len
    by (simp add: to_int_def parse_hex_def parse_hex_unsigned_def parse_hex_groups_def
        split_char_free ID_HEX_LEN_def id_value_def)
qed

lemma id_value_less: "hex_id s \<Longrightarrow> id_value s < 2 ^ 256"
proof -
  assume h: "hex_id s"
  then have "list_all is_hex_lower (lower s)"
    by (auto simp: hex_id_def lower_def list_all_iff is_hex_def)
  from nat_of_hex_less[OF this, of 0 0] h have "id_value s < 16 ^ 64"
    by (simp add: id_value_def hex_id_def ID_HEX_LEN_def)
  then show ?thesis by simp
qed

section \<open>Bit lengths and bucket indices\<close>

lemma nat_bit_length_bounds:
  "0 < n \<Longrightarrow> 2 ^ (nat_bit_length n - 1) \<le> n \<and> n < 2 ^ nat_bit_length n \<and> 0 < nat_bit_length n"
proof (induction n rule: nat_bit_length.induct)
  case (1 n)
  show ?case
  proof (cases "n = 1")
    case True
    then show ?thesis by (simp add: nat_bit_length.simps)
  next
    case False
    with 1 have IH: "2 ^ (nat_bit_length (n div 2) - 1) \<le> n div 2" "n div 2 < 2 ^ nat_bit_length (n div 2)"
      "0 < nat_bit_length (n div 2)" by auto
    have e: "nat_bit_length n = Suc (nat_bit_length (n div 2))"
      using 1 by (subst nat_bit_length.simps) simp
    obtain m where m: "nat_bit_length (n div 2) = Suc m" using IH(3) by (cases "nat_bit_length (n div 2)") auto
    show ?thesis using IH m by (simp add: e) linarith
  qed
qed

lemma nat_bit_length_le: "n < 2 ^ m \<Longrightarrow> nat_bit_length n \<le> m"
proof (rule ccontr)
  assume n: "n < 2 ^ m" and "\<not> nat_bit_length n \<le> m"
  then have "m \<le> nat_bit_length n - 1" "0 < n"
    by (auto intro: gr0I simp: nat_bit_length.simps[of 0])
  then have "2 ^ m \<le> (2::nat) ^ (nat_bit_length n - 1)" by (simp add: power_increasing)
  with nat_bit_length_bounds[OF \<open>0 < n\<close>] n show False by linarith
qed

lemma xor_bound: "a < 2 ^ n \<Longrightarrow> b < 2 ^ n \<Longrightarrow> 0 \<le> int a XOR int b \<and> int a XOR int b < 2 ^ n"
proof -
  assume "a < 2 ^ n" "b < 2 ^ n"
  then have "take_bit n (int a) = int a" "take_bit n (int b) = int b"
    by (simp_all add: take_bit_int_eq_self_iff)
  then have "take_bit n (int a XOR int b) = int a XOR int b" by (simp add: take_bit_xor)
  then show ?thesis by (metis take_bit_int_less_exp take_bit_nonnegative)
qed

text \<open>On identifiers of the documented form the bucket index is -1 exactly for equal
  values and otherwise lies in 0..255 and is the position of the most significant
  differing bit: the distance d satisfies 2^i \<le> d < 2^(i+1); and the distance is
  symmetric, zero only between equal values, and different for different peers.\<close>
theorem bucket_index_msb:
  assumes "hex_id a" "hex_id b" "hex_id c"
  shows "\<exists>d i. xor_distance a b = Some d \<and> xor_distance b a = Some d \<and> bucket_index a b = Some i \<and>
     (if id_value a = id_value b then d = 0 \<and> i = -1
      else 0 \<le> i \<and> i \<le> 255 \<and> 2 ^ nat i \<le> d \<and> d < 2 ^ (nat i + 1)) \<and>
     (xor_distance a c = xor_distance b c \<longleftrightarrow> id_value a = id_value b)"
proof -
  define d where "d = int (id_value a) XOR int (id_value b)"
  have dist: "xor_distance a b = Some d" "xor_distance b a = Some d"
    using assms by (simp_all add: xor_distance_def hex_id_parse d_def xor.commute)
  have range: "0 \<le> d" "d < 2 ^ 256"
    using xor_bound[OF id_value_less[OF assms(1)] id_value_less[OF assms(2)]] by (simp_all add: d_def)
  have zero: "d = 0 \<longleftrightarrow> id_value a = id_value b"
    using xor.dist_zero[of "int (id_value a)" "int (id_value b)"] by (simp add: d_def)
  have uniq: "xor_distance a c = xor_distance b c \<longleftrightarrow> id_value a = id_value b"
    using assms xor.dist_unique[of "int (id_value a)" "int (id_value c)" "int (id_value b)"]
    by (auto simp: xor_distance_def hex_id_parse)
  show ?thesis
  proof (cases "d = 0")
    case True
    then show ?thesis using dist uniq zero by (auto simp: bucket_index_def)
  next
    case False
    define n where "n = nat d"
    then have n: "0 < n" "n < 2 ^ 256" "d = int n" using False range by (simp_all add: nat_less_iff)
    let ?l = "nat_bit_length n"
    have l: "2 ^ (?l - 1) \<le> n" "n < 2 ^ ?l" "0 < ?l" "?l \<le> 256"
      using nat_bit_length_bounds[OF n(1)] nat_bit_length_le[OF n(2)] by simp_all
    have i: "bucket_index a b = Some (int (?l - 1))"
      using dist False l(3) n(3) by (simp add: bucket_index_def bit_length_def of_nat_diff)
    have "(2::int) ^ (?l - 1) \<le> d" "d < 2 ^ (?l - 1 + 1)"
      using l n(3) by (simp_all flip: of_nat_less_iff of_nat_le_iff)
    then show ?thesis using dist uniq zero False i l(4)
      by (intro exI[of _ d] exI[of _ "int (?l - 1)"]) simp
  qed
qed

lemma bucket_index_msb_witness:
  "\<exists>i. bucket_index (replicate 64 (CHR ''0'')) (replicate 63 (CHR ''0'') @ ''4'') = Some i \<and> i = 2"
proof -
  let ?a = "replicate 64 (CHR ''0'')" and ?b = "replicate 63 (CHR ''0'') @ ''4''"
  have h: "hex_id ?a" "hex_id ?b" by code_simp+
  have v: "id_value ?a = 0" "id_value ?b = 4" by code_simp+
  have i: "bucket_index ?a ?b = Some 2" by code_simp
  from bucket_index_msb[OF h h(1)] v i show ?thesis by auto
qed

lemma nat_of_hex_ones:
  "nat_of_hex acc (replicate n (CHR ''f'')) = (acc + 1) * 16 ^ n - 1"
proof (induction n arbitrary: acc)
  case 0
  then show ?case by simp
next
  case (Suc n)
  have "hex_value (CHR ''f'') = 15" by (simp add: hex_value_def is_digit_def)
  with Suc[of "16 * acc + 15"] show ?case by (simp add: algebra_simps)
qed

lemma nat_bit_length_power: "nat_bit_length (2 ^ n) = Suc n"
  by (induction n) (simp_all add: nat_bit_length.simps)

text \<open>An identifier that is not 64 hexadecimal digits can pass the parser: a minus
  sign with 63 digits is accepted and gives a negative value, and the bucket index of
  such an identifier can be 256, outside the documented range.\<close>
theorem to_int_accepts_signed:
  "let a = replicate 64 (CHR ''f''); b = CHR ''-'' # replicate 62 (CHR ''0'') @ ''1'' in
   \<not> hex_id b \<and> to_int b = Some (-1) \<and> bucket_index a b = Some 256"
proof -
  let ?a = "replicate 64 (CHR ''f'')" and ?b = "CHR ''-'' # replicate 62 (CHR ''0'') @ ''1''"
  have h: "hex_id ?a" "\<not> hex_id ?b" by code_simp+
  have b: "to_int ?b = Some (-1)" by code_simp
  have "lower ?a = ?a" by (simp add: lower_def char_lower_def is_upper_def map_replicate_const)
  then have "id_value ?a = 2 ^ 256 - 1"
    using nat_of_hex_ones[of 0 64] by (simp add: id_value_def)
  then have a: "to_int ?a = Some (2 ^ 256 - 1)" using hex_id_parse[OF h(1)] by simp
  have "xor_distance ?a ?b = Some (- (2 ^ 256))"
    unfolding xor_distance_def a b option.case by (subst bit.xor_one_right) (simp add: not_int_def)
  moreover have "bit_length (- (2 ^ 256)) = 257"
    using nat_bit_length_power[of 256] by (simp add: bit_length_def)
  ultimately have "bucket_index ?a ?b = Some 256" by (simp add: bucket_index_def)
  then show ?thesis using h b unfolding Let_def by blast
qed

end
