(* ===== verification/Presence_Partition.thy ===== *)
theory Presence_Partition
  imports DHT_Distance
begin

text \<open>
  presence/partition.py: the leaf partitions of a scope, split when a leaf
  exceeds the split threshold and merged when two sibling leaves are sparse.
  A leaf is named by the bit prefix its members share.  The thresholds are
  natural numbers; the identifiers are arbitrary strings, and the ones the
  parser rejects raise.
\<close>

section \<open>Definitions\<close>

record partition_manager =
  pm_base_scope :: string
  pm_split_threshold :: nat
  pm_merge_threshold :: nat
  pm_leaves :: "(string, string list) dict"

definition new_manager :: "string \<Rightarrow> nat \<Rightarrow> nat \<Rightarrow> py_error + partition_manager" where
  "new_manager base st mt =
     (if st \<le> mt then Inl ValueError
      else Inr \<lparr>pm_base_scope = base, pm_split_threshold = st, pm_merge_threshold = mt,
                pm_leaves = [([], [])]\<rparr>)"

text \<open>The bit of an identifier at a depth; a depth beyond 255 is a negative
  shift count, which raises like a rejected identifier.\<close>
definition bit_at :: "string \<Rightarrow> nat \<Rightarrow> char option" where
  "bit_at agent_id depth =
     (case to_int agent_id of
        None \<Rightarrow> None
      | Some v \<Rightarrow>
          if 255 < depth then None
          else Some (if bit v (255 - depth) then CHR ''1'' else CHR ''0''))"

function leaf_for :: "string \<Rightarrow> (string, string list) dict \<Rightarrow> string \<Rightarrow> nat \<Rightarrow> py_error + string" where
  "leaf_for agent_id leaves prf depth =
     (if dict_get leaves prf \<noteq> None then Inr prf
      else (case bit_at agent_id depth of
              None \<Rightarrow> Inl ValueError
            | Some b \<Rightarrow> leaf_for agent_id leaves (prf @ [b]) (depth + 1)))"
  by pat_completeness auto
termination
  by (relation "measure (\<lambda>(_, _, _, depth). 256 - depth)")
     (auto simp: bit_at_def split: option.splits if_splits)

declare leaf_for.simps [simp del]

text \<open>Distributing the members of a leaf over its two children.\<close>
fun distribute :: "nat \<Rightarrow> string list \<Rightarrow> (string list \<times> string list) option" where
  "distribute depth [] = Some ([], [])" |
  "distribute depth (a # as) =
     (case bit_at a depth of
        None \<Rightarrow> None
      | Some b \<Rightarrow>
          map_option (\<lambda>(m0, m1). if b = CHR ''1'' then (m0, a # m1) else (a # m0, m1))
            (distribute depth as))"

definition split_once :: "string \<Rightarrow> string list \<Rightarrow> string list
    \<Rightarrow> (string, string list) dict \<Rightarrow> (string, string list) dict" where
  "split_once p m0 m1 leaves = dict_set (p @ ''1'') m1 (dict_set (p @ ''0'') m0 (dict_del p leaves))"

lemma distribute_depth: "distribute depth ms = Some r \<Longrightarrow> ms \<noteq> [] \<Longrightarrow> depth \<le> 255"
  by (cases ms) (auto simp: bit_at_def split: option.splits if_splits)

lemma distribute_mset_length:
  "distribute depth ms = Some (m0, m1) \<Longrightarrow> length m0 + length m1 = length ms"
  by (induction ms arbitrary: m0 m1) (auto split: option.splits if_splits prod.splits)

function split_leaf :: "nat \<Rightarrow> string \<Rightarrow> string list \<Rightarrow> (string, string list) dict
    \<Rightarrow> (string, string list) dict \<times> py_error option" where
  "split_leaf th p ms leaves =
     (case distribute (length p) ms of
        None \<Rightarrow> (leaves, Some ValueError)
      | Some (m0, m1) \<Rightarrow>
          (let l0 = split_once p m0 m1 leaves;
               (l1, e1) = (if th < length m0 then split_leaf th (p @ ''0'') m0 l0 else (l0, None))
           in if e1 \<noteq> None then (l1, e1)
              else if th < length m1 then split_leaf th (p @ ''1'') m1 l1 else (l1, None)))"
  by pat_completeness auto
termination
proof (relation "measure (\<lambda>(_, p, _, _). 257 - length p)", goal_cases)
  case 1
  then show ?case by simp
next
  case (2 th p ms leaves x2 m0 m1 l0)
  then have "ms \<noteq> []" by auto
  then show ?case using distribute_depth[of "length p" ms] 2 by auto
next
  case (3 th p ms leaves x2 m0 m1 l0 x l1 e1)
  then have "ms \<noteq> []" by auto
  then show ?case using distribute_depth[of "length p" ms] 3 by auto
qed

declare split_leaf.simps [simp del]

definition add_member :: "string \<Rightarrow> partition_manager \<Rightarrow> partition_manager \<times> py_error option" where
  "add_member a m =
     (case leaf_for a (pm_leaves m) [] 0 of
        Inl e \<Rightarrow> (m, Some e)
      | Inr p \<Rightarrow>
          (let ms = List.insert a (get_or [] (pm_leaves m) p);
               l0 = dict_set p ms (pm_leaves m)
           in if pm_split_threshold m < length ms
              then (let (l1, e) = split_leaf (pm_split_threshold m) p ms l0
                    in (m\<lparr>pm_leaves := l1\<rparr>, e))
              else (m\<lparr>pm_leaves := l0\<rparr>, None)))"

definition sibling :: "string \<Rightarrow> string" where
  "sibling p = butlast p @ (if last p = CHR ''0'' then ''1'' else ''0'')"

function maybe_merge :: "nat \<Rightarrow> string \<Rightarrow> (string, string list) dict \<Rightarrow> (string, string list) dict" where
  "maybe_merge mt p leaves =
     (if p = [] then leaves
      else (case (dict_get leaves p, dict_get leaves (sibling p)) of
              (Some a, Some b) \<Rightarrow>
                if length a + length b < mt
                then maybe_merge mt (butlast p)
                       (dict_set (butlast p) (List.union a b) (dict_del (sibling p) (dict_del p leaves)))
                else leaves
            | _ \<Rightarrow> leaves))"
  by pat_completeness auto
termination
  by (relation "measure (\<lambda>(_, p, _). length p)") auto

declare maybe_merge.simps [simp del]

definition remove_member :: "string \<Rightarrow> partition_manager \<Rightarrow> partition_manager \<times> py_error option" where
  "remove_member a m =
     (case leaf_for a (pm_leaves m) [] 0 of
        Inl e \<Rightarrow> (m, Some e)
      | Inr p \<Rightarrow>
          (let l0 = dict_set p (removeAll a (get_or [] (pm_leaves m) p)) (pm_leaves m)
           in (m\<lparr>pm_leaves := maybe_merge (pm_merge_threshold m) p l0\<rparr>, None)))"

definition leaf_prefixes :: "partition_manager \<Rightarrow> string list" where
  "leaf_prefixes m = sort (dict_keys (pm_leaves m))"

definition leaf_count :: "partition_manager \<Rightarrow> nat" where
  "leaf_count m = length (pm_leaves m)"

definition scope_key :: "(string \<Rightarrow> string) \<Rightarrow> string \<Rightarrow> partition_manager \<Rightarrow> string" where
  "scope_key overlay_id p m =
     overlay_id (if p = [] then pm_base_scope m else pm_base_scope m @ ''#'' @ p)"

definition leaf_scope_keys :: "(string \<Rightarrow> string) \<Rightarrow> partition_manager \<Rightarrow> (string, string) dict" where
  "leaf_scope_keys overlay_id m = map (\<lambda>(p, ms). (p, scope_key overlay_id p m)) (pm_leaves m)"

definition members :: "string \<Rightarrow> partition_manager \<Rightarrow> string list" where
  "members p m = get_or [] (pm_leaves m) p"

definition total_members :: "partition_manager \<Rightarrow> nat" where
  "total_members m = sum_list (map length (dict_values (pm_leaves m)))"

section \<open>The paths of identifiers\<close>

definition path :: "string \<Rightarrow> string" where
  "path a = map (\<lambda>d. case bit_at a d of None \<Rightarrow> CHR ''0'' | Some b \<Rightarrow> b) [0..<256]"

definition word256 :: "string \<Rightarrow> bool" where
  "word256 w = (length w = 256 \<and> set w \<subseteq> {CHR ''0'', CHR ''1''})"

lemma path_word: "word256 (path a)"
  by (auto simp: word256_def path_def bit_at_def split: option.splits if_splits)

lemma bit_at_path: "to_int a \<noteq> None \<Longrightarrow> d < 256 \<Longrightarrow> bit_at a d = Some (path a ! d)"
  by (auto simp: path_def bit_at_def split: option.splits)

text \<open>The leaves are a complete prefix code on 256-bit words: every word has
  exactly one leaf above it.\<close>
definition covers :: "(string, string list) dict \<Rightarrow> bool" where
  "covers l = (\<forall>w. word256 w \<longrightarrow> (\<exists>!p. p \<in> set (dict_keys l) \<and> prefix p w))"

definition binary_keys :: "(string, string list) dict \<Rightarrow> bool" where
  "binary_keys l = (\<forall>p \<in> set (dict_keys l). \<exists>w. word256 w \<and> prefix p w)"

definition placed :: "(string, string list) dict \<Rightarrow> bool" where
  "placed l = (\<forall>(p, ms) \<in> set l. distinct ms \<and> (\<forall>a \<in> set ms. to_int a \<noteq> None \<and> prefix p (path a)))"

definition leaves_ok :: "(string, string list) dict \<Rightarrow> bool" where
  "leaves_ok l = (dict_ok l \<and> covers l \<and> binary_keys l \<and> placed l)"

definition all_members :: "(string, string list) dict \<Rightarrow> string set" where
  "all_members l = (\<Union>(p, ms) \<in> set l. set ms)"

lemma leaf_for_found:
  assumes a: "to_int a \<noteq> None" and c: "covers l"
  shows "\<exists>p. leaf_for a l [] 0 = Inr p \<and> p \<in> set (dict_keys l) \<and> prefix p (path a)"
proof -
  obtain p where p: "p \<in> set (dict_keys l)" "prefix p (path a)"
    and uniq: "\<And>q. q \<in> set (dict_keys l) \<Longrightarrow> prefix q (path a) \<Longrightarrow> q = p"
  proof -
    have "\<exists>!p. p \<in> set (dict_keys l) \<and> prefix p (path a)"
      using c path_word[of a] unfolding covers_def by blast
    then show thesis using that unfolding Ex1_def by blast
  qed
  have len: "length (path a) = 256" using path_word[of a] by (simp add: word256_def)
  have pl: "length p \<le> 256" "take (length p) (path a) = p"
    using prefix_length_le[OF p(2)] len p(2) by (auto simp: prefix_def)
  have "d \<le> length p \<Longrightarrow> leaf_for a l (take d (path a)) d = Inr p" for d
  proof (induction "length p - d" arbitrary: d)
    case 0
    then have "take d (path a) = p" using pl by simp
    moreover have "dict_get l p \<noteq> None" using p(1) by (simp add: map_of_eq_None_iff)
    ultimately show ?case by (subst leaf_for.simps) simp
  next
    case (Suc k)
    then have d: "d < length p" "d < 256" using pl by auto
    have "take d (path a) \<noteq> p" using d len by (metis length_take min.absorb4 less_irrefl)
    then have "take d (path a) \<notin> set (dict_keys l)" using uniq take_is_prefix by blast
    then have none: "dict_get l (take d (path a)) = None" by (simp add: map_of_eq_None_iff)
    have "take d (path a) @ [path a ! d] = take (Suc d) (path a)"
      using d len by (simp add: take_Suc_conv_app_nth)
    then show ?case using Suc none bit_at_path[OF a d(2)] by (subst leaf_for.simps) simp
  qed
  from this[of 0] show ?thesis using p by auto
qed

section \<open>Prefix codes under split and merge\<close>

definition code :: "string set \<Rightarrow> bool" where
  "code K = (\<forall>w. word256 w \<longrightarrow> (\<exists>!p. p \<in> K \<and> prefix p w))"

lemma covers_code: "covers l = code (set (dict_keys l))"
  by (simp add: covers_def code_def)

lemma prefix_snoc_nth: "prefix (p @ [c]) w \<longleftrightarrow> prefix p w \<and> length p < length w \<and> w ! length p = c"
proof
  assume "prefix (p @ [c]) w"
  then show "prefix p w \<and> length p < length w \<and> w ! length p = c" by (auto simp: prefix_def)
next
  assume a: "prefix p w \<and> length p < length w \<and> w ! length p = c"
  then obtain v where v: "w = p @ v" by (auto simp: prefix_def)
  with a show "prefix (p @ [c]) w" by (cases v) (auto simp: prefix_def)
qed

lemma word_bit: "word256 w \<Longrightarrow> i < 256 \<Longrightarrow> w ! i = CHR ''0'' \<or> w ! i = CHR ''1''"
proof -
  assume w: "word256 w" "i < 256"
  then have "w ! i \<in> set w" by (simp add: word256_def)
  then show ?thesis using w(1) unfolding word256_def by blast
qed

lemma code_split:
  assumes K: "code K" and p: "p \<in> K" and len: "length p < 256"
  shows "code (K - {p} \<union> {p @ ''0'', p @ ''1''})"
  unfolding code_def
proof (intro allI impI)
  fix w assume w: "word256 w"
  then obtain q where q: "q \<in> K" "prefix q w" and u: "\<And>r. r \<in> K \<Longrightarrow> prefix r w \<Longrightarrow> r = q"
    using K unfolding code_def by blast
  have lw: "length w = 256" using w by (simp add: word256_def)
  show "\<exists>!r. r \<in> K - {p} \<union> {p @ ''0'', p @ ''1''} \<and> prefix r w"
  proof (cases "q = p")
    case False
    then have np: "\<not> prefix p w" using u p by blast
    then have np': "\<not> prefix (p @ [c]) w" for c by (simp add: prefix_snoc_nth)
    show ?thesis
    proof (rule ex1I[of _ q])
      show "q \<in> K - {p} \<union> {p @ ''0'', p @ ''1''} \<and> prefix q w" using q False by blast
      fix r assume "r \<in> K - {p} \<union> {p @ ''0'', p @ ''1''} \<and> prefix r w"
      then show "r = q" using u np' by blast
    qed
  next
    case True
    then have pw: "prefix (p @ [c]) w \<longleftrightarrow> w ! length p = c" for c
      using q(2) len lw by (simp add: prefix_snoc_nth)
    have other: "\<not> prefix r w" if "r \<in> K - {p}" for r using u True that by blast
    show ?thesis
    proof (rule ex1I[of _ "p @ [w ! length p]"])
      show "p @ [w ! length p] \<in> K - {p} \<union> {p @ ''0'', p @ ''1''} \<and> prefix (p @ [w ! length p]) w"
        using word_bit[OF w len] pw by auto
      fix r assume r: "r \<in> K - {p} \<union> {p @ ''0'', p @ ''1''} \<and> prefix r w"
      then have "r = p @ ''0'' \<or> r = p @ ''1''" using other by blast
      then show "r = p @ [w ! length p]" using r pw by auto
    qed
  qed
qed

lemma code_merge:
  assumes K: "code K" and p: "p @ ''0'' \<in> K" "p @ ''1'' \<in> K" and len: "length p < 256"
  shows "code (K - {p @ ''0'', p @ ''1''} \<union> {p})"
  unfolding code_def
proof (intro allI impI)
  fix w assume w: "word256 w"
  then obtain q where q: "q \<in> K" "prefix q w" and u: "\<And>r. r \<in> K \<Longrightarrow> prefix r w \<Longrightarrow> r = q"
    using K unfolding code_def by blast
  have lw: "length w = 256" using w by (simp add: word256_def)
  show "\<exists>!r. r \<in> K - {p @ ''0'', p @ ''1''} \<union> {p} \<and> prefix r w"
  proof (cases "prefix p w")
    case True
    have "prefix (p @ [c]) w \<longleftrightarrow> w ! length p = c" for c
      using True len lw by (simp add: prefix_snoc_nth)
    then have "q = p @ ''0'' \<or> q = p @ ''1''" using word_bit[OF w len] u p by metis
    then have other: "\<not> prefix r w" if "r \<in> K - {p @ ''0'', p @ ''1''}" for r using u that by blast
    show ?thesis
    proof (rule ex1I[of _ p])
      show "p \<in> K - {p @ ''0'', p @ ''1''} \<union> {p} \<and> prefix p w" using True by blast
      fix r assume "r \<in> K - {p @ ''0'', p @ ''1''} \<union> {p} \<and> prefix r w"
      then show "r = p" using other by blast
    qed
  next
    case False
    then have np': "\<not> prefix (p @ [c]) w" for c by (simp add: prefix_snoc_nth)
    show ?thesis
    proof (rule ex1I[of _ q])
      show "q \<in> K - {p @ ''0'', p @ ''1''} \<union> {p} \<and> prefix q w" using q np' by blast
      fix r assume "r \<in> K - {p @ ''0'', p @ ''1''} \<union> {p} \<and> prefix r w"
      then show "r = q" using u False by blast
    qed
  qed
qed

lemma keys_set: "set (dict_keys (dict_set k v d)) = insert k (set (dict_keys d))"
  by (simp add: dom_update)

lemma keys_del: "set (dict_keys (dict_del k d)) = set (dict_keys d) - {k}"
  by (auto simp: AList.delete_eq)

text \<open>Reading a dictionary with distinct keys entry by entry.\<close>
lemma placed_get:
  "dict_ok l \<Longrightarrow> placed l \<longleftrightarrow>
   (\<forall>p ms. dict_get l p = Some ms \<longrightarrow> distinct ms \<and> (\<forall>a \<in> set ms. to_int a \<noteq> None \<and> prefix p (path a)))"
  by (auto simp: placed_def dict_get_mem)

lemma all_members_get: "dict_ok l \<Longrightarrow> a \<in> all_members l \<longleftrightarrow> (\<exists>p ms. dict_get l p = Some ms \<and> a \<in> set ms)"
  by (auto simp: all_members_def dict_get_mem)

lemma distribute_spec:
  "distribute d ms = Some (m0, m1) \<Longrightarrow>
   set m0 = {a \<in> set ms. bit_at a d = Some (CHR ''0'')} \<and> set m1 = {a \<in> set ms. bit_at a d = Some (CHR ''1'')} \<and>
   (distinct ms \<longrightarrow> distinct m0 \<and> distinct m1)"
proof (induction ms arbitrary: m0 m1)
  case (Cons a ms)
  from Cons.prems obtain b n0 n1 where b: "bit_at a d = Some b" and n: "distribute d ms = Some (n0, n1)"
    by (auto split: option.splits)
  note IH = Cons.IH[OF n]
  have m: "m0 = (if b = CHR ''1'' then n0 else a # n0)" "m1 = (if b = CHR ''1'' then a # n1 else n1)"
    using Cons.prems b n by (cases "b = CHR ''1''"; simp)+
  consider "b = CHR ''0''" | "b = CHR ''1''"
    using b by (auto simp: bit_at_def split: option.splits if_splits)
  then show ?case
  proof cases
    case 1
    then have e: "m0 = a # n0" "m1 = n1" using m by simp_all
    have "set m0 = {x \<in> set (a # ms). bit_at x d = Some (CHR ''0'')}"
      "set m1 = {x \<in> set (a # ms). bit_at x d = Some (CHR ''1'')}"
      unfolding e using IH b 1 by auto
    moreover have "distinct (a # ms) \<longrightarrow> distinct m0 \<and> distinct m1" unfolding e using IH by auto
    ultimately show ?thesis by blast
  next
    case 2
    then have e: "m0 = n0" "m1 = a # n1" using m by simp_all
    have "set m0 = {x \<in> set (a # ms). bit_at x d = Some (CHR ''0'')}"
      "set m1 = {x \<in> set (a # ms). bit_at x d = Some (CHR ''1'')}"
      unfolding e using IH b 2 by auto
    moreover have "distinct (a # ms) \<longrightarrow> distinct m0 \<and> distinct m1" unfolding e using IH by auto
    ultimately show ?thesis by blast
  qed
qed simp

lemma distribute_union:
  "distribute d ms = Some (m0, m1) \<Longrightarrow> set m0 \<union> set m1 = set ms"
  by (induction ms arbitrary: m0 m1) (auto split: option.splits if_splits)

definition sized :: "nat \<Rightarrow> string set \<Rightarrow> (string, string list) dict \<Rightarrow> bool" where
  "sized th except l = (\<forall>p ms. dict_get l p = Some ms \<longrightarrow> p \<notin> except \<longrightarrow> length ms \<le> th)"

lemma leaf_children_new:
  assumes "covers l" "p \<in> set (dict_keys l)" "binary_keys l" "length p < 256"
  shows "p @ ''0'' \<notin> set (dict_keys l)" "p @ ''1'' \<notin> set (dict_keys l)"
proof -
  have "p @ [c] \<notin> set (dict_keys l)" for c
  proof
    assume c: "p @ [c] \<in> set (dict_keys l)"
    then obtain w where w: "word256 w" "prefix (p @ [c]) w" using assms(3) by (auto simp: binary_keys_def)
    then have "prefix p w" by (simp add: prefix_snoc_nth)
    moreover have "\<exists>!q. q \<in> set (dict_keys l) \<and> prefix q w" using assms(1) w(1) unfolding covers_def by blast
    ultimately have "p @ [c] = p" using assms(2) c w(2) by blast
    then show False by simp
  qed
  then show "p @ ''0'' \<notin> set (dict_keys l)" "p @ ''1'' \<notin> set (dict_keys l)" by auto
qed

lemma split_once_ok:
  assumes ok: "leaves_ok l" and p: "dict_get l p = Some ms" "ms \<noteq> []"
    and d: "distribute (length p) ms = Some (m0, m1)"
  defines "l' \<equiv> split_once p m0 m1 l"
  shows "leaves_ok l'" "all_members l' = all_members l"
    and "dict_get l' (p @ ''0'') = Some m0" "dict_get l' (p @ ''1'') = Some m1"
    and "sized th {p} l \<Longrightarrow> sized th {p @ ''0'', p @ ''1''} l'"
proof -
  have dok: "dict_ok l" and cov: "covers l" and bin: "binary_keys l" and pl: "placed l"
    using ok by (auto simp: leaves_ok_def)
  have len: "length p < 256" using distribute_depth[OF d p(2)] by simp
  have pk: "p \<in> set (dict_keys l)" using p(1) by (force dest: map_of_SomeD)
  note new = leaf_children_new[OF cov pk bin len]
  have keys: "set (dict_keys l') = set (dict_keys l) - {p} \<union> {p @ ''0'', p @ ''1''}"
    unfolding l'_def split_once_def keys_set keys_del by auto
  have get: "dict_get l' q = (if q = p @ ''1'' then Some m1 else if q = p @ ''0'' then Some m0
      else if q = p then None else dict_get l q)" for q
    by (simp add: l'_def split_once_def)
  show "dict_get l' (p @ ''0'') = Some m0" "dict_get l' (p @ ''1'') = Some m1"
    by (simp_all add: get)
  have dok': "dict_ok l'" using dok by (simp add: l'_def split_once_def)
  note ds = distribute_spec[OF d]
  have "distinct ms \<and> (\<forall>a \<in> set ms. to_int a \<noteq> None \<and> prefix p (path a))"
    using pl p(1) unfolding placed_get[OF dok] by blast
  then have mem: "\<forall>a \<in> set ms. to_int a \<noteq> None \<and> prefix p (path a)" "distinct ms" by blast+
  have child: "to_int a \<noteq> None \<and> prefix (p @ [c]) (path a)"
    if "a \<in> set ms" "bit_at a (length p) = Some c" for a c
    using that mem(1) len bit_at_path[of a "length p"] path_word[of a]
    by (auto simp: prefix_snoc_nth word256_def)
  have "placed l'"
    unfolding placed_get[OF dok']
  proof (intro allI impI)
    fix q qs assume "dict_get l' q = Some qs"
    then consider "q = p @ ''1''" "qs = m1" | "q = p @ ''0''" "qs = m0" | "dict_get l q = Some qs"
      using get[of q] by (metis option.inject option.distinct(1))
    then show "distinct qs \<and> (\<forall>a \<in> set qs. to_int a \<noteq> None \<and> prefix q (path a))"
    proof cases
      case 3
      then show ?thesis using pl unfolding placed_get[OF dok] by blast
    qed (use ds mem(2) child in blast)+
  qed
  moreover have "covers l'" unfolding covers_code keys by (rule code_split) (use cov pk len in \<open>auto simp: covers_code\<close>)
  moreover have "binary_keys l'"
  proof -
    obtain w where w: "word256 w" "prefix p w" using bin pk by (auto simp: binary_keys_def)
    have "word256 (p @ c # replicate (255 - length p) (CHR ''0''))" if "c \<in> {CHR ''0'', CHR ''1''}" for c
      using w that len by (auto simp: word256_def prefix_def)
    moreover have "prefix (p @ [c]) (p @ c # v)" for c v by (simp add: prefix_def)
    ultimately have ex: "\<exists>w. word256 w \<and> prefix (p @ [c]) w" if "c = CHR ''0'' \<or> c = CHR ''1''" for c
      using that by (intro exI[of _ "p @ c # replicate (255 - length p) (CHR ''0'')"]) simp
    show ?thesis
      unfolding binary_keys_def keys
    proof
      fix q assume "q \<in> set (dict_keys l) - {p} \<union> {p @ ''0'', p @ ''1''}"
      then show "\<exists>w. word256 w \<and> prefix q w"
        using ex bin unfolding binary_keys_def by blast
    qed
  qed
  ultimately show "leaves_ok l'" using dok' by (simp add: leaves_ok_def)
  show "all_members l' = all_members l"
  proof -
    have n: "dict_get l (p @ ''0'') = None" "dict_get l (p @ ''1'') = None"
      using new by (simp_all add: map_of_eq_None_iff)
    have "a \<in> all_members l' \<longleftrightarrow> a \<in> all_members l" for a
    proof
      assume "a \<in> all_members l'"
      then obtain q qs where q: "dict_get l' q = Some qs" "a \<in> set qs"
        unfolding all_members_get[OF dok'] by blast
      then consider "qs = m1" | "qs = m0" | "dict_get l q = Some qs"
        using get[of q] by (metis option.inject option.distinct(1))
      then show "a \<in> all_members l"
        unfolding all_members_get[OF dok] using q(2) p(1) distribute_union[OF d] by cases blast+
    next
      assume "a \<in> all_members l"
      then obtain q qs where q: "dict_get l q = Some qs" "a \<in> set qs"
        unfolding all_members_get[OF dok] by blast
      show "a \<in> all_members l'"
      proof (cases "q = p")
        case True
        then have "a \<in> set m0 \<or> a \<in> set m1" using q p(1) distribute_union[OF d] by auto
        then show ?thesis
          unfolding all_members_get[OF dok']
          using \<open>dict_get l' (p @ ''0'') = Some m0\<close> \<open>dict_get l' (p @ ''1'') = Some m1\<close> by blast
      next
        case False
        then have "dict_get l' q = Some qs" using q(1) n get[of q] by (metis option.distinct(1))
        then show ?thesis unfolding all_members_get[OF dok'] using q(2) by blast
      qed
    qed
    then show ?thesis by blast
  qed
  show "sized th {p} l \<Longrightarrow> sized th {p @ ''0'', p @ ''1''} l'"
    unfolding sized_def by (metis get insertI1 insertI2 option.distinct(1) singletonD)
qed

section \<open>Splitting, merging and the member operations\<close>

lemma length_pos: "th < length m \<Longrightarrow> m \<noteq> []"
  by auto

lemma split_leaf_ok:
  "leaves_ok l \<Longrightarrow> dict_get l p = Some ms \<Longrightarrow> th < length ms \<Longrightarrow> X \<inter> {q. prefix p q} = {} \<Longrightarrow>
   sized th (insert p X) l \<Longrightarrow> split_leaf th p ms l = (l', e) \<Longrightarrow>
   leaves_ok l' \<and> all_members l' = all_members l \<and> (e = None \<longrightarrow> sized th X l') \<and>
   (\<forall>q. \<not> prefix p q \<longrightarrow> dict_get l' q = dict_get l q)"
proof (induction th p ms l arbitrary: X l' e rule: split_leaf.induct)
  case (1 th p ms l)
  show ?case
  proof (cases "distribute (length p) ms")
    case None
    then have "l' = l" "e = Some ValueError" using 1(8) by (simp_all add: split_leaf.simps)
    then show ?thesis using 1(3) by simp
  next
    case (Some r)
    obtain m0 m1 where d: "distribute (length p) ms = Some (m0, m1)" using Some by (cases r) auto
    define l0 where "l0 = split_once p m0 m1 l"
    have ms: "ms \<noteq> []" using 1(5) by auto
    note so = split_once_ok[OF 1(3,4) ms d, folded l0_def]
    have sz0: "sized th (insert (p @ ''0'') (insert (p @ ''1'') X)) l0"
      using 1(7) unfolding sized_def
      by (auto simp: l0_def split_once_def split: if_splits)
    have fr0: "\<not> prefix p q \<Longrightarrow> dict_get l0 q = dict_get l q" for q
      by (auto simp: l0_def split_once_def)
    define r0 where "r0 = (if th < length m0 then split_leaf th (p @ ''0'') m0 l0 else (l0, None))"
    obtain l1 e1 where r0: "r0 = (l1, e1)" by (cases r0)
    have X0: "insert (p @ ''1'') X \<inter> {q. prefix (p @ ''0'') q} = {}"
      "X \<inter> {q. prefix (p @ ''1'') q} = {}"
      using 1(6) append_prefixD by (fastforce simp: prefix_def)+
    have s1: "leaves_ok l1 \<and> all_members l1 = all_members l \<and>
        (e1 = None \<longrightarrow> sized th (insert (p @ ''1'') X) l1) \<and>
        (\<forall>q. \<not> prefix (p @ ''0'') q \<longrightarrow> dict_get l1 q = dict_get l0 q)"
    proof (cases "th < length m0")
      case True
      have "split_leaf th (p @ ''0'') m0 l0 = (l1, e1)" using True r0 by (simp add: r0_def)
      from 1(1)[OF d refl l0_def True so(1,3) True X0(1) sz0 this]
      show ?thesis using so(2) by simp
    next
      case False
      then have "l1 = l0" "e1 = None" using r0 by (simp_all add: r0_def)
      moreover have "sized th (insert (p @ ''1'') X) l0"
        using sz0 so(3) False unfolding sized_def by (metis insert_iff not_less option.inject)
      ultimately show ?thesis using so by simp
    qed
    have step: "split_leaf th p ms l =
        (if e1 \<noteq> None then (l1, e1)
         else if th < length m1 then split_leaf th (p @ ''1'') m1 l1 else (l1, None))"
      unfolding split_leaf.simps[of th p ms l] d option.case prod.case Let_def l0_def[symmetric]
        r0_def[symmetric] r0 ..
    have g1: "dict_get l1 (p @ ''1'') = Some m1"
      using s1 so(4) by (simp add: prefix_def)
    have fr1: "\<not> prefix p q \<Longrightarrow> dict_get l1 q = dict_get l q" for q
      using s1 fr0 append_prefixD by metis
    show ?thesis
    proof (cases "e1 = None \<and> th < length m1")
      case True
      then have sl: "split_leaf th (p @ ''1'') m1 l1 = (l', e)" using step 1(8) by simp
      have "leaves_ok l' \<and> all_members l' = all_members l1 \<and> (e = None \<longrightarrow> sized th X l') \<and>
          (\<forall>q. \<not> prefix (p @ ''1'') q \<longrightarrow> dict_get l' q = dict_get l1 q)"
        by (rule 1(2)[OF d refl l0_def r0[unfolded r0_def, symmetric] refl])
           (use True s1 g1 X0 sl in auto)
      then show ?thesis using s1 fr1 append_prefixD by metis
    next
      case False
      then have "l' = l1" "e = None \<Longrightarrow> e1 = None \<and> \<not> th < length m1"
        using step 1(8) by (auto split: if_splits)
      moreover have "sized th X l1" if "e1 = None" "\<not> th < length m1"
        using s1 g1 that unfolding sized_def by (metis insert_iff not_less option.inject)
      ultimately show ?thesis using s1 fr1 by blast
    qed
  qed
qed

lemma binary_key_shape:
  assumes "binary_keys l" "p \<in> set (dict_keys l)"
  shows "length p \<le> 256" "p \<noteq> [] \<Longrightarrow> last p = CHR ''0'' \<or> last p = CHR ''1''"
proof -
  obtain w where w: "word256 w" "prefix p w" using assms by (auto simp: binary_keys_def)
  show "length p \<le> 256" using w prefix_length_le[OF w(2)] by (simp add: word256_def)
  assume "p \<noteq> []"
  then have "last p \<in> set p" by simp
  moreover have "set p \<subseteq> set w" using w(2) by (auto simp: prefix_def)
  ultimately show "last p = CHR ''0'' \<or> last p = CHR ''1''" using w(1) by (auto simp: word256_def)
qed

lemma sibling_pair:
  assumes "p \<noteq> []" "last p = CHR ''0'' \<or> last p = CHR ''1''"
  shows "{p, sibling p} = {butlast p @ ''0'', butlast p @ ''1''}"
proof -
  have "p = butlast p @ [last p]" using assms(1) by simp
  then have e: "\<And>c. last p = c \<Longrightarrow> p = butlast p @ [c]" by metis
  from assms(2) show ?thesis
  proof
    assume l: "last p = CHR ''0''"
    then have "sibling p = butlast p @ ''1''" by (simp add: sibling_def)
    then show ?thesis using e[OF l] by auto
  next
    assume l: "last p = CHR ''1''"
    then have "sibling p = butlast p @ ''0''" by (simp add: sibling_def)
    then show ?thesis using e[OF l] by auto
  qed
qed

lemma merge_once_ok:
  assumes ok: "leaves_ok l" and sz: "sized th {} l" and p: "p \<noteq> []"
    and a: "dict_get l p = Some a" and b: "dict_get l (sibling p) = Some b"
    and small: "length a + length b \<le> th"
  defines "l' \<equiv> dict_set (butlast p) (List.union a b) (dict_del (sibling p) (dict_del p l))"
  shows "leaves_ok l' \<and> all_members l' = all_members l \<and> sized th {} l'"
proof -
  let ?q = "butlast p"
  have dok: "dict_ok l" and cov: "covers l" and bin: "binary_keys l" and pl: "placed l"
    using ok by (auto simp: leaves_ok_def)
  have keys: "p \<in> set (dict_keys l)" "sibling p \<in> set (dict_keys l)"
    using a b by (force dest: map_of_SomeD)+
  note shape = binary_key_shape[OF bin keys(1)]
  have pair: "{p, sibling p} = {?q @ ''0'', ?q @ ''1''}" using sibling_pair[OF p shape(2)[OF p]] .
  have len: "length ?q < 256" using shape(1) p by (cases p) auto
  have dok': "dict_ok l'" using dok by (simp add: l'_def)
  have ks: "set (dict_keys l') = set (dict_keys l) - {?q @ ''0'', ?q @ ''1''} \<union> {?q}"
    unfolding pair[symmetric] l'_def keys_set keys_del by auto
  have qp: "prefix ?q p" "prefix ?q (sibling p)" by (simp_all add: sibling_def prefixeq_butlast)
  have get: "dict_get l' r = (if r = ?q then Some (List.union a b) else if r = sibling p then None
      else if r = p then None else dict_get l r)" for r
    by (simp add: l'_def)
  have pls: "distinct ms \<and> (\<forall>x \<in> set ms. to_int x \<noteq> None \<and> prefix r (path x))"
    if "dict_get l r = Some ms" for r ms
    using pl that unfolding placed_get[OF dok] by blast
  have "placed l'"
    unfolding placed_get[OF dok']
  proof (intro allI impI)
    fix r ms assume "dict_get l' r = Some ms"
    then consider "r = ?q" "ms = List.union a b" | "dict_get l r = Some ms"
      using get[of r] by (metis option.inject option.distinct(1))
    then show "distinct ms \<and> (\<forall>x \<in> set ms. to_int x \<noteq> None \<and> prefix r (path x))"
    proof cases
      case 1
      have "distinct (List.union a b)" using pls[OF b] by (simp add: distinct_union)
      moreover have "to_int x \<noteq> None \<and> prefix ?q (path x)" if "x \<in> set (List.union a b)" for x
        using that pls[OF a] pls[OF b] prefix_order.trans[OF qp(1)] prefix_order.trans[OF qp(2)]
        by (auto simp: set_union)
      ultimately show ?thesis using 1 by blast
    qed (rule pls)
  qed
  moreover have "covers l'"
    unfolding covers_code ks
  proof (rule code_merge)
    have "{?q @ ''0'', ?q @ ''1''} \<subseteq> set (dict_keys l)" unfolding pair[symmetric] using keys by blast
    then show "?q @ ''0'' \<in> set (dict_keys l)" "?q @ ''1'' \<in> set (dict_keys l)" by blast+
  qed (use cov len in \<open>simp_all add: covers_code\<close>)
  moreover have "binary_keys l'"
    unfolding binary_keys_def ks
  proof
    fix r assume "r \<in> set (dict_keys l) - {?q @ ''0'', ?q @ ''1''} \<union> {?q}"
    then show "\<exists>w. word256 w \<and> prefix r w"
      using bin keys(1) qp(1) prefix_order.trans[of ?q p] unfolding binary_keys_def by blast
  qed
  moreover have "all_members l' = all_members l"
  proof -
    have "x \<in> all_members l' \<longleftrightarrow> x \<in> all_members l" for x
    proof
      assume "x \<in> all_members l'"
      then obtain r ms where r: "dict_get l' r = Some ms" "x \<in> set ms"
        unfolding all_members_get[OF dok'] by blast
      then consider "ms = List.union a b" | "dict_get l r = Some ms"
        using get[of r] by (metis option.inject option.distinct(1))
      then show "x \<in> all_members l"
        unfolding all_members_get[OF dok] using r(2) a b by cases (auto simp: set_union)
    next
      assume "x \<in> all_members l"
      then obtain r ms where r: "dict_get l r = Some ms" "x \<in> set ms"
        unfolding all_members_get[OF dok] by blast
      have "?q \<noteq> r"
      proof
        assume "?q = r"
        then have "?q \<in> set (dict_keys l)" using r(1) by (force dest: map_of_SomeD)
        note no = leaf_children_new[OF cov this bin len]
        have "p \<in> {?q @ ''0'', ?q @ ''1''}" unfolding pair[symmetric] by blast
        then consider "p = ?q @ ''0''" | "p = ?q @ ''1''" by blast
        then show False using no keys(1) by cases metis+
      qed
      show "x \<in> all_members l'"
      proof (cases "r = p \<or> r = sibling p")
        case True
        then have "x \<in> set (List.union a b)" using r a b by (auto simp: set_union)
        moreover have "dict_get l' ?q = Some (List.union a b)" using get[of ?q] by simp
        ultimately show ?thesis unfolding all_members_get[OF dok'] by blast
      next
        case False
        then have "dict_get l' r = Some ms" using get[of r] r(1) \<open>?q \<noteq> r\<close> by simp
        then show ?thesis unfolding all_members_get[OF dok'] using r(2) by blast
      qed
    qed
    then show ?thesis by blast
  qed
  moreover have "sized th {} l'"
  proof -
    have "distinct (List.union a b)" using pls[OF b] by (simp add: distinct_union)
    then have "length (List.union a b) = card (set (List.union a b))" by (rule distinct_card[symmetric])
    also have "\<dots> \<le> length a + length b"
      by (metis set_union card_Un_le card_length add_mono order_trans)
    finally show ?thesis using sz small unfolding sized_def by (simp add: get)
  qed
  ultimately show ?thesis using dok' by (simp add: leaves_ok_def)
qed

lemma maybe_merge_ok:
  "leaves_ok l \<Longrightarrow> sized th {} l \<Longrightarrow> mt \<le> th \<Longrightarrow>
   leaves_ok (maybe_merge mt p l) \<and> all_members (maybe_merge mt p l) = all_members l \<and>
   sized th {} (maybe_merge mt p l)"
proof (induction mt p l rule: maybe_merge.induct)
  case (1 mt p l)
  show ?case
  proof (cases "\<exists>a b. p \<noteq> [] \<and> dict_get l p = Some a \<and> dict_get l (sibling p) = Some b \<and>
      length a + length b < mt")
    case True
    then obtain a b where ab: "p \<noteq> []" "dict_get l p = Some a" "dict_get l (sibling p) = Some b"
      "length a + length b < mt" by blast
    have "length a + length b \<le> th" using ab(4) 1(4) by simp
    note m = merge_once_ok[OF 1(2,3) ab(1-3) this]
    show ?thesis
      using 1(1)[OF ab(1) refl ab(2) ab(3) ab(4)] m 1(4)
      by (subst (1 2 3) maybe_merge.simps) (simp add: ab)
  next
    case False
    then have "maybe_merge mt p l = l"
      by (subst maybe_merge.simps) (auto split: option.splits)
    then show ?thesis using 1 by simp
  qed
qed

section \<open>Runs of joins and leaves\<close>

datatype member_event = Join string | Leave string

fun pm_apply :: "member_event \<Rightarrow> partition_manager \<Rightarrow> partition_manager \<times> py_error option" where
  "pm_apply (Join a) m = add_member a m" |
  "pm_apply (Leave a) m = remove_member a m"

fun pm_run :: "member_event list \<Rightarrow> partition_manager \<Rightarrow> partition_manager \<times> py_error option list" where
  "pm_run [] m = (m, [])" |
  "pm_run (e # es) m =
     (let (m1, err) = pm_apply e m; (m2, errs) = pm_run es m1 in (m2, err # errs))"

fun joined :: "member_event list \<Rightarrow> string set \<Rightarrow> string set" where
  "joined [] s = s" |
  "joined (Join a # es) s = joined es (insert a s)" |
  "joined (Leave a # es) s = joined es (s - {a})"

fun event_id :: "member_event \<Rightarrow> string" where
  "event_id (Join a) = a" |
  "event_id (Leave a) = a"

definition manager_ok :: "partition_manager \<Rightarrow> bool" where
  "manager_ok m = (leaves_ok (pm_leaves m) \<and> pm_merge_threshold m \<le> pm_split_threshold m)"

lemma leaves_ok_set:
  assumes ok: "leaves_ok l" and p: "dict_get l p = Some ms"
    and new: "distinct ms'" "\<forall>a \<in> set ms'. to_int a \<noteq> None \<and> prefix p (path a)"
  shows "leaves_ok (dict_set p ms' l)"
proof -
  have dok: "dict_ok l" "dict_ok (dict_set p ms' l)" using ok by (auto simp: leaves_ok_def)
  have keys: "set (dict_keys (dict_set p ms' l)) = set (dict_keys l)"
    unfolding keys_set using p by (force dest: map_of_SomeD)
  have "placed (dict_set p ms' l)"
    using ok new unfolding leaves_ok_def placed_get[OF dok(1)] placed_get[OF dok(2)] by auto
  then show ?thesis using ok dok keys by (simp add: leaves_ok_def covers_def binary_keys_def)
qed

lemma leaf_members:
  assumes "leaves_ok l" "dict_get l p = Some ms"
  shows "distinct ms \<and> (\<forall>a \<in> set ms. to_int a \<noteq> None \<and> prefix p (path a))"
  using assms placed_get[of l] unfolding leaves_ok_def by blast

lemma one_leaf:
  assumes "leaves_ok l" "dict_get l p = Some ms" "a \<in> set ms" "q \<in> set (dict_keys l)" "prefix q (path a)"
  shows "q = p"
proof -
  have "prefix p (path a)" using leaf_members[OF assms(1,2)] assms(3) by blast
  moreover have "p \<in> set (dict_keys l)" using assms(2) by (force dest: map_of_SomeD)
  moreover have "\<exists>!r. r \<in> set (dict_keys l) \<and> prefix r (path a)"
    using assms(1) path_word unfolding leaves_ok_def covers_def by blast
  ultimately show ?thesis using assms(4,5) by blast
qed

lemma set_members:
  assumes "dict_ok l" "dict_get l p = Some ms"
  shows "x \<in> all_members (dict_set p ms' l) \<longleftrightarrow>
    x \<in> set ms' \<or> (\<exists>q qs. q \<noteq> p \<and> dict_get l q = Some qs \<and> x \<in> set qs)"
  using all_members_get[of "dict_set p ms' l" x] assms by auto

lemma leaf_for_leaf:
  assumes "leaves_ok l" "to_int a \<noteq> None"
  obtains p ms where "leaf_for a l [] 0 = Inr p" "dict_get l p = Some ms" "prefix p (path a)"
    "\<And>q qs. dict_get l q = Some qs \<Longrightarrow> a \<in> set qs \<Longrightarrow> q = p"
proof -
  obtain p where p: "leaf_for a l [] 0 = Inr p" "p \<in> set (dict_keys l)" "prefix p (path a)"
    using leaf_for_found[OF assms(2), of l] assms(1) by (auto simp: leaves_ok_def)
  then obtain ms where "dict_get l p = Some ms" by (metis map_of_eq_None_iff option.exhaust set_map)
  moreover have "q = p" if "dict_get l q = Some qs" "a \<in> set qs" for q qs
    using one_leaf[OF assms(1) that p(2,3)] by simp
  ultimately show ?thesis using that p by blast
qed

lemma add_member_ok:
  assumes ok: "manager_ok m" and a: "to_int a \<noteq> None" and r: "add_member a m = (m', e)"
  shows "manager_ok m' \<and> all_members (pm_leaves m') = insert a (all_members (pm_leaves m)) \<and>
    (sized (pm_split_threshold m) {} (pm_leaves m) \<longrightarrow> e = None \<longrightarrow>
       sized (pm_split_threshold m) {} (pm_leaves m')) \<and>
    pm_split_threshold m' = pm_split_threshold m \<and> pm_merge_threshold m' = pm_merge_threshold m"
proof -
  let ?l = "pm_leaves m" and ?th = "pm_split_threshold m"
  have lok: "leaves_ok ?l" using ok by (simp add: manager_ok_def)
  then have dok: "dict_ok ?l" by (simp add: leaves_ok_def)
  obtain p ms where p: "leaf_for a ?l [] 0 = Inr p" "dict_get ?l p = Some ms" "prefix p (path a)"
    by (rule leaf_for_leaf[OF lok a])
  define ms' where "ms' = List.insert a ms"
  define l0 where "l0 = dict_set p ms' ?l"
  have ms': "get_or [] ?l p = ms" "set ms' = insert a (set ms)" using p(2) by (simp_all add: get_or_def ms'_def)
  note lm = leaf_members[OF lok p(2)]
  have l0: "leaves_ok l0" unfolding l0_def
    by (rule leaves_ok_set[OF lok p(2)]) (use lm a p(3) in \<open>auto simp: ms'_def\<close>)
  have mem: "all_members l0 = insert a (all_members ?l)"
  proof -
    have "x \<in> all_members l0 \<longleftrightarrow> x \<in> insert a (all_members ?l)" for x
      unfolding l0_def set_members[OF dok p(2)] ms'(2) insert_iff all_members_get[OF dok]
      using p(2) by (metis option.inject)
    then show ?thesis by blast
  qed
  have sz: "sized ?th {} ?l \<Longrightarrow> sized ?th {p} l0" by (simp add: sized_def l0_def)
  have get0: "dict_get l0 p = Some ms'" by (simp add: l0_def)
  show ?thesis
  proof (cases "?th < length ms'")
    case True
    obtain l1 e1 where s: "split_leaf ?th p ms' l0 = (l1, e1)" by (cases "split_leaf ?th p ms' l0")
    have m': "m' = m\<lparr>pm_leaves := l1\<rparr>" "e = e1"
      using r p(1) ms'(1) True s by (simp_all add: add_member_def Let_def ms'_def l0_def)
    have "sized ?th {p} l0 \<Longrightarrow> leaves_ok l1 \<and> all_members l1 = all_members l0 \<and> (e1 = None \<longrightarrow> sized ?th {} l1)"
      using split_leaf_ok[OF l0 get0 True _ _ s, of "{}"] by simp
    moreover have "leaves_ok l1 \<and> all_members l1 = all_members l0"
    proof -
      define X where "X = {q. \<not> prefix p q}"
      have "sized ?th (insert p X) l0"
      proof -
        have "length qs \<le> ?th" if "dict_get l0 q = Some qs" "q \<noteq> p" "prefix p q" for q qs
        proof -
          have "q \<in> set (dict_keys l0)" "p \<in> set (dict_keys l0)"
            using that(1) get0 by (force dest: map_of_SomeD)+
          moreover obtain w where "word256 w" "prefix q w"
            using l0 \<open>q \<in> set (dict_keys l0)\<close> by (auto simp: leaves_ok_def binary_keys_def)
          moreover have "\<exists>!r. r \<in> set (dict_keys l0) \<and> prefix r w"
            using l0 \<open>word256 w\<close> unfolding leaves_ok_def covers_def by blast
          ultimately have "q = p" using prefix_order.trans[OF that(3)] by blast
          then show ?thesis using that(2) by simp
        qed
        then show ?thesis unfolding sized_def X_def by auto
      qed
      then show ?thesis using split_leaf_ok[OF l0 get0 True _ _ s, of X] by (simp add: X_def disjoint_iff)
    qed
    ultimately show ?thesis using ok mem sz m' by (auto simp: manager_ok_def)
  next
    case False
    have m': "m' = m\<lparr>pm_leaves := l0\<rparr>" "e = None"
      using r p(1) ms'(1) False by (simp_all add: add_member_def Let_def ms'_def l0_def)
    have "sized ?th {} l0" if "sized ?th {} ?l"
      using that False unfolding sized_def by (simp add: l0_def)
    then show ?thesis using ok mem m' l0 by (simp add: manager_ok_def)
  qed
qed

lemma remove_member_ok:
  assumes ok: "manager_ok m" and a: "to_int a \<noteq> None" and sz: "sized (pm_split_threshold m) {} (pm_leaves m)"
    and r: "remove_member a m = (m', e)"
  shows "manager_ok m' \<and> all_members (pm_leaves m') = all_members (pm_leaves m) - {a} \<and>
    sized (pm_split_threshold m) {} (pm_leaves m') \<and> e = None \<and>
    pm_split_threshold m' = pm_split_threshold m \<and> pm_merge_threshold m' = pm_merge_threshold m"
proof -
  let ?l = "pm_leaves m" and ?th = "pm_split_threshold m" and ?mt = "pm_merge_threshold m"
  have lok: "leaves_ok ?l" and mt: "?mt \<le> ?th" using ok by (simp_all add: manager_ok_def)
  then have dok: "dict_ok ?l" by (simp add: leaves_ok_def)
  obtain p ms where p: "leaf_for a ?l [] 0 = Inr p" "dict_get ?l p = Some ms"
    and only: "\<And>q qs. dict_get ?l q = Some qs \<Longrightarrow> a \<in> set qs \<Longrightarrow> q = p"
    by (rule leaf_for_leaf[OF lok a]) blast
  define l0 where "l0 = dict_set p (removeAll a ms) ?l"
  have g: "get_or [] ?l p = ms" using p(2) by (simp add: get_or_def)
  note lm = leaf_members[OF lok p(2)]
  have l0: "leaves_ok l0" unfolding l0_def
    by (rule leaves_ok_set[OF lok p(2)]) (use lm in \<open>auto simp: distinct_removeAll\<close>)
  have mem: "all_members l0 = all_members ?l - {a}"
  proof -
    have "x \<in> all_members l0 \<longleftrightarrow> x \<in> all_members ?l - {a}" for x
      unfolding l0_def set_members[OF dok p(2)] Diff_iff all_members_get[OF dok] set_removeAll
      using p(2) only by (metis option.inject singleton_iff)
    then show ?thesis by blast
  qed
  have "length (removeAll a ms) \<le> length ms" by (rule length_removeAll_less_eq)
  also have "length ms \<le> ?th" using sz p(2) unfolding sized_def by blast
  finally have "sized ?th {} l0" using sz unfolding sized_def l0_def by simp
  note mm = maybe_merge_ok[OF l0 this mt, of p]
  have "m' = m\<lparr>pm_leaves := maybe_merge ?mt p l0\<rparr>" "e = None"
    using r p(1) g by (simp_all add: remove_member_def Let_def l0_def)
  then show ?thesis using mm ok mem by (simp add: manager_ok_def)
qed

definition bounded_leaves :: "partition_manager \<Rightarrow> bool" where
  "bounded_leaves m = sized (pm_split_threshold m) {} (pm_leaves m)"

lemma pm_run_ok:
  "manager_ok m \<Longrightarrow> bounded_leaves m \<Longrightarrow> list_all (\<lambda>e. to_int (event_id e) \<noteq> None) es \<Longrightarrow>
   pm_run es m = (m', errs) \<Longrightarrow> list_all (\<lambda>e. e = None) errs \<Longrightarrow>
   manager_ok m' \<and> bounded_leaves m' \<and> pm_split_threshold m' = pm_split_threshold m \<and>
   all_members (pm_leaves m') = joined es (all_members (pm_leaves m))"
proof (induction es arbitrary: m errs)
  case Nil
  then show ?case by simp
next
  case (Cons ev es)
  obtain m1 err where s: "pm_apply ev m = (m1, err)" by (cases "pm_apply ev m")
  obtain m2 errs2 where t: "pm_run es m1 = (m2, errs2)" by (cases "pm_run es m1")
  have r: "m' = m2" "errs = err # errs2" using Cons.prems(4) s t by simp_all
  have step: "manager_ok m1 \<and> bounded_leaves m1 \<and> pm_split_threshold m1 = pm_split_threshold m \<and>
      joined es (all_members (pm_leaves m1)) = joined (ev # es) (all_members (pm_leaves m))"
  proof (cases ev)
    case (Join a)
    then show ?thesis
      using add_member_ok[OF Cons.prems(1) _ s[unfolded Join pm_apply.simps]] Cons.prems(2,3,5) r
      by (simp add: bounded_leaves_def)
  next
    case (Leave a)
    then show ?thesis
      using remove_member_ok[OF Cons.prems(1) _ _ s[unfolded Leave pm_apply.simps]] Cons.prems(2,3) r
      by (simp add: bounded_leaves_def)
  qed
  show ?case using Cons.IH[of m1 errs2] t step Cons.prems(3,5) r by simp
qed

lemma initial_covers: "covers [([], [])]"
  unfolding covers_def by (auto intro!: ex1I[of _ "[]"])

lemma initial_ok:
  assumes "new_manager base st mt = Inr m"
  shows "manager_ok m \<and> bounded_leaves m \<and> pm_split_threshold m = st \<and> all_members (pm_leaves m) = {}"
proof -
  have "word256 (replicate 256 (CHR ''0''))" by (simp add: word256_def)
  then have b: "binary_keys [([], [])]" by (auto simp: binary_keys_def)
  show ?thesis using assms initial_covers b
    by (auto simp: new_manager_def manager_ok_def leaves_ok_def placed_def bounded_leaves_def sized_def
        all_members_def split: if_splits)
qed

text \<open>The leaves always partition the members.  After any joins and leaves of
  parseable identifiers none of which raised, every 256-bit word lies under exactly
  one leaf, the members held are exactly the agents that joined and did not leave,
  each of them is in one leaf, the one its bits lead to, and no leaf holds more members
  than the split threshold.\<close>
theorem partition_invariant:
  assumes "new_manager base st mt = Inr m" "list_all (\<lambda>e. to_int (event_id e) \<noteq> None) es"
    and "pm_run es m = (m', errs)" "list_all (\<lambda>e. e = None) errs"
  shows "(\<forall>w. word256 w \<longrightarrow> (\<exists>!p. p \<in> set (leaf_prefixes m') \<and> prefix p w)) \<and>
    all_members (pm_leaves m') = joined es {} \<and>
    (\<forall>a \<in> joined es {}. \<exists>p. leaf_for a (pm_leaves m') [] 0 = Inr p \<and>
       (\<forall>q. a \<in> set (members q m') \<longleftrightarrow> q = p)) \<and>
    (\<forall>p. length (members p m') \<le> st)"
proof -
  note i = initial_ok[OF assms(1)]
  have r: "manager_ok m'" "bounded_leaves m'" "pm_split_threshold m' = st" "all_members (pm_leaves m') = joined es {}"
    using pm_run_ok[OF _ _ assms(2,3,4)] i by simp_all
  have lok: "leaves_ok (pm_leaves m')" using r(1) by (simp add: manager_ok_def)
  then have dok: "dict_ok (pm_leaves m')" by (simp add: leaves_ok_def)
  have 1: "\<forall>w. word256 w \<longrightarrow> (\<exists>!p. p \<in> set (leaf_prefixes m') \<and> prefix p w)"
    using lok by (simp add: leaves_ok_def covers_def leaf_prefixes_def)
  have 2: "\<exists>p. leaf_for a (pm_leaves m') [] 0 = Inr p \<and> (\<forall>q. a \<in> set (members q m') \<longleftrightarrow> q = p)"
    if a: "a \<in> joined es {}" for a
  proof -
    obtain q qs where q: "dict_get (pm_leaves m') q = Some qs" "a \<in> set qs"
      using a r(4) all_members_get[OF dok] by blast
    have ta: "to_int a \<noteq> None" using leaf_members[OF lok q(1)] q(2) by blast
    obtain p ms where p: "leaf_for a (pm_leaves m') [] 0 = Inr p" "dict_get (pm_leaves m') p = Some ms"
      "prefix p (path a)"
      by (rule leaf_for_leaf[OF lok ta])
    have pk: "p \<in> set (dict_keys (pm_leaves m'))" using p(2) by (force dest: map_of_SomeD)
    have only: "p = r" if "dict_get (pm_leaves m') r = Some rs" "a \<in> set rs" for r rs
      by (rule one_leaf[OF lok that pk p(3)])
    have "a \<in> set (members r m') \<longleftrightarrow> r = p" for r
    proof
      assume "a \<in> set (members r m')"
      then obtain rs where "dict_get (pm_leaves m') r = Some rs" "a \<in> set rs"
        unfolding members_def get_or_def by (cases "dict_get (pm_leaves m') r") simp_all
      from only[OF this] show "r = p" by simp
    next
      assume "r = p"
      then show "a \<in> set (members r m')" using only[OF q] q by (simp add: members_def get_or_def)
    qed
    then show ?thesis using p(1) by blast
  qed
  have 3: "\<forall>p. length (members p m') \<le> st"
    using r(2,3) by (auto simp: bounded_leaves_def sized_def members_def get_or_def split: option.splits)
  show ?thesis using 1 2 3 r(4) by blast
qed

lemma two_joins:
  assumes "bit_at a 0 = Some (CHR ''0'')" "bit_at b 0 = Some (CHR ''1'')" "b \<noteq> a"
  defines "m \<equiv> \<lparr>pm_base_scope = ''s'', pm_split_threshold = 1, pm_merge_threshold = 0, pm_leaves = [([], [])]\<rparr>"
  shows "pm_run [Join a, Join b] m = (m\<lparr>pm_leaves := [(''0'', [a]), (''1'', [b])]\<rparr>, [None, None])"
  using assms by (simp add: add_member_def leaf_for.simps get_or_def split_leaf.simps split_once_def
      List.insert_def)

lemma partition_invariant_witness:
  "\<exists>m'. pm_run [Join (replicate 64 (CHR ''0'')), Join (CHR ''8'' # replicate 63 (CHR ''0''))]
      \<lparr>pm_base_scope = ''s'', pm_split_threshold = 1, pm_merge_threshold = 0, pm_leaves = [([], [])]\<rparr> = (m', [None, None]) \<and>
     (\<forall>p. length (members p m') \<le> 1) \<and> set (leaf_prefixes m') = {''0'', ''1''}"
proof -
  let ?a = "replicate 64 (CHR ''0'')" and ?b = "CHR ''8'' # replicate 63 (CHR ''0'')"
  let ?m = "\<lparr>pm_base_scope = ''s'', pm_split_threshold = 1, pm_merge_threshold = 0, pm_leaves = [([], [])]\<rparr>"
  have h: "hex_id ?a" "hex_id ?b" by code_simp+
  then have t: "to_int ?a \<noteq> None" "to_int ?b \<noteq> None" by (simp_all add: hex_id_parse)
  have z: "nat_of_hex (16 ^ k * n) (replicate j (CHR ''0'')) = 16 ^ (k + j) * n" for j k n
  proof (induction j arbitrary: k)
    case (Suc j)
    have "hex_value (CHR ''0'') = 0" by (simp add: hex_value_def is_digit_def)
    then show ?case using Suc[of "Suc k"] by (simp add: mult.assoc)
  qed simp
  have l: "lower ?a = ?a" "lower ?b = ?b"
    by (simp_all add: lower_def char_lower_def is_upper_def map_replicate_const)
  have "id_value ?a = 0" using z[of 0 0 64] l by (simp add: id_value_def)
  moreover have "id_value ?b = 8 * 16 ^ 63"
    using z[of 0 8 63] l by (simp add: id_value_def hex_value_def is_digit_def)
  ultimately have v: "to_int ?a = Some 0" "to_int ?b = Some (2 ^ 255)"
    using h by (simp_all add: hex_id_parse)
  have bits: "bit_at ?a 0 = Some (CHR ''0'')" "bit_at ?b 0 = Some (CHR ''1'')"
    unfolding bit_at_def v by (simp_all add: bit_simps)
  have ne: "?a \<noteq> ?b" "?b \<noteq> ?a" by code_simp+
  define m' where "m' = ?m\<lparr>pm_leaves := [(''0'', [?a]), (''1'', [?b])]\<rparr>"
  have run: "pm_run [Join ?a, Join ?b] ?m = (m', [None, None])"
    unfolding m'_def by (rule two_joins[OF bits ne(2)])
  have "new_manager ''s'' 1 0 = Inr ?m" by (simp add: new_manager_def)
  from partition_invariant[OF this _ run] t
  have "\<forall>p. length (members p m') \<le> 1" by simp
  moreover have "set (leaf_prefixes m') = {''0'', ''1''}" by (simp add: leaf_prefixes_def m'_def)
  ultimately show ?thesis using run by blast
qed

end
