(* ===== verification/DHT_Routing.thy ===== *)
theory DHT_Routing
  imports DHT_Distance "HOL-Library.Multiset"
begin

text \<open>
  dht/routing.py: peers, k-buckets ordered by last contact, and the routing
  table with one bucket per position of the most significant differing bit.
  A rejected identifier and an index out of range are error results.
\<close>

section \<open>Peers and buckets\<close>

record node_info =
  n_node_id :: string
  n_host :: string
  n_port :: int

definition node_to_dict :: "node_info \<Rightarrow> jobj" where
  "node_to_dict n = [(''node_id'', JStr (n_node_id n)), (''host'', JStr (n_host n)), (''port'', JInt (n_port n))]"

definition node_from_dict :: "(json \<Rightarrow> string) \<Rightarrow> jobj \<Rightarrow> py_error + node_info" where
  "node_from_dict repr d =
     (case dict_get d ''node_id'' of
        None \<Rightarrow> Inl (KeyError ''node_id'')
      | Some i \<Rightarrow> (case dict_get d ''host'' of
          None \<Rightarrow> Inl (KeyError ''host'')
        | Some h \<Rightarrow> (case dict_get d ''port'' of
            None \<Rightarrow> Inl (KeyError ''port'')
          | Some p \<Rightarrow> bind_res (py_int p) (\<lambda>port.
              Inr \<lparr>n_node_id = py_str repr i, n_host = py_str repr h, n_port = port\<rparr>))))"

record kbucket =
  kb_k :: nat
  kb_nodes :: "node_info list"

definition new_kbucket :: "nat \<Rightarrow> kbucket" where
  "new_kbucket k = \<lparr>kb_k = k, kb_nodes = []\<rparr>"

definition kb_contains :: "kbucket \<Rightarrow> node_info \<Rightarrow> bool" where
  "kb_contains b n = list_ex (\<lambda>m. n_node_id m = n_node_id n) (kb_nodes b)"

text \<open>Popping the first entry with an identifier; None when there is none.\<close>
fun pop_node :: "string \<Rightarrow> node_info list \<Rightarrow> node_info list option" where
  "pop_node i [] = None" |
  "pop_node i (m # ms) =
     (if n_node_id m = i then Some ms else map_option (\<lambda>r. m # r) (pop_node i ms))"

definition kb_add :: "node_info \<Rightarrow> kbucket \<Rightarrow> kbucket \<times> (py_error + node_info option)" where
  "kb_add n b =
     (case pop_node (n_node_id n) (kb_nodes b) of
        Some rest \<Rightarrow> (b\<lparr>kb_nodes := rest @ [n]\<rparr>, Inr None)
      | None \<Rightarrow>
          if length (kb_nodes b) < kb_k b then (b\<lparr>kb_nodes := kb_nodes b @ [n]\<rparr>, Inr None)
          else (case kb_nodes b of
                  [] \<Rightarrow> (b, Inl IndexError)
                | lrs # _ \<Rightarrow> (b, Inr (Some lrs))))"

definition kb_replace :: "node_info \<Rightarrow> node_info \<Rightarrow> kbucket \<Rightarrow> kbucket \<times> bool" where
  "kb_replace dead fresh b =
     (case pop_node (n_node_id dead) (kb_nodes b) of
        Some rest \<Rightarrow> (b\<lparr>kb_nodes := rest @ [fresh]\<rparr>, True)
      | None \<Rightarrow> (b, False))"

section \<open>The routing table\<close>

record routing_table =
  rt_node_id :: string
  rt_k :: nat
  rt_buckets :: "(int, kbucket) dict"

definition new_table :: "string \<Rightarrow> nat \<Rightarrow> routing_table" where
  "new_table i k = \<lparr>rt_node_id = i, rt_k = k, rt_buckets = []\<rparr>"

text \<open>The bucket of a key and its index, created when missing; None for the
  node itself.\<close>
definition bucket_for :: "string \<Rightarrow> routing_table \<Rightarrow> routing_table \<times> (py_error + (int \<times> kbucket) option)" where
  "bucket_for key t =
     (case bucket_index (rt_node_id t) key of
        None \<Rightarrow> (t, Inl ValueError)
      | Some idx \<Rightarrow>
          if idx < 0 then (t, Inr None)
          else (case dict_get (rt_buckets t) idx of
                  Some b \<Rightarrow> (t, Inr (Some (idx, b)))
                | None \<Rightarrow>
                    (let b = new_kbucket (rt_k t)
                     in (t\<lparr>rt_buckets := dict_set idx b (rt_buckets t)\<rparr>, Inr (Some (idx, b))))))"

definition add_node :: "node_info \<Rightarrow> routing_table \<Rightarrow> routing_table \<times> (py_error + node_info option)" where
  "add_node n t =
     (if n_node_id n = rt_node_id t then (t, Inr None)
      else (case bucket_for (n_node_id n) t of
              (t1, Inl e) \<Rightarrow> (t1, Inl e)
            | (t1, Inr None) \<Rightarrow> (t1, Inr None)
            | (t1, Inr (Some (idx, b))) \<Rightarrow>
                (let (b', out) = kb_add n b
                 in (t1\<lparr>rt_buckets := dict_set idx b' (rt_buckets t1)\<rparr>, out))))"

definition all_nodes :: "routing_table \<Rightarrow> node_info list" where
  "all_nodes t = concat (map kb_nodes (dict_values (rt_buckets t)))"

definition table_len :: "routing_table \<Rightarrow> nat" where
  "table_len t = sum_list (map (length \<circ> kb_nodes) (dict_values (rt_buckets t)))"

text \<open>Sorting by distance to a key: every distance is computed, so one invalid
  identifier raises.\<close>
definition dist_to :: "string \<Rightarrow> node_info \<Rightarrow> int" where
  "dist_to key n = (case xor_distance (n_node_id n) key of None \<Rightarrow> 0 | Some d \<Rightarrow> d)"

definition sort_by_distance :: "string \<Rightarrow> node_info list \<Rightarrow> py_error + node_info list" where
  "sort_by_distance key ns =
     (if list_all (\<lambda>n. xor_distance (n_node_id n) key \<noteq> None) ns
      then Inr (sort_key (dist_to key) ns) else Inl ValueError)"

definition closest :: "string \<Rightarrow> nat option \<Rightarrow> routing_table \<Rightarrow> py_error + node_info list" where
  "closest key cnt t =
     bind_res (sort_by_distance key (all_nodes t))
       (\<lambda>ns. Inr (take (case cnt of None \<Rightarrow> rt_k t | Some c \<Rightarrow> c) ns))"

section \<open>Bucket invariant\<close>

definition bucket_ok :: "nat \<Rightarrow> kbucket \<Rightarrow> bool" where
  "bucket_ok k b = (kb_k b = k \<and> length (kb_nodes b) \<le> k \<and> distinct (map n_node_id (kb_nodes b)))"

lemma pop_node_None: "pop_node i ms = None \<longleftrightarrow> i \<notin> n_node_id ` set ms"
  by (induction ms) auto

lemma pop_node_Some:
  "pop_node i ms = Some rest \<Longrightarrow> distinct (map n_node_id ms) \<Longrightarrow>
   rest = filter (\<lambda>m. n_node_id m \<noteq> i) ms \<and> Suc (length rest) = length ms"
proof (induction ms arbitrary: rest)
  case (Cons m ms)
  show ?case
  proof (cases "n_node_id m = i")
    case True
    then have "filter (\<lambda>m. n_node_id m \<noteq> i) ms = ms"
      using Cons.prems(2) by (auto simp: filter_id_conv image_iff)
    then show ?thesis using Cons.prems True by auto
  next
    case False
    then show ?thesis using Cons by auto
  qed
qed simp

lemma bucket_ok_add [inv_intros]: "bucket_ok k b \<Longrightarrow> bucket_ok k (fst (kb_add n b))"
  by (auto simp: kb_add_def bucket_ok_def pop_node_None distinct_map_filter dest!: pop_node_Some
      split: option.splits list.splits)

text \<open>What one contact does to a bucket: a known peer moves to the recent end, a
  new one joins while there is room, and a full bucket is unchanged and names
  its least recently seen peer.\<close>
lemma kb_add_cases:
  assumes "bucket_ok k b"
  shows "kb_nodes (fst (kb_add n b)) =
     (if n_node_id n \<in> n_node_id ` set (kb_nodes b) \<or> length (kb_nodes b) < k
      then filter (\<lambda>m. n_node_id m \<noteq> n_node_id n) (kb_nodes b) @ [n] else kb_nodes b)"
    and "snd (kb_add n b) =
     (if n_node_id n \<in> n_node_id ` set (kb_nodes b) \<or> length (kb_nodes b) < k then Inr None
      else if kb_nodes b = [] then Inl IndexError else Inr (Some (hd (kb_nodes b))))"
proof -
  have id: "n_node_id n \<notin> n_node_id ` set (kb_nodes b) \<Longrightarrow>
      filter (\<lambda>m. n_node_id m \<noteq> n_node_id n) (kb_nodes b) = kb_nodes b"
    by (metis (mono_tags, lifting) filter_id_conv image_eqI)
  show "kb_nodes (fst (kb_add n b)) =
     (if n_node_id n \<in> n_node_id ` set (kb_nodes b) \<or> length (kb_nodes b) < k
      then filter (\<lambda>m. n_node_id m \<noteq> n_node_id n) (kb_nodes b) @ [n] else kb_nodes b)"
  proof (cases "pop_node (n_node_id n) (kb_nodes b)")
    case None
    then show ?thesis using assms id pop_node_None[of "n_node_id n" "kb_nodes b"]
      by (cases "kb_nodes b") (simp_all add: kb_add_def bucket_ok_def)
  next
    case (Some rest)
    then have "n_node_id n \<in> n_node_id ` set (kb_nodes b)"
      using pop_node_None[of "n_node_id n" "kb_nodes b"] by force
    then show ?thesis using pop_node_Some[OF Some] assms Some by (simp add: kb_add_def bucket_ok_def)
  qed
  show "snd (kb_add n b) =
     (if n_node_id n \<in> n_node_id ` set (kb_nodes b) \<or> length (kb_nodes b) < k then Inr None
      else if kb_nodes b = [] then Inl IndexError else Inr (Some (hd (kb_nodes b))))"
    using assms pop_node_None[of "n_node_id n" "kb_nodes b"]
    by (auto simp: kb_add_def bucket_ok_def split: option.splits list.splits)
qed

section \<open>Table invariant\<close>

text \<open>Every bucket is well formed and holds only peers whose index is its own, so
  no peer is listed twice and the owner is never listed.\<close>
definition table_ok :: "routing_table \<Rightarrow> bool" where
  "table_ok t =
     (dict_ok (rt_buckets t) \<and>
      (\<forall>(idx, b) \<in> set (rt_buckets t). 0 \<le> idx \<and> bucket_ok (rt_k t) b \<and>
         (\<forall>n \<in> set (kb_nodes b). n_node_id n \<noteq> rt_node_id t \<and>
            bucket_index (rt_node_id t) (n_node_id n) = Some idx)))"

lemma table_ok_new [simp, inv_intros]: "table_ok (new_table i k)"
  by (simp add: table_ok_def new_table_def)

lemma table_ok_update:
  assumes "table_ok t" "0 \<le> idx" "bucket_ok (rt_k t) b"
    and "\<And>n. n \<in> set (kb_nodes b) \<Longrightarrow> n_node_id n \<noteq> rt_node_id t \<and>
      bucket_index (rt_node_id t) (n_node_id n) = Some idx"
  shows "table_ok (t\<lparr>rt_buckets := dict_set idx b (rt_buckets t)\<rparr>)"
proof -
  have "(case x of (i, c) \<Rightarrow> 0 \<le> i \<and> bucket_ok (rt_k t) c \<and>
         (\<forall>n \<in> set (kb_nodes c). n_node_id n \<noteq> rt_node_id t \<and>
            bucket_index (rt_node_id t) (n_node_id n) = Some i))"
    if x: "x \<in> set (dict_set idx b (rt_buckets t))" for x
  proof -
    obtain i c where ic: "x = (i, c)" by (cases x)
    have "dict_get (dict_set idx b (rt_buckets t)) i = Some c"
      using x ic assms(1) by (intro map_of_is_SomeI dict_ok_set) (auto simp: table_ok_def)
    then consider "i = idx" "c = b" | "(i, c) \<in> set (rt_buckets t)"
      by (auto split: if_splits dest: map_of_SomeD)
    then show ?thesis using assms ic by cases (auto simp: table_ok_def)
  qed
  then show ?thesis using assms(1) by (simp add: table_ok_def)
qed

lemma bucket_for_spec:
  assumes "table_ok t" and r: "bucket_for key t = (t1, Inr (Some (idx, b)))"
  shows "table_ok t1 \<and> bucket_index (rt_node_id t) key = Some idx \<and> 0 \<le> idx \<and>
     bucket_ok (rt_k t) b \<and> rt_node_id t1 = rt_node_id t \<and> rt_k t1 = rt_k t \<and>
     (\<forall>n \<in> set (kb_nodes b). n_node_id n \<noteq> rt_node_id t \<and>
        bucket_index (rt_node_id t) (n_node_id n) = Some idx)"
proof -
  have new: "bucket_ok (rt_k t) (new_kbucket (rt_k t))" "kb_nodes (new_kbucket (rt_k t)) = []"
    by (simp_all add: bucket_ok_def new_kbucket_def)
  from r obtain i where i: "bucket_index (rt_node_id t) key = Some i" "0 \<le> i" "i = idx"
    by (auto simp: bucket_for_def Let_def split: option.splits if_splits)
  show ?thesis
  proof (cases "dict_get (rt_buckets t) i")
    case None
    then show ?thesis
      using r i new table_ok_update[OF assms(1) i(2) new(1)]
      by (auto simp: bucket_for_def Let_def)
  next
    case (Some c)
    then show ?thesis using r i assms(1) map_of_SomeD[OF Some]
      by (auto simp: bucket_for_def table_ok_def)
  qed
qed

lemma add_node_meta [simp]:
  "rt_node_id (fst (add_node n t)) = rt_node_id t" "rt_k (fst (add_node n t)) = rt_k t"
  by (auto simp: add_node_def bucket_for_def Let_def split: option.splits sum.splits prod.splits)

lemma kb_add_subset: "set (kb_nodes (fst (kb_add n b))) \<subseteq> insert n (set (kb_nodes b))"
proof -
  have "pop_node i ms = Some rest \<Longrightarrow> set rest \<subseteq> set ms" for i ms rest
    by (induction ms arbitrary: rest) (auto split: if_splits)
  note pop = this
  show ?thesis
  proof (cases "pop_node (n_node_id n) (kb_nodes b)")
    case None
    then show ?thesis by (auto simp: kb_add_def split: list.splits)
  next
    case (Some rest)
    then show ?thesis using pop[OF Some] by (auto simp: kb_add_def)
  qed
qed

lemma table_ok_add [inv_intros]:
  assumes ok: "table_ok t" shows "table_ok (fst (add_node n t))"
proof (cases "n_node_id n = rt_node_id t")
  case True
  then show ?thesis using ok by (simp add: add_node_def)
next
  case False
  obtain t1 out where r: "bucket_for (n_node_id n) t = (t1, out)" by (cases "bucket_for (n_node_id n) t")
  show ?thesis
  proof (cases "\<exists>idx b. out = Inr (Some (idx, b))")
    case True
    then obtain idx b where o: "out = Inr (Some (idx, b))" by blast
    note spec = bucket_for_spec[OF ok r[unfolded o]]
    have "table_ok (t1\<lparr>rt_buckets := dict_set idx (fst (kb_add n b)) (rt_buckets t1)\<rparr>)"
      using spec False bucket_ok_add[of "rt_k t" b n] kb_add_subset[of n b]
      by (intro table_ok_update) auto
    then show ?thesis using False r o by (cases "kb_add n b") (simp add: add_node_def Let_def)
  next
    case no: False
    have "t1 = t" using r no by (auto simp: bucket_for_def Let_def split: option.splits if_splits)
    then show ?thesis using False r no ok
      by (auto simp: add_node_def split: sum.splits option.splits)
  qed
qed

section \<open>The table after any contacts\<close>

definition observe_all :: "node_info list \<Rightarrow> routing_table \<Rightarrow> routing_table" where
  "observe_all ns t = fold (\<lambda>n t. fst (add_node n t)) ns t"

lemma table_ok_observe_all: "table_ok t \<Longrightarrow> table_ok (observe_all ns t)"
  unfolding observe_all_def by (induction ns arbitrary: t) (auto simp: table_ok_add)

lemma observe_all_meta [simp]:
  "rt_node_id (observe_all ns t) = rt_node_id t" "rt_k (observe_all ns t) = rt_k t"
  unfolding observe_all_def by (induction ns arbitrary: t) auto

lemma table_ok_nodes_distinct: "table_ok t \<Longrightarrow> distinct (map n_node_id (all_nodes t))"
proof -
  assume ok: "table_ok t"
  have "distinct (map n_node_id (concat (map kb_nodes (map snd l))))"
    if "dict_ok l" "\<forall>(idx, b) \<in> set l. distinct (map n_node_id (kb_nodes b)) \<and>
          (\<forall>n \<in> set (kb_nodes b). bucket_index i (n_node_id n) = Some idx)" for l i
    using that
  proof (induction l)
    case (Cons x l)
    obtain idx b where x: "x = (idx, b)" by (cases x)
    have "n_node_id m \<noteq> n_node_id n" if "m \<in> set (kb_nodes b)" "(j, c) \<in> set l" "n \<in> set (kb_nodes c)" for m n j c
    proof -
      have "idx \<noteq> j" using Cons.prems(1) x that(2) by force
      moreover have "bucket_index i (n_node_id m) = Some idx" "bucket_index i (n_node_id n) = Some j"
        using Cons.prems(2) x that by auto
      ultimately show ?thesis by auto
    qed
    then show ?case using Cons x by fastforce
  qed simp
  from this[of "rt_buckets t" "rt_node_id t"] show ?thesis
    using ok by (auto simp: table_ok_def bucket_ok_def all_nodes_def)
qed

lemma table_ok_node:
  assumes "table_ok t" "n \<in> set (all_nodes t)"
  shows "n_node_id n \<noteq> rt_node_id t \<and> (\<exists>i. bucket_index (rt_node_id t) (n_node_id n) = Some i \<and> 0 \<le> i)"
  using assms by (fastforce simp: table_ok_def all_nodes_def)

lemma table_ok_valid:
  assumes "table_ok t" "n \<in> set (all_nodes t)" shows "to_int (n_node_id n) \<noteq> None"
  using table_ok_node[OF assms] by (auto simp: bucket_index_def xor_distance_def split: option.splits)

lemma table_len_nodes: "table_len t = length (all_nodes t)"
  by (simp add: table_len_def all_nodes_def length_concat o_def)

text \<open>C16: whatever peers a node hears of, in whatever order, its routing table keeps the
  Kademlia invariant: it never lists itself nor a peer twice, every listed peer is in
  the bucket of its most significant differing bit, and no bucket exceeds k.\<close>
theorem routing_table_invariant:
  "let t = observe_all ns (new_table i k) in
   distinct (map n_node_id (all_nodes t)) \<and>
   list_all (\<lambda>n. n_node_id n \<noteq> i) (all_nodes t) \<and>
   list_all (\<lambda>(idx, b). 0 \<le> idx \<and> length (kb_nodes b) \<le> k \<and>
     list_all (\<lambda>n. bucket_index i (n_node_id n) = Some idx) (kb_nodes b)) (rt_buckets t)"
proof -
  define t where "t = observe_all ns (new_table i k)"
  have ok: "table_ok t" by (simp add: t_def table_ok_observe_all)
  have m: "rt_node_id t = i" "rt_k t = k" by (simp_all add: t_def new_table_def)
  have "list_all (\<lambda>(idx, b). 0 \<le> idx \<and> length (kb_nodes b) \<le> k \<and>
     list_all (\<lambda>n. bucket_index i (n_node_id n) = Some idx) (kb_nodes b)) (rt_buckets t)"
    using ok m by (force simp: table_ok_def bucket_ok_def list_all_iff)
  moreover have "list_all (\<lambda>n. n_node_id n \<noteq> i) (all_nodes t)"
    using table_ok_node[OF ok] m by (auto simp: list_all_iff)
  ultimately show ?thesis
    using table_ok_nodes_distinct[OF ok] unfolding Let_def t_def[symmetric] by blast
qed

section \<open>The closest known peers\<close>

lemma take_sort_split:
  fixes f :: "'a \<Rightarrow> 'b::linorder"
  assumes "x \<in> set xs" "x \<notin> set (take n (sort_key f xs))" "y \<in> set (take n (sort_key f xs))"
  shows "f y \<le> f x"
proof -
  have s: "sorted (map f (take n (sort_key f xs) @ drop n (sort_key f xs)))" by simp
  have "x \<in> set (sort_key f xs)" using assms(1) by simp
  then have "x \<in> set (drop n (sort_key f xs))"
    using assms(2) by (metis Un_iff append_take_drop_id set_append)
  then show ?thesis using s assms(3) unfolding map_append sorted_append by auto
qed

lemma xor_distance_valid:
  "to_int a \<noteq> None \<Longrightarrow> to_int key \<noteq> None \<Longrightarrow> xor_distance a key \<noteq> None"
  by (auto simp: xor_distance_def)

lemma closest_ok:
  assumes "table_ok t" "to_int key \<noteq> None"
  shows "closest key cnt t =
     Inr (take (case cnt of None \<Rightarrow> rt_k t | Some c \<Rightarrow> c) (sort_key (dist_to key) (all_nodes t)))"
  using table_ok_valid[OF assms(1)] xor_distance_valid[OF _ assms(2)]
  by (auto simp: closest_def sort_by_distance_def list_all_iff)

text \<open>FIND_NODE answers with the nearest peers.  For every table reached by contacts
  and every valid key, the answer is a list of distinct known peers in order of XOR
  distance, as long as the smaller of the count and the table, and no known peer left
  out is nearer to the key than one in the answer.\<close>
theorem closest_is_nearest:
  assumes "to_int key \<noteq> None"
  shows "\<exists>out. closest key (Some c) (observe_all ns (new_table i k)) = Inr out \<and>
     length out = min c (table_len (observe_all ns (new_table i k))) \<and>
     distinct out \<and> sorted (map (dist_to key) out) \<and>
     set out \<subseteq> set (all_nodes (observe_all ns (new_table i k))) \<and>
     (\<forall>n \<in> set (all_nodes (observe_all ns (new_table i k))) - set out. \<forall>m \<in> set out.
        dist_to key m \<le> dist_to key n)"
proof -
  define t where "t = observe_all ns (new_table i k)"
  have ok: "table_ok t" by (simp add: t_def table_ok_observe_all)
  have "distinct (all_nodes t)"
    using table_ok_nodes_distinct[OF ok] by (simp add: distinct_map)
  then show ?thesis
    unfolding t_def[symmetric] closest_ok[OF ok assms] table_len_nodes option.case
    using take_sort_split[of _ "all_nodes t" c "dist_to key"]
    by (intro exI[of _ "take c (sort_key (dist_to key) (all_nodes t))"])
       (auto simp: sorted_wrt_take take_map[symmetric] min.commute dest: in_set_takeD)
qed

lemma closest_is_nearest_witness:
  "\<exists>out. closest (replicate 64 (CHR ''0'')) (Some 1) (observe_all
      [\<lparr>n_node_id = replicate 63 (CHR ''0'') @ ''4'', n_host = ''h'', n_port = 1\<rparr>]
      (new_table (replicate 63 (CHR ''0'') @ ''1'') 20)) = Inr out \<and> distinct out"
proof -
  have "to_int (replicate 64 (CHR ''0'')) \<noteq> None" by code_simp
  from closest_is_nearest[OF this] show ?thesis by blast
qed

end
