(* ===== verification/DHT_Kademlia.thy ===== *)
theory DHT_Kademlia
  imports DHT_Routing "HOL-Library.While_Combinator"
begin

text \<open>
  dht/kademlia.py: the node, its served side and the iterative lookup.  The rpc
  is an argument that threads the state of the network and may fail; a failure
  of the rpc is an empty answer, as in the source.  The loop of the lookup is
  the library's while combinator, whose value None means that it runs forever.
\<close>

section \<open>The node\<close>

record kad_node =
  kd_info :: node_info
  kd_k :: nat
  kd_alpha :: nat
  kd_table :: routing_table

definition new_kad_node :: "string \<Rightarrow> string \<Rightarrow> int \<Rightarrow> nat \<Rightarrow> nat \<Rightarrow> kad_node" where
  "new_kad_node i h p k alpha =
     \<lparr>kd_info = \<lparr>n_node_id = i, n_host = h, n_port = p\<rparr>, kd_k = k, kd_alpha = alpha,
      kd_table = new_table i k\<rparr>"

definition observe :: "node_info \<Rightarrow> kad_node \<Rightarrow> kad_node \<times> py_error option" where
  "observe n nd =
     (if n_node_id n \<noteq> n_node_id (kd_info nd)
      then (case add_node n (kd_table nd) of
              (t, Inl e) \<Rightarrow> (nd\<lparr>kd_table := t\<rparr>, Some e)
            | (t, Inr _) \<Rightarrow> (nd\<lparr>kd_table := t\<rparr>, None))
      else (nd, None))"

definition handle_locate :: "string \<Rightarrow> node_info option \<Rightarrow> kad_node
    \<Rightarrow> kad_node \<times> (py_error + node_info list)" where
  "handle_locate key from_node nd =
     (case from_node of
        None \<Rightarrow> (nd, closest key (Some (kd_k nd)) (kd_table nd))
      | Some n \<Rightarrow> (case observe n nd of
            (nd1, Some e) \<Rightarrow> (nd1, Inl e)
          | (nd1, None) \<Rightarrow> (nd1, closest key (Some (kd_k nd1)) (kd_table nd1))))"

text \<open>One entry per identifier, the last one given at the place of the first.\<close>
definition by_id :: "node_info list \<Rightarrow> (string, node_info) dict" where
  "by_id ns = fold (\<lambda>n d. dict_set (n_node_id n) n d) ns []"

definition closest_of :: "node_info list \<Rightarrow> string \<Rightarrow> nat \<Rightarrow> py_error + node_info list" where
  "closest_of ns key cnt =
     bind_res (sort_by_distance key (dict_values (by_id ns))) (\<lambda>ordered. Inr (take cnt ordered))"

section \<open>The lookup\<close>

text \<open>The transport: the peer asked, the key and the network state give the new
  state and an answer, or None for an exception.\<close>
type_synonym 'w rpc = "node_info \<Rightarrow> string \<Rightarrow> 'w \<Rightarrow> 'w \<times> node_info list option"

definition safe_rpc :: "'w rpc \<Rightarrow> node_info \<Rightarrow> string \<Rightarrow> 'w \<Rightarrow> 'w \<times> node_info list" where
  "safe_rpc rpc n key w =
     (case rpc n key w of (w', None) \<Rightarrow> (w', []) | (w', Some ans) \<Rightarrow> (w', ans))"

record 'w lookup =
  lk_node :: kad_node
  lk_world :: 'w
  lk_short :: "(string, node_info) dict"
  lk_queried :: "string list"
  lk_exclude :: "string list"
  lk_err :: "py_error option"

text \<open>The answers of one peer: each is observed, and joins the shortlist when it is
  not this node, not listed and not excluded.\<close>
fun take_answers :: "node_info list \<Rightarrow> 'w lookup \<Rightarrow> 'w lookup" where
  "take_answers [] st = st" |
  "take_answers (r # rs) st =
     (case observe r (lk_node st) of
        (nd, Some e) \<Rightarrow> st\<lparr>lk_node := nd, lk_err := Some e\<rparr>
      | (nd, None) \<Rightarrow>
          (let st1 = st\<lparr>lk_node := nd\<rparr>;
               st2 = (if n_node_id r \<noteq> n_node_id (kd_info nd) \<and>
                         n_node_id r \<notin> set (dict_keys (lk_short st1)) \<and>
                         n_node_id r \<notin> set (lk_exclude st1)
                      then st1\<lparr>lk_short := dict_set (n_node_id r) r (lk_short st1)\<rparr> else st1)
           in take_answers rs st2))"

fun query_peers :: "'w rpc \<Rightarrow> string \<Rightarrow> node_info list \<Rightarrow> 'w lookup \<Rightarrow> 'w lookup" where
  "query_peers rpc key [] st = st" |
  "query_peers rpc key (n # ns) st =
     (let st1 = st\<lparr>lk_queried := List.insert (n_node_id n) (lk_queried st),
                   lk_exclude := List.insert (n_node_id n) (lk_exclude st)\<rparr>;
          (w, ans) = safe_rpc rpc n key (lk_world st1);
          st2 = take_answers ans (st1\<lparr>lk_world := w\<rparr>)
      in if lk_err st2 \<noteq> None then st2 else query_peers rpc key ns st2)"

definition topk :: "string \<Rightarrow> 'w lookup \<Rightarrow> py_error + node_info list" where
  "topk key st = closest_of (dict_values (lk_short st)) key (kd_k (lk_node st))"

definition unqueried :: "node_info list \<Rightarrow> 'w lookup \<Rightarrow> node_info list" where
  "unqueried ns st = filter (\<lambda>n. n_node_id n \<notin> set (lk_queried st)) ns"

definition lookup_goes_on :: "string \<Rightarrow> 'w lookup \<Rightarrow> bool" where
  "lookup_goes_on key st =
     (lk_err st = None \<and>
      (case topk key st of Inl e \<Rightarrow> True | Inr ns \<Rightarrow> unqueried ns st \<noteq> []))"

definition lookup_round :: "'w rpc \<Rightarrow> string \<Rightarrow> 'w lookup \<Rightarrow> 'w lookup" where
  "lookup_round rpc key st =
     (case topk key st of
        Inl e \<Rightarrow> st\<lparr>lk_err := Some e\<rparr>
      | Inr ns \<Rightarrow> query_peers rpc key (take (kd_alpha (lk_node st)) (unqueried ns st)) st)"

definition lookup_start :: "string \<Rightarrow> string list \<Rightarrow> kad_node \<Rightarrow> 'w \<Rightarrow> 'w lookup" where
  "lookup_start key exclude nd w =
     (case closest key (Some (kd_k nd)) (kd_table nd) of
        Inl e \<Rightarrow> \<lparr>lk_node = nd, lk_world = w, lk_short = [], lk_queried = [],
                  lk_exclude = exclude, lk_err = Some e\<rparr>
      | Inr ns \<Rightarrow> \<lparr>lk_node = nd, lk_world = w,
                  lk_short = by_id (filter (\<lambda>n. n_node_id n \<notin> set exclude) ns),
                  lk_queried = [], lk_exclude = exclude, lk_err = None\<rparr>)"

text \<open>The result is the final state; the found peers are the values of its
  shortlist.  None is a lookup that does not return.\<close>
definition run_lookup :: "'w rpc \<Rightarrow> string \<Rightarrow> string list \<Rightarrow> kad_node \<Rightarrow> 'w \<Rightarrow> 'w lookup option" where
  "run_lookup rpc key exclude nd w =
     while_option (lookup_goes_on key) (lookup_round rpc key) (lookup_start key exclude nd w)"

definition iterative_locate :: "'w rpc \<Rightarrow> string \<Rightarrow> nat option \<Rightarrow> kad_node \<Rightarrow> 'w
    \<Rightarrow> (kad_node \<times> 'w \<times> (py_error + node_info list)) option" where
  "iterative_locate rpc key cnt nd w =
     map_option (\<lambda>st.
       (lk_node st, lk_world st,
        case lk_err st of
          Some e \<Rightarrow> Inl e
        | None \<Rightarrow> closest_of (dict_values (lk_short st)) key
            (case cnt of None \<Rightarrow> kd_k nd | Some c \<Rightarrow> if c = 0 then kd_k nd else c)))
       (run_lookup rpc key [] nd w)"

text \<open>The S/Kademlia paths: each starts from the peers no path before it has used.\<close>
fun disjoint_paths :: "'w rpc \<Rightarrow> string \<Rightarrow> nat \<Rightarrow> string list \<Rightarrow> (string, node_info) dict \<Rightarrow> kad_node \<Rightarrow> 'w
    \<Rightarrow> (kad_node \<times> 'w \<times> (py_error + (string, node_info) dict)) option" where
  "disjoint_paths rpc key 0 used merged nd w = Some (nd, w, Inr merged)" |
  "disjoint_paths rpc key (Suc n) used merged nd w =
     (case run_lookup rpc key used nd w of
        None \<Rightarrow> None
      | Some st \<Rightarrow>
          (case lk_err st of
             Some e \<Rightarrow> Some (lk_node st, lk_world st, Inl e)
           | None \<Rightarrow>
              (let found = dict_values (lk_short st) in
               disjoint_paths rpc key n
                 (fold (\<lambda>m u. List.insert (n_node_id m) u) found (lk_exclude st))
                 (fold (\<lambda>m d. dict_set (n_node_id m) m d) found merged)
                 (lk_node st) (lk_world st))))"

definition iterative_locate_disjoint :: "'w rpc \<Rightarrow> string \<Rightarrow> int \<Rightarrow> nat option \<Rightarrow> kad_node \<Rightarrow> 'w
    \<Rightarrow> (kad_node \<times> 'w \<times> (py_error + node_info list)) option" where
  "iterative_locate_disjoint rpc key paths cnt nd w =
     map_option (\<lambda>(nd', w', out).
       (nd', w', bind_res out (\<lambda>merged. closest_of (dict_values merged) key
            (case cnt of None \<Rightarrow> kd_k nd | Some c \<Rightarrow> if c = 0 then kd_k nd else c))))
       (disjoint_paths rpc key (nat (max 1 paths)) [] [] nd w)"

text \<open>Joining: the seeds are observed, then the own identifier and the refresh keys
  are looked up.  The digest that derives a refresh key is an argument.\<close>
fun observe_seeds :: "node_info list \<Rightarrow> kad_node \<Rightarrow> kad_node \<times> py_error option" where
  "observe_seeds [] nd = (nd, None)" |
  "observe_seeds (n # ns) nd =
     (case observe n nd of
        (nd1, Some e) \<Rightarrow> (nd1, Some e)
      | (nd1, None) \<Rightarrow> observe_seeds ns nd1)"

fun locate_keys :: "'w rpc \<Rightarrow> string list \<Rightarrow> kad_node \<Rightarrow> 'w
    \<Rightarrow> (kad_node \<times> 'w \<times> py_error option) option" where
  "locate_keys rpc [] nd w = Some (nd, w, None)" |
  "locate_keys rpc (key # keys) nd w =
     (case iterative_locate rpc key None nd w of
        None \<Rightarrow> None
      | Some (nd1, w1, Inl e) \<Rightarrow> Some (nd1, w1, Some e)
      | Some (nd1, w1, Inr _) \<Rightarrow> locate_keys rpc keys nd1 w1)"

definition bootstrap :: "(string \<Rightarrow> string) \<Rightarrow> 'w rpc \<Rightarrow> node_info list \<Rightarrow> int \<Rightarrow> kad_node \<Rightarrow> 'w
    \<Rightarrow> (kad_node \<times> 'w \<times> (py_error + nat)) option" where
  "bootstrap sha256_hex rpc seeds refresh nd w =
     (case observe_seeds seeds nd of
        (nd1, Some e) \<Rightarrow> Some (nd1, w, Inl e)
      | (nd1, None) \<Rightarrow>
          (let me = n_node_id (kd_info nd1);
               keys = map (\<lambda>i. sha256_hex (me @ '':refresh:'' @ digits_of_nat i)) [0..<nat (max 0 refresh)]
           in map_option (\<lambda>(nd2, w2, err).
                (nd2, w2, case err of Some e \<Rightarrow> Inl e | None \<Rightarrow> Inr (table_len (kd_table nd2))))
                (locate_keys rpc (me # keys) nd1 w)))"

section \<open>The nearest entries of a growing list\<close>

definition topl :: "('a \<Rightarrow> 'b::linorder) \<Rightarrow> nat \<Rightarrow> 'a list \<Rightarrow> 'a list" where
  "topl f k xs = take k (sort_key f xs)"

definition weight :: "('a \<Rightarrow> nat) \<Rightarrow> ('a \<Rightarrow> 'b::linorder) \<Rightarrow> nat \<Rightarrow> nat \<Rightarrow> 'a list \<Rightarrow> nat" where
  "weight g f k big xs = sum_list (map g (topl f k xs)) + (k - length (topl f k xs)) * big"

lemma sort_key_snoc:
  fixes f :: "'a \<Rightarrow> 'b::linorder"
  shows "sort_key f (xs @ [x]) =
     takeWhile (\<lambda>y. f y \<le> f x) (sort_key f xs) @ x # dropWhile (\<lambda>y. f y \<le> f x) (sort_key f xs)"
proof -
  define t where "t = takeWhile (\<lambda>y. f y \<le> f x) (sort_key f xs)"
  define d where "d = dropWhile (\<lambda>y. f y \<le> f x) (sort_key f xs)"
  have s: "t @ d = sort_key f xs" by (simp add: t_def d_def)
  have "sorted (map f (t @ d))" unfolding s by simp
  then have sorted: "sorted (map f t)" "sorted (map f d)" "\<forall>a \<in> set t. \<forall>b \<in> set d. f a \<le> f b"
    by (simp_all add: sorted_append)
  have small: "\<forall>y \<in> set t. f y \<le> f x" unfolding t_def by (auto dest: set_takeWhileD)
  have big: "\<forall>y \<in> set d. f x < f y"
  proof
    fix y assume y: "y \<in> set d"
    then have "d \<noteq> []" by auto
    then have "\<not> f (hd d) \<le> f x" unfolding d_def by (rule hd_dropWhile)
    moreover have "f (hd d) \<le> f y" using y sorted(2) by (cases d) auto
    ultimately show "f x < f y" by simp
  qed
  have "sort_key f (xs @ [x]) = t @ x # d"
  proof (rule properties_for_sort_key)
    have "mset t + mset d = mset xs" unfolding mset_append[symmetric] s by simp
    then show "mset (t @ x # d) = mset (xs @ [x])" by simp
    show "sorted (map f (t @ x # d))"
      using sorted small big by (fastforce simp: sorted_append)
    fix k
    have "(\<lambda>z. f k = f z) = (\<lambda>z. f z = f k)" by auto
    then have "filter (\<lambda>z. f k = f z) (t @ d) = filter (\<lambda>z. f k = f z) xs"
      unfolding s using sort_key_stable[of f "f k" xs] by simp
    moreover have "f k = f x \<Longrightarrow> filter (\<lambda>z. f k = f z) d = []"
      using big by (auto simp: filter_empty_conv)
    ultimately show "filter (\<lambda>z. f k = f z) (t @ x # d) = filter (\<lambda>z. f k = f z) (xs @ [x])"
      by auto
  qed
  then show ?thesis by (simp add: t_def d_def)
qed

lemma topl_snoc:
  fixes f :: "'a \<Rightarrow> 'b::linorder"
  assumes mono: "\<And>y. y \<in> set xs \<Longrightarrow> f x < f y \<Longrightarrow> g x < g y" and big: "g x < big"
  shows "topl f k (xs @ [x]) = topl f k xs \<or> weight g f k big (xs @ [x]) < weight g f k big xs"
proof -
  let ?s = "sort_key f xs"
  define t where "t = takeWhile (\<lambda>y. f y \<le> f x) ?s"
  define d where "d = dropWhile (\<lambda>y. f y \<le> f x) ?s"
  have s: "?s = t @ d" "sort_key f (xs @ [x]) = t @ x # d"
    unfolding t_def d_def using sort_key_snoc[of f xs x] by simp_all
  have gd: "g x < g y" if "y \<in> set d" for y
  proof (rule mono)
    have "y \<in> set ?s" using that by (simp add: s)
    then show "y \<in> set xs" by simp
    have "sorted (map f (t @ d))" unfolding s(1)[symmetric] by simp
    then have "sorted (map f d)" by (simp add: sorted_append)
    moreover have "d \<noteq> []" using that by auto
    then have "\<not> f (hd d) \<le> f x" unfolding d_def by (rule hd_dropWhile)
    ultimately show "f x < f y" using that by (cases d) auto
  qed
  show ?thesis
  proof (cases "k \<le> length t")
    case True
    then show ?thesis by (simp add: topl_def s)
  next
    case False
    define j where "j = k - length t - 1"
    then have k: "k = length t + Suc j" using False by simp
    have new: "topl f k (xs @ [x]) = t @ x # take j d" and old: "topl f k xs = t @ take (Suc j) d"
      by (simp_all add: topl_def s k)
    show ?thesis
    proof (cases "j < length d")
      case True
      then have "take (Suc j) d = take j d @ [d ! j]" by (rule take_Suc_conv_app_nth)
      moreover have "g x < g (d ! j)" using True by (intro gd) simp
      moreover have "weight g f k big (xs @ [x]) = sum_list (map g t) + (g x + sum_list (map g (take j d)))"
        "weight g f k big xs = sum_list (map g t) + sum_list (map g (take (Suc j) d))"
        unfolding weight_def new old using True k by simp_all
      ultimately have "weight g f k big (xs @ [x]) < weight g f k big xs" by simp
      then show ?thesis ..
    next
      case False
      then have "take (Suc j) d = d" "take j d = d" by simp_all
      moreover have "k - length (t @ d) = Suc (k - length (t @ x # d))" using False k by simp
      ultimately have "weight g f k big (xs @ [x]) < weight g f k big xs"
        using big by (simp add: weight_def new old)
      then show ?thesis ..
    qed
  qed
qed

lemma topl_append:
  fixes f :: "'a \<Rightarrow> 'b::linorder"
  assumes mono: "\<And>x y. x \<in> set ys \<Longrightarrow> y \<in> set (xs @ ys) \<Longrightarrow> f x < f y \<Longrightarrow> g x < g y"
    and big: "\<And>x. x \<in> set ys \<Longrightarrow> g x < big"
  shows "topl f k (xs @ ys) = topl f k xs \<or> weight g f k big (xs @ ys) < weight g f k big xs"
  using assms
proof (induction ys rule: rev_induct)
  case (snoc y ys)
  have "topl f k (xs @ ys) = topl f k xs \<or> weight g f k big (xs @ ys) < weight g f k big xs"
    using snoc by simp
  moreover have "topl f k ((xs @ ys) @ [y]) = topl f k (xs @ ys) \<or>
      weight g f k big ((xs @ ys) @ [y]) < weight g f k big (xs @ ys)"
    using snoc.prems by (intro topl_snoc) auto
  ultimately show ?case by (auto simp: weight_def)
qed simp

lemma topl_length: "length (topl f k xs) \<le> k"
  by (simp add: topl_def)

section \<open>Invariant of the lookup\<close>

definition node_ok :: "kad_node \<Rightarrow> bool" where
  "node_ok nd = (table_ok (kd_table nd) \<and> rt_node_id (kd_table nd) = n_node_id (kd_info nd))"

definition lookup_ok :: "'w lookup \<Rightarrow> bool" where
  "lookup_ok st =
     (node_ok (lk_node st) \<and> dict_ok (lk_short st) \<and>
      (\<forall>(i, n) \<in> set (lk_short st). n_node_id n = i \<and> to_int i \<noteq> None))"

lemma observe_meta:
  "observe n nd = (nd', e) \<Longrightarrow> kd_info nd' = kd_info nd \<and> kd_k nd' = kd_k nd \<and> kd_alpha nd' = kd_alpha nd"
  by (auto simp: observe_def split: if_splits prod.splits sum.splits)

lemma node_ok_observe [inv_intros]: "node_ok nd \<Longrightarrow> node_ok (fst (observe n nd))"
  using table_ok_add[of "kd_table nd" n] add_node_meta(1)[of n "kd_table nd"]
  by (auto simp: observe_def node_ok_def simp del: add_node_meta split: prod.splits sum.splits)

lemma observe_valid:
  assumes "node_ok nd" "observe n nd = (nd', None)" "n_node_id n \<noteq> n_node_id (kd_info nd)"
  shows "to_int (n_node_id n) \<noteq> None"
proof
  assume "to_int (n_node_id n) = None"
  then have "bucket_index (rt_node_id (kd_table nd)) (n_node_id n) = None"
    by (auto simp: bucket_index_def xor_distance_def split: option.splits)
  then show False using assms by (auto simp: observe_def add_node_def bucket_for_def node_ok_def)
qed

lemma dict_set_new: "k \<notin> set (dict_keys d) \<Longrightarrow> dict_set k v d = d @ [(k, v)]"
  by (induction d) auto

definition grows :: "'w lookup \<Rightarrow> 'w lookup \<Rightarrow> bool" where
  "grows st st' =
     (lookup_ok st' \<and> (\<exists>new. lk_short st' = lk_short st @ new) \<and>
      set (lk_queried st) \<subseteq> set (lk_queried st') \<and> set (lk_exclude st) \<subseteq> set (lk_exclude st') \<and>
      kd_info (lk_node st') = kd_info (lk_node st) \<and>
      kd_k (lk_node st') = kd_k (lk_node st) \<and> kd_alpha (lk_node st') = kd_alpha (lk_node st))"

lemma grows_refl: "lookup_ok st \<Longrightarrow> grows st st"
  by (simp add: grows_def)

lemma grows_trans: "grows a b \<Longrightarrow> grows b c \<Longrightarrow> grows a c"
  by (fastforce simp: grows_def)

lemma take_answers_grows:
  "lookup_ok st \<Longrightarrow> grows st (take_answers rs st) \<and> lk_queried (take_answers rs st) = lk_queried st \<and>
     lk_exclude (take_answers rs st) = lk_exclude st"
proof (induction rs st rule: take_answers.induct)
  case (1 st)
  then show ?case by (simp add: grows_refl)
next
  case (2 r rs st)
  obtain nd e where o: "observe r (lk_node st) = (nd, e)" by (cases "observe r (lk_node st)")
  have nd: "node_ok nd" using node_ok_observe[of "lk_node st" r] 2(2) o by (simp add: lookup_ok_def)
  note m = observe_meta[OF o]
  show ?case
  proof (cases e)
    case (Some err)
    then show ?thesis using 2(2) o nd m by (simp add: grows_def lookup_ok_def)
  next
    case None
    define st1 where "st1 = st\<lparr>lk_node := nd\<rparr>"
    define st2 where "st2 = (if n_node_id r \<noteq> n_node_id (kd_info nd) \<and>
        n_node_id r \<notin> set (dict_keys (lk_short st1)) \<and> n_node_id r \<notin> set (lk_exclude st1)
      then st1\<lparr>lk_short := dict_set (n_node_id r) r (lk_short st1)\<rparr> else st1)"
    have "n_node_id r \<noteq> n_node_id (kd_info nd) \<Longrightarrow> to_int (n_node_id r) \<noteq> None"
      using observe_valid[OF _ o[unfolded None]] 2(2) m by (simp add: lookup_ok_def)
    then have g2: "grows st st2" "lk_queried st2 = lk_queried st" "lk_exclude st2 = lk_exclude st"
      using 2(2) nd m by (auto simp: grows_def lookup_ok_def st2_def st1_def dict_set_new)
    then have "lookup_ok st2" by (simp add: grows_def)
    moreover have "take_answers (r # rs) st = take_answers rs st2"
      using o None by (simp add: Let_def st1_def st2_def)
    ultimately show ?thesis
      using 2(1)[OF o[symmetric, unfolded None] refl st1_def st2_def] g2 grows_trans[OF g2(1)] by metis
  qed
qed

section \<open>The lookup always ends\<close>



lemma query_peers_grows:
  "lookup_ok st \<Longrightarrow> grows st (query_peers rpc key ns st) \<and>
     (ns \<noteq> [] \<longrightarrow> n_node_id (hd ns) \<in> set (lk_queried (query_peers rpc key ns st)))"
proof (induction rpc key ns st rule: query_peers.induct)
  case (1 rpc key st)
  then show ?case by (simp add: grows_refl)
next
  case (2 rpc key n ns st)
  define st1 where "st1 = st\<lparr>lk_queried := List.insert (n_node_id n) (lk_queried st),
     lk_exclude := List.insert (n_node_id n) (lk_exclude st)\<rparr>"
  obtain w ans where r: "safe_rpc rpc n key (lk_world st1) = (w, ans)"
    by (cases "safe_rpc rpc n key (lk_world st1)")
  define st2 where "st2 = take_answers ans (st1\<lparr>lk_world := w\<rparr>)"
  have g1: "grows st (st1\<lparr>lk_world := w\<rparr>)"
    using 2(2) by (auto simp: grows_def lookup_ok_def st1_def)
  then have ok1: "lookup_ok (st1\<lparr>lk_world := w\<rparr>)" by (simp add: grows_def)
  have g2: "grows st st2" and in2: "n_node_id n \<in> set (lk_queried st2)"
    using take_answers_grows[OF ok1, of ans] grows_trans[OF g1] by (auto simp: st2_def st1_def)
  have eq: "query_peers rpc key (n # ns) st =
     (if lk_err st2 \<noteq> None then st2 else query_peers rpc key ns st2)"
    using r by (simp add: Let_def st1_def st2_def del: not_None_eq)
  show ?case
  proof (cases "lk_err st2 = None")
    case False
    then show ?thesis unfolding eq using g2 in2 by simp
  next
    case True
    have "lookup_ok st2" using g2 by (simp add: grows_def)
    from 2(1)[OF st1_def r[symmetric] refl st2_def _ this] True
    have g3: "grows st2 (query_peers rpc key ns st2)" by simp
    then have "set (lk_queried st2) \<subseteq> set (lk_queried (query_peers rpc key ns st2))"
      by (simp add: grows_def)
    then show ?thesis unfolding eq using True grows_trans[OF g2 g3] in2 by auto
  qed
qed

lemma by_id_distinct:
  "distinct (map n_node_id ns) \<Longrightarrow> by_id ns = map (\<lambda>n. (n_node_id n, n)) ns"
proof -
  have "distinct (map n_node_id ns) \<Longrightarrow> set (map n_node_id ns) \<inter> set (dict_keys d) = {} \<Longrightarrow>
     fold (\<lambda>n d. dict_set (n_node_id n) n d) ns d = d @ map (\<lambda>n. (n_node_id n, n)) ns" for d
    by (induction ns arbitrary: d) (auto simp: dict_set_new)
  then show "distinct (map n_node_id ns) \<Longrightarrow> ?thesis" by (simp add: by_id_def)
qed

lemma short_ids: "lookup_ok st \<Longrightarrow> map n_node_id (dict_values (lk_short st)) = dict_keys (lk_short st)"
  by (auto simp: lookup_ok_def)

lemma short_by_id:
  assumes "lookup_ok st" shows "dict_values (by_id (dict_values (lk_short st))) = dict_values (lk_short st)"
proof -
  have "distinct (map n_node_id (dict_values (lk_short st)))"
    unfolding short_ids[OF assms] using assms by (simp add: lookup_ok_def)
  then show ?thesis by (simp add: by_id_distinct o_def)
qed

definition short_nodes :: "'w lookup \<Rightarrow> node_info list" where
  "short_nodes st = dict_values (lk_short st)"

lemma topk_Inr:
  assumes ok: "lookup_ok st" and t: "topk key st = Inr ns"
  shows "ns = topl (dist_to key) (kd_k (lk_node st)) (short_nodes st)"
    and "\<forall>n \<in> set (short_nodes st). xor_distance (n_node_id n) key \<noteq> None"
  using t short_by_id[OF ok]
  by (auto simp: topk_def closest_of_def sort_by_distance_def topl_def short_nodes_def list_all_iff
      split: if_splits)

lemma parse_hex_groups_bound: "parse_hex_groups s = Some n \<Longrightarrow> n < 16 ^ length s"
proof -
  assume p: "parse_hex_groups s = Some n"
  let ?f = "filter (\<lambda>c. c \<noteq> CHR ''_'') s"
  have "list_all is_hex_lower ?f"
  proof -
    have "list_all (\<lambda>g. list_all is_hex_lower g) (split_char (CHR ''_'') s)"
      using p by (auto simp: parse_hex_groups_def list_all_iff split: if_splits)
    then show ?thesis
      by (induction s) (auto split: if_splits list.splits simp: list_all_iff)
  qed
  from nat_of_hex_less[OF this, of 0 0] have "nat_of_hex 0 ?f < 16 ^ length ?f" by simp
  also have "(16::nat) ^ length ?f \<le> 16 ^ length s" by (intro power_increasing) auto
  finally show ?thesis using p by (auto simp: parse_hex_groups_def split: if_splits)
qed

lemma to_int_range: "to_int s = Some v \<Longrightarrow> - (2 ^ 256) \<le> v \<and> v < 2 ^ 256"
proof -
  have g: "n < 2 ^ 256" if "parse_hex_groups t = Some n" "length t \<le> 64" for n t
  proof -
    have "n < 16 ^ length t" by (rule parse_hex_groups_bound[OF that(1)])
    also have "(16::nat) ^ length t \<le> 16 ^ 64" using that(2) by (intro power_increasing) auto
    finally show ?thesis by simp
  qed
  have u: "n < 2 ^ 256" if "parse_hex_unsigned t = Some n" "length t \<le> 64" for n t
    using that g by (auto simp: parse_hex_unsigned_def split: if_splits)
  assume "to_int s = Some v"
  then have t: "length (lower (strip s)) = 64" "parse_hex (lower (strip s)) = Some v"
    by (auto simp: to_int_def Let_def ID_HEX_LEN_def split: if_splits)
  define t where "t = lower (strip s)"
  obtain n where "n < 2 ^ 256" "v = int n \<or> v = - int n"
    using t u[of t] u[of "drop 1 t"] unfolding t_def[symmetric]
    by (auto simp: parse_hex_def split: if_splits)
  moreover from \<open>n < 2 ^ 256\<close> have "int n < 2 ^ 256" by simp
  ultimately show ?thesis by auto
qed

lemma xor_int_range:
  fixes x y :: int
  assumes "- (2 ^ n) \<le> x" "x < 2 ^ n" "- (2 ^ n) \<le> y" "y < 2 ^ n"
  shows "- (2 ^ n) \<le> x XOR y \<and> x XOR y < 2 ^ n"
proof -
  have d: "drop_bit n z = 0 \<or> drop_bit n z = -1" if "- (2 ^ n) \<le> z" "z < 2 ^ n" for z :: int
  proof (cases "0 \<le> z")
    case True
    then show ?thesis using that by (simp add: drop_bit_eq_div)
  next
    case False
    have "z div 2 ^ n = -1" by (rule int_div_pos_eq[of _ _ _ "z + 2 ^ n"]) (use that False in auto)
    then show ?thesis by (simp add: drop_bit_eq_div)
  qed
  have "drop_bit n (x XOR y) = 0 \<or> drop_bit n (x XOR y) = -1"
    using d[OF assms(1,2)] d[OF assms(3,4)] by auto
  then have "(x XOR y) div 2 ^ n \<in> {0, -1}" by (simp add: drop_bit_eq_div)
  then have "(x XOR y) = (x XOR y) mod 2 ^ n \<or> (x XOR y) = - (2 ^ n) + (x XOR y) mod 2 ^ n"
    using div_mult_mod_eq[of "x XOR y" "2 ^ n"] by auto
  moreover have "0 \<le> (x XOR y) mod 2 ^ n" "(x XOR y) mod 2 ^ n < 2 ^ n" by simp_all
  ultimately show ?thesis by linarith
qed

lemma dist_to_range:
  "xor_distance (n_node_id n) key \<noteq> None \<Longrightarrow> - (2 ^ 256) \<le> dist_to key n \<and> dist_to key n < 2 ^ 256"
proof -
  assume "xor_distance (n_node_id n) key \<noteq> None"
  then obtain x y where "to_int (n_node_id n) = Some x" "to_int key = Some y" "dist_to key n = x XOR y"
    by (auto simp: dist_to_def xor_distance_def split: option.splits)
  then show ?thesis using to_int_range xor_int_range by metis
qed

definition dist_rank :: "string \<Rightarrow> node_info \<Rightarrow> nat" where
  "dist_rank key n = nat (dist_to key n + 2 ^ 256)"

text \<open>What decreases: nothing is left after an error; else the weight of the k
  nearest, and among equal weights the number of them not yet asked.\<close>
definition lookup_measure :: "string \<Rightarrow> 'w lookup \<Rightarrow> nat" where
  "lookup_measure key st =
     (if lk_err st \<noteq> None then 0
      else (let k = kd_k (lk_node st); ns = short_nodes st in
        Suc (weight (dist_rank key) (dist_to key) k (2 ^ 257) ns * (k + 1) +
             length (unqueried (topl (dist_to key) k ns) st))))"

lemma filter_shrinks:
  assumes "\<And>x. Q x \<Longrightarrow> P x" "x \<in> set xs" "P x" "\<not> Q x"
  shows "length (filter Q xs) < length (filter P xs)"
proof -
  have "filter Q xs = filter Q (filter P xs)" using assms(1) by (auto intro: filter_cong)
  moreover have "x \<in> set (filter P xs)" using assms by simp
  ultimately show ?thesis using length_filter_less[of x "filter P xs" Q] assms(4) by simp
qed

lemma lookup_round_decreases:
  assumes ok: "lookup_ok st" and alpha: "0 < kd_alpha (lk_node st)" and go: "lookup_goes_on key st"
  shows "grows st (lookup_round rpc key st) \<and>
    lookup_measure key (lookup_round rpc key st) < lookup_measure key st"
proof (cases "topk key st")
  case (Inl e)
  then show ?thesis using ok go
    by (auto simp: lookup_round_def lookup_measure_def grows_def lookup_ok_def lookup_goes_on_def Let_def)
next
  case (Inr ns)
  define k where "k = kd_k (lk_node st)"
  define S where "S = short_nodes st"
  have ns: "ns = topl (dist_to key) k S" and valid: "\<forall>n \<in> set S. xor_distance (n_node_id n) key \<noteq> None"
    using topk_Inr[OF ok Inr] by (simp_all add: k_def S_def)
  have err: "lk_err st = None" and unq: "unqueried ns st \<noteq> []"
    using go Inr by (auto simp: lookup_goes_on_def)
  define st' where "st' = query_peers rpc key (take (kd_alpha (lk_node st)) (unqueried ns st)) st"
  have round: "lookup_round rpc key st = st'" using Inr by (simp add: lookup_round_def st'_def)
  define u where "u = hd (unqueried ns st)"
  have u: "u \<in> set ns" "n_node_id u \<notin> set (lk_queried st)"
    using unq list.set_sel(1)[OF unq] by (auto simp: u_def unqueried_def)
  have g: "grows st st'" and u': "n_node_id u \<in> set (lk_queried st')"
    using query_peers_grows[OF ok, of rpc key "take (kd_alpha (lk_node st)) (unqueried ns st)"] unq alpha
    by (auto simp: st'_def u_def hd_take)
  obtain new where new: "lk_short st' = lk_short st @ new" using g by (auto simp: grows_def)
  define T where "T = map snd new"
  have S': "short_nodes st' = S @ T" by (simp add: short_nodes_def S_def T_def new)
  have k': "kd_k (lk_node st') = k" using g by (simp add: grows_def k_def)
  have "u \<in> set S" using u(1) by (auto simp: ns topl_def dest: in_set_takeD)
  then have "to_int key \<noteq> None" using valid by (fastforce simp: xor_distance_def split: option.splits)
  moreover have "to_int (n_node_id n) \<noteq> None" if "n \<in> set (S @ T)" for n
  proof -
    from that obtain i where "(i, n) \<in> set (lk_short st')"
      unfolding S'[symmetric] short_nodes_def by auto
    moreover have "lookup_ok st'" using g by (simp add: grows_def)
    ultimately show ?thesis unfolding lookup_ok_def by blast
  qed
  ultimately have val': "xor_distance (n_node_id n) key \<noteq> None" if "n \<in> set (S @ T)" for n
    using that xor_distance_valid by blast
  have range: "- (2 ^ 256) \<le> dist_to key n \<and> dist_to key n < 2 ^ 256" if "n \<in> set (S @ T)" for n
    by (rule dist_to_range[OF val'[OF that]])
  have top: "topl (dist_to key) k (S @ T) = ns \<or>
      weight (dist_rank key) (dist_to key) k (2 ^ 257) (S @ T) <
      weight (dist_rank key) (dist_to key) k (2 ^ 257) S"
    unfolding ns
  proof (rule topl_append)
    show "dist_rank key x < dist_rank key y"
      if "x \<in> set T" "y \<in> set (S @ T)" "dist_to key x < dist_to key y" for x y
      using that range[of x] range[of y] by (auto simp: dist_rank_def)
    show "dist_rank key x < 2 ^ 257" if "x \<in> set T" for x
      using range[of x] that by (auto simp: dist_rank_def nat_less_iff)
  qed
  have "lookup_measure key st' < lookup_measure key st"
  proof (cases "lk_err st' = None")
    case False
    then show ?thesis using err by (simp add: lookup_measure_def Let_def)
  next
    case True
    let ?w = "weight (dist_rank key) (dist_to key) k (2 ^ 257)"
    have m: "lookup_measure key st = Suc (?w S * (k + 1) + length (unqueried ns st))"
      "lookup_measure key st' = Suc (?w (S @ T) * (k + 1) +
         length (unqueried (topl (dist_to key) k (S @ T)) st'))"
      using err True by (simp_all add: lookup_measure_def Let_def S' k' ns S_def[symmetric] k_def[symmetric])
    from top show ?thesis
    proof
      assume same: "topl (dist_to key) k (S @ T) = ns"
      then have "?w (S @ T) = ?w S" by (simp add: weight_def ns)
      moreover have "length (unqueried ns st') < length (unqueried ns st)"
        unfolding unqueried_def
        by (rule filter_shrinks[of _ _ u]) (use g u u' in \<open>auto simp: grows_def\<close>)
      ultimately show ?thesis unfolding m same by simp
    next
      assume less: "?w (S @ T) < ?w S"
      have "length (unqueried (topl (dist_to key) k (S @ T)) st') \<le> k"
        unfolding unqueried_def by (rule order_trans[OF length_filter_le topl_length])
      moreover have "(?w (S @ T) + 1) * (k + 1) \<le> ?w S * (k + 1)"
        using less by (intro mult_right_mono) simp_all
      ultimately show ?thesis unfolding m by simp
    qed
  qed
  then show ?thesis using g round by simp
qed

lemma lookup_start_ok:
  assumes "node_ok nd" shows "lookup_ok (lookup_start key exclude nd w)"
proof (cases "closest key (Some (kd_k nd)) (kd_table nd)")
  case (Inl e)
  then show ?thesis using assms by (simp add: lookup_start_def lookup_ok_def)
next
  case (Inr ns)
  let ?f = "filter (\<lambda>n. n_node_id n \<notin> set exclude) ns"
  have ok: "table_ok (kd_table nd)" using assms by (simp add: node_ok_def)
  have ns: "ns = take (kd_k nd) (sort_key (dist_to key) (all_nodes (kd_table nd)))"
    using Inr by (auto simp: closest_def sort_by_distance_def split: if_splits)
  have "mset (map n_node_id (sort_key (dist_to key) (all_nodes (kd_table nd)))) =
      mset (map n_node_id (all_nodes (kd_table nd)))" by simp
  then have "distinct (map n_node_id (sort_key (dist_to key) (all_nodes (kd_table nd))))"
    using table_ok_nodes_distinct[OF ok] mset_eq_imp_distinct_iff by blast
  then have d: "distinct (map n_node_id ?f)"
    unfolding ns by (intro distinct_map_filter) (simp add: take_map[symmetric])
  moreover have "to_int (n_node_id n) \<noteq> None" if "n \<in> set ns" for n
    using that table_ok_valid[OF ok] unfolding ns by (auto dest: in_set_takeD)
  ultimately show ?thesis using assms Inr
    by (auto simp: lookup_start_def lookup_ok_def by_id_distinct o_def)
qed

lemma lookup_start_meta [simp]: "lk_node (lookup_start key exclude nd w) = nd"
  by (simp add: lookup_start_def split: sum.splits)

text \<open>What holds when the loop has ended.\<close>
definition settled :: "string \<Rightarrow> string list \<Rightarrow> kad_node \<Rightarrow> 'w \<Rightarrow> 'w lookup \<Rightarrow> bool" where
  "settled key exclude nd w st =
     (grows (lookup_start key exclude nd w) st \<and> \<not> lookup_goes_on key st)"

lemma run_lookup_ends:
  assumes ok: "node_ok nd" and alpha: "0 < kd_alpha nd"
  shows "\<exists>st. run_lookup rpc key exclude nd w = Some st \<and> settled key exclude nd w st"
proof -
  let ?s0 = "lookup_start key exclude nd w"
  let ?P = "\<lambda>st. grows ?s0 st"
  have start: "?P ?s0" by (rule grows_refl[OF lookup_start_ok[OF ok]])
  have step: "?P (lookup_round rpc key st) \<and>
      lookup_measure key (lookup_round rpc key st) < lookup_measure key st"
    if P: "?P st" and go: "lookup_goes_on key st" for st
  proof -
    have "lookup_ok st" "0 < kd_alpha (lk_node st)" using P alpha by (auto simp: grows_def)
    from lookup_round_decreases[OF this go] show ?thesis using grows_trans[OF P] by blast
  qed
  have "\<exists>t. while_option (lookup_goes_on key) (lookup_round rpc key) ?s0 = Some t"
    by (rule measure_while_option_Some[where P = "?P" and f = "lookup_measure key"])
       (use step start in blast)+
  then obtain st where st: "while_option (lookup_goes_on key) (lookup_round rpc key) ?s0 = Some st" by blast
  have "?P st" by (rule while_option_rule[OF _ st]) (use step start in blast)+
  then show ?thesis using st while_option_stop[OF st] by (auto simp: run_lookup_def settled_def)
qed

section \<open>What the lookup returns\<close>

text \<open>A node that has been created and has observed any peers.\<close>
definition met :: "node_info list \<Rightarrow> kad_node \<Rightarrow> kad_node" where
  "met ns nd = fold (\<lambda>n nd. fst (observe n nd)) ns nd"

lemma node_ok_new: "node_ok (new_kad_node i h p k alpha)"
  by (simp add: node_ok_def new_kad_node_def) (simp add: new_table_def)

lemma node_ok_met: "node_ok nd \<Longrightarrow> node_ok (met ns nd)"
  unfolding met_def by (induction ns arbitrary: nd) (auto simp: node_ok_observe)

lemma met_meta [simp]:
  "kd_alpha (met ns nd) = kd_alpha nd" "kd_k (met ns nd) = kd_k nd" "kd_info (met ns nd) = kd_info nd"
proof -
  have "kd_alpha (met ns nd) = kd_alpha nd \<and> kd_k (met ns nd) = kd_k nd \<and> kd_info (met ns nd) = kd_info nd"
    unfolding met_def
  proof (induction ns arbitrary: nd)
    case (Cons n ns)
    then show ?case using observe_meta[of n nd "fst (observe n nd)" "snd (observe n nd)"] by simp
  qed simp
  then show "kd_alpha (met ns nd) = kd_alpha nd" "kd_k (met ns nd) = kd_k nd" "kd_info (met ns nd) = kd_info nd"
    by auto
qed

lemma settled_topk:
  assumes "settled key exclude nd w st" "lk_err st = None"
  shows "closest_of (short_nodes st) key (kd_k nd) = Inr (topl (dist_to key) (kd_k nd) (short_nodes st))"
    and "\<forall>n \<in> set (topl (dist_to key) (kd_k nd) (short_nodes st)). n_node_id n \<in> set (lk_queried st)"
proof -
  have ok: "lookup_ok st" and k: "kd_k (lk_node st) = kd_k nd"
    using assms(1) by (auto simp: settled_def grows_def)
  obtain ns where t: "topk key st = Inr ns" and u: "unqueried ns st = []"
    using assms by (auto simp: settled_def lookup_goes_on_def split: sum.splits)
  have ns: "ns = topl (dist_to key) (kd_k nd) (short_nodes st)"
    using topk_Inr(1)[OF ok t] k by simp
  show "closest_of (short_nodes st) key (kd_k nd) = Inr (topl (dist_to key) (kd_k nd) (short_nodes st))"
    using t ns k by (simp add: topk_def short_nodes_def)
  show "\<forall>n \<in> set (topl (dist_to key) (kd_k nd) (short_nodes st)). n_node_id n \<in> set (lk_queried st)"
    using u unfolding unqueried_def filter_empty_conv ns by blast
qed

lemma topl_nearest:
  "m \<in> set (topl f k xs) \<Longrightarrow> n \<in> set xs - set (topl f k xs) \<Longrightarrow> f m \<le> f n"
  unfolding topl_def by (rule take_sort_split) auto

lemma topl_sorted: "sorted (map f (topl f k xs))"
  by (simp add: topl_def take_map[symmetric])

text \<open>C15: the iterative lookup always returns.  For a node reached by any contacts with
  alpha at least 1, and for every transport, also one whose peers answer with arbitrary
  peers, change their answers or fail, the lookup ends with an error or with a list
  that is sorted by distance to the key, in which every peer was itself asked for the
  key, and such that no peer of the final shortlist that is left out is nearer than one
  in the list.\<close>
theorem iterative_locate_returns:
  assumes "0 < alpha"
  shows "\<exists>nd' w' out. iterative_locate rpc key None (met ns (new_kad_node i h p k alpha)) w = Some (nd', w', out) \<and>
     node_ok nd' \<and>
     (case out of
        Inl e \<Rightarrow> True
      | Inr found \<Rightarrow>
          length found \<le> k \<and> sorted (map (dist_to key) found) \<and>
          (\<exists>st. run_lookup rpc key [] (met ns (new_kad_node i h p k alpha)) w = Some st \<and>
             set found \<subseteq> set (short_nodes st) \<and>
             list_all (\<lambda>n. n_node_id n \<in> set (lk_queried st)) found \<and>
             (\<forall>n \<in> set (short_nodes st) - set found. \<forall>m \<in> set found. dist_to key m \<le> dist_to key n)))"
proof -
  define nd where "nd = met ns (new_kad_node i h p k alpha)"
  have ok: "node_ok nd" by (simp add: nd_def node_ok_met node_ok_new)
  have kd: "kd_k nd = k" "kd_alpha nd = alpha" by (simp_all add: nd_def new_kad_node_def)
  obtain st where st: "run_lookup rpc key [] nd w = Some st" and s: "settled key [] nd w st"
    using run_lookup_ends[OF ok, of rpc key "[]" w] assms kd by auto
  have nd': "node_ok (lk_node st)" using s by (simp add: settled_def grows_def lookup_ok_def)
  show ?thesis
  proof (cases "lk_err st")
    case (Some e)
    then show ?thesis unfolding nd_def[symmetric] using st nd' by (simp add: iterative_locate_def)
  next
    case None
    note f = settled_topk[OF s None]
    have "iterative_locate rpc key None nd w =
        Some (lk_node st, lk_world st, Inr (topl (dist_to key) k (short_nodes st)))"
      using st None f(1) kd by (simp add: iterative_locate_def short_nodes_def)
    moreover have "set (topl (dist_to key) k (short_nodes st)) \<subseteq> set (short_nodes st)"
      by (auto simp: topl_def dest: in_set_takeD)
    ultimately show ?thesis
      unfolding nd_def[symmetric] using nd' st f(2) kd topl_nearest[of _ "dist_to key" k "short_nodes st"]
      by (simp add: topl_length topl_sorted list_all_iff)
  qed
qed

lemma iterative_locate_returns_witness:
  "\<exists>nd' w' out. iterative_locate (\<lambda>n key w. (w + 1, None)) (replicate 64 (CHR ''0'')) None
     (met [] (new_kad_node (replicate 64 (CHR ''1'')) ''h'' 1 20 3)) (0::nat) = Some (nd', w', out)"
proof -
  have "(0::nat) < 3" by simp
  from iterative_locate_returns[OF this, of "\<lambda>n key w. (w + 1, None)" "replicate 64 (CHR ''0'')"]
  show ?thesis by blast
qed

lemma one_peer_lookup:
  fixes me q z :: string
  defines "peer \<equiv> \<lparr>n_node_id = q, n_host = ''h'', n_port = 1\<rparr>"
  defines "bad \<equiv> \<lparr>n_node_id = z, n_host = ''h'', n_port = 2\<rparr>"
  defines "nd \<equiv> met [peer] (new_kad_node me ''h'' 0 20 3)"
  assumes facts: "bucket_index me q = Some 0" "bucket_index me z = None" "xor_distance q me = Some 1"
    "q \<noteq> me" "z \<noteq> me"
  shows "map_option (\<lambda>(nd', w', out). out) (iterative_locate (\<lambda>n key w. (w, Some [bad])) me None nd (0::nat))
        = Some (Inl ValueError)"
    and "map_option (\<lambda>(nd', w', out). out) (iterative_locate (\<lambda>n key w. (w, None)) me None nd (0::nat))
        = Some (Inr [peer])"
proof -
  have nd: "nd = \<lparr>kd_info = \<lparr>n_node_id = me, n_host = ''h'', n_port = 0\<rparr>, kd_k = 20, kd_alpha = 3,
      kd_table = \<lparr>rt_node_id = me, rt_k = 20, rt_buckets = [(0, \<lparr>kb_k = 20, kb_nodes = [peer]\<rparr>)]\<rparr>\<rparr>"
    using facts by (simp add: nd_def met_def new_kad_node_def new_table_def observe_def add_node_def
        bucket_for_def new_kbucket_def kb_add_def peer_def Let_def)
  define st where "st = \<lparr>lk_node = nd, lk_world = (0::nat), lk_short = [(q, peer)],
      lk_queried = [], lk_exclude = [], lk_err = None\<rparr>"
  have start: "lookup_start me [] nd (0::nat) = st"
    using facts by (simp add: lookup_start_def closest_def sort_by_distance_def all_nodes_def nd
        by_id_def st_def peer_def)
  have top: "topk me s = Inr [peer]" if "lk_short s = [(q, peer)]" "kd_k (lk_node s) = 20" for s :: "nat lookup"
    using facts that by (simp add: topk_def closest_of_def by_id_def sort_by_distance_def peer_def)
  have go: "lookup_goes_on me st"
    by (simp add: lookup_goes_on_def top st_def unqueried_def nd)
  define s1 where "s1 = st\<lparr>lk_queried := [q], lk_exclude := [q]\<rparr>"
  have b: "lookup_round (\<lambda>n key w. (w, Some [bad])) me st = s1\<lparr>lk_err := Some ValueError\<rparr>"
    using facts by (simp add: lookup_round_def top st_def s1_def nd unqueried_def peer_def safe_rpc_def
        observe_def add_node_def bucket_for_def bad_def Let_def)
  have g: "lookup_round (\<lambda>n key w. (w, None)) me st = s1"
    using facts by (simp add: lookup_round_def top st_def s1_def nd unqueried_def peer_def safe_rpc_def Let_def)
  have stop: "\<not> lookup_goes_on me (s1\<lparr>lk_err := Some ValueError\<rparr>)" "\<not> lookup_goes_on me s1"
    by (simp_all add: lookup_goes_on_def top s1_def st_def nd unqueried_def peer_def)
  show "map_option (\<lambda>(nd', w', out). out) (iterative_locate (\<lambda>n key w. (w, Some [bad])) me None nd (0::nat))
        = Some (Inl ValueError)"
    by (simp add: iterative_locate_def run_lookup_def start while_option_unfold[of _ _ st] go b
        while_option_unfold[of _ _ "s1\<lparr>lk_err := Some ValueError\<rparr>"] stop)
  have "closest_of [peer] me 20 = Inr [peer]"
    using facts by (simp add: closest_of_def by_id_def sort_by_distance_def peer_def)
  then show "map_option (\<lambda>(nd', w', out). out) (iterative_locate (\<lambda>n key w. (w, None)) me None nd (0::nat))
        = Some (Inr [peer])"
    by (simp add: iterative_locate_def run_lookup_def start while_option_unfold[of _ _ st] go g
        while_option_unfold[of _ _ s1] stop)
       (simp add: s1_def st_def nd)
qed

text \<open>One hostile answer aborts a lookup.  A node that knows one peer looks up its own
  neighbourhood; the peer answers with a peer whose identifier is malformed; the lookup
  returns an error instead of the peers found, although the source wraps the rpc so that
  a hostile peer does not abort the walk.\<close>
theorem malformed_answer_aborts_lookup:
  "let me = replicate 64 (CHR ''0''); peer = \<lparr>n_node_id = replicate 63 (CHR ''0'') @ ''1'', n_host = ''h'', n_port = 1\<rparr>;
       bad = \<lparr>n_node_id = ''zz'', n_host = ''h'', n_port = 2\<rparr>;
       nd = met [peer] (new_kad_node me ''h'' 0 20 3)
   in map_option (\<lambda>(nd', w', out). out) (iterative_locate (\<lambda>n key w. (w, Some [bad])) me None nd (0::nat))
        = Some (Inl ValueError) \<and>
      map_option (\<lambda>(nd', w', out). out) (iterative_locate (\<lambda>n key w. (w, None)) me None nd (0::nat))
        = Some (Inr [peer])"
proof -
  let ?me = "replicate 64 (CHR ''0'')"
  have "bucket_index ?me (replicate 63 (CHR ''0'') @ ''1'') = Some 0" "bucket_index ?me ''zz'' = None"
    "xor_distance (replicate 63 (CHR ''0'') @ ''1'') ?me = Some 1"
    "replicate 63 (CHR ''0'') @ ''1'' \<noteq> ?me" "''zz'' \<noteq> ?me"
    by code_simp+
  from one_peer_lookup[OF this] show ?thesis unfolding Let_def by blast
qed

section \<open>Disjoint paths\<close>

definition avoids :: "string set \<Rightarrow> 'w lookup \<Rightarrow> bool" where
  "avoids X st =
     (X \<subseteq> set (lk_exclude st) \<and> set (dict_keys (lk_short st)) \<inter> X = {} \<and>
      set (lk_queried st) \<subseteq> set (dict_keys (lk_short st)))"

lemma take_answers_avoids: "avoids X st \<Longrightarrow> avoids X (take_answers rs st)"
proof (induction rs st rule: take_answers.induct)
  case (2 r rs st)
  obtain nd e where o: "observe r (lk_node st) = (nd, e)" by (cases "observe r (lk_node st)")
  show ?case
  proof (cases e)
    case (Some err)
    then show ?thesis using 2(2) o by (simp add: avoids_def)
  next
    case None
    define st1 where "st1 = st\<lparr>lk_node := nd\<rparr>"
    define st2 where "st2 = (if n_node_id r \<noteq> n_node_id (kd_info nd) \<and>
        n_node_id r \<notin> set (dict_keys (lk_short st1)) \<and> n_node_id r \<notin> set (lk_exclude st1)
      then st1\<lparr>lk_short := dict_set (n_node_id r) r (lk_short st1)\<rparr> else st1)"
    have "avoids X st2" using 2(2) by (auto simp: avoids_def st2_def st1_def dict_set_new)
    moreover have "take_answers (r # rs) st = take_answers rs st2"
      using o None by (simp add: Let_def st1_def st2_def)
    ultimately show ?thesis using 2(1)[OF o[symmetric, unfolded None] refl st1_def st2_def] by simp
  qed
qed simp

lemma query_peers_avoids:
  "lookup_ok st \<Longrightarrow> avoids X st \<Longrightarrow> n_node_id ` set ns \<subseteq> set (dict_keys (lk_short st)) \<Longrightarrow>
   avoids X (query_peers rpc key ns st)"
proof (induction rpc key ns st rule: query_peers.induct)
  case (2 rpc key n ns st)
  define st1 where "st1 = st\<lparr>lk_queried := List.insert (n_node_id n) (lk_queried st),
     lk_exclude := List.insert (n_node_id n) (lk_exclude st)\<rparr>"
  obtain w ans where r: "safe_rpc rpc n key (lk_world st1) = (w, ans)"
    by (cases "safe_rpc rpc n key (lk_world st1)")
  define st2 where "st2 = take_answers ans (st1\<lparr>lk_world := w\<rparr>)"
  have ok1: "lookup_ok (st1\<lparr>lk_world := w\<rparr>)" using 2(2) by (simp add: lookup_ok_def st1_def)
  have a2: "avoids X st2" unfolding st2_def
    by (rule take_answers_avoids) (use 2(3,4) in \<open>auto simp: avoids_def st1_def\<close>)
  have g: "grows (st1\<lparr>lk_world := w\<rparr>) st2"
    using take_answers_grows[OF ok1, of ans] by (simp add: st2_def)
  then have "set (dict_keys (lk_short st)) \<subseteq> set (dict_keys (lk_short st2))"
    by (auto simp: grows_def st1_def)
  then have ns: "n_node_id ` set ns \<subseteq> set (dict_keys (lk_short st2))"
  proof -
    have "n_node_id ` set ns \<subseteq> set (dict_keys (lk_short st))" using 2(4) by auto
    also note \<open>set (dict_keys (lk_short st)) \<subseteq> set (dict_keys (lk_short st2))\<close>
    finally show ?thesis .
  qed
  have "query_peers rpc key (n # ns) st =
     (if lk_err st2 \<noteq> None then st2 else query_peers rpc key ns st2)"
    using r by (simp add: Let_def st1_def st2_def del: not_None_eq)
  moreover have "lk_err st2 = None \<Longrightarrow> avoids X (query_peers rpc key ns st2)"
    by (rule 2(1)[OF st1_def r[symmetric] refl st2_def]) (use a2 g ns in \<open>auto simp: grows_def\<close>)
  ultimately show ?case using a2 by simp
qed simp

lemma short_node_ids:
  "lookup_ok st \<Longrightarrow> n_node_id ` set (short_nodes st) = set (dict_keys (lk_short st))"
  by (metis set_map short_ids short_nodes_def)

lemma lookup_round_avoids:
  assumes ok: "lookup_ok st" and a: "avoids X st"
  shows "avoids X (lookup_round rpc key st)"
proof (cases "topk key st")
  case (Inl e)
  then show ?thesis using a by (simp add: lookup_round_def avoids_def)
next
  case (Inr ns)
  have "set ns \<subseteq> set (short_nodes st)"
    using topk_Inr(1)[OF ok Inr] by (auto simp: topl_def dest: in_set_takeD)
  moreover have "n_node_id ` set (short_nodes st) = set (dict_keys (lk_short st))"
    by (rule short_node_ids[OF ok])
  ultimately have "n_node_id ` set (take (kd_alpha (lk_node st)) (unqueried ns st)) \<subseteq> set (dict_keys (lk_short st))"
    by (metis (no_types, lifting) filter_is_subset image_mono order_trans set_take_subset unqueried_def)
  then show ?thesis using Inr query_peers_avoids[OF ok a] by (simp add: lookup_round_def)
qed

lemma lookup_start_avoids: "avoids (set exclude) (lookup_start key exclude nd w)"
proof (cases "closest key (Some (kd_k nd)) (kd_table nd)")
  case (Inl e)
  then show ?thesis by (simp add: lookup_start_def avoids_def)
next
  case (Inr ns)
  have "set (dict_keys (by_id l)) \<subseteq> n_node_id ` set l" for l
  proof -
    have "set (dict_keys (fold (\<lambda>n d. dict_set (n_node_id n) n d) l d)) \<subseteq> n_node_id ` set l \<union> set (dict_keys d)" for d
    proof (induction l arbitrary: d)
      case (Cons n l)
      have "set (dict_keys (fold (\<lambda>n d. dict_set (n_node_id n) n d) (n # l) d))
          \<subseteq> n_node_id ` set l \<union> set (dict_keys (dict_set (n_node_id n) n d))"
        using Cons.IH by simp
      then show ?case by (auto simp: dom_update)
    qed simp
    from this[of "[]"] show ?thesis by (simp add: by_id_def)
  qed
  from this[of "filter (\<lambda>n. n_node_id n \<notin> set exclude) ns"] show ?thesis
    using Inr by (auto simp: lookup_start_def avoids_def)
qed

text \<open>Paths of the S/Kademlia lookup are node-disjoint.  A lookup that is given the
  peers used by the earlier paths returns, asks none of them and returns none of them,
  and reports every peer it asked among the used ones for the paths that follow,
  whatever the peers answer.\<close>
theorem lookup_path_disjoint:
  assumes "0 < alpha"
  shows "\<exists>st. run_lookup rpc key used (met ns (new_kad_node i h p k alpha)) w = Some st \<and>
     set (lk_queried st) \<inter> set used = {} \<and>
     n_node_id ` set (short_nodes st) \<inter> set used = {} \<and>
     set (lk_queried st) \<union> set used \<subseteq> set (lk_exclude st)"
proof -
  define nd where "nd = met ns (new_kad_node i h p k alpha)"
  have ok: "node_ok nd" and al: "0 < kd_alpha nd"
    using assms by (simp_all add: nd_def node_ok_met node_ok_new) (simp add: new_kad_node_def)
  obtain st where st: "run_lookup rpc key used nd w = Some st" and s: "settled key used nd w st"
    using run_lookup_ends[OF ok al, of rpc key used w] by auto
  let ?s0 = "lookup_start key used nd w"
  let ?P = "\<lambda>st. grows ?s0 st \<and> avoids (set used) st \<and> set (lk_queried st) \<subseteq> set (lk_exclude st)"
  have qe: "set (lk_queried (query_peers rpc key ns st)) \<subseteq> set (lk_exclude (query_peers rpc key ns st))"
    if "lookup_ok st" "set (lk_queried st) \<subseteq> set (lk_exclude st)" for ns st
    using that
  proof (induction rpc key ns st rule: query_peers.induct)
    case (2 rpc key n ns st)
    define st1 where "st1 = st\<lparr>lk_queried := List.insert (n_node_id n) (lk_queried st),
       lk_exclude := List.insert (n_node_id n) (lk_exclude st)\<rparr>"
    obtain w ans where r: "safe_rpc rpc n key (lk_world st1) = (w, ans)"
      by (cases "safe_rpc rpc n key (lk_world st1)")
    define st2 where "st2 = take_answers ans (st1\<lparr>lk_world := w\<rparr>)"
    have ok1: "lookup_ok (st1\<lparr>lk_world := w\<rparr>)" using 2(2) by (simp add: lookup_ok_def st1_def)
    have "grows (st1\<lparr>lk_world := w\<rparr>) st2 \<and> lk_queried st2 = lk_queried st1 \<and> lk_exclude st2 = lk_exclude st1"
      using take_answers_grows[OF ok1, of ans] by (simp add: st2_def)
    then have "lookup_ok st2" "set (lk_queried st2) \<subseteq> set (lk_exclude st2)"
      using 2(3) by (auto simp: grows_def st1_def)
    moreover have "query_peers rpc key (n # ns) st =
       (if lk_err st2 \<noteq> None then st2 else query_peers rpc key ns st2)"
      using r by (simp add: Let_def st1_def st2_def del: not_None_eq)
    ultimately show ?case using 2(1)[OF st1_def r[symmetric] refl st2_def] by auto
  qed simp
  have step: "?P (lookup_round rpc key st)" if P: "?P st" and go: "lookup_goes_on key st" for st
  proof -
    have l: "lookup_ok st" "0 < kd_alpha (lk_node st)" using P al by (auto simp: grows_def)
    have "set (lk_queried (lookup_round rpc key st)) \<subseteq> set (lk_exclude (lookup_round rpc key st))"
      using P qe[OF l(1)] by (simp add: lookup_round_def split: sum.splits)
    then show ?thesis
      using lookup_round_decreases[OF l go] lookup_round_avoids[OF l(1)] P grows_trans by blast
  qed
  have start: "?P ?s0"
  proof (intro conjI)
    show "grows ?s0 ?s0" by (rule grows_refl[OF lookup_start_ok[OF ok]])
    show "avoids (set used) ?s0" by (rule lookup_start_avoids)
    show "set (lk_queried ?s0) \<subseteq> set (lk_exclude ?s0)"
      by (simp add: lookup_start_def split: sum.splits)
  qed
  have "?P st" by (rule while_option_rule[OF _ st[unfolded run_lookup_def]]) (use step start in blast)+
  then show ?thesis
    unfolding nd_def[symmetric] using st short_node_ids[of st]
    by (intro exI[of _ st]) (auto simp: avoids_def grows_def)
qed

lemma lookup_path_disjoint_witness:
  "\<exists>st. run_lookup (\<lambda>n key w. (w + 1, None)) (replicate 64 (CHR ''0'')) [''x'']
     (met [] (new_kad_node (replicate 64 (CHR ''1'')) ''h'' 1 20 3)) (0::nat) = Some st \<and>
     ''x'' \<notin> set (lk_queried st)"
proof -
  have "(0::nat) < 3" by simp
  from lookup_path_disjoint[OF this, of "\<lambda>n key w. (w + 1, None)" "replicate 64 (CHR ''0'')" "[''x'']"]
  show ?thesis by fastforce
qed

end
