(* ===== verification/Durations.thy ===== *)
theory Durations
  imports Prelude
begin

text \<open>
  server/synthesis_duration.py: the compact duration notation, its rendering,
  and the duration and expiration granted to a synthesis.
\<close>

definition unit_seconds :: "char \<Rightarrow> nat option" where
  "unit_seconds c =
     (if c = CHR ''s'' then Some 1
      else if c = CHR ''m'' then Some 60
      else if c = CHR ''h'' then Some (60 * 60)
      else if c = CHR ''d'' then Some (60 * 60 * 24)
      else None)"

text \<open>The regular expression: space, digits, space, one unit letter in either
  case, space.\<close>
definition match_duration :: "string \<Rightarrow> (string \<times> char) option" where
  "match_duration text =
     (let t = dropWhile is_ws text;
          digits = takeWhile is_digit t;
          rest = dropWhile is_ws (dropWhile is_digit t)
      in if digits = [] then None
         else (case rest of
                 [] \<Rightarrow> None
               | c # tail \<Rightarrow>
                   if unit_seconds (char_lower c) \<noteq> None \<and> list_all is_ws tail
                   then Some (digits, char_lower c) else None))"

definition parse_duration :: "string \<Rightarrow> py_error + nat" where
  "parse_duration text =
     (if text = [] then Inl ValueError
      else (case match_duration text of
              None \<Rightarrow> Inl ValueError
            | Some (digits, u) \<Rightarrow>
                (case unit_seconds u of
                   None \<Rightarrow> Inl (KeyError [u])
                 | Some k \<Rightarrow> Inr (nat_of_digits 0 digits * k))))"

definition format_duration_seconds :: "rat \<Rightarrow> py_error + string" where
  "format_duration_seconds seconds =
     (if seconds < 0 then Inl ValueError
      else (let n = nat \<lfloor>seconds\<rfloor> in
        if n = 0 then Inr ''0s''
        else if n mod 86400 = 0 then Inr (digits_of_nat (n div 86400) @ ''d'')
        else if n mod 3600 = 0 then Inr (digits_of_nat (n div 3600) @ ''h'')
        else if n mod 60 = 0 then Inr (digits_of_nat (n div 60) @ ''m'')
        else Inr (digits_of_nat n @ ''s'')))"

lemma digit_not_ws: "is_digit c \<Longrightarrow> \<not> is_ws c"
  by (auto simp: is_digit_def is_ws_def Let_def)

lemma unit_not_digit: "unit_seconds c \<noteq> None \<Longrightarrow> \<not> is_digit c \<and> \<not> is_ws c \<and> char_lower c = c"
proof -
  assume "unit_seconds c \<noteq> None"
  then consider "c = CHR ''s''" | "c = CHR ''m''" | "c = CHR ''h''" | "c = CHR ''d''"
    by (auto simp: unit_seconds_def split: if_splits)
  then show ?thesis by cases (simp_all add: is_digit_def is_ws_def char_lower_def is_upper_def)
qed

lemma takeWhile_digits:
  assumes "list_all P ds" "\<not> P c"
  shows "takeWhile P (ds @ c # t) = ds" "dropWhile P (ds @ c # t) = c # t"
  using assms by (induction ds) auto

text \<open>A number in decimal notation followed by a unit letter is read back.\<close>
lemma parse_duration_render:
  assumes u: "unit_seconds u = Some k"
  shows "parse_duration (digits_of_nat n @ [u]) = Inr (n * k)"
proof -
  let ?d = "digits_of_nat n"
  have nu: "\<not> is_digit u" "\<not> is_ws u" "char_lower u = u" using unit_not_digit[of u] u by simp_all
  have d: "list_all is_digit ?d" by (rule digits_of_nat_digits)
  obtain c cs where c: "?d = c # cs" using digits_of_nat_nonempty[of n] by (cases ?d) auto
  then have "\<not> is_ws c" using d digit_not_ws by auto
  then have "dropWhile is_ws (?d @ [u]) = ?d @ [u]" using c by simp
  then have "match_duration (?d @ [u]) = Some (?d, u)"
    using takeWhile_digits[OF d nu(1), of "[]"] nu u c by (simp add: match_duration_def Let_def)
  then show ?thesis using u by (simp add: parse_duration_def nat_of_digits_of_nat)
qed

text \<open>Rendering a number of seconds and parsing the text gives the number back, so
  the duration an agent is told it was granted denotes exactly the granted seconds.\<close>
theorem duration_roundtrip:
  "bind_res (format_duration_seconds (of_nat n)) parse_duration = Inr n"
proof -
  have z: "parse_duration ''0s'' = Inr 0" by code_simp
  have u: "unit_seconds (CHR ''s'') = Some 1" "unit_seconds (CHR ''m'') = Some 60"
    "unit_seconds (CHR ''h'') = Some 3600" "unit_seconds (CHR ''d'') = Some 86400"
    by (simp_all add: unit_seconds_def)
  note p = parse_duration_render[OF u(1)] parse_duration_render[OF u(2)]
    parse_duration_render[OF u(3)] parse_duration_render[OF u(4)]
  have k: "n mod m = 0 \<Longrightarrow> n div m * m = n" for m by (metis add.right_neutral div_mult_mod_eq)
  show ?thesis
    unfolding format_duration_seconds_def Let_def
    by (simp add: z p k)
qed

section \<open>Granted durations\<close>

record synthesis_config =
  sc_session_duration :: string
  sc_persistent_default_duration :: string
  sc_persistent_max_duration :: string

text \<open>The granted seconds and the text of the response; None when no duration is
  configured.\<close>
definition granted_seconds :: "synthesis_config option \<Rightarrow> bool \<Rightarrow> rat option
    \<Rightarrow> py_error + (rat \<times> string) option" where
  "granted_seconds config persistent requested =
     (case config of
        None \<Rightarrow> Inr None
      | Some cfg \<Rightarrow>
          if \<not> persistent then
            (if sc_session_duration cfg = [] then Inr None
             else bind_res (parse_duration (sc_session_duration cfg)) (\<lambda>s.
                  bind_res (format_duration_seconds (of_nat s)) (\<lambda>t. Inr (Some (of_nat s, t)))))
          else
            bind_res (if sc_persistent_max_duration cfg = [] then Inr None
                      else bind_res (parse_duration (sc_persistent_max_duration cfg)) (\<lambda>m. Inr (Some m)))
            (\<lambda>max_seconds.
              case requested of
                None \<Rightarrow>
                  (if sc_persistent_default_duration cfg = [] then Inr None
                   else bind_res (parse_duration (sc_persistent_default_duration cfg)) (\<lambda>s.
                     let capped = (case max_seconds of None \<Rightarrow> of_nat s | Some m \<Rightarrow> min (of_nat s) (of_nat m))
                     in bind_res (format_duration_seconds capped) (\<lambda>t. Inr (Some (capped, t)))))
              | Some r \<Rightarrow>
                  (let capped = (case max_seconds of None \<Rightarrow> r | Some m \<Rightarrow> min r (of_nat m))
                   in bind_res (format_duration_seconds capped) (\<lambda>t. Inr (Some (capped, t))))))"

text \<open>Instants are seconds of the epoch; the years of a datetime end with 9999, and an
  addition that goes past them raises.\<close>
definition datetime_end :: rat where
  "datetime_end = 253402300800"

definition compute_expiration :: "synthesis_config option \<Rightarrow> bool \<Rightarrow> rat option \<Rightarrow> rat
    \<Rightarrow> py_error + (rat \<times> string) option" where
  "compute_expiration config persistent requested now =
     bind_res (granted_seconds config persistent requested)
       (\<lambda>g. case g of None \<Rightarrow> Inr None
         | Some (s, t) \<Rightarrow> if now + s < datetime_end then Inr (Some (now + s, t)) else Inl OverflowError)"

text \<open>A persistent grant never exceeds the configured maximum, and a request below
  it is granted as asked.\<close>
lemma expiration_capped:
  assumes "compute_expiration (Some cfg) True requested now = Inr (Some (expires, t))"
    and "parse_duration (sc_persistent_max_duration cfg) = Inr m"
  shows "expires \<le> now + of_nat m"
    and "requested = Some r \<Longrightarrow> r \<le> of_nat m \<Longrightarrow> expires = now + r"
proof -
  have "sc_persistent_max_duration cfg \<noteq> []"
    using assms(2) by (auto simp: parse_duration_def)
  then have g: "granted_seconds (Some cfg) True requested =
     (case requested of
        None \<Rightarrow>
          (if sc_persistent_default_duration cfg = [] then Inr None
           else bind_res (parse_duration (sc_persistent_default_duration cfg)) (\<lambda>s.
             bind_res (format_duration_seconds (min (of_nat s) (of_nat m)))
               (\<lambda>t. Inr (Some (min (of_nat s) (of_nat m), t)))))
      | Some r \<Rightarrow> bind_res (format_duration_seconds (min r (of_nat m)))
               (\<lambda>t. Inr (Some (min r (of_nat m), t))))"
    using assms(2) by (cases requested) (simp_all add: granted_seconds_def Let_def)
  obtain s where s: "granted_seconds (Some cfg) True requested = Inr (Some (s, t))" "expires = now + s"
    using assms(1) by (auto simp: compute_expiration_def bind_res_Inr split: option.splits if_splits)
  show "expires \<le> now + of_nat m"
    using s unfolding g by (auto simp: bind_res_Inr split: option.splits if_splits)
  show "requested = Some r \<Longrightarrow> r \<le> of_nat m \<Longrightarrow> expires = now + r"
    using s unfolding g by (auto simp: bind_res_Inr)
qed

end
