(* ===== verification/Proposal_Store.thy ===== *)
theory Proposal_Store
  imports Durations
begin

text \<open>
  server/proposal_store.py: the store of asynchronous PROPOSE evaluations and
  the poll endpoint of server/builtins.py that reads it.  The identifier and
  the clock of a creation are arguments.  A proposal is a state machine:
  pending, then accepted or rejected, once.
\<close>

datatype proposal_state = Pending | Accepted | Rejected

record proposal_record =
  pp_proposal_id :: string
  pp_agent_id :: string
  pp_body :: jobj
  pp_state :: proposal_state
  pp_started_at :: rat
  pp_deadline :: rat
  pp_persistent :: bool
  pp_requested_seconds :: "rat option"
  pp_result_status :: "int option"
  pp_result_body :: "jobj option"
  pp_resolved_at :: "rat option"

record proposal_store =
  ps_records :: "(string, proposal_record) dict"
  ps_max_evaluation_seconds :: rat

definition new_proposal_store :: "rat \<Rightarrow> proposal_store" where
  "new_proposal_store m = \<lparr>ps_records = [], ps_max_evaluation_seconds = m\<rparr>"

definition create :: "string \<Rightarrow> rat \<Rightarrow> string \<Rightarrow> jobj \<Rightarrow> bool \<Rightarrow> rat option
    \<Rightarrow> proposal_store \<Rightarrow> proposal_store \<times> string" where
  "create pid now agent_id body persistent requested s =
     (let r = \<lparr>pp_proposal_id = pid, pp_agent_id = agent_id, pp_body = body, pp_state = Pending,
               pp_started_at = now, pp_deadline = now + ps_max_evaluation_seconds s,
               pp_persistent = persistent, pp_requested_seconds = requested,
               pp_result_status = None, pp_result_body = None, pp_resolved_at = None\<rparr>
      in (s\<lparr>ps_records := dict_set pid r (ps_records s)\<rparr>, pid))"

definition lookup :: "string \<Rightarrow> proposal_store \<Rightarrow> proposal_record option" where
  "lookup pid s = dict_get (ps_records s) pid"

definition resolve :: "string \<Rightarrow> proposal_state \<Rightarrow> int \<Rightarrow> jobj \<Rightarrow> rat
    \<Rightarrow> proposal_store \<Rightarrow> proposal_store \<times> bool" where
  "resolve pid state status body now s =
     (case dict_get (ps_records s) pid of
        None \<Rightarrow> (s, False)
      | Some r \<Rightarrow>
          if pp_state r \<noteq> Pending then (s, False)
          else (s\<lparr>ps_records := dict_set pid
                   (r\<lparr>pp_state := state, pp_result_status := Some status,
                      pp_result_body := Some body, pp_resolved_at := Some now\<rparr>) (ps_records s)\<rparr>, True))"

definition resolve_accepted :: "string \<Rightarrow> jobj \<Rightarrow> rat \<Rightarrow> proposal_store \<Rightarrow> proposal_store \<times> bool" where
  "resolve_accepted pid body now s = resolve pid Accepted 263 body now s"

definition resolve_rejected :: "string \<Rightarrow> jobj \<Rightarrow> rat \<Rightarrow> proposal_store \<Rightarrow> proposal_store \<times> bool" where
  "resolve_rejected pid body now s = resolve pid Rejected 463 body now s"

definition timeout_body :: jobj where
  "timeout_body = [(''error'', JObj [(''code'', JStr ''proposal-rejected''),
     (''reason'', JStr ''policy-refused''),
     (''explanation'', JStr ''evaluation deadline exceeded before a decision could be reached'')])]"

fun reject_all :: "string list \<Rightarrow> rat \<Rightarrow> proposal_store \<Rightarrow> proposal_store" where
  "reject_all [] now s = s" |
  "reject_all (pid # pids) now s =
     reject_all pids now (fst (resolve pid Rejected 463 timeout_body now s))"

definition sweep_expired :: "rat \<Rightarrow> proposal_store \<Rightarrow> proposal_store \<times> nat" where
  "sweep_expired now s =
     (let expired_ids = map fst (filter (\<lambda>(pid, r). pp_state r = Pending \<and> pp_deadline r \<le> now) (ps_records s))
      in (reject_all expired_ids now s, length expired_ids))"

definition count :: "proposal_store \<Rightarrow> nat" where
  "count s = length (ps_records s)"

definition max_evaluation_duration_str :: "proposal_store \<Rightarrow> py_error + string" where
  "max_evaluation_duration_str s = format_duration_seconds (ps_max_evaluation_seconds s)"

text \<open>The poll endpoint: the status code and the body.  Python's repr and the
  rendering of an instant are arguments.\<close>
definition state_name :: "proposal_state \<Rightarrow> string" where
  "state_name st = (case st of Pending \<Rightarrow> ''pending'' | Accepted \<Rightarrow> ''accepted'' | Rejected \<Rightarrow> ''rejected'')"

definition poll :: "(json \<Rightarrow> string) \<Rightarrow> (rat \<Rightarrow> string) \<Rightarrow> string \<Rightarrow> proposal_store \<Rightarrow> py_error + int \<times> jobj" where
  "poll repr render pid s =
     (if pid = [] then Inr (400, [(''error'', JObj [(''code'', JStr ''missing-required-param''),
         (''explanation'', JStr ''proposal_id is required'')])])
      else (case lookup pid s of
        None \<Rightarrow> Inr (404, [(''error'', JObj [(''code'', JStr ''proposal-not-found''),
           (''explanation'', JStr (''proposal '' @ repr (JStr pid) @ '' is not known to this server''))])])
      | Some r \<Rightarrow>
          if pp_state r = Pending then
            bind_res (max_evaluation_duration_str s) (\<lambda>d.
              Inr (261, [(''proposal_id'', JStr pid), (''state'', JStr ''pending''),
                         (''polling_path'', JStr ''/proposals''),
                         (''evaluation_started_at'', JStr (render (pp_started_at r))),
                         (''max_evaluation_duration'', JStr d)]))
          else (let body = dict_set ''proposal_id'' (JStr pid)
                  (dict_set ''state'' (JStr (state_name (pp_state r)))
                    (case pp_result_body r of None \<Rightarrow> [] | Some b \<Rightarrow> b))
                in Inr (if pp_result_status r = Some 263 then (263, body)
                        else if pp_result_status r = Some 463 then (463, body) else (200, body)))))"

section \<open>The machine\<close>

datatype proposal_event =
    Create string rat string jobj bool "rat option"
  | Accept string jobj rat
  | Reject string jobj rat
  | SweepProposals rat

fun proposal_step :: "proposal_event \<Rightarrow> proposal_store \<Rightarrow> proposal_store" where
  "proposal_step (Create pid now a b p q) s = fst (create pid now a b p q s)" |
  "proposal_step (Accept pid b now) s = fst (resolve_accepted pid b now s)" |
  "proposal_step (Reject pid b now) s = fst (resolve_rejected pid b now s)" |
  "proposal_step (SweepProposals now) s = fst (sweep_expired now s)"

text \<open>Identifiers are fresh when they are drawn.\<close>
fun fresh_event :: "proposal_event \<Rightarrow> proposal_store \<Rightarrow> bool" where
  "fresh_event (Create pid now a b p q) s = (lookup pid s = None)" |
  "fresh_event _ s = True"

text \<open>A record is consistent when its result is there exactly if it is resolved,
  with the status that belongs to its state.\<close>
definition record_consistent :: "proposal_record \<Rightarrow> bool" where
  "record_consistent r =
     (case pp_state r of
        Pending \<Rightarrow> pp_result_status r = None \<and> pp_result_body r = None \<and> pp_resolved_at r = None
      | Accepted \<Rightarrow> pp_result_status r = Some 263 \<and> pp_result_body r \<noteq> None \<and> pp_resolved_at r \<noteq> None
      | Rejected \<Rightarrow> pp_result_status r = Some 463 \<and> pp_result_body r \<noteq> None \<and> pp_resolved_at r \<noteq> None)"

definition proposals_ok :: "proposal_store \<Rightarrow> bool" where
  "proposals_ok s =
     (dict_ok (ps_records s) \<and>
      (\<forall>pid r. lookup pid s = Some r \<longrightarrow> pp_proposal_id r = pid \<and> record_consistent r))"

definition resolved_record :: "string \<Rightarrow> proposal_store \<Rightarrow> proposal_record option" where
  "resolved_record pid s =
     (case lookup pid s of None \<Rightarrow> None | Some r \<Rightarrow> if pp_state r = Pending then None else Some r)"

lemma lookup_resolve:
  "lookup q (fst (resolve pid st code body now s)) =
     (if q = pid then map_option (\<lambda>r. if pp_state r = Pending
        then r\<lparr>pp_state := st, pp_result_status := Some code, pp_result_body := Some body,
               pp_resolved_at := Some now\<rparr> else r) (lookup pid s)
      else lookup q s)"
  by (auto simp: resolve_def lookup_def split: option.splits)

lemma lookup_reject_all:
  "lookup q (reject_all pids now s) =
     (if q \<in> set pids then map_option (\<lambda>r. if pp_state r = Pending
        then r\<lparr>pp_state := Rejected, pp_result_status := Some 463, pp_result_body := Some timeout_body,
               pp_resolved_at := Some now\<rparr> else r) (lookup q s)
      else lookup q s)"
proof (induction pids arbitrary: s)
  case (Cons p ps)
  show ?case
  proof (cases "q = p")
    case True
    then show ?thesis
      by (cases "lookup p s"; cases "pp_state (the (lookup p s)) = Pending")
         (simp_all add: Cons.IH[unfolded True] True lookup_resolve)
  next
    case False
    then show ?thesis by (simp add: Cons.IH lookup_resolve)
  qed
qed simp

lemma lookup_sweep:
  assumes "dict_ok (ps_records s)"
  shows "lookup q (fst (sweep_expired now s)) =
     map_option (\<lambda>r. if pp_state r = Pending \<and> pp_deadline r \<le> now
        then r\<lparr>pp_state := Rejected, pp_result_status := Some 463, pp_result_body := Some timeout_body,
               pp_resolved_at := Some now\<rparr> else r) (lookup q s)"
proof -
  have "q \<in> set (map fst (filter (\<lambda>(pid, r). pp_state r = Pending \<and> pp_deadline r \<le> now) (ps_records s))) \<longleftrightarrow>
      (\<exists>r. lookup q s = Some r \<and> pp_state r = Pending \<and> pp_deadline r \<le> now)"
    using dict_get_mem[OF assms] unfolding lookup_def by force
  then show ?thesis
    by (cases "lookup q s") (auto simp: sweep_expired_def Let_def lookup_reject_all)
qed

lemma lookup_create:
  "lookup q (fst (create pid now a b p rq s)) =
     (if q = pid then Some \<lparr>pp_proposal_id = pid, pp_agent_id = a, pp_body = b, pp_state = Pending,
               pp_started_at = now, pp_deadline = now + ps_max_evaluation_seconds s,
               pp_persistent = p, pp_requested_seconds = rq,
               pp_result_status = None, pp_result_body = None, pp_resolved_at = None\<rparr>
      else lookup q s)"
  by (simp add: create_def lookup_def Let_def)

lemma reject_all_dict_ok: "dict_ok (ps_records s) \<Longrightarrow> dict_ok (ps_records (reject_all pids now s))"
  by (induction pids arbitrary: s) (auto simp: resolve_def split: option.splits)

lemma proposal_step_ok [inv_intros]:
  assumes ok: "proposals_ok s" shows "proposals_ok (proposal_step e s)"
proof -
  have d: "dict_ok (ps_records s)" using ok by (simp add: proposals_ok_def)
  have "dict_ok (ps_records (proposal_step e s))"
    using d by (cases e) (auto simp: create_def resolve_accepted_def resolve_rejected_def resolve_def Let_def
        sweep_expired_def reject_all_dict_ok split: option.splits)
  moreover have "pp_proposal_id r = pid \<and> record_consistent r"
    if "lookup pid (proposal_step e s) = Some r" for pid r
  proof -
    have old: "lookup pid s = Some q \<Longrightarrow> pp_proposal_id q = pid \<and> record_consistent q" for q
      using ok by (simp add: proposals_ok_def)
    show ?thesis
    proof (cases e)
      case (Create p now a b pe rq)
      then show ?thesis using that old
        by (simp add: lookup_create split: if_splits) (auto simp: record_consistent_def)
    next
      case (Accept p b now)
      then show ?thesis using that old
        by (auto simp: resolve_accepted_def lookup_resolve record_consistent_def split: if_splits)
    next
      case (Reject p b now)
      then show ?thesis using that old
        by (auto simp: resolve_rejected_def lookup_resolve record_consistent_def split: if_splits)
    next
      case (SweepProposals now)
      then show ?thesis using that old
        by (auto simp: lookup_sweep[OF d] record_consistent_def split: if_splits)
    qed
  qed
  ultimately show ?thesis by (simp add: proposals_ok_def)
qed

interpretation proposal: absorbing_machine proposal_step fresh_event proposals_ok "resolved_record pid" for pid
proof
  fix s e
  assume ok: "proposals_ok s" and fresh: "fresh_event e s"
  show "proposals_ok (proposal_step e s)" by (rule proposal_step_ok[OF ok])
  fix h assume "resolved_record pid s = Some h"
  then have h: "lookup pid s = Some h" "pp_state h \<noteq> Pending"
    by (auto simp: resolved_record_def split: option.splits if_splits)
  have d: "dict_ok (ps_records s)" using ok by (simp add: proposals_ok_def)
  have "lookup pid (proposal_step e s) = Some h"
    using h fresh by (cases e)
      (auto simp: lookup_create resolve_accepted_def resolve_rejected_def lookup_resolve lookup_sweep[OF d])
  then show "resolved_record pid (proposal_step e s) = Some h"
    using h by (simp add: resolved_record_def)
qed

lemma proposals_ok_new: "proposals_ok (new_proposal_store m)"
  by (simp add: proposals_ok_def new_proposal_store_def lookup_def)

text \<open>C14: a decision on a proposal is final.  Once a proposal is accepted or rejected, no
  later creation with fresh identifiers, acceptance, rejection or deadline sweep changes
  its record, and every later poll answers with the same status, 263 for an accepted and
  463 for a rejected proposal, and with the body stored at the decision.\<close>
theorem proposal_decision_final:
  assumes "all_fit proposal_step fresh_event (before @ after) (new_proposal_store m)"
    and "pid \<noteq> []"
    and "lookup pid (run_events proposal_step before (new_proposal_store m)) = Some r"
    and "pp_state r \<noteq> Pending"
  shows "lookup pid (run_events proposal_step (before @ after) (new_proposal_store m)) = Some r \<and>
     (\<exists>b. pp_result_body r = Some b \<and>
       poll repr render pid (run_events proposal_step (before @ after) (new_proposal_store m)) =
         Inr (if pp_state r = Accepted then 263 else 463,
              dict_set ''proposal_id'' (JStr pid) (dict_set ''state'' (JStr (state_name (pp_state r))) b)))"
proof -
  have split: "all_fit proposal_step fresh_event (a @ b) s \<longleftrightarrow>
      all_fit proposal_step fresh_event a s \<and> all_fit proposal_step fresh_event b (run_events proposal_step a s)" for a b s
    by (induction a arbitrary: s) auto
  define s where "s = run_events proposal_step before (new_proposal_store m)"
  define t where "t = run_events proposal_step after s"
  have ok: "proposals_ok s" unfolding s_def
    by (rule proposal.run_ok[OF proposals_ok_new]) (use assms(1) split in blast)
  have t: "run_events proposal_step (before @ after) (new_proposal_store m) = t"
    by (simp add: s_def t_def run_events_append)
  have h: "resolved_record pid s = Some r" using assms(3,4) by (simp add: resolved_record_def s_def)
  have "resolved_record pid t = Some r" unfolding t_def
    by (rule proposal.run_held[OF ok _ h]) (use assms(1) split s_def in blast)
  then have l: "lookup pid t = Some r" by (auto simp: resolved_record_def split: option.splits if_splits)
  have c: "record_consistent r" using ok assms(3) by (simp add: proposals_ok_def s_def)
  then obtain b where b: "pp_result_body r = Some b"
    "pp_result_status r = Some (if pp_state r = Accepted then 263 else 463)"
    using assms(4) by (auto simp: record_consistent_def split: proposal_state.splits)
  show ?thesis unfolding t using l b assms(2,4)
    by (auto simp: poll_def)
qed

lemma proposal_decision_final_witness:
  "\<exists>r. lookup ''p'' (run_events proposal_step ([Create ''p'' 0 ''a'' [] False None, Accept ''p'' [] 1] @ [Reject ''p'' [] 2])
          (new_proposal_store 600)) = Some r \<and> pp_state r = Accepted"
proof -
  let ?b = "[Create ''p'' 0 ''a'' [] False None, Accept ''p'' [] 1]"
  have l: "\<exists>r. lookup ''p'' (run_events proposal_step ?b (new_proposal_store 600)) = Some r \<and> pp_state r = Accepted"
    by (simp add: create_def lookup_def resolve_accepted_def resolve_def new_proposal_store_def Let_def)
  then obtain r where r: "lookup ''p'' (run_events proposal_step ?b (new_proposal_store 600)) = Some r"
    "pp_state r = Accepted" by blast
  have f: "all_fit proposal_step fresh_event (?b @ [Reject ''p'' [] 2]) (new_proposal_store 600)"
    by (simp add: lookup_def new_proposal_store_def)
  show ?thesis using proposal_decision_final[OF f _ r(1)] r(2) by simp
qed

end
