(* ===== verification/Cert_Sessions.thy ===== *)
theory Cert_Sessions
  imports Prelude
begin

text \<open>
  server/cert_sessions.py: the sessions active under each certificate serial,
  the agent each serial authorizes, and the sweep a revocation notice makes.
  A set of session identifiers is a list without duplicates.
\<close>

section \<open>Registry\<close>

record cert_registry =
  cr_sessions :: "(string, string list) dict"
  cr_agent :: "(string, string) dict"

definition empty_registry :: cert_registry where
  "empty_registry = \<lparr>cr_sessions = [], cr_agent = []\<rparr>"

definition register :: "string \<Rightarrow> string \<Rightarrow> string \<Rightarrow> cert_registry \<Rightarrow> cert_registry" where
  "register serial session agent g =
     (if serial = [] \<or> session = [] then g
      else (let g1 = g\<lparr>cr_sessions :=
                 dict_set serial (List.insert session (get_or [] (cr_sessions g) serial)) (cr_sessions g)\<rparr>
            in if agent = [] then g1 else g1\<lparr>cr_agent := dict_set serial agent (cr_agent g1)\<rparr>))"

definition deregister_session :: "string \<Rightarrow> cert_registry \<Rightarrow> cert_registry" where
  "deregister_session session g =
     (if session = [] then g
      else g\<lparr>cr_sessions := map (\<lambda>(s, ids). (s, removeAll session ids)) (cr_sessions g)\<rparr>)"

definition sessions_for_serial :: "string \<Rightarrow> cert_registry \<Rightarrow> string list" where
  "sessions_for_serial serial g = sort (get_or [] (cr_sessions g) serial)"

definition serials_for_agent :: "string \<Rightarrow> cert_registry \<Rightarrow> string list" where
  "serials_for_agent agent g =
     (if agent = [] then []
      else sort (map fst (filter (\<lambda>(s, a). lower a = lower agent) (cr_agent g))))"

definition sessions_for_agent :: "string \<Rightarrow> cert_registry \<Rightarrow> string list" where
  "sessions_for_agent agent g =
     (if agent = [] then []
      else sort (remdups (concat (map (\<lambda>(s, a). if lower a = lower agent then get_or [] (cr_sessions g) s else [])
             (cr_agent g)))))"

definition revoke_serial :: "string \<Rightarrow> cert_registry \<Rightarrow> cert_registry \<times> string list" where
  "revoke_serial serial g =
     (if serial = [] then (g, [])
      else (g\<lparr>cr_sessions := dict_del serial (cr_sessions g), cr_agent := dict_del serial (cr_agent g)\<rparr>,
            sort (get_or [] (cr_sessions g) serial)))"

fun revoke_serials :: "string list \<Rightarrow> cert_registry \<Rightarrow> cert_registry \<times> string list" where
  "revoke_serials [] g = (g, [])" |
  "revoke_serials (s # ss) g =
     (let (g1, out) = revoke_serial s g; (g2, outs) = revoke_serials ss g1 in (g2, out @ outs))"

definition revoke_agent :: "string \<Rightarrow> cert_registry \<Rightarrow> cert_registry \<times> string list" where
  "revoke_agent agent g = revoke_serials (serials_for_agent agent g) g"

definition registry_len :: "cert_registry \<Rightarrow> nat" where
  "registry_len g = sum_list (map length (dict_values (cr_sessions g)))"

section \<open>Revocation notices\<close>

definition build_revocation_notify_envelope ::
  "string \<Rightarrow> string \<Rightarrow> string \<Rightarrow> string \<Rightarrow> string \<Rightarrow> jobj" where
  "build_revocation_notify_envelope agent serial reason revoked_at issuer =
     [(''event_type'', JStr ''certificate_revoked''),
      (''recipient'', JStr ''infrastructure:broadcast''),
      (''urgency'', JStr ''critical''),
      (''payload'', JObj [(''subject_agent_id'', JStr agent), (''cert_serial'', JStr serial),
         (''reason'', JStr reason), (''revoked_at'', JStr revoked_at), (''issuer'', JStr issuer)])]"

text \<open>The sweep over the serials of the agent, without the one already swept;
  the serials reported are the ones that had sessions.\<close>
fun sweep_serials :: "string \<Rightarrow> string list \<Rightarrow> cert_registry \<Rightarrow> cert_registry \<times> string list \<times> string list" where
  "sweep_serials serial [] g = (g, [], [])" |
  "sweep_serials serial (s # ss) g =
     (if s = serial then sweep_serials serial ss g
      else (let (g1, out) = revoke_serial s g; (g2, outs, swept) = sweep_serials serial ss g1
            in (g2, out @ outs, if out \<noteq> [] then s # swept else swept)))"

record revocation_summary =
  rv_terminated :: "string list"
  rv_swept :: "string list"
  rv_agent :: string

definition apply_revocation_notify :: "(json \<Rightarrow> string) \<Rightarrow> json \<Rightarrow> cert_registry
    \<Rightarrow> cert_registry \<times> revocation_summary" where
  "apply_revocation_notify repr body g =
     (let none = \<lparr>rv_terminated = [], rv_swept = [], rv_agent = []\<rparr> in
      case body of
        JObj d \<Rightarrow>
          (if jget d ''event_type'' \<noteq> JStr ''certificate_revoked'' then (g, none)
           else (case jor (jget d ''payload'') (JObj []) of
              JObj p \<Rightarrow>
                (let subject = strip (py_str repr (jor (jget p ''subject_agent_id'') (JStr [])));
                     serial = strip (py_str repr (jor (jget p ''cert_serial'') (JStr [])));
                     (g1, t1, w1) = (if serial = [] then (g, [], [])
                        else (let (g1, out) = revoke_serial serial g in (g1, out, if out = [] then [] else [serial])));
                     (g2, t2, w2) = (if subject = [] then (g1, [], [])
                        else sweep_serials serial (serials_for_agent subject g1) g1)
                 in (g2, \<lparr>rv_terminated = sort (remdups (t1 @ t2)), rv_swept = sort (remdups (w1 @ w2)),
                          rv_agent = subject\<rparr>))
            | _ \<Rightarrow> (g, none)))
      | _ \<Rightarrow> (g, none))"

section \<open>What a sweep leaves\<close>

text \<open>What the registry knows of a serial.\<close>
definition sessions_of :: "cert_registry \<Rightarrow> string \<Rightarrow> string list" where
  "sessions_of g s = get_or [] (cr_sessions g) s"

definition agent_of :: "cert_registry \<Rightarrow> string \<Rightarrow> string option" where
  "agent_of g s = dict_get (cr_agent g) s"

definition registry_ok :: "cert_registry \<Rightarrow> bool" where
  "registry_ok g = (dict_ok (cr_sessions g) \<and> dict_ok (cr_agent g) \<and>
     dict_get (cr_sessions g) [] = None \<and> dict_get (cr_agent g) [] = None)"

lemma registry_ok_empty [inv_intros]: "registry_ok empty_registry"
  by (simp add: registry_ok_def empty_registry_def)

lemma registry_ok_register [inv_intros]: "registry_ok g \<Longrightarrow> registry_ok (register s i a g)"
  by (simp add: registry_ok_def register_def Let_def)

lemma map_values_get: "dict_get (map (\<lambda>(k, v). (k, f v)) d) k = map_option f (dict_get d k)"
  by (induction d) auto

lemma map_values_keys: "map fst (map (\<lambda>(k, v). (k, f v)) d) = map fst d"
  by (induction d) auto

lemma registry_ok_deregister [inv_intros]: "registry_ok g \<Longrightarrow> registry_ok (deregister_session i g)"
  unfolding deregister_session_def registry_ok_def
  by (simp add: map_values_get map_values_keys del: map_map)

lemma registry_ok_revoke [inv_intros]: "registry_ok g \<Longrightarrow> registry_ok (fst (revoke_serial s g))"
  by (simp add: registry_ok_def revoke_serial_def)

lemma revoke_serial_effect:
  assumes "registry_ok g"
  shows "sessions_of (fst (revoke_serial s g)) t = (if t = s then [] else sessions_of g t)"
    and "agent_of (fst (revoke_serial s g)) t = (if t = s then None else agent_of g t)"
    and "set (snd (revoke_serial s g)) = set (sessions_of g s)"
  using assms by (auto simp: revoke_serial_def sessions_of_def agent_of_def get_or_def registry_ok_def)

lemma sweep_serials_effect:
  "registry_ok g \<Longrightarrow> sweep_serials serial ss g = (g', out, swept) \<Longrightarrow>
   registry_ok g' \<and>
   (\<forall>t. sessions_of g' t = (if t \<in> set ss \<and> t \<noteq> serial then [] else sessions_of g t)) \<and>
   (\<forall>t. agent_of g' t = (if t \<in> set ss \<and> t \<noteq> serial then None else agent_of g t)) \<and>
   set out = (\<Union>t \<in> set ss - {serial}. set (sessions_of g t))"
proof (induction serial ss g arbitrary: g' out swept rule: sweep_serials.induct)
  case (1 serial g)
  then show ?case by simp
next
  case (2 serial s ss g)
  show ?case
  proof (cases "s = serial")
    case True
    then have "sweep_serials serial ss g = (g', out, swept)" using 2(4) by simp
    from 2(1)[OF True 2(3) this] True show ?thesis by auto
  next
    case False
    obtain g1 o1 where r: "revoke_serial s g = (g1, o1)" by (cases "revoke_serial s g")
    obtain g2 o2 w2 where t: "sweep_serials serial ss g1 = (g2, o2, w2)" by (cases "sweep_serials serial ss g1")
    have e: "g' = g2" "out = o1 @ o2" using 2(4) False r t by (auto simp: Let_def)
    have ok1: "registry_ok g1" using registry_ok_revoke[OF 2(3), of s] r by simp
    note eff = revoke_serial_effect[OF 2(3), of s, unfolded r fst_conv snd_conv]
    from 2(2)[OF False r[symmetric] refl ok1 t]
    have ih: "registry_ok g2"
      "\<And>x. sessions_of g2 x = (if x \<in> set ss \<and> x \<noteq> serial then [] else sessions_of g1 x)"
      "\<And>x. agent_of g2 x = (if x \<in> set ss \<and> x \<noteq> serial then None else agent_of g1 x)"
      "set o2 = (\<Union>x \<in> set ss - {serial}. set (sessions_of g1 x))" by blast+
    have "set out = (\<Union>x \<in> set (s # ss) - {serial}. set (sessions_of g x))"
      using False unfolding e set_append ih(4) eff(3) by (auto simp: eff(1) split: if_splits)
    then show ?thesis unfolding e using ih eff False by simp
  qed
qed

lemma sessions_for_agent_mem:
  assumes "registry_ok g" "agent \<noteq> []"
  shows "x \<in> set (sessions_for_agent agent g) \<longleftrightarrow>
    (\<exists>s a. agent_of g s = Some a \<and> lower a = lower agent \<and> x \<in> set (sessions_of g s))"
  using assms by (force simp: sessions_for_agent_def agent_of_def sessions_of_def registry_ok_def dict_get_mem)

lemma serials_for_agent_mem:
  assumes "registry_ok g" "agent \<noteq> []"
  shows "s \<in> set (serials_for_agent agent g) \<longleftrightarrow> (\<exists>a. agent_of g s = Some a \<and> lower a = lower agent)"
  using assms by (force simp: serials_for_agent_def agent_of_def registry_ok_def dict_get_mem)

text \<open>The serials a notice targets.\<close>
definition targeted :: "string \<Rightarrow> string \<Rightarrow> cert_registry \<Rightarrow> string \<Rightarrow> bool" where
  "targeted subject serial g s =
     (s = serial \<or> (subject \<noteq> [] \<and> (\<exists>a. agent_of g s = Some a \<and> lower a = lower subject)))"

lemma notice_effect:
  fixes subject serial :: string
  assumes ok: "registry_ok g"
  defines "sub \<equiv> strip subject" and "ser \<equiv> strip serial"
  assumes r: "apply_revocation_notify repr
      (JObj (build_revocation_notify_envelope subject serial reason stamp issuer)) g = (g', out)"
  shows "registry_ok g' \<and>
     (\<forall>s. sessions_of g' s = (if targeted sub ser g s then [] else sessions_of g s)) \<and>
     (\<forall>s. agent_of g' s = (if targeted sub ser g s then None else agent_of g s)) \<and>
     set (rv_terminated out) = (\<Union>s \<in> {s. targeted sub ser g s}. set (sessions_of g s))"
proof -
  define g1 where "g1 = (if ser = [] then g else fst (revoke_serial ser g))"
  define t1 where "t1 = (if ser = [] then [] else snd (revoke_serial ser g))"
  have ok1: "registry_ok g1" using ok by (simp add: g1_def registry_ok_revoke)
  have nil: "sessions_of g [] = []" "agent_of g [] = None"
    using ok by (simp_all add: registry_ok_def sessions_of_def agent_of_def get_or_def)
  have s1: "sessions_of g1 s = (if s = ser then [] else sessions_of g s)"
    "agent_of g1 s = (if s = ser then None else agent_of g s)" for s
    using nil by (simp_all add: g1_def revoke_serial_effect(1,2)[OF ok])
  have t1: "set t1 = set (sessions_of g ser)"
    using revoke_serial_effect(3)[OF ok, of ser] nil by (simp add: t1_def)
  have str: "py_str repr (jor (JStr x) (JStr [])) = x" for x by (simp add: jor_def)
  obtain g2 t2 w2 where sw: "(if sub = [] then (g1, [], []) else sweep_serials ser (serials_for_agent sub g1) g1) = (g2, t2, w2)"
    by (metis prod_cases3)
  have res: "g' = g2" "set (rv_terminated out) = set t1 \<union> set t2"
    using r sw unfolding apply_revocation_notify_def build_revocation_notify_envelope_def g1_def t1_def
      sub_def ser_def
    by (auto simp: jget_def jor_def Let_def split: prod.splits if_splits)
  show ?thesis
  proof (cases "sub = []")
    case True
    then have "g2 = g1" "t2 = []" using sw by simp_all
    then show ?thesis using res ok1 s1 t1 True by (simp add: targeted_def)
  next
    case False
    then have "sweep_serials ser (serials_for_agent sub g1) g1 = (g2, t2, w2)" using sw by simp
    note eff = sweep_serials_effect[OF ok1 this]
    have mem: "s \<in> set (serials_for_agent sub g1) \<longleftrightarrow> s \<noteq> ser \<and> (\<exists>a. agent_of g s = Some a \<and> lower a = lower sub)" for s
      using serials_for_agent_mem[OF ok1 False, of s] s1(2)[of s] by auto
    have tg: "targeted sub ser g s \<longleftrightarrow> s = ser \<or> s \<in> set (serials_for_agent sub g1)" for s
      using mem False by (auto simp: targeted_def)
    have "set (rv_terminated out) = (\<Union>s \<in> {s. targeted sub ser g s}. set (sessions_of g s))"
    proof -
      have "set t2 = (\<Union>s \<in> set (serials_for_agent sub g1) - {ser}. set (sessions_of g s))"
        using eff s1(1) by simp
      moreover have "{s. targeted sub ser g s} = insert ser (set (serials_for_agent sub g1) - {ser})"
        using tg by auto
      ultimately show ?thesis using res(2) t1 by auto
    qed
    moreover have "sessions_of g2 s = (if targeted sub ser g s then [] else sessions_of g s)" for s
      using eff mem[of s] by (auto simp: tg s1(1))
    moreover have "agent_of g2 s = (if targeted sub ser g s then None else agent_of g s)" for s
      using eff mem[of s] by (auto simp: tg s1(2))
    ultimately show ?thesis using res(1) eff by simp
  qed
qed

section \<open>Any history\<close>

datatype session_event =
    Register string string string
  | Deregister string
  | RevokeSerial string
  | RevokeAgent string

fun session_step :: "session_event \<Rightarrow> cert_registry \<Rightarrow> cert_registry" where
  "session_step (Register s i a) g = register s i a g" |
  "session_step (Deregister i) g = deregister_session i g" |
  "session_step (RevokeSerial s) g = fst (revoke_serial s g)" |
  "session_step (RevokeAgent a) g = fst (revoke_agent a g)"

lemma revoke_serials_ok: "registry_ok g \<Longrightarrow> registry_ok (fst (revoke_serials ss g))"
proof (induction ss arbitrary: g)
  case (Cons s ss)
  then show ?case using registry_ok_revoke[OF Cons.prems, of s]
    by (simp add: Let_def case_prod_unfold)
qed simp

lemma session_run_ok: "registry_ok g \<Longrightarrow> registry_ok (run_events session_step es g)"
proof (induction es arbitrary: g)
  case (Cons e es)
  have "registry_ok (session_step e g)"
    using Cons.prems by (cases e) (simp_all add: inv_intros revoke_agent_def revoke_serials_ok)
  then show ?case using Cons.IH by simp
qed simp

text \<open>A revocation notice ends every session it names and no other.  After any
  history, applying a notice built for an agent and a serial leaves no session under the
  serial and none under any certificate of the agent, in whatever letter case it was
  registered, keeps the sessions of every other serial, and reports as terminated
  exactly the sessions that were removed.\<close>
theorem revocation_sweeps_agent:
  "let g = run_events session_step es empty_registry;
       (g', out) = apply_revocation_notify repr
         (JObj (build_revocation_notify_envelope subject serial reason stamp issuer)) g
   in sessions_for_serial (strip serial) g' = [] \<and> sessions_for_agent (strip subject) g' = [] \<and>
      (\<forall>s. targeted (strip subject) (strip serial) g s \<or> sessions_for_serial s g' = sessions_for_serial s g) \<and>
      set (rv_terminated out) =
        (\<Union>s \<in> {s. targeted (strip subject) (strip serial) g s}. set (sessions_for_serial s g))"
proof -
  define g where "g = run_events session_step es empty_registry"
  obtain g' out where r: "apply_revocation_notify repr
      (JObj (build_revocation_notify_envelope subject serial reason stamp issuer)) g = (g', out)"
    by (cases "apply_revocation_notify repr
      (JObj (build_revocation_notify_envelope subject serial reason stamp issuer)) g")
  have ok: "registry_ok g" unfolding g_def by (rule session_run_ok[OF registry_ok_empty])
  note e = notice_effect[OF ok r]
  have srt: "sessions_for_serial s h = sort (sessions_of h s)" for s h
    by (simp add: sessions_for_serial_def sessions_of_def)
  have "sessions_for_agent (strip subject) g' = []"
  proof (cases "strip subject = []")
    case False
    have "x \<notin> set (sessions_for_agent (strip subject) g')" for x
      unfolding sessions_for_agent_mem[OF conjunct1[OF e] False] using e by (auto simp: targeted_def False)
    then show ?thesis by (metis list.set_intros(1) neq_Nil_conv)
  qed (simp add: sessions_for_agent_def)
  moreover have "sessions_for_serial (strip serial) g' = []"
    using e by (simp add: srt targeted_def)
  moreover have "targeted (strip subject) (strip serial) g s \<or> sessions_for_serial s g' = sessions_for_serial s g" for s
    using e by (simp add: srt)
  ultimately show ?thesis using e by (simp add: r srt g_def[symmetric])
qed

end
