(* ===== verification/Rcns_State.thy ===== *)
theory Rcns_State
  imports Prelude
begin

text \<open>
  The state of contract negotiation: the sliding window of negotiations per agent,
  the idempotency cache and the ring buffer of failed attempts of
  server/rcns_gate.py, and the SQLite store of server/rcns_state.py that replaces
  the first two.  Every call reads the clock once, as an argument.
\<close>

section \<open>In memory\<close>

record attempt =
  at_agent_id :: string
  at_method :: string
  at_path :: string
  at_reason :: string
  at_explanation :: string
  at_details :: jobj
  at_time :: rat

record rcns_state =
  rn_log :: "(string, rat list) dict"
  rn_idempotency :: "(string \<times> string, string \<times> rat) dict"
  rn_attempts :: "(string, attempt) dict"
  rn_order :: "string list"

definition new_rcns_state :: rcns_state where
  "new_rcns_state = \<lparr>rn_log = [], rn_idempotency = [], rn_attempts = [], rn_order = []\<rparr>"

definition recent :: "rat \<Rightarrow> rat list \<Rightarrow> rat list" where
  "recent now ts = filter (\<lambda>t. now - 60 \<le> t) ts"

definition record_negotiation :: "string \<Rightarrow> rat \<Rightarrow> rcns_state \<Rightarrow> rcns_state" where
  "record_negotiation aid now st =
     st\<lparr>rn_log := dict_set aid (recent now (get_or [] (rn_log st) aid) @ [now]) (rn_log st)\<rparr>"

definition rate_limited :: "string \<Rightarrow> int \<Rightarrow> rat \<Rightarrow> rcns_state \<Rightarrow> bool" where
  "rate_limited aid limit now st =
     (0 < limit \<and> limit \<le> int (length (recent now (get_or [] (rn_log st) aid))))"

definition idempotent_lookup :: "string \<Rightarrow> string \<Rightarrow> rat \<Rightarrow> rat \<Rightarrow> rcns_state \<Rightarrow> rcns_state \<times> string option" where
  "idempotent_lookup aid key window now st =
     (if key = [] \<or> window \<le> 0 then (st, None)
      else (case dict_get (rn_idempotency st) (aid, key) of
              None \<Rightarrow> (st, None)
            | Some (sid, expires_at) \<Rightarrow>
                if expires_at \<le> now then (st\<lparr>rn_idempotency := dict_del (aid, key) (rn_idempotency st)\<rparr>, None)
                else (st, Some sid)))"

definition idempotent_record :: "string \<Rightarrow> string \<Rightarrow> string \<Rightarrow> rat \<Rightarrow> rat \<Rightarrow> rcns_state \<Rightarrow> rcns_state" where
  "idempotent_record aid key sid window now st =
     (if key = [] \<or> window \<le> 0 then st
      else st\<lparr>rn_idempotency := dict_set (aid, key) (sid, now + window) (rn_idempotency st)\<rparr>)"

definition attempt_buffer_limit :: nat where
  "attempt_buffer_limit = 200"

text \<open>Eviction from the front of the order while the buffer is over its limit.\<close>
fun evict_attempts :: "nat \<Rightarrow> string list \<Rightarrow> (string, attempt) dict \<Rightarrow> string list \<times> (string, attempt) dict" where
  "evict_attempts limit [] d = ([], d)" |
  "evict_attempts limit (x # xs) d =
     (if limit < length (x # xs) then evict_attempts limit xs (dict_del x d) else (x # xs, d))"

definition record_attempt :: "string \<Rightarrow> attempt \<Rightarrow> rcns_state \<Rightarrow> rcns_state" where
  "record_attempt aid a st =
     (case evict_attempts attempt_buffer_limit (rn_order st @ [aid]) (dict_set aid a (rn_attempts st)) of
        (order, d) \<Rightarrow> st\<lparr>rn_order := order, rn_attempts := d\<rparr>)"

definition lookup_attempt :: "string \<Rightarrow> rcns_state \<Rightarrow> attempt option" where
  "lookup_attempt aid st = dict_get (rn_attempts st) aid"

definition reset_rcns_state :: "rcns_state \<Rightarrow> rcns_state" where
  "reset_rcns_state st = new_rcns_state"

section \<open>In SQLite\<close>

text \<open>The two tables; the second has the agent and the key as primary key.\<close>
record sqlite_store =
  sq_negotiations :: "(string \<times> rat) list"
  sq_idempotency :: "(string \<times> string, string \<times> rat) dict"

definition new_sqlite_store :: sqlite_store where
  "new_sqlite_store = \<lparr>sq_negotiations = [], sq_idempotency = []\<rparr>"

text \<open>True when the agent is limited; otherwise the attempt is reserved.\<close>
definition sq_consume :: "string \<Rightarrow> int \<Rightarrow> rat \<Rightarrow> sqlite_store \<Rightarrow> sqlite_store \<times> bool" where
  "sq_consume aid limit now db =
     (if limit \<le> 0 then (db, False)
      else
        (let rows = filter (\<lambda>(a, t). \<not> t < now - 60) (sq_negotiations db);
             n = length (filter (\<lambda>(a, t). a = aid \<and> now - 60 \<le> t) rows)
         in if limit \<le> int n then (db\<lparr>sq_negotiations := rows\<rparr>, True)
            else (db\<lparr>sq_negotiations := rows @ [(aid, now)]\<rparr>, False)))"

definition sq_get_idempotency :: "string \<Rightarrow> string \<Rightarrow> rat \<Rightarrow> sqlite_store \<Rightarrow> sqlite_store \<times> string option" where
  "sq_get_idempotency aid key now db =
     (let rows = filter (\<lambda>(k, sid, expires_at). \<not> expires_at \<le> now) (sq_idempotency db)
      in (db\<lparr>sq_idempotency := rows\<rparr>,
          case dict_get rows (aid, key) of
            Some (sid, expires_at) \<Rightarrow> if now < expires_at then Some sid else None
          | None \<Rightarrow> None))"

definition sq_put_idempotency :: "string \<Rightarrow> string \<Rightarrow> string \<Rightarrow> rat \<Rightarrow> sqlite_store \<Rightarrow> sqlite_store" where
  "sq_put_idempotency aid key sid expires_at db =
     db\<lparr>sq_idempotency := dict_set (aid, key) (sid, expires_at) (sq_idempotency db)\<rparr>"

section \<open>The interface of a rate limiter\<close>

text \<open>The times at which an agent is admitted in a run of attempts.\<close>
fun admissions :: "(string \<Rightarrow> int \<Rightarrow> rat \<Rightarrow> 's \<Rightarrow> 's \<times> bool) \<Rightarrow> int \<Rightarrow> string
    \<Rightarrow> (string \<times> rat) list \<Rightarrow> 's \<Rightarrow> rat list" where
  "admissions attempt n k [] s = []" |
  "admissions attempt n k ((a, now) # cs) s =
     (if a = k \<and> snd (attempt a n now s) then [now] else []) @ admissions attempt n k cs (fst (attempt a n now s))"

definition after_attempts :: "(string \<Rightarrow> int \<Rightarrow> rat \<Rightarrow> 's \<Rightarrow> 's \<times> bool) \<Rightarrow> int
    \<Rightarrow> (string \<times> rat) list \<Rightarrow> 's \<Rightarrow> 's" where
  "after_attempts attempt n cs s = run_events (\<lambda>(a, now) s. fst (attempt a n now s)) cs s"

text \<open>One attempt of an agent at a time, which is admitted or not.  The provider
  promises that admission follows the number of admissions it remembers of the last
  sixty seconds, and that its memory of any later window is what it should be.\<close>
locale window_limiter =
  fixes attempt :: "string \<Rightarrow> int \<Rightarrow> rat \<Rightarrow> 's \<Rightarrow> 's \<times> bool"
    and window :: "rat \<Rightarrow> 's \<Rightarrow> string \<Rightarrow> rat list"
  assumes admitted: "0 < n \<Longrightarrow> snd (attempt k n now s) \<longleftrightarrow> int (length (window now s k)) < n"
    and later: "0 < n \<Longrightarrow> now \<le> t \<Longrightarrow>
      window t (fst (attempt k n now s)) k' =
        recent t (window now s k' @ (if k' = k \<and> snd (attempt k n now s) then [now] else []))"
    and window_recent: "t \<le> u \<Longrightarrow> window u s k = recent u (window t s k)"
begin

lemma recent_append: "recent t (xs @ ys) = recent t xs @ recent t ys"
  by (simp add: recent_def)

lemma recent_recent: "u \<le> t \<Longrightarrow> recent t (recent u xs) = recent t xs"
  by (simp add: recent_def) (rule filter_cong, auto)

lemma admissions_times: "x \<in> set (admissions attempt n k cs s) \<Longrightarrow> x \<in> snd ` set cs"
proof (induction cs arbitrary: s)
  case (Cons c cs)
  obtain a now where c: "c = (a, now)" by (cases c)
  show ?case using Cons.prems Cons.IH[of "fst (attempt a n now s)"] by (auto simp: c split: if_splits)
qed simp

text \<open>With what the state remembers at the start, no window of sixty seconds holds more
  than the limit.\<close>
lemma admissions_bounded:
  assumes "0 < n" and "sorted_wrt (\<lambda>c d. snd c \<le> snd d) cs" and "\<forall>c \<in> set cs. t0 \<le> snd c"
    and "int (length (window t0 s k)) \<le> n" and "t0 \<le> t" and "\<forall>x \<in> set (window t0 s k). x \<le> t0"
  shows "int (length (filter (\<lambda>x. t - 60 \<le> x \<and> x \<le> t) (window t0 s k @ admissions attempt n k cs s))) \<le> n"
  using assms(2-)
proof (induction cs arbitrary: s t0)
  case Nil
  have "length (filter (\<lambda>x. t - 60 \<le> x \<and> x \<le> t) (window t0 s k)) \<le> length (window t0 s k)" by simp
  then show ?case using Nil.prems(3) unfolding admissions.simps append_Nil2 by linarith
next
  case (Cons c cs)
  obtain a now where c: "c = (a, now)" by (cases c)
  let ?s = "fst (attempt a n now s)" and ?adm = "if a = k \<and> snd (attempt a n now s) then [now] else []"
  let ?P = "\<lambda>x. t - 60 \<le> x \<and> x \<le> t"
  have now: "t0 \<le> now" using Cons.prems(2) by (simp add: c)
  have w: "window now ?s k = recent now (window now s k @ ?adm)"
    using later[OF assms(1) order.refl[of now], of a s k] by (auto split: if_splits)
  have wn: "window now s k = recent now (window t0 s k)" by (rule window_recent[OF now])
  have self: "recent now (recent now xs) = recent now xs" for xs by (rule recent_recent) simp
  have w': "window now ?s k = window now s k @ ?adm"
    unfolding w recent_append by (simp add: wn self) (simp add: recent_def)
  show ?case
  proof (cases "now \<le> t")
    case False
    then have "\<forall>x \<in> set (admissions attempt n k (c # cs) s). t < x"
      using Cons.prems(1,2) admissions_times[of _ n k "c # cs" s] by (force simp: c)
    then have "filter ?P (admissions attempt n k (c # cs) s) = []" by (auto simp: filter_empty_conv)
    then have "length (filter ?P (window t0 s k @ admissions attempt n k (c # cs) s)) \<le> length (window t0 s k)"
      by simp
    then show ?thesis using Cons.prems(3) by linarith
  next
    case True
    have len: "int (length (window now ?s k)) \<le> n"
    proof (cases "a = k \<and> snd (attempt a n now s)")
      case True
      then have "int (length (window now s k)) < n" using admitted[OF assms(1), of a now s] by auto
      then show ?thesis unfolding w' using True by simp
    next
      case False
      have "length (window now s k) \<le> length (window t0 s k)" unfolding wn by (simp add: recent_def)
      then show ?thesis using Cons.prems(3) False by (auto simp: w')
    qed
    have below: "\<forall>x \<in> set (window now ?s k). x \<le> now"
      using Cons.prems(5) now by (auto simp: w' wn recent_def)
    have ih: "int (length (filter ?P (window now ?s k @ admissions attempt n k cs ?s))) \<le> n"
      by (rule Cons.IH) (use Cons.prems(1) len True below in \<open>auto simp: c\<close>)
    have "filter ?P (window t0 s k) = filter ?P (window now s k)"
      unfolding wn recent_def filter_filter by (rule filter_cong) (use True in auto)
    then have "filter ?P (window t0 s k @ admissions attempt n k (c # cs) s) = filter ?P (window now ?s k @ admissions attempt n k cs ?s)"
      by (simp add: c w')
    then show ?thesis using ih by simp
  qed
qed

text \<open>What is remembered of an agent is not later than its last attempt.\<close>
lemma window_below:
  assumes "0 < n" and "sorted_wrt (\<lambda>c d. snd c \<le> snd d) cs" and "\<forall>c \<in> set cs. t0 \<le> snd c \<and> snd c \<le> u"
    and "\<forall>c \<in> set cs. fst c = k \<longrightarrow> snd c \<le> t1" and "t0 \<le> u" and "\<forall>x \<in> set (window t0 s k). x \<le> t1"
  shows "\<forall>x \<in> set (window u (after_attempts attempt n cs s) k). x \<le> t1"
  using assms(2-)
proof (induction cs arbitrary: s t0)
  case Nil
  then show ?case using window_recent[of t0 u s k] by (auto simp: after_attempts_def recent_def)
next
  case (Cons c cs)
  obtain a now where c: "c = (a, now)" by (cases c)
  have now: "t0 \<le> now" "now \<le> u" "a = k \<longrightarrow> now \<le> t1" using Cons.prems(2,3) by (simp_all add: c)
  have "\<forall>x \<in> set (window now (fst (attempt a n now s)) k). x \<le> t1"
    using later[OF assms(1) order.refl[of now], of a s k] window_recent[OF now(1), of s k] Cons.prems(5) now(3)
    by (auto simp: recent_def split: if_splits)
  then have "\<forall>x \<in> set (window u (after_attempts attempt n cs (fst (attempt a n now s))) k). x \<le> t1"
    by (intro Cons.IH) (use Cons.prems(1-3) now in \<open>auto simp: c\<close>)
  then show ?case by (simp add: after_attempts_def c)
qed

text \<open>After sixty quiet seconds an agent is admitted again.\<close>
lemma quiet_admits:
  assumes "0 < n" and "\<forall>x \<in> set (window now s k). x \<le> t1" and "t1 + 60 < now"
  shows "snd (attempt k n now s)"
proof -
  have w: "window now s k = recent now (window now s k)" by (rule window_recent) simp
  have "now - 60 \<le> x" if "x \<in> set (window now s k)" for x
    using that by (subst (asm) w) (simp add: recent_def)
  then have "window now s k = []" using assms(2,3) by (cases "window now s k") force+
  then show ?thesis using admitted[OF assms(1)] assms(1) by simp
qed

end

section \<open>Both stores limit\<close>

definition memory_attempt :: "string \<Rightarrow> int \<Rightarrow> rat \<Rightarrow> rcns_state \<Rightarrow> rcns_state \<times> bool" where
  "memory_attempt aid n now st =
     (if rate_limited aid n now st then (st, False) else (record_negotiation aid now st, True))"

definition sqlite_attempt :: "string \<Rightarrow> int \<Rightarrow> rat \<Rightarrow> sqlite_store \<Rightarrow> sqlite_store \<times> bool" where
  "sqlite_attempt aid n now db = map_prod id Not (sq_consume aid n now db)"

definition memory_window :: "rat \<Rightarrow> rcns_state \<Rightarrow> string \<Rightarrow> rat list" where
  "memory_window now st k = recent now (get_or [] (rn_log st) k)"

definition sqlite_window :: "rat \<Rightarrow> sqlite_store \<Rightarrow> string \<Rightarrow> rat list" where
  "sqlite_window now db k = recent now (map snd (filter (\<lambda>(a, t). a = k) (sq_negotiations db)))"

lemma recent_twice: "u \<le> t \<Longrightarrow> recent t (recent u xs) = recent t xs"
  unfolding recent_def filter_filter by (rule filter_cong) auto

lemma recent_app: "recent t (xs @ ys) = recent t xs @ recent t ys" and recent_none: "recent t [] = []"
  by (simp_all add: recent_def)

interpretation memory: window_limiter memory_attempt memory_window
proof
  fix now t :: rat and k k' :: string and s and m :: int
  show "0 < m \<Longrightarrow> snd (memory_attempt k m now s) = (int (length (memory_window now s k)) < m)"
    by (auto simp: memory_attempt_def rate_limited_def memory_window_def)
  show "0 < m \<Longrightarrow> now \<le> t \<Longrightarrow> memory_window t (fst (memory_attempt k m now s)) k' =
      recent t (memory_window now s k' @ (if k' = k \<and> snd (memory_attempt k m now s) then [now] else []))"
    by (simp add: memory_attempt_def memory_window_def record_negotiation_def recent_twice recent_app recent_none get_or_def)
  show "now \<le> t \<Longrightarrow> memory_window t s k = recent t (memory_window now s k)"
    by (simp add: memory_window_def recent_twice)
qed

lemma sqlite_rows: "map snd (filter (\<lambda>(a, t). a = k) (filter (\<lambda>(a, t). \<not> t < now - 60) rows)) =
    recent now (map snd (filter (\<lambda>(a, t). a = k) rows))"
  by (induction rows) (auto simp: recent_def)

lemma sqlite_count: "length (filter (\<lambda>(a, t). a = k \<and> now - 60 \<le> t) (filter (\<lambda>(a, t). \<not> t < now - 60) rows)) =
    length (recent now (map snd (filter (\<lambda>(a, t). a = k) rows)))"
  by (induction rows) (auto simp: recent_def)

lemma sq_consume_pos:
  "0 < n \<Longrightarrow> sq_consume k n now db =
     (let rows = filter (\<lambda>(a, t). \<not> t < now - 60) (sq_negotiations db);
          full = (n \<le> int (length (sqlite_window now db k)))
      in (db\<lparr>sq_negotiations := rows @ (if full then [] else [(k, now)])\<rparr>, full))"
  by (simp add: sq_consume_def Let_def sqlite_count sqlite_window_def del: filter_filter)

interpretation sqlite: window_limiter sqlite_attempt sqlite_window
proof
  fix now t :: rat and k k' :: string and s and m :: int
  show "0 < m \<Longrightarrow> snd (sqlite_attempt k m now s) = (int (length (sqlite_window now s k)) < m)"
    by (auto simp: sqlite_attempt_def sq_consume_pos Let_def)
  show "0 < m \<Longrightarrow> now \<le> t \<Longrightarrow> sqlite_window t (fst (sqlite_attempt k m now s)) k' =
      recent t (sqlite_window now s k' @ (if k' = k \<and> snd (sqlite_attempt k m now s) then [now] else []))"
    by (simp add: sqlite_attempt_def sq_consume_pos Let_def, simp add: sqlite_window_def sqlite_rows recent_twice recent_app recent_none del: filter_filter)
  show "now \<le> t \<Longrightarrow> sqlite_window t s k = recent t (sqlite_window now s k)"
    by (simp add: sqlite_window_def recent_twice)
qed

lemma new_windows: "memory_window t new_rcns_state k = []" "sqlite_window t new_sqlite_store k = []"
  by (simp_all add: memory_window_def sqlite_window_def new_rcns_state_def new_sqlite_store_def recent_def get_or_def)

lemma first_time:
  assumes "sorted_wrt (\<lambda>c d. snd c \<le> snd d) cs"
  shows "\<exists>t0. (\<forall>c \<in> set cs. t0 \<le> snd c) \<and> t0 \<le> (t :: rat)"
proof (cases cs)
  case Nil
  then show ?thesis by auto
next
  case (Cons c ds)
  then show ?thesis using assms by (intro exI[of _ "min t (snd c)"]) (auto simp: min_le_iff_disj)
qed



text \<open>A throttled agent gets its turn again.  Whatever was attempted before at
  non-decreasing times, an agent that attempts to negotiate more than sixty seconds after
  its own last attempt is admitted by both limiters, whatever the positive limit and
  whatever other agents do.\<close>
theorem quiet_agent_admitted:
  assumes "0 < n" and "sorted_wrt (\<lambda>c d. snd c \<le> snd d) cs" and "\<forall>c \<in> set cs. snd c \<le> now"
    and "\<forall>c \<in> set cs. fst c = k \<longrightarrow> snd c + 60 < now"
  shows "snd (memory_attempt k n now (after_attempts memory_attempt n cs new_rcns_state)) \<and>
     snd (sqlite_attempt k n now (after_attempts sqlite_attempt n cs new_sqlite_store))"
proof -
  define t1 where "t1 = Max (insert (now - 61) (snd ` {c \<in> set cs. fst c = k}))"
  have "t1 < now - 60" unfolding t1_def
    by (subst Max_less_iff) (use assms(4) in \<open>auto simp: less_diff_eq\<close>)
  then have t1: "\<forall>c \<in> set cs. fst c = k \<longrightarrow> snd c \<le> t1" "t1 + 60 < now"
    by (simp_all add: less_diff_eq) (simp add: t1_def)
  obtain t0 where t0: "\<forall>c \<in> set cs. t0 \<le> snd c" "t0 \<le> now" using first_time[OF assms(2)] by blast
  have t: "\<forall>c \<in> set cs. t0 \<le> snd c \<and> snd c \<le> now" using t0(1) assms(3) by blast
  show ?thesis
    using memory.quiet_admits[OF assms(1) memory.window_below[OF assms(1,2) t t1(1) t0(2)] t1(2), of new_rcns_state]
      sqlite.quiet_admits[OF assms(1) sqlite.window_below[OF assms(1,2) t t1(1) t0(2)] t1(2), of new_sqlite_store]
    by (simp add: new_windows)
qed

lemma quiet_agent_admitted_witness:
  "snd (sqlite_attempt ''a'' 1 100 (after_attempts sqlite_attempt 1 [(''a'', 0), (''a'', 10), (''b'', 90)] new_sqlite_store))"
  using quiet_agent_admitted[of 1 "[(''a'', 0), (''a'', 10), (''b'', 90)]" 100 "''a''"] by simp

end
