(* ===== verification/Synthesis_Plan.thy ===== *)
theory Synthesis_Plan
  imports Prelude
begin

text \<open>
  server/synthesis: plans (plan.py), the composition policies (policies.py), the
  recipes and their loader (recipes.py) and the choice of a plan (the
  attempt_synthesis method of runtime.py).  A policy is the record of the
  operations its protocol names.  The regular expression matcher is an
  argument, which may raise; a parsed TOML document is a JSON value.
\<close>

section \<open>Endpoints and plans\<close>

text \<open>The fields of core/endpoint.py the synthesis reads.\<close>
record param_spec =
  pa_name :: string
  pa_type :: string

record endpoint_spec =
  ep_name :: string
  ep_path :: "string option"
  ep_required_params :: "param_spec list"
  ep_optional_params :: "param_spec list"
  ep_category :: string

record parameter_source =
  src_kind :: string
  src_value :: json

definition source_kinds :: "string list" where
  "source_kinds = [''proposal'', ''constant'', ''previous_step'']"

definition make_source :: "string \<Rightarrow> json \<Rightarrow> py_error + parameter_source" where
  "make_source kind value =
     (if kind \<in> set source_kinds then Inr \<lparr>src_kind = kind, src_value = value\<rparr> else Inl ValueError)"

definition source_to_dict :: "parameter_source \<Rightarrow> jobj" where
  "source_to_dict s = [(''kind'', JStr (src_kind s)), (''value'', src_value s)]"

definition source_from_dict :: "(json \<Rightarrow> string) \<Rightarrow> jobj \<Rightarrow> py_error + parameter_source" where
  "source_from_dict repr d = make_source (py_str repr (get_or (JStr []) d ''kind'')) (jget d ''value'')"

text \<open>A step; an absent capture name is JNull.\<close>
record composition_step =
  st_method_name :: string
  st_parameter_source :: "(string, parameter_source) dict"
  st_capture_output_as :: json

definition step_to_dict :: "composition_step \<Rightarrow> jobj" where
  "step_to_dict s =
     [(''method'', JStr (st_method_name s)),
      (''parameters'', JObj (map (\<lambda>(k, v). (k, JObj (source_to_dict v))) (st_parameter_source s)))] @
     (if truthy (st_capture_output_as s) then [(''capture_as'', st_capture_output_as s)] else [])"

definition aggregation_modes :: "string list" where
  "aggregation_modes = [''last'', ''merge'', ''list'']"

record synthesis_plan =
  pl_proposed_method :: endpoint_spec
  pl_steps :: "composition_step list"
  pl_output_aggregation :: string
  pl_description :: "string option"
  pl_policy_name :: "string option"
  pl_recipe_name :: "string option"
  pl_recipe_version :: "string option"

text \<open>The checks of the constructor.\<close>
definition check_plan :: "synthesis_plan \<Rightarrow> py_error + synthesis_plan" where
  "check_plan p =
     (if pl_steps p = [] then Inl ValueError
      else if pl_output_aggregation p \<notin> set aggregation_modes then Inl ValueError
      else Inr p)"

definition opt_entry :: "string \<Rightarrow> string option \<Rightarrow> jobj" where
  "opt_entry k v = (case v of None \<Rightarrow> [] | Some s \<Rightarrow> if s = [] then [] else [(k, JStr s)])"

definition plan_to_dict :: "synthesis_plan \<Rightarrow> jobj" where
  "plan_to_dict p =
     [(''proposed_method'', JStr (ep_name (pl_proposed_method p))),
      (''steps'', JArr (map (JObj \<circ> step_to_dict) (pl_steps p))),
      (''output_aggregation'', JStr (pl_output_aggregation p))] @
     opt_entry ''proposed_path'' (ep_path (pl_proposed_method p)) @
     opt_entry ''description'' (pl_description p) @
     opt_entry ''policy'' (pl_policy_name p) @
     opt_entry ''recipe_name'' (pl_recipe_name p) @
     opt_entry ''recipe_version'' (pl_recipe_version p)"

fun distinct_methods :: "composition_step list \<Rightarrow> string list \<Rightarrow> string list" where
  "distinct_methods [] seen = seen" |
  "distinct_methods (s # ss) seen =
     distinct_methods ss (if st_method_name s \<in> set seen then seen else seen @ [st_method_name s])"

definition underlying_methods :: "synthesis_plan \<Rightarrow> string list" where
  "underlying_methods p = distinct_methods (pl_steps p) []"

section \<open>Recipes\<close>

text \<open>Pattern fields come unchecked from the TOML table; JNull is an absent one.\<close>
record recipe_pattern =
  pt_name_exact :: json
  pt_name_regex :: json
  pt_category :: json
  pt_has_parameters :: "json list option"
  pt_path_exact :: json
  pt_path_regex :: json

record recipe =
  rc_name :: string
  rc_description :: string
  rc_pattern :: recipe_pattern
  rc_steps :: "composition_step list"
  rc_output_aggregation :: string
  rc_version :: string

type_synonym regex = "string \<Rightarrow> string \<Rightarrow> py_error + bool"

definition match_regex :: "regex \<Rightarrow> json \<Rightarrow> string \<Rightarrow> py_error + bool" where
  "match_regex re pat s = (case pat of JStr p \<Rightarrow> re p s | _ \<Rightarrow> Inl TypeError)"

fun has_all :: "json list \<Rightarrow> string list \<Rightarrow> py_error + bool" where
  "has_all [] names = Inr True" |
  "has_all (r # rs) names =
     (if \<not> hashable r then Inl TypeError
      else if r \<notin> JStr ` set names then Inr False else has_all rs names)"

definition param_names :: "endpoint_spec \<Rightarrow> string list" where
  "param_names p = map pa_name (ep_required_params p) @ map pa_name (ep_optional_params p)"

text \<open>Sequencing of the checks of a pattern: the first failed one decides.\<close>
definition and_then :: "py_error + bool \<Rightarrow> (py_error + bool) \<Rightarrow> py_error + bool" where
  "and_then a b = bind_res a (\<lambda>ok. if ok then b else Inr False)"

definition path_or_root :: "endpoint_spec \<Rightarrow> string" where
  "path_or_root p = (case ep_path p of None \<Rightarrow> ''/'' | Some s \<Rightarrow> if s = [] then ''/'' else s)"

definition pattern_matches :: "regex \<Rightarrow> recipe_pattern \<Rightarrow> endpoint_spec \<Rightarrow> py_error + bool" where
  "pattern_matches re pt p =
     and_then (Inr (pt_name_exact pt = JNull \<or> pt_name_exact pt = JStr (ep_name p)))
    (and_then (if pt_name_regex pt = JNull then Inr True else match_regex re (pt_name_regex pt) (ep_name p))
    (and_then (Inr (pt_category pt = JNull \<or> pt_category pt = JStr (ep_category p)))
    (and_then (case pt_has_parameters pt of None \<Rightarrow> Inr True | Some ps \<Rightarrow> has_all ps (param_names p))
    (and_then (Inr (pt_path_exact pt = JNull \<or> pt_path_exact pt = JStr (path_or_root p)))
              (if pt_path_regex pt = JNull then Inr True
               else match_regex re (pt_path_regex pt) (path_or_root p))))))"

definition check_recipe :: "recipe \<Rightarrow> py_error + recipe" where
  "check_recipe r =
     (if rc_name r = [] \<or> rc_steps r = [] \<or> rc_version r = [] then Inl ValueError else Inr r)"

section \<open>Loading recipes\<close>

definition param_from_item :: "string \<times> json \<Rightarrow> py_error + (string \<times> parameter_source)" where
  "param_from_item item =
     (case item of (target, src) \<Rightarrow>
        (case src of
           JObj d \<Rightarrow>
             (case jget d ''kind'' of
                JStr k \<Rightarrow> bind_res (make_source k (jget d ''value'')) (\<lambda>s. Inr (target, s))
              | _ \<Rightarrow> Inl ValueError)
         | _ \<Rightarrow> Inl ValueError))"

definition step_from_dict :: "json \<Rightarrow> py_error + composition_step" where
  "step_from_dict raw =
     (case raw of
        JObj d \<Rightarrow>
          (case jget d ''method'' of
             JStr m \<Rightarrow>
               if m = [] then Inl ValueError
               else (case get_or (JObj []) d ''parameters'' of
                  JObj ps \<Rightarrow> bind_res (map_res param_from_item ps) (\<lambda>params.
                     Inr \<lparr>st_method_name = upper m, st_parameter_source = params,
                          st_capture_output_as = jget d ''capture_as''\<rparr>)
                | _ \<Rightarrow> Inl ValueError)
           | _ \<Rightarrow> Inl ValueError)
      | _ \<Rightarrow> Inl ValueError)"

definition pattern_from_dict :: "jobj \<Rightarrow> py_error + recipe_pattern" where
  "pattern_from_dict d =
     bind_res (iter_items (jor (jget d ''has_parameters'') (JArr []))) (\<lambda>ps.
       Inr \<lparr>pt_name_exact = jget d ''name_exact'', pt_name_regex = jget d ''name_regex'',
            pt_category = jget d ''category'', pt_has_parameters = (if ps = [] then None else Some ps),
            pt_path_exact = jget d ''path_exact'', pt_path_regex = jget d ''path_regex''\<rparr>)"

definition aggregation_mode :: "json \<Rightarrow> py_error + string" where
  "aggregation_mode agg =
     (case (case agg of JObj d \<Rightarrow> get_or (JStr ''last'') d ''mode'' | _ \<Rightarrow> JStr ''last'') of
        JStr m \<Rightarrow> if m \<in> set aggregation_modes then Inr m else Inl ValueError
      | _ \<Rightarrow> Inl ValueError)"

definition recipe_name :: "jobj \<Rightarrow> py_error + string" where
  "recipe_name d =
     (case get_or (JStr []) d ''name'' of
        JStr name \<Rightarrow> if name = [] then Inl ValueError else Inr name
      | _ \<Rightarrow> Inl ValueError)"

definition recipe_pattern_of :: "jobj \<Rightarrow> py_error + recipe_pattern" where
  "recipe_pattern_of d =
     (case get_or (JObj []) d ''pattern'' of JObj pd \<Rightarrow> pattern_from_dict pd | _ \<Rightarrow> Inl ValueError)"

definition recipe_steps :: "jobj \<Rightarrow> py_error + composition_step list" where
  "recipe_steps d =
     (case get_or (JArr []) d ''steps'' of
        JArr raws \<Rightarrow> if raws = [] then Inl ValueError else map_res step_from_dict raws
      | _ \<Rightarrow> Inl ValueError)"

definition recipe_version_of :: "(json \<Rightarrow> string) \<Rightarrow> jobj \<Rightarrow> string" where
  "recipe_version_of repr d =
     (let v = get_or (JStr ''1'') d ''version'' in if v = JStr [] \<or> v = JNull then ''1'' else py_str repr v)"

definition recipe_of_table :: "(json \<Rightarrow> string) \<Rightarrow> jobj \<Rightarrow> py_error + recipe" where
  "recipe_of_table repr d =
     bind_res (recipe_name d) (\<lambda>name.
     bind_res (recipe_pattern_of d) (\<lambda>pattern.
     bind_res (recipe_steps d) (\<lambda>steps.
     bind_res (aggregation_mode (get_or (JObj []) d ''aggregation'')) (\<lambda>mode.
       check_recipe \<lparr>rc_name = name, rc_description = py_str repr (get_or (JStr []) d ''description''),
         rc_pattern = pattern, rc_steps = steps, rc_output_aggregation = mode,
         rc_version = recipe_version_of repr d\<rparr>))))"

definition recipe_from_dict :: "(json \<Rightarrow> string) \<Rightarrow> json \<Rightarrow> py_error + recipe" where
  "recipe_from_dict repr raw = (case raw of JObj d \<Rightarrow> recipe_of_table repr d | _ \<Rightarrow> Inl ValueError)"

text \<open>The recipes of a parsed file; every failure is the RecipeFileError.\<close>
definition load_recipes :: "(json \<Rightarrow> string) \<Rightarrow> jobj \<Rightarrow> py_error + recipe list" where
  "load_recipes repr data =
     (case get_or (JArr []) data ''recipe'' of
        JArr raws \<Rightarrow>
          (case map_res (recipe_from_dict repr) raws of Inl e \<Rightarrow> Inl ValueError | Inr rs \<Rightarrow> Inr rs)
      | _ \<Rightarrow> Inl ValueError)"


section \<open>Policies\<close>

record policy =
  po_name :: "string option"
  po_can_fulfill :: "endpoint_spec \<Rightarrow> endpoint_spec list \<Rightarrow> py_error + bool"
  po_compose :: "endpoint_spec \<Rightarrow> endpoint_spec list \<Rightarrow> py_error + synthesis_plan option"
  po_recipes :: "recipe list option"

definition names_of :: "endpoint_spec list \<Rightarrow> string list" where
  "names_of ms = map ep_name ms"

text \<open>The passthrough policy.\<close>
definition passthrough_params :: "endpoint_spec \<Rightarrow> endpoint_spec \<Rightarrow> (string, parameter_source) dict" where
  "passthrough_params proposal target =
     fold (\<lambda>p d. if pa_name p \<in> set (param_names target)
                 then dict_set (pa_name p) \<lparr>src_kind = ''proposal'', src_value = JStr (pa_name p)\<rparr> d else d)
       (ep_required_params proposal) []"

definition passthrough_plan :: "endpoint_spec \<Rightarrow> endpoint_spec \<Rightarrow> synthesis_plan" where
  "passthrough_plan proposal target =
     \<lparr>pl_proposed_method = proposal,
      pl_steps = [\<lparr>st_method_name = ep_name target,
                   st_parameter_source = passthrough_params proposal target,
                   st_capture_output_as = JNull\<rparr>],
      pl_output_aggregation = ''last'',
      pl_description = Some (''identity passthrough onto '' @ ep_name target),
      pl_policy_name = Some ''passthrough'', pl_recipe_name = None, pl_recipe_version = None\<rparr>"

definition passthrough_compose :: "endpoint_spec \<Rightarrow> endpoint_spec list \<Rightarrow> py_error + synthesis_plan option" where
  "passthrough_compose proposal available =
     (case find (\<lambda>m. ep_name m = ep_name proposal) available of
        None \<Rightarrow> Inr None
      | Some target \<Rightarrow> bind_res (check_plan (passthrough_plan proposal target)) (\<lambda>p. Inr (Some p)))"

definition passthrough_policy :: policy where
  "passthrough_policy =
     \<lparr>po_name = Some ''passthrough'',
      po_can_fulfill = (\<lambda>proposal available. Inr (ep_name proposal \<in> set (names_of available))),
      po_compose = passthrough_compose, po_recipes = None\<rparr>"

text \<open>The recipe policy.  Steps are values, so the copy of a template is the
  template.\<close>
fun any_matches :: "regex \<Rightarrow> recipe list \<Rightarrow> endpoint_spec \<Rightarrow> py_error + bool" where
  "any_matches re [] proposal = Inr False" |
  "any_matches re (r # rs) proposal =
     bind_res (pattern_matches re (rc_pattern r) proposal)
       (\<lambda>ok. if ok then Inr True else any_matches re rs proposal)"

definition recipe_available :: "recipe \<Rightarrow> endpoint_spec list \<Rightarrow> bool" where
  "recipe_available r available = list_all (\<lambda>s. st_method_name s \<in> set (names_of available)) (rc_steps r)"

definition plan_of_recipe :: "recipe \<Rightarrow> endpoint_spec \<Rightarrow> synthesis_plan" where
  "plan_of_recipe r proposal =
     \<lparr>pl_proposed_method = proposal, pl_steps = rc_steps r, pl_output_aggregation = rc_output_aggregation r,
      pl_description = Some (rc_description r), pl_policy_name = Some ''recipes'',
      pl_recipe_name = Some (rc_name r), pl_recipe_version = Some (rc_version r)\<rparr>"

fun recipe_compose :: "regex \<Rightarrow> recipe list \<Rightarrow> endpoint_spec \<Rightarrow> endpoint_spec list
    \<Rightarrow> py_error + synthesis_plan option" where
  "recipe_compose re [] proposal available = Inr None" |
  "recipe_compose re (r # rs) proposal available =
     bind_res (pattern_matches re (rc_pattern r) proposal) (\<lambda>ok.
       if \<not> ok \<or> \<not> recipe_available r available then recipe_compose re rs proposal available
       else bind_res (check_plan (plan_of_recipe r proposal)) (\<lambda>p. Inr (Some p)))"

definition recipe_policy :: "regex \<Rightarrow> recipe list \<Rightarrow> py_error + policy" where
  "recipe_policy re recipes =
     (if \<not> distinct (map rc_name recipes) then Inl ValueError
      else Inr \<lparr>po_name = Some ''recipes'',
                po_can_fulfill = (\<lambda>proposal available. any_matches re recipes proposal),
                po_compose = recipe_compose re recipes, po_recipes = Some recipes\<rparr>)"

text \<open>The policies of a runtime: the passthrough is always the last resort.\<close>
definition with_passthrough :: "policy list \<Rightarrow> policy list" where
  "with_passthrough ps =
     (if list_ex (\<lambda>p. po_name p = Some ''passthrough'') ps then ps else ps @ [passthrough_policy])"

section \<open>The choice of a plan\<close>

definition tag_plan :: "policy \<Rightarrow> synthesis_plan \<Rightarrow> py_error + synthesis_plan" where
  "tag_plan po p =
     (if pl_policy_name p = None
      then check_plan (p\<lparr>pl_policy_name := po_name po, pl_recipe_name := None, pl_recipe_version := None\<rparr>)
      else Inr p)"

definition plan_admitted :: "int \<Rightarrow> endpoint_spec list \<Rightarrow> synthesis_plan \<Rightarrow> bool" where
  "plan_admitted depth available p =
     (list_all (\<lambda>s. st_method_name s \<in> set (names_of available)) (pl_steps p) \<and>
      \<not> (0 < depth \<and> depth < int (length (pl_steps p))))"

fun attempt_synthesis :: "int \<Rightarrow> policy list \<Rightarrow> endpoint_spec \<Rightarrow> endpoint_spec list
    \<Rightarrow> py_error + synthesis_plan option" where
  "attempt_synthesis depth [] proposal available = Inr None" |
  "attempt_synthesis depth (po # pos) proposal available =
     (case po_can_fulfill po proposal available of
        Inr True \<Rightarrow>
          (case po_compose po proposal available of
             Inr (Some p) \<Rightarrow>
               bind_res (tag_plan po p) (\<lambda>p'.
                 if plan_admitted depth available p' then Inr (Some p')
                 else attempt_synthesis depth pos proposal available)
           | _ \<Rightarrow> attempt_synthesis depth pos proposal available)
      | _ \<Rightarrow> attempt_synthesis depth pos proposal available)"

section \<open>Well-formed plans\<close>

definition step_ok :: "composition_step \<Rightarrow> bool" where
  "step_ok s = list_all (\<lambda>(k, v). src_kind v \<in> set source_kinds) (st_parameter_source s)"

definition plan_ok :: "synthesis_plan \<Rightarrow> bool" where
  "plan_ok p = (pl_steps p \<noteq> [] \<and> pl_output_aggregation p \<in> set aggregation_modes \<and> list_all step_ok (pl_steps p))"

definition recipe_ok :: "recipe \<Rightarrow> bool" where
  "recipe_ok r =
     (rc_name r \<noteq> [] \<and> rc_version r \<noteq> [] \<and> rc_steps r \<noteq> [] \<and>
      rc_output_aggregation r \<in> set aggregation_modes \<and> list_all step_ok (rc_steps r))"

lemma map_res_length: "map_res f xs = Inr ys \<Longrightarrow> length ys = length xs"
  by (induction xs arbitrary: ys) (auto simp: bind_res_Inr)

lemma make_source_ok: "make_source k v = Inr s \<Longrightarrow> src_kind s \<in> set source_kinds"
  by (auto simp: make_source_def split: if_splits)

lemma param_from_item_ok: "param_from_item x = Inr (t, s) \<Longrightarrow> src_kind s \<in> set source_kinds"
  by (auto simp: param_from_item_def bind_res_Inr split: prod.splits json.splits dest: make_source_ok)

lemma step_from_dict_ok: "step_from_dict raw = Inr s \<Longrightarrow> step_ok s"
proof -
  assume "step_from_dict raw = Inr s"
  then obtain ps params where p: "map_res param_from_item ps = Inr params" "st_parameter_source s = params"
    by (auto simp: step_from_dict_def bind_res_Inr split: json.splits if_splits)
  have "list_all (\<lambda>(k, v). src_kind v \<in> set source_kinds) params"
    by (rule map_res_all[OF p(1)]) (auto dest: param_from_item_ok)
  then show ?thesis using p(2) by (simp add: step_ok_def)
qed

lemma aggregation_mode_ok: "aggregation_mode agg = Inr m \<Longrightarrow> m \<in> set aggregation_modes"
  by (auto simp: aggregation_mode_def split: json.splits if_splits)

lemma check_recipe_ok:
  "check_recipe r' = Inr r \<Longrightarrow> rc_output_aggregation r' \<in> set aggregation_modes \<Longrightarrow>
   list_all step_ok (rc_steps r') \<Longrightarrow> recipe_ok r"
  by (auto simp: check_recipe_def recipe_ok_def split: if_splits)

lemma steps_from_dict_ok: "map_res step_from_dict raws = Inr ss \<Longrightarrow> list_all step_ok ss"
  by (erule map_res_all) (rule step_from_dict_ok)

lemma recipe_of_table_ok: "recipe_of_table repr d = Inr r \<Longrightarrow> recipe_ok r"
  by (auto simp: recipe_of_table_def bind_res_Inr recipe_steps_def split: json.splits if_splits
      dest!: steps_from_dict_ok aggregation_mode_ok elim!: check_recipe_ok)

lemma recipe_from_dict_ok: "recipe_from_dict repr raw = Inr r \<Longrightarrow> recipe_ok r"
  by (auto simp: recipe_from_dict_def recipe_of_table_ok split: json.splits)

lemma load_recipes_ok: "load_recipes repr data = Inr rs \<Longrightarrow> list_all recipe_ok rs"
  by (auto simp: load_recipes_def split: json.splits sum.splits
      elim!: map_res_all dest: recipe_from_dict_ok)

lemma passthrough_params_ok:
  "list_all (\<lambda>(k, v). src_kind v \<in> set source_kinds) (passthrough_params proposal target)"
proof -
  let ?P = "\<lambda>(k, v). src_kind v \<in> set source_kinds" and
    ?f = "\<lambda>p d. if pa_name p \<in> set (param_names target)
      then dict_set (pa_name p) \<lparr>src_kind = ''proposal'', src_value = JStr (pa_name p)\<rparr> d else d"
  have upd: "list_all ?P d \<Longrightarrow> src_kind v \<in> set source_kinds \<Longrightarrow> list_all ?P (dict_set k v d)" for d k v
    by (induction d) auto
  have kind: "''proposal'' \<in> set source_kinds" by (simp add: source_kinds_def)
  have step: "list_all ?P (?f p d)" if "list_all ?P d" for p d
    using upd[OF that, of "\<lparr>src_kind = ''proposal'', src_value = JStr (pa_name p)\<rparr>" "pa_name p"] kind that
    by (cases "pa_name p \<in> set (param_names target)") simp_all
  show ?thesis unfolding passthrough_params_def
    by (rule fold_keeps[where P = "list_all ?P"]) (rule step, simp_all)
qed


section \<open>The choice is sound\<close>

lemma passthrough_compose_eq:
  "passthrough_compose proposal available =
     Inr (map_option (passthrough_plan proposal) (find (\<lambda>m. ep_name m = ep_name proposal) available))"
  by (simp add: passthrough_compose_def check_plan_def passthrough_plan_def aggregation_modes_def split: option.split)

lemma find_named:
  assumes "find (\<lambda>m. ep_name m = n) available = Some t"
  shows "ep_name t = n" and "n \<in> set (names_of available)"
proof -
  have t: "t \<in> set available" "ep_name t = n" using assms by (auto simp: find_Some_iff)
  then show "ep_name t = n" "n \<in> set (names_of available)" unfolding names_of_def set_map by blast+
qed

lemma passthrough_choice:
  assumes "passthrough_compose proposal available = Inr (Some p)"
  shows "plan_ok p \<and> plan_admitted depth available p \<and> pl_proposed_method p = proposal \<and>
     pl_policy_name p = Some ''passthrough''"
proof -
  obtain t where t: "find (\<lambda>m. ep_name m = ep_name proposal) available = Some t" "p = passthrough_plan proposal t"
    using assms unfolding passthrough_compose_eq by auto
  then show ?thesis using passthrough_params_ok find_named[OF t(1)]
    by (simp add: plan_ok_def plan_admitted_def aggregation_modes_def step_ok_def passthrough_plan_def)
qed

lemma attempt_passthrough:
  "attempt_synthesis depth [passthrough_policy] proposal available = passthrough_compose proposal available"
proof (cases "find (\<lambda>m. ep_name m = ep_name proposal) available")
  case None
  then have "ep_name proposal \<notin> set (names_of available)" by (auto simp: find_None_iff names_of_def)
  then show ?thesis using None by (simp add: passthrough_policy_def passthrough_compose_eq)
next
  case (Some t)
  have m: "ep_name proposal \<in> set (names_of available)"
    by (rule find_named(2)[OF Some])
  obtain p where p: "passthrough_compose proposal available = Inr (Some p)"
    using Some by (simp add: passthrough_compose_eq)
  show ?thesis using m p passthrough_choice[OF p]
    by (simp add: passthrough_policy_def tag_plan_def)
qed

lemma plan_of_recipe_ok: "recipe_ok r \<Longrightarrow> plan_ok (plan_of_recipe r proposal)"
  by (simp add: recipe_ok_def plan_ok_def plan_of_recipe_def)

lemma plan_of_recipe_check: "recipe_ok r \<Longrightarrow> check_plan (plan_of_recipe r proposal) = Inr (plan_of_recipe r proposal)"
  by (simp add: recipe_ok_def check_plan_def plan_of_recipe_def)

lemma recipe_compose_Some:
  "list_all recipe_ok rs \<Longrightarrow> recipe_compose re rs proposal available = Inr (Some p) \<Longrightarrow>
   \<exists>r \<in> set rs. p = plan_of_recipe r proposal \<and> recipe_available r available"
  by (induction rs) (auto simp: bind_res_Inr plan_of_recipe_check split: if_splits)

lemma attempt_recipes:
  assumes ok: "list_all recipe_ok recipes" and po: "recipe_policy re recipes = Inr po"
  shows "attempt_synthesis depth (with_passthrough [po]) proposal available =
    (case (any_matches re recipes proposal, recipe_compose re recipes proposal available) of
       (Inr True, Inr (Some p)) \<Rightarrow>
          if plan_admitted depth available p then Inr (Some p) else passthrough_compose proposal available
     | _ \<Rightarrow> passthrough_compose proposal available)"
proof -
  have po_eq: "po_name po = Some ''recipes''" "po_compose po = recipe_compose re recipes"
    "po_can_fulfill po = (\<lambda>p a. any_matches re recipes p)"
    using po by (auto simp: recipe_policy_def split: if_splits)
  have w: "with_passthrough [po] = [po, passthrough_policy]" using po_eq by (simp add: with_passthrough_def)
  have tag: "tag_plan po p = Inr p" if "recipe_compose re recipes proposal available = Inr (Some p)" for p
    using recipe_compose_Some[OF ok that] by (auto simp: tag_plan_def plan_of_recipe_def)
  show ?thesis unfolding w attempt_synthesis.simps(2)[of depth po] attempt_passthrough po_eq
    using tag by (simp split: sum.split option.split bool.split)
qed

text \<open>Composition returns only well-formed, executable plans and never refuses a method
  the server has.  With the recipes of any file that loads and the passthrough as last
  resort, whatever the patterns do (raise included), the choice of a plan does not raise;
  when there is a plan it is for the proposal, has at least one step, a known aggregation
  mode and known parameter sources, names only available methods and respects a positive
  depth bound; and there is none only if no available method has the proposed name.\<close>
theorem plans_well_formed:
  assumes "load_recipes repr data = Inr recipes" and "recipe_policy re recipes = Inr po"
  shows "\<exists>out. attempt_synthesis depth (with_passthrough [po]) proposal available = Inr out \<and>
     (case out of
        None \<Rightarrow> ep_name proposal \<notin> set (names_of available)
      | Some p \<Rightarrow> plan_ok p \<and> plan_admitted depth available p \<and> pl_proposed_method p = proposal)"
proof -
  have ok: "list_all recipe_ok recipes" by (rule load_recipes_ok[OF assms(1)])
  have pass: "\<exists>out. passthrough_compose proposal available = Inr out \<and>
     (case out of None \<Rightarrow> ep_name proposal \<notin> set (names_of available)
      | Some p \<Rightarrow> plan_ok p \<and> plan_admitted depth available p \<and> pl_proposed_method p = proposal)"
  proof (cases "find (\<lambda>m. ep_name m = ep_name proposal) available")
    case None
    then have "ep_name proposal \<notin> set (names_of available)" by (auto simp: find_None_iff names_of_def)
    then show ?thesis using None by (simp add: passthrough_compose_eq)
  next
    case (Some t)
    then obtain p where p: "passthrough_compose proposal available = Inr (Some p)"
      by (simp add: passthrough_compose_eq)
    then show ?thesis using passthrough_choice[OF p] by simp
  qed
  show ?thesis
  proof (cases "any_matches re recipes proposal = Inr True \<and>
      (\<exists>p. recipe_compose re recipes proposal available = Inr (Some p) \<and> plan_admitted depth available p)")
    case True
    then obtain p where p: "recipe_compose re recipes proposal available = Inr (Some p)"
      "plan_admitted depth available p" "any_matches re recipes proposal = Inr True" by blast
    obtain r where r: "r \<in> set recipes" "p = plan_of_recipe r proposal"
      using recipe_compose_Some[OF ok p(1)] by blast
    have "plan_ok p" using r ok plan_of_recipe_ok by (simp add: list_all_iff)
    then show ?thesis using p r by (simp add: attempt_recipes[OF ok assms(2)] plan_of_recipe_def)
  next
    case False
    then have "attempt_synthesis depth (with_passthrough [po]) proposal available = passthrough_compose proposal available"
      unfolding attempt_recipes[OF ok assms(2)] by (auto split: sum.splits option.splits bool.splits)
    then show ?thesis using pass by simp
  qed
qed


section \<open>The first applicable recipe wins\<close>

definition applicable :: "regex \<Rightarrow> endpoint_spec \<Rightarrow> endpoint_spec list \<Rightarrow> recipe \<Rightarrow> bool" where
  "applicable re proposal available r =
     (pattern_matches re (rc_pattern r) proposal = Inr True \<and> recipe_available r available)"

lemma pattern_decides:
  "is_ok (pattern_matches re pt p) \<Longrightarrow>
   pattern_matches re pt p = Inr (pattern_matches re pt p = Inr True)"
  by (cases "pattern_matches re pt p") auto

lemma recipe_compose_first:
  assumes "list_all recipe_ok rs" and "\<forall>r \<in> set rs. is_ok (pattern_matches re (rc_pattern r) proposal)"
  shows "recipe_compose re rs proposal available =
     Inr (map_option (\<lambda>r. plan_of_recipe r proposal) (find (applicable re proposal available) rs))"
  using assms
proof (induction rs)
  case (Cons r rs)
  then show ?case using pattern_decides[of re "rc_pattern r" proposal]
    by (cases "pattern_matches re (rc_pattern r) proposal") (auto simp: applicable_def plan_of_recipe_check)
qed simp

lemma any_matches_first:
  assumes "\<forall>r \<in> set rs. is_ok (pattern_matches re (rc_pattern r) proposal)"
  shows "any_matches re rs proposal = Inr (\<exists>r \<in> set rs. pattern_matches re (rc_pattern r) proposal = Inr True)"
  using assms
proof (induction rs)
  case (Cons r rs)
  then show ?case by (cases "pattern_matches re (rc_pattern r) proposal") auto
qed simp

text \<open>Recipes are tried in declaration order.  When no pattern raises on the proposal,
  the plan is the template of the first recipe whose pattern matches and whose methods are
  all available, frozen with the name and version of that recipe; if that plan is too deep,
  or there is no such recipe, it is the passthrough onto the method of the same name; later
  matching recipes are not tried.\<close>
theorem first_recipe_wins:
  assumes "load_recipes repr data = Inr recipes" and "recipe_policy re recipes = Inr po"
    and "\<forall>r \<in> set recipes. is_ok (pattern_matches re (rc_pattern r) proposal)"
  shows "attempt_synthesis depth (with_passthrough [po]) proposal available =
     Inr (case find (applicable re proposal available) recipes of
            Some r \<Rightarrow> if plan_admitted depth available (plan_of_recipe r proposal)
                      then Some (plan_of_recipe r proposal)
                      else map_option (passthrough_plan proposal) (find (\<lambda>m. ep_name m = ep_name proposal) available)
          | None \<Rightarrow> map_option (passthrough_plan proposal) (find (\<lambda>m. ep_name m = ep_name proposal) available))"
proof -
  have ok: "list_all recipe_ok recipes" by (rule load_recipes_ok[OF assms(1)])
  show ?thesis
  proof (cases "find (applicable re proposal available) recipes")
    case None
    then show ?thesis
      by (simp add: attempt_recipes[OF ok assms(2)] any_matches_first[OF assms(3)]
          recipe_compose_first[OF ok assms(3)] passthrough_compose_eq split: bool.split)
  next
    case (Some r)
    have "r \<in> set recipes \<and> applicable re proposal available r" using Some by (auto simp: find_Some_iff)
    then have "\<exists>r \<in> set recipes. pattern_matches re (rc_pattern r) proposal = Inr True"
      unfolding applicable_def by blast
    then have "any_matches re recipes proposal = Inr True"
      unfolding any_matches_first[OF assms(3)] by simp
    then show ?thesis using Some
      by (simp add: attempt_recipes[OF ok assms(2)] recipe_compose_first[OF ok assms(3)] passthrough_compose_eq)
  qed
qed

definition example_file :: jobj where
  "example_file = [(''recipe'', JArr [JObj [(''name'', JStr ''r''), (''version'', JStr ''2''),
     (''pattern'', JObj [(''name_exact'', JStr ''EVALUATE'')]),
     (''steps'', JArr [JObj [(''method'', JStr ''analyze''),
        (''parameters'', JObj [(''x'', JObj [(''kind'', JStr ''constant''), (''value'', JInt 1)])])]])]])]"

definition example_method :: "string \<Rightarrow> endpoint_spec" where
  "example_method n = \<lparr>ep_name = n, ep_path = None, ep_required_params = [], ep_optional_params = [],
     ep_category = ''custom''\<rparr>"

definition example_recipe :: recipe where
  "example_recipe = \<lparr>rc_name = ''r'', rc_description = [],
     rc_pattern = \<lparr>pt_name_exact = JStr ''EVALUATE'', pt_name_regex = JNull, pt_category = JNull,
        pt_has_parameters = None, pt_path_exact = JNull, pt_path_regex = JNull\<rparr>,
     rc_steps = [\<lparr>st_method_name = ''ANALYZE'',
        st_parameter_source = [(''x'', \<lparr>src_kind = ''constant'', src_value = JInt 1\<rparr>)],
        st_capture_output_as = JNull\<rparr>],
     rc_output_aggregation = ''last'', rc_version = ''2''\<rparr>"

lemma example_loads: "load_recipes (\<lambda>v. []) example_file = Inr [example_recipe]"
proof -
  have "upper ''analyze'' = ''ANALYZE''" by code_simp
  then show ?thesis
    by (simp add: example_file_def example_recipe_def load_recipes_def recipe_from_dict_def recipe_of_table_def
        recipe_name_def recipe_pattern_of_def pattern_from_dict_def recipe_steps_def step_from_dict_def
        param_from_item_def make_source_def source_kinds_def aggregation_mode_def aggregation_modes_def
        recipe_version_of_def check_recipe_def get_or_def jget_def jor_def)
qed

lemma plans_well_formed_witness:
  "\<exists>po out. attempt_synthesis 10 (with_passthrough [po]) (example_method ''EVALUATE'') [example_method ''ANALYZE''] = Inr out"
proof -
  obtain po where po: "recipe_policy (\<lambda>p s. Inl ValueError) [example_recipe] = Inr po"
    by (simp add: recipe_policy_def)
  from plans_well_formed[OF example_loads po] show ?thesis by blast
qed

lemma first_recipe_wins_witness:
  "\<exists>po. attempt_synthesis 10 (with_passthrough [po]) (example_method ''EVALUATE'') [example_method ''ANALYZE'']
     = Inr (Some (plan_of_recipe example_recipe (example_method ''EVALUATE'')))"
proof -
  obtain po where po: "recipe_policy (\<lambda>p s. Inl ValueError) [example_recipe] = Inr po"
    by (simp add: recipe_policy_def)
  have m: "pattern_matches (\<lambda>p s. Inl ValueError) (rc_pattern example_recipe) (example_method ''EVALUATE'') = Inr True"
    by (simp add: pattern_matches_def example_recipe_def example_method_def and_then_def)
  have a: "recipe_available example_recipe [example_method ''ANALYZE'']"
    by (simp add: recipe_available_def example_recipe_def example_method_def names_of_def)
  have d: "plan_admitted 10 [example_method ''ANALYZE''] (plan_of_recipe example_recipe (example_method ''EVALUATE''))"
    by (simp add: plan_admitted_def plan_of_recipe_def example_recipe_def example_method_def names_of_def)
  have ok: "\<forall>r \<in> set [example_recipe]. is_ok (pattern_matches (\<lambda>p s. Inl ValueError) (rc_pattern r) (example_method ''EVALUATE''))"
    using m by simp
  from first_recipe_wins[OF example_loads po ok, of 10 "[example_method ''ANALYZE'']"] m a d
  have "attempt_synthesis 10 (with_passthrough [po]) (example_method ''EVALUATE'') [example_method ''ANALYZE'']
     = Inr (Some (plan_of_recipe example_recipe (example_method ''EVALUATE'')))"
    by (simp add: applicable_def)
  then show ?thesis by blast
qed

end
