(* ===== verification/Wire.thy ===== *)
theory Wire
  imports Prelude
begin

text \<open>
  core/wire.py: the framing of requests and responses, the case-insensitive
  header lookup and the readers of the identity, contract and idempotency
  headers.  A stream is the list of the bytes still to be read, and a text is
  its own encoding.  The records are polymorphic in the body: bytes here, and
  the decoded content in the theories of the dispatcher.
\<close>

section \<open>Messages\<close>

type_synonym headers = "(string, string) dict"

record 'b agtp_request =
  rq_method :: string
  rq_headers :: headers
  rq_body :: 'b
  rq_path :: string
  rq_query :: "(string, string) dict"

record 'b agtp_response =
  rs_status_code :: int
  rs_status_text :: string
  rs_headers :: headers
  rs_body :: 'b

text \<open>The raises of WireFormatError, one constructor each.\<close>
datatype wire_error =
    ConnectionClosed
  | NoHeaderLines
  | MalformedHeader
  | MalformedStartLine
  | UnsupportedVersion
  | FragmentInPath
  | InvalidContentLength
  | BodyTruncated
  | NonNumericStatus

definition CR :: char where "CR = CHR 0x0D"
definition LF :: char where "LF = CHR 0x0A"

definition AGTP_VERSION :: string where
  "AGTP_VERSION = ''AGTP/1.0''"

section \<open>Percent encoding\<close>

text \<open>quote with no safe characters and unquote_plus of urllib.parse.\<close>
definition unreserved :: "char \<Rightarrow> bool" where
  "unreserved c = (is_digit c \<or> is_upper c \<or> is_lower c \<or> c \<in> set ''_.-~'')"

definition hex_digit :: "nat \<Rightarrow> char" where
  "hex_digit n = (if n < 10 then char_of (48 + n) else char_of (55 + n))"

definition hex_of_char :: "char \<Rightarrow> nat option" where
  "hex_of_char c =
     (if is_digit c then Some (of_char c - 48)
      else (let n = of_char c :: nat in
        if 65 \<le> n \<and> n \<le> 70 then Some (n - 55)
        else if 97 \<le> n \<and> n \<le> 102 then Some (n - 87) else None))"

fun quote :: "string \<Rightarrow> string" where
  "quote [] = []" |
  "quote (c # cs) =
     (if unreserved c then c # quote cs
      else CHR ''%'' # hex_digit (of_char c div 16) # hex_digit (of_char c mod 16) # quote cs)"

fun unquote_plus :: "string \<Rightarrow> string" where
  "unquote_plus [] = []" |
  "unquote_plus (c # cs) =
     (if c = CHR ''+'' then CHR '' '' # unquote_plus cs
      else if c = CHR ''%'' then
        (case cs of
           h # l # rest \<Rightarrow>
             (case (hex_of_char h, hex_of_char l) of
                (Some a, Some b) \<Rightarrow> char_of (16 * a + b) # unquote_plus rest
              | _ \<Rightarrow> c # unquote_plus cs)
         | _ \<Rightarrow> c # unquote_plus cs)
      else c # unquote_plus cs)"

section \<open>Writing\<close>

text \<open>setdefault of a dictionary.\<close>
definition set_default :: "'k \<Rightarrow> 'v \<Rightarrow> ('k, 'v) dict \<Rightarrow> ('k, 'v) dict" where
  "set_default k v d = (if dict_get d k = None then dict_set k v d else d)"

definition framed_headers :: "headers \<Rightarrow> string \<Rightarrow> headers" where
  "framed_headers h body =
     (if body = [] then h else set_default ''Content-Length'' (show_int (int (length body))) h)"

definition query_string :: "(string, string) dict \<Rightarrow> string" where
  "query_string q = join_with ''&'' (map (\<lambda>(k, v). quote k @ ''='' @ quote v) q)"

definition path_token :: "string agtp_request \<Rightarrow> string" where
  "path_token r =
     (let p = (if rq_path r = [] then ''/'' else rq_path r)
      in if rq_query r = [] then p else p @ ''?'' @ query_string (rq_query r))"

definition write_head :: "string \<Rightarrow> headers \<Rightarrow> string" where
  "write_head start h =
     join_with [CR, LF] (start # map (\<lambda>(k, v). k @ '': '' @ v) h) @ [CR, LF, CR, LF]"

definition serialize_request :: "string agtp_request \<Rightarrow> string" where
  "serialize_request r =
     (let t = path_token r;
          start = (if t \<noteq> ''/'' then AGTP_VERSION @ '' '' @ rq_method r @ '' '' @ t
                   else AGTP_VERSION @ '' '' @ rq_method r)
      in write_head start (framed_headers (rq_headers r) (rq_body r)) @ rq_body r)"

definition serialize_response :: "string agtp_response \<Rightarrow> string" where
  "serialize_response r =
     write_head (AGTP_VERSION @ '' '' @ show_int (rs_status_code r) @ '' '' @ rs_status_text r)
       (framed_headers (rs_headers r) (rs_body r)) @ rs_body r"

section \<open>Reading\<close>

text \<open>A line with its terminator, or what is left at the end of the stream.\<close>
definition readline :: "string \<Rightarrow> string \<times> string" where
  "readline s = (case partition_char LF s of (a, f, b) \<Rightarrow> if f then (a @ [LF], b) else (s, []))"

lemma partition_char_length: "partition_char c s = (a, True, b) \<Longrightarrow> length b < length s"
  by (drule partition_char_join) simp

function read_until_blank_line :: "string \<Rightarrow> wire_error + (string \<times> string)" where
  "read_until_blank_line s =
     (case readline s of (line, rest) \<Rightarrow>
        if line = [] then Inl ConnectionClosed
        else if line = [CR, LF] \<or> line = [LF] then Inr ([], rest)
        else bind_res (read_until_blank_line rest) (\<lambda>(h, r). Inr (line @ h, r)))"
  by pat_completeness auto
termination
  by (relation "measure length")
    (auto simp: readline_def split: prod.splits if_splits dest: partition_char_length)

declare read_until_blank_line.simps [simp del]

fun rstrip_cr :: "string \<Rightarrow> string" where
  "rstrip_cr s = rev (dropWhile (\<lambda>c. c = CR) (rev s))"

fun parse_header_lines :: "string list \<Rightarrow> headers \<Rightarrow> wire_error + headers" where
  "parse_header_lines [] h = Inr h" |
  "parse_header_lines (line # lines) h =
     (case partition_char (CHR '':'') line of (name, colon, value) \<Rightarrow>
        if \<not> colon then Inl MalformedHeader
        else parse_header_lines lines (dict_set (strip name) (strip value) h))"

definition parse_headers :: "string \<Rightarrow> wire_error + (string \<times> headers)" where
  "parse_headers raw =
     (case map rstrip_cr (filter (\<lambda>l. strip l \<noteq> []) (split_char LF raw)) of
        [] \<Rightarrow> Inl NoHeaderLines
      | start # lines \<Rightarrow> bind_res (parse_header_lines lines []) (\<lambda>h. Inr (start, h)))"

definition find_header :: "string \<Rightarrow> headers \<Rightarrow> string option" where
  "find_header name h = map_option snd (find (\<lambda>(k, v). lower k = name) h)"

definition read_body :: "string \<Rightarrow> headers \<Rightarrow> wire_error + (string \<times> string)" where
  "read_body s h =
     (case find_header ''content-length'' h of
        None \<Rightarrow> Inr ([], s)
      | Some v \<Rightarrow>
          if v = [] then Inr ([], s)
          else (case parse_int (strip v) of
                  None \<Rightarrow> Inl InvalidContentLength
                | Some n \<Rightarrow>
                    if n = 0 then Inr ([], s)
                    else if n < 0 \<or> length s < nat n then Inl BodyTruncated
                    else Inr (take (nat n) s, drop (nat n) s)))"

text \<open>The split method without arguments: the words between white space.\<close>
fun split_ws_on :: "string \<Rightarrow> string list" where
  "split_ws_on [] = [[]]" |
  "split_ws_on (x # xs) =
     (if is_ws x then [] # split_ws_on xs
      else (case split_ws_on xs of [] \<Rightarrow> [[x]] | w # ws \<Rightarrow> (x # w) # ws))"

definition split_ws :: "string \<Rightarrow> string list" where
  "split_ws s = filter (\<lambda>w. w \<noteq> []) (split_ws_on s)"

text \<open>The split method with maxsplit 2: at most two words and what follows them.\<close>
definition split_ws2 :: "string \<Rightarrow> string list" where
  "split_ws2 s =
     (let t = lstrip s; w1 = takeWhile (\<lambda>c. \<not> is_ws c) t;
          t2 = lstrip (dropWhile (\<lambda>c. \<not> is_ws c) t); w2 = takeWhile (\<lambda>c. \<not> is_ws c) t2;
          t3 = lstrip (dropWhile (\<lambda>c. \<not> is_ws c) t2)
      in filter (\<lambda>w. w \<noteq> []) [w1, w2, t3])"

fun parse_query_pairs :: "string list \<Rightarrow> (string, string) dict \<Rightarrow> (string, string) dict" where
  "parse_query_pairs [] q = q" |
  "parse_query_pairs (pair # ps) q =
     (if pair = [] then parse_query_pairs ps q
      else (case partition_char (CHR ''='') pair of (k, sep, v) \<Rightarrow>
        (let key = unquote_plus k in
         if key = [] then parse_query_pairs ps q
         else parse_query_pairs ps (dict_set key (if sep then unquote_plus v else []) q))))"

definition parse_query_string :: "string \<Rightarrow> (string, string) dict" where
  "parse_query_string s = (if s = [] then [] else parse_query_pairs (split_char (CHR ''&'') s) [])"

definition start_tokens :: "string \<Rightarrow> wire_error + (string \<times> string \<times> string)" where
  "start_tokens line =
     (case split_ws line of
        [v, m] \<Rightarrow> Inr (v, m, ''/'')
      | [v, m, p] \<Rightarrow> Inr (v, m, p)
      | _ \<Rightarrow> Inl MalformedStartLine)"

definition split_path_token :: "string \<Rightarrow> string \<times> string" where
  "split_path_token t =
     (case partition_char (CHR ''?'') t of (p, f, q) \<Rightarrow>
        (if p = [] then ''/'' else p, if f then q else []))"

definition parse_request :: "string \<Rightarrow> wire_error + (string agtp_request \<times> string)" where
  "parse_request s =
     bind_res (read_until_blank_line s) (\<lambda>(head, rest).
     bind_res (parse_headers head) (\<lambda>(start, h).
     bind_res (start_tokens start) (\<lambda>(version, m, t).
       if version \<noteq> AGTP_VERSION then Inl UnsupportedVersion
       else if CHR ''#'' \<in> set t then Inl FragmentInPath
       else (case split_path_token t of (p, q) \<Rightarrow>
         bind_res (read_body rest h) (\<lambda>(body, rest').
           Inr (\<lparr>rq_method = m, rq_headers = h, rq_body = body, rq_path = p,
                 rq_query = parse_query_string q\<rparr>, rest'))))))"

definition parse_response :: "string \<Rightarrow> wire_error + (string agtp_response \<times> string)" where
  "parse_response s =
     bind_res (read_until_blank_line s) (\<lambda>(head, rest).
     bind_res (parse_headers head) (\<lambda>(start, h).
       (case split_ws2 start of
          version # code # texts \<Rightarrow>
            if version \<noteq> AGTP_VERSION then Inl UnsupportedVersion
            else (case parse_int code of
                    None \<Rightarrow> Inl NonNumericStatus
                  | Some n \<Rightarrow>
                      bind_res (read_body rest h) (\<lambda>(body, rest').
                        Inr (\<lparr>rs_status_code = n,
                              rs_status_text = (case texts of [] \<Rightarrow> [] | t # _ \<Rightarrow> t),
                              rs_headers = h, rs_body = body\<rparr>, rest')))
        | _ \<Rightarrow> Inl MalformedStartLine)))"

section \<open>Header readers\<close>

definition header_in :: "headers \<Rightarrow> string \<Rightarrow> string" where
  "header_in h name = (case find_header (lower name) h of None \<Rightarrow> [] | Some v \<Rightarrow> v)"

text \<open>A canonical header, else the deprecated name it replaced, else the
  default; the deprecation warnings go to the error stream.\<close>
definition read_renamed :: "string \<Rightarrow> string \<Rightarrow> headers \<Rightarrow> string \<Rightarrow> string" where
  "read_renamed new legacy h dflt =
     (if header_in h new \<noteq> [] then header_in h new
      else if header_in h legacy \<noteq> [] then header_in h legacy else dflt)"

definition read_agent_id :: "headers \<Rightarrow> string" where
  "read_agent_id h = read_renamed ''Agent-ID'' ''Target-Agent'' h []"

definition read_synthesis_id :: "headers \<Rightarrow> string" where
  "read_synthesis_id h = read_renamed ''Contract-Synthesized'' ''Synthesis-Id'' h []"

definition read_idempotency_key :: "headers \<Rightarrow> string" where
  "read_idempotency_key h = read_renamed ''Idempotency-Key'' ''RCNS-Idempotency-Key'' h []"

section \<open>Round trip\<close>

lemma readline_line: "LF \<notin> set l \<Longrightarrow> readline (l @ LF # rest) = (l @ [LF], rest)"
  by (simp add: readline_def partition_char_append)

definition crlf_lines :: "string list \<Rightarrow> string" where
  "crlf_lines ls = concat (map (\<lambda>l. l @ [CR, LF]) ls)"

lemma CR_LF [simp]: "CR \<noteq> LF" "LF \<noteq> CR"
  by (simp_all add: CR_def LF_def)

lemma read_head_lines:
  assumes "\<forall>l \<in> set ls. LF \<notin> set l \<and> l \<noteq> []"
  shows "read_until_blank_line (crlf_lines ls @ [CR, LF] @ rest) = Inr (crlf_lines ls, rest)"
  using assms
proof (induction ls)
  case Nil
  have "readline ([CR] @ LF # rest) = ([CR] @ [LF], rest)" by (rule readline_line) simp
  then show ?case by (subst read_until_blank_line.simps) (simp add: crlf_lines_def)
next
  case (Cons l ls)
  have "readline ((l @ [CR]) @ LF # (crlf_lines ls @ [CR, LF] @ rest)) =
      ((l @ [CR]) @ [LF], crlf_lines ls @ [CR, LF] @ rest)"
    by (rule readline_line) (use Cons.prems in simp)
  moreover have "l @ [CR, LF] \<noteq> [CR, LF]" "l @ [CR, LF] \<noteq> [LF]" using Cons.prems by auto
  ultimately show ?case using Cons
    by (subst read_until_blank_line.simps) (simp add: crlf_lines_def)
qed

lemma join_crlf: "ls \<noteq> [] \<Longrightarrow> join_with [CR, LF] ls @ [CR, LF] = crlf_lines ls"
  by (induction ls rule: induct_list012) (simp_all add: crlf_lines_def)

lemma join_crlf_rest:
  "ls \<noteq> [] \<Longrightarrow> join_with [CR, LF] ls @ [CR, LF, CR, LF] @ rest = crlf_lines ls @ [CR, LF] @ rest"
  by (simp add: join_crlf[symmetric])

lemma split_crlf:
  "\<forall>l \<in> set ls. LF \<notin> set l \<Longrightarrow> split_char LF (crlf_lines ls) = map (\<lambda>l. l @ [CR]) ls @ [[]]"
proof (induction ls)
  case Nil
  then show ?case by (simp add: crlf_lines_def)
next
  case (Cons l ls)
  have "split_char LF ((l @ [CR]) @ LF # crlf_lines ls) = (l @ [CR]) # split_char LF (crlf_lines ls)"
    by (rule split_char_append) (use Cons.prems in simp)
  then show ?case using Cons by (simp add: crlf_lines_def)
qed

lemma rstrip_cr_line: "CR \<notin> set l \<Longrightarrow> rstrip_cr (l @ [CR]) = l"
  by (cases "rev l") (auto simp: dropWhile_eq_self_iff)


lemma strip_empty_iff: "strip s = [] \<longleftrightarrow> list_all is_ws s"
proof
  assume "strip s = []"
  then have "list_all is_ws (dropWhile is_ws s)"
    by (simp add: strip_def rstrip_def lstrip_def dropWhile_eq_Nil_conv list_all_iff)
  moreover have "list_all is_ws (takeWhile is_ws s)"
    unfolding list_all_iff using set_takeWhileD by fastforce
  ultimately have "list_all is_ws (takeWhile is_ws s @ dropWhile is_ws s)" by (simp only: list_all_append)
  then show "list_all is_ws s" by (simp only: takeWhile_dropWhile_id)
next
  assume "list_all is_ws s"
  then show "strip s = []" unfolding strip_def rstrip_def lstrip_def
    by (auto simp: list_all_iff dropWhile_eq_Nil_conv dest: set_dropWhileD)
qed

lemma lstrip_space: "lstrip (CHR '' '' # s) = lstrip s"
  by (simp add: lstrip_def is_ws_def)

lemma strip_space: "strip (CHR '' '' # s) = strip s"
  by (simp add: strip_def lstrip_space)

lemma parse_int_plain:
  assumes "c \<noteq> CHR ''-''" "c \<noteq> CHR ''+''"
  shows "parse_int (c # cs) = map_option int (parse_unsigned (c # cs))"
  using assms by (cases "c # cs" rule: parse_int.cases) auto

lemma digit_not_sign: "is_digit c \<Longrightarrow> c \<noteq> CHR ''-'' \<and> c \<noteq> CHR ''+'' \<and> c \<noteq> CHR ''_'' \<and> \<not> is_ws c"
  by (auto simp: is_digit_def is_ws_def Let_def)

lemma filter_digits: "list_all is_digit s \<Longrightarrow> filter (\<lambda>c. c \<noteq> CHR ''_'') s = s"
  using digit_not_sign by (auto simp: list_all_iff filter_id_conv)

lemma parse_unsigned_digits: "parse_unsigned (digits_of_nat n) = Some n"
proof -
  have d: "list_all is_digit (digits_of_nat n)" by (rule digits_of_nat_digits)
  then have "CHR ''_'' \<notin> set (digits_of_nat n)" using digit_not_sign by (auto simp: list_all_iff)
  then show ?thesis
    by (simp add: parse_unsigned_def split_char_free filter_digits[OF d] nat_of_digits_of_nat)
qed

lemma parse_show_int: "parse_int (show_int i) = Some i"
proof (cases "i < 0")
  case True
  then show ?thesis by (simp add: show_int_def parse_unsigned_digits)
next
  case False
  obtain c cs where c: "digits_of_nat (nat i) = c # cs" by (cases "digits_of_nat (nat i)") auto
  have "is_digit c" using digits_of_nat_digits[of "nat i"] c by simp
  then have "parse_int (c # cs) = map_option int (parse_unsigned (c # cs))"
    using parse_int_plain digit_not_sign by blast
  then show ?thesis using False c parse_unsigned_digits[of "nat i"] by (simp add: show_int_def)
qed

lemma show_int_no_ws: "list_all (\<lambda>c. \<not> is_ws c) (show_int i)"
proof -
  have "list_all (\<lambda>c. \<not> is_ws c) (digits_of_nat n)" for n
    using digits_of_nat_digits[of n] digit_not_sign by (auto simp: list_all_iff)
  moreover have "\<not> is_ws (CHR ''-'')" by (simp add: is_ws_def)
  ultimately show ?thesis by (simp add: show_int_def)
qed

lemma strip_show_int [simp]: "strip (show_int i) = show_int i"
  by (rule strip_no_ws[OF show_int_no_ws])


section \<open>Well-formed messages\<close>

definition plain :: "string \<Rightarrow> bool" where
  "plain s = (CR \<notin> set s \<and> LF \<notin> set s)"

definition token :: "string \<Rightarrow> bool" where
  "token s = (s \<noteq> [] \<and> list_all (\<lambda>c. \<not> is_ws c) s)"

definition header_ok :: "string \<times> string \<Rightarrow> bool" where
  "header_ok h = (case h of (k, v) \<Rightarrow> plain k \<and> plain v \<and> CHR '':'' \<notin> set k \<and> strip k = k \<and> strip v = v)"

definition headers_ok :: "headers \<Rightarrow> bool" where
  "headers_ok h = (dict_ok h \<and> list_all header_ok h \<and> list_all (\<lambda>(k, v). lower k \<noteq> ''content-length'') h)"

definition request_ok :: "string agtp_request \<Rightarrow> bool" where
  "request_ok r =
     (token (rq_method r) \<and> token (rq_path r) \<and> CHR ''?'' \<notin> set (rq_path r) \<and> CHR ''#'' \<notin> set (rq_path r) \<and>
      headers_ok (rq_headers r) \<and> dict_ok (rq_query r) \<and> [] \<notin> set (dict_keys (rq_query r)))"

definition response_ok :: "string agtp_response \<Rightarrow> bool" where
  "response_ok r =
     (plain (rs_status_text r) \<and> lstrip (rs_status_text r) = rs_status_text r \<and> headers_ok (rs_headers r))"

text \<open>The headers a reader of the message sees.\<close>
lemma framed_headers_eq:
  assumes "headers_ok h"
  shows "framed_headers h body =
     h @ (if body = [] then [] else [(''Content-Length'', show_int (int (length body)))])"
proof -
  have "lower ''Content-Length'' = ''content-length''" by code_simp
  then have n: "dict_get h ''Content-Length'' = None"
    using assms unfolding headers_ok_def list_all_iff map_of_eq_None_iff by force
  have "dict_set ''Content-Length'' v h = h @ [(''Content-Length'', v)]" for v
    using n by (induction h) (auto split: if_splits)
  then show ?thesis using n by (simp add: framed_headers_def set_default_def)
qed

lemma show_int_plain: "CR \<notin> set (show_int i)" "LF \<notin> set (show_int i)"
proof -
  have "is_ws CR" "is_ws LF" by (simp_all add: is_ws_def CR_def LF_def)
  then show "CR \<notin> set (show_int i)" "LF \<notin> set (show_int i)"
    using show_int_no_ws[of i] by (auto simp: list_all_iff)
qed

lemma framed_ok:
  assumes "headers_ok h"
  shows "dict_ok (framed_headers h body) \<and> list_all header_ok (framed_headers h body)"
proof -
  have l: "lower ''Content-Length'' = ''content-length''" by code_simp
  have n: "''Content-Length'' \<notin> set (dict_keys h)"
    using assms l unfolding headers_ok_def list_all_iff by force
  have "CHR '':'' \<notin> set ''Content-Length'' \<and> strip ''Content-Length'' = ''Content-Length''" by code_simp
  moreover have "plain ''Content-Length''" by (simp add: plain_def CR_def LF_def)
  moreover have "plain (show_int i)" for i by (simp add: plain_def show_int_plain)
  ultimately have "header_ok (''Content-Length'', show_int (int (length body)))"
    by (simp add: header_ok_def)
  then show ?thesis using assms n unfolding framed_headers_eq[OF assms] headers_ok_def by simp
qed

lemma read_framed_body:
  assumes "headers_ok h"
  shows "read_body (body @ rest) (framed_headers h body) = Inr (body, rest)"
proof -
  have l: "lower ''Content-Length'' = ''content-length''" by code_simp
  have n: "find (\<lambda>(k, v). lower k = ''content-length'') h = None"
    using assms by (auto simp: headers_ok_def list_all_iff find_None_iff)
  have e: "find P (a @ b) = (case find P a of None \<Rightarrow> find P b | Some x \<Rightarrow> Some x)" for P and a b :: headers
    by (induction a) auto
  have "show_int i \<noteq> []" for i by (simp add: show_int_def)
  then show ?thesis
    by (simp add: read_body_def find_header_def framed_headers_eq[OF assms] e n l parse_show_int)
qed

lemma parse_written_headers:
  "list_all header_ok h \<Longrightarrow> dict_ok h \<Longrightarrow> set (dict_keys h) \<inter> set (dict_keys acc) = {} \<Longrightarrow>
   parse_header_lines (map (\<lambda>(k, v). k @ '': '' @ v) h) acc = Inr (acc @ h)"
proof (induction h arbitrary: acc)
  case Nil
  then show ?case by simp
next
  case (Cons kv h)
  obtain k v where kv: "kv = (k, v)" by (cases kv)
  have ok: "CHR '':'' \<notin> set k" "strip k = k" "strip v = v" using Cons.prems kv by (auto simp: header_ok_def)
  have p: "partition_char (CHR '':'') (k @ '': '' @ v) = (k, True, CHR '' '' # v)"
    using partition_char_append[OF ok(1)] by simp
  have "k \<notin> set (dict_keys acc)" using Cons.prems kv by auto
  then have s: "dict_set k v acc = acc @ [(k, v)]" by (induction acc) auto
  have "set (dict_keys h) \<inter> set (dict_keys (acc @ [(k, v)])) = {}" using Cons.prems kv by auto
  from Cons.IH[OF _ _ this] Cons.prems kv
  have "parse_header_lines (map (\<lambda>(k, v). k @ '': '' @ v) h) (acc @ [(k, v)]) = Inr (acc @ kv # h)" by simp
  then show ?case using p ok s by (simp add: kv strip_space)
qed

definition header_line :: "string \<times> string \<Rightarrow> string" where
  "header_line h = (case h of (k, v) \<Rightarrow> k @ '': '' @ v)"

lemma write_head_lines:
  "write_head start h @ rest = crlf_lines (start # map header_line h) @ [CR, LF] @ rest"
proof -
  have e: "(\<lambda>(k, v). k @ '': '' @ v) = header_line" by (simp add: header_line_def fun_eq_iff)
  show ?thesis unfolding write_head_def e append_assoc by (rule join_crlf_rest) simp
qed

lemma header_line_ok:
  assumes "header_ok h"
  shows "plain (header_line h) \<and> \<not> list_all is_ws (header_line h)"
proof -
  obtain k v where h: "h = (k, v)" by (cases h)
  have "\<not> is_ws (CHR '':'')" by (simp add: is_ws_def)
  then show ?thesis using assms by (simp add: h header_ok_def header_line_def plain_def CR_def LF_def)
qed

lemma parse_crlf_headers:
  assumes "\<forall>l \<in> set (start # ls). plain l \<and> \<not> list_all is_ws l"
  shows "parse_headers (crlf_lines (start # ls)) = bind_res (parse_header_lines ls []) (\<lambda>h. Inr (start, h))"
proof -
  define all where "all = start # ls"
  have pl: "plain l" "\<not> list_all is_ws l" if "l \<in> set all" for l using assms that by (auto simp: all_def)
  have sp: "split_char LF (crlf_lines all) = map (\<lambda>l. l @ [CR]) all @ [[]]"
    by (rule split_crlf) (use pl in \<open>auto simp: plain_def\<close>)
  have keep: "strip (l @ [CR]) \<noteq> []" if "l \<in> set all" for l
    using pl(2)[OF that] by (simp add: strip_empty_iff)
  have "filter (\<lambda>l. strip l \<noteq> []) (map (\<lambda>l. l @ [CR]) all @ [[]]) = map (\<lambda>l. l @ [CR]) all"
    using keep by (simp add: filter_map o_def filter_id_conv strip_empty_iff)
  moreover have "map rstrip_cr (map (\<lambda>l. l @ [CR]) all) = all"
    unfolding map_map by (rule map_idI) (use pl(1) in \<open>simp add: plain_def rstrip_cr_line del: rstrip_cr.simps\<close>)
  ultimately have "map rstrip_cr (filter (\<lambda>l. strip l \<noteq> []) (split_char LF (crlf_lines all))) = all"
    unfolding sp by simp
  then show ?thesis unfolding parse_headers_def all_def by simp
qed

text \<open>What a written head reads as.\<close>
lemma read_written_head:
  assumes start: "plain start" "strip start \<noteq> []" and h: "list_all header_ok h" "dict_ok h"
  shows "bind_res (read_until_blank_line (write_head start h @ rest)) (\<lambda>(head, r).
      bind_res (parse_headers head) (\<lambda>(s, hs). f s hs r)) = f start h rest"
proof -
  have pl: "plain l \<and> \<not> list_all is_ws l" if "l \<in> set (start # map header_line h)" for l
    using that start h header_line_ok by (auto simp: strip_empty_iff list_all_iff)
  have "\<forall>l \<in> set (start # map header_line h). LF \<notin> set l \<and> l \<noteq> []"
  proof
    fix l assume "l \<in> set (start # map header_line h)"
    from pl[OF this] show "LF \<notin> set l \<and> l \<noteq> []" by (auto simp: plain_def)
  qed
  note rd = read_head_lines[OF this, of rest]
  have "parse_headers (crlf_lines (start # map header_line h)) = Inr (start, h)"
    using parse_crlf_headers[of start "map header_line h"] pl parse_written_headers[OF h, of "[]"]
    by (simp add: header_line_def[abs_def])
  then show ?thesis unfolding write_head_lines rd by simp
qed

section \<open>Tokens and queries\<close>

lemma split_ws_on_nonempty [simp]: "split_ws_on s \<noteq> []"
  by (cases s) (auto split: list.splits)

lemma split_ws_on_token: "list_all (\<lambda>c. \<not> is_ws c) w \<Longrightarrow> split_ws_on w = [w]"
  by (induction w) auto

lemma split_ws_on_append:
  "list_all (\<lambda>c. \<not> is_ws c) w \<Longrightarrow> split_ws_on (w @ CHR '' '' # rest) = w # split_ws_on rest"
  by (induction w) (auto simp: is_ws_def)

lemma split_ws_token: "token w \<Longrightarrow> split_ws w = [w]"
  by (simp add: split_ws_def token_def split_ws_on_token)

lemma split_ws_cons: "token w \<Longrightarrow> split_ws (w @ CHR '' '' # rest) = w # split_ws rest"
  by (simp add: split_ws_def token_def split_ws_on_append)

lemma version_token: "token AGTP_VERSION"
  unfolding token_def AGTP_VERSION_def by code_simp

lemma less_16: "n < (16 :: nat) \<Longrightarrow> n \<in> {0, 1, 2, 3, 4, 5, 6, 7, 8, 9, 10, 11, 12, 13, 14, 15}"
  by (simp, presburger)

lemma hex_digit_value: "n < 16 \<Longrightarrow> hex_of_char (hex_digit n) = Some n"
  by (drule less_16) (auto simp: hex_digit_def hex_of_char_def is_digit_def Let_def)

lemma hex_digit_unreserved: "n < 16 \<Longrightarrow> unreserved (hex_digit n)"
  by (drule less_16) (auto simp: hex_digit_def unreserved_def is_digit_def is_upper_def Let_def)

lemma unreserved_special: "unreserved c \<Longrightarrow> c \<noteq> CHR ''+'' \<and> c \<noteq> CHR ''%''"
  by (auto simp: unreserved_def is_digit_def is_upper_def is_lower_def Let_def)

lemma unquote_quote: "unquote_plus (quote s) = s"
proof (induction s)
  case Nil
  then show ?case by simp
next
  case (Cons c cs)
  have h: "(of_char c :: nat) div 16 < 16" "(of_char c :: nat) mod 16 < 16"
    by (simp_all add: nat_of_char_less_256 less_mult_imp_div_less)
  have "char_of (16 * (of_char c div 16) + of_char c mod 16 :: nat) = c"
    by (simp add: mult.commute[of 16])
  then show ?case using Cons h unreserved_special[of c] by (simp add: hex_digit_value)
qed

text \<open>The characters a quoted text is made of.\<close>
definition url_char :: "char \<Rightarrow> bool" where
  "url_char c = (unreserved c \<or> c = CHR ''%'')"

lemma quote_chars: "list_all url_char (quote s)"
proof (induction s)
  case (Cons c cs)
  have "(of_char c :: nat) div 16 < 16" "(of_char c :: nat) mod 16 < 16"
    by (simp_all add: nat_of_char_less_256 less_mult_imp_div_less)
  then show ?case using Cons by (simp add: url_char_def hex_digit_unreserved)
qed simp

lemma url_char_special:
  "url_char c \<Longrightarrow> \<not> is_ws c \<and> c \<noteq> CHR ''#'' \<and> c \<noteq> CHR ''&'' \<and> c \<noteq> CHR ''='' \<and> c \<noteq> CHR ''?''"
  by (auto simp: url_char_def unreserved_def is_digit_def is_upper_def is_lower_def is_ws_def Let_def)

lemma quote_empty [simp]: "quote s = [] \<longleftrightarrow> s = []"
  by (cases s) auto

definition query_pair :: "string \<times> string \<Rightarrow> string" where
  "query_pair p = (case p of (k, v) \<Rightarrow> quote k @ ''='' @ quote v)"

lemma query_pair_chars: "c \<in> set (query_pair p) \<Longrightarrow> url_char c \<or> c = CHR ''=''"
  using quote_chars by (auto simp: query_pair_def list_all_iff split: prod.splits)

lemma parse_query_written:
  "dict_ok q \<Longrightarrow> [] \<notin> set (dict_keys q) \<Longrightarrow> set (dict_keys q) \<inter> set (dict_keys acc) = {} \<Longrightarrow>
   parse_query_pairs (map query_pair q) acc = acc @ q"
proof (induction q arbitrary: acc)
  case Nil
  then show ?case by simp
next
  case (Cons kv q)
  obtain k v where kv: "kv = (k, v)" by (cases kv)
  have "CHR ''='' \<notin> set (quote k)" using quote_chars[of k] url_char_special by (auto simp: list_all_iff)
  then have p: "partition_char (CHR ''='') (query_pair kv) = (quote k, True, quote v)"
    unfolding kv query_pair_def using partition_char_append by simp
  have k: "k \<noteq> []" "k \<notin> set (dict_keys acc)" using Cons.prems kv by auto
  have s: "dict_set k v acc = acc @ [(k, v)]" using k(2) by (induction acc) auto
  have "set (dict_keys q) \<inter> set (dict_keys (acc @ [(k, v)])) = {}" using Cons.prems kv by auto
  from Cons.IH[OF _ _ this] Cons.prems kv
  have ih: "parse_query_pairs (map query_pair q) (acc @ [(k, v)]) = acc @ kv # q" by simp
  have "query_pair kv \<noteq> []" by (simp add: kv query_pair_def)
  then show ?case using p k s ih by (simp add: kv unquote_quote)
qed

lemma parse_query_string_written:
  assumes "dict_ok q" "[] \<notin> set (dict_keys q)" "q \<noteq> []"
  shows "parse_query_string (query_string q) = q"
proof -
  have e: "query_string q = join_with ''&'' (map query_pair q)"
    by (simp add: query_string_def query_pair_def[abs_def])
  have "\<forall>w \<in> set (map query_pair q). CHR ''&'' \<notin> set w"
    using query_pair_chars url_char_special by fastforce
  then have s: "split_char (CHR ''&'') (query_string q) = map query_pair q"
    unfolding e by (rule split_join_char[rotated]) (use assms in simp)
  have "query_string q \<noteq> []"
  proof
    assume "query_string q = []"
    then have "map query_pair q = [[]]" using s by simp
    then show False by (auto simp: query_pair_def split: prod.splits)
  qed
  then show ?thesis using parse_query_written[OF assms(1,2), of "[]"] s by (simp add: parse_query_string_def)
qed

lemma join_with_chars: "c \<in> set (join_with sep ws) \<Longrightarrow> c \<in> set sep \<or> (\<exists>w \<in> set ws. c \<in> set w)"
  by (induction sep ws rule: join_with.induct) auto

lemma query_string_chars: "c \<in> set (query_string q) \<Longrightarrow> \<not> is_ws c \<and> c \<noteq> CHR ''#'' \<and> c \<noteq> CHR ''?''"
proof -
  assume "c \<in> set (query_string q)"
  then have "c = CHR ''&'' \<or> (\<exists>w \<in> set (map query_pair q). c \<in> set w)"
    using join_with_chars[of c "''&''" "map query_pair q"]
    by (simp add: query_string_def query_pair_def[abs_def])
  then consider "c = CHR ''&''" | "url_char c" | "c = CHR ''=''" using query_pair_chars by fastforce
  then show ?thesis by cases (auto simp: is_ws_def dest: url_char_special)
qed


section \<open>Round trips\<close>

lemma token_plain: "list_all (\<lambda>c. \<not> is_ws c) s \<Longrightarrow> plain s"
proof -
  have "is_ws CR" "is_ws LF" by (simp_all add: is_ws_def CR_def LF_def)
  then show "list_all (\<lambda>c. \<not> is_ws c) s \<Longrightarrow> plain s" by (auto simp: plain_def list_all_iff)
qed

lemma plain_append [simp]: "plain (a @ b) \<longleftrightarrow> plain a \<and> plain b"
  by (auto simp: plain_def)

lemma plain_space [simp]: "plain (CHR '' '' # a) \<longleftrightarrow> plain a"
  by (simp add: plain_def CR_def LF_def)

lemma strip_version: "strip (AGTP_VERSION @ s) \<noteq> []"
proof -
  have "\<not> list_all is_ws AGTP_VERSION" unfolding AGTP_VERSION_def by code_simp
  then show ?thesis by (simp add: strip_empty_iff)
qed

lemma path_token_ok:
  assumes "request_ok r"
  shows "token (path_token r) \<and> CHR ''#'' \<notin> set (path_token r) \<and>
     split_path_token (path_token r) = (rq_path r, if rq_query r = [] then [] else query_string (rq_query r))"
proof -
  have p: "rq_path r \<noteq> []" "list_all (\<lambda>c. \<not> is_ws c) (rq_path r)" "CHR ''?'' \<notin> set (rq_path r)"
    "CHR ''#'' \<notin> set (rq_path r)" using assms by (simp_all add: request_ok_def token_def)
  show ?thesis
  proof (cases "rq_query r = []")
    case True
    then show ?thesis using p
      by (simp add: path_token_def Let_def token_def split_path_token_def partition_char_free)
  next
    case False
    have "list_all (\<lambda>c. \<not> is_ws c) (query_string (rq_query r))" "CHR ''#'' \<notin> set (query_string (rq_query r))"
      using query_string_chars by (auto simp: list_all_iff)
    moreover have "\<not> is_ws (CHR ''?'')" by (simp add: is_ws_def)
    ultimately show ?thesis using p False
      by (simp add: path_token_def Let_def token_def split_path_token_def partition_char_append)
  qed
qed

lemma start_tokens_written:
  assumes m: "token m" and t: "token t"
  shows "start_tokens (if t \<noteq> ''/'' then AGTP_VERSION @ '' '' @ m @ '' '' @ t else AGTP_VERSION @ '' '' @ m)
     = Inr (AGTP_VERSION, m, t)"
proof -
  have "split_ws (AGTP_VERSION @ CHR '' '' # m @ CHR '' '' # t) = [AGTP_VERSION, m, t]"
    by (simp only: split_ws_cons[OF version_token] split_ws_cons[OF m] split_ws_token[OF t])
  moreover have "split_ws (AGTP_VERSION @ CHR '' '' # m) = [AGTP_VERSION, m]"
    by (simp only: split_ws_cons[OF version_token] split_ws_token[OF m])
  ultimately show ?thesis by (simp add: start_tokens_def)
qed

text \<open>C18: a request survives the wire.  Reading what a well-formed request is written as
  gives the request back, with the Content-Length header that frames a non-empty body
  added, and leaves the stream at the first byte after it, so requests written one after
  the other on a connection are read one after the other.  Well-formed: the method and
  the path are single tokens, the path has no question mark or fragment, header names and
  values are trimmed single lines and do not set Content-Length, query keys are not empty
  and occur once; bodies, query keys and query values may hold any characters.\<close>
theorem request_roundtrip:
  assumes "request_ok r"
  shows "parse_request (serialize_request r @ rest) =
     Inr (r\<lparr>rq_headers := framed_headers (rq_headers r) (rq_body r)\<rparr>, rest)"
proof -
  define t where "t = path_token r"
  define start where "start = (if t \<noteq> ''/'' then AGTP_VERSION @ '' '' @ rq_method r @ '' '' @ t
      else AGTP_VERSION @ '' '' @ rq_method r)"
  define h where "h = framed_headers (rq_headers r) (rq_body r)"
  have hok: "headers_ok (rq_headers r)" and m: "token (rq_method r)"
    and q: "dict_ok (rq_query r)" "[] \<notin> set (dict_keys (rq_query r))"
    using assms by (simp_all add: request_ok_def)
  note t_ok = path_token_ok[OF assms, folded t_def]
  have pl: "plain start" "strip start \<noteq> []"
    using token_plain m t_ok version_token strip_version by (auto simp: start_def token_def)
  have fh: "list_all header_ok h" "dict_ok h" using framed_ok[OF hok] by (simp_all add: h_def)
  have st: "start_tokens start = Inr (AGTP_VERSION, rq_method r, t)"
    unfolding start_def by (rule start_tokens_written) (use m t_ok in simp_all)
  have qs: "parse_query_string (if rq_query r = [] then [] else query_string (rq_query r)) = rq_query r"
    by (cases "rq_query r = []") (simp add: parse_query_string_def, simp add: parse_query_string_written[OF q])
  have w: "serialize_request r @ rest = write_head start h @ (rq_body r @ rest)"
    by (simp add: serialize_request_def start_def t_def h_def Let_def)
  show ?thesis unfolding w parse_request_def read_written_head[OF pl fh] st
    using t_ok by (simp add: read_framed_body[OF hok, of "rq_body r", folded h_def] h_def[symmetric] qs)
qed

lemma request_roundtrip_witness:
  "map_sum id (\<lambda>(r, rest). (rq_query r, rq_body r, rest))
     (parse_request (serialize_request
        \<lparr>rq_method = ''QUERY'', rq_headers = [(''Agent-ID'', ''a'')], rq_body = ''{}'',
         rq_path = ''/x'', rq_query = [(''k'', ''a&b c'')]\<rparr> @ ''AGTP/1.0''))
   = Inr ([(''k'', ''a&b c'')], ''{}'', ''AGTP/1.0'')"
proof -
  define r where "r = \<lparr>rq_method = ''QUERY'', rq_headers = [(''Agent-ID'', ''a'')], rq_body = ''{}'',
         rq_path = ''/x'', rq_query = [(''k'', ''a&b c'')]\<rparr>"
  have "request_ok r"
    unfolding r_def request_ok_def token_def headers_ok_def header_ok_def plain_def CR_def LF_def by code_simp
  from request_roundtrip[OF this, of "''AGTP/1.0''"] show ?thesis unfolding r_def by simp
qed

lemma split_ws2_written:
  assumes v: "token v" and c: "token c" and t: "lstrip t = t"
  shows "split_ws2 (v @ '' '' @ c @ '' '' @ t) = v # c # (if t = [] then [] else [t])"
proof -
  have a: "lstrip (w @ s) = w @ s" if "token w" for w s
    using that by (cases w) (auto simp: lstrip_def token_def)
  have b: "takeWhile (\<lambda>c. \<not> is_ws c) (w @ CHR '' '' # s) = w" "dropWhile (\<lambda>c. \<not> is_ws c) (w @ CHR '' '' # s) = CHR '' '' # s"
    if "token w" for w s
    using that by (auto simp: token_def list_all_iff is_ws_def takeWhile_append dropWhile_append)
  show ?thesis using v c t
    by (auto simp: split_ws2_def Let_def a b lstrip_space token_def)
qed

lemma token_show_int: "token (show_int i)"
  using show_int_no_ws[of i] by (auto simp: token_def show_int_def)

text \<open>A response survives the wire.  A response whose status text is a single line
  without leading space and whose headers are well formed is read back as written, with
  the framing header added, and the rest of the stream is left untouched.\<close>
theorem response_roundtrip:
  assumes "response_ok r"
  shows "parse_response (serialize_response r @ rest) =
     Inr (r\<lparr>rs_headers := framed_headers (rs_headers r) (rs_body r)\<rparr>, rest)"
proof -
  define start where "start = AGTP_VERSION @ '' '' @ show_int (rs_status_code r) @ '' '' @ rs_status_text r"
  define h where "h = framed_headers (rs_headers r) (rs_body r)"
  have hok: "headers_ok (rs_headers r)" and t: "plain (rs_status_text r)" "lstrip (rs_status_text r) = rs_status_text r"
    using assms by (simp_all add: response_ok_def)
  have pl: "plain start" "strip start \<noteq> []"
    using token_plain t version_token strip_version token_show_int by (auto simp: start_def token_def)
  have fh: "list_all header_ok h" "dict_ok h" using framed_ok[OF hok] by (simp_all add: h_def)
  have w: "serialize_response r @ rest = write_head start h @ (rs_body r @ rest)"
    by (simp add: serialize_response_def start_def h_def)
  show ?thesis unfolding w parse_response_def read_written_head[OF pl fh]
    unfolding start_def split_ws2_written[OF version_token token_show_int t(2)]
    by (simp add: read_framed_body[OF hok, of "rs_body r", folded h_def] h_def[symmetric] parse_show_int)
qed

lemma response_roundtrip_witness:
  "map_sum id (\<lambda>(r, rest). (rs_status_code r, rs_status_text r, rs_body r, rest))
     (parse_response (serialize_response
        \<lparr>rs_status_code = 404, rs_status_text = ''Not Found'', rs_headers = [], rs_body = ''{}''\<rparr> @ ''rest''))
   = Inr (404, ''Not Found'', ''{}'', ''rest'')"
proof -
  define r where "r = \<lparr>rs_status_code = 404, rs_status_text = ''Not Found'', rs_headers = [] :: headers, rs_body = ''{}''\<rparr>"
  have "response_ok r"
    unfolding r_def response_ok_def headers_ok_def header_ok_def plain_def CR_def LF_def by code_simp
  from response_roundtrip[OF this, of "''rest''"] show ?thesis unfolding r_def by simp
qed

end
