(* ===== verification/Status.thy ===== *)
theory Status
  imports Wire
begin

text \<open>
  core/status.py: the refusals and negotiation outcomes of the server as responses,
  with their status codes and closed vocabularies; and the messages the server's
  theories share.  Message bodies are what their bytes decode to: nothing, a JSON
  value, or bytes that are not JSON.  The Content-Length header is left to the
  encoding of the body.  Python's repr of a value is the argument repr.
\<close>

section \<open>Messages\<close>

datatype payload = NoBytes | JsonBytes json | RawBytes string

text \<open>A client certificate the handshake verified, with the AGTP extensions of its
  X.509 form (server/mtls.py, server/agent_cert_ext.py).\<close>
record cert_extensions =
  ce_subject_agent_id :: "string option"
  ce_principal_id :: "string option"
  ce_authority_scopes :: "string list option"
  ce_governance_zone :: "string option"
  ce_trust_tier :: "int option"
  ce_archetype :: "string option"
  ce_activation_certificate_id :: "string option"

record verified_cert =
  vc_agent_id :: string
  vc_fingerprint :: string
  vc_extensions :: "cert_extensions option"

text \<open>The attributes the server hangs on messages: the verified client certificate,
  the verb before alias resolution, the principal a token names, and the extras of the
  attribution record.\<close>
record request = "payload agtp_request" +
  rq_verified_cert :: "verified_cert option"
  rq_aliased_from :: "string option"
  rq_acting_principal :: "string option"

record response = "payload agtp_response" +
  rs_attribution_extra :: "jobj option"

definition obj_update :: "jobj \<Rightarrow> jobj \<Rightarrow> jobj" where
  "obj_update d e = fold (\<lambda>(k, v). dict_set k v) e d"

definition some_entry :: "string \<Rightarrow> ('a \<Rightarrow> json) \<Rightarrow> 'a option \<Rightarrow> jobj" where
  "some_entry k f v = (case v of None \<Rightarrow> [] | Some x \<Rightarrow> [(k, f x)])"

definition strs :: "string list \<Rightarrow> json" where
  "strs ss = JArr (map JStr ss)"

section \<open>Codes and vocabularies\<close>

type_synonym status = "int \<times> string"

definition NEGOTIATION_IN_PROGRESS :: status where "NEGOTIATION_IN_PROGRESS = (261, ''Negotiation In Progress'')"
definition AUTHORIZATION_REQUIRED :: status where "AUTHORIZATION_REQUIRED = (262, ''Authorization Required'')"
definition PROPOSAL_APPROVED :: status where "PROPOSAL_APPROVED = (263, ''Proposal Approved'')"
definition PROPOSAL_REJECTED :: status where "PROPOSAL_REJECTED = (463, ''Proposal Rejected'')"
definition SCOPE_VIOLATION :: status where "SCOPE_VIOLATION = (455, ''Scope Violation'')"
definition BUDGET_EXCEEDED :: status where "BUDGET_EXCEEDED = (456, ''Budget Exceeded'')"
definition ZONE_VIOLATION :: status where "ZONE_VIOLATION = (457, ''Zone Violation'')"
definition COUNTERPARTY_UNVERIFIED :: status where "COUNTERPARTY_UNVERIFIED = (458, ''Counterparty Unverified'')"
definition METHOD_GRAMMAR_VIOLATION :: status where "METHOD_GRAMMAR_VIOLATION = (459, ''Method Violation'')"
definition ENDPOINT_GRAMMAR_VIOLATION :: status where "ENDPOINT_GRAMMAR_VIOLATION = (460, ''Endpoint Violation'')"
definition DELEGATION_FAILURE :: status where "DELEGATION_FAILURE = (550, ''Delegation Failure'')"
definition AUTHORITY_CHAIN_BROKEN :: status where "AUTHORITY_CHAIN_BROKEN = (551, ''Authority Chain Broken'')"
definition RCNS_CONTRACT_AVAILABLE :: status where "RCNS_CONTRACT_AVAILABLE = (461, ''RCNS Contract Available'')"
definition RCNS_NO_CONTRACT :: status where "RCNS_NO_CONTRACT = (464, ''RCNS No Contract'')"
definition BAD_REQUEST :: status where "BAD_REQUEST = (400, ''Bad Request'')"
definition FORBIDDEN :: status where "FORBIDDEN = (403, ''Forbidden'')"
definition NOT_FOUND :: status where "NOT_FOUND = (404, ''Not Found'')"
definition METHOD_NOT_ALLOWED :: status where "METHOD_NOT_ALLOWED = (405, ''Method Not Allowed'')"
definition GONE :: status where "GONE = (410, ''Gone'')"
definition UNPROCESSABLE :: status where "UNPROCESSABLE = (422, ''Unprocessable'')"
definition UNAVAILABLE :: status where "UNAVAILABLE = (503, ''Unavailable'')"

definition ALL_PROPOSAL_REJECT_REASONS :: "string list" where
  "ALL_PROPOSAL_REJECT_REASONS = [''out-of-scope'', ''policy-refused'', ''composition-impossible'', ''ambiguous'']"

definition ALL_BAD_REQUEST_ISSUES :: "string list" where
  "ALL_BAD_REQUEST_ISSUES =
     [''invalid-json'', ''missing-required-field'', ''malformed-semantic-block'', ''malformed-schema'']"

definition ALL_RCNS_REFUSAL_REASONS :: "string list" where
  "ALL_RCNS_REFUSAL_REASONS =
     [''rcns-disabled'', ''trust-tier-insufficient'', ''composition-impossible'', ''synthesis-error'',
      ''contract-not-yours'', ''contract-revoked'', ''identity-unverified'']"

definition ALL_AUTH_TYPES :: "string list" where
  "ALL_AUTH_TYPES =
     [''scope-required'', ''wildcards-required'', ''credentials-missing'', ''anonymous-discovery-disabled'']"

section \<open>Building blocks\<close>

definition build :: "status \<Rightarrow> jobj \<Rightarrow> response" where
  "build st body =
     \<lparr>rs_status_code = fst st, rs_status_text = snd st,
      rs_headers = [(''Content-Type'', ''application/json'')], rs_body = JsonBytes (JObj body),
      rs_attribution_extra = None\<rparr>"

text \<open>A body with only an error object.\<close>
definition build_error :: "status \<Rightarrow> jobj \<Rightarrow> response" where
  "build_error st e = build st [(''error'', JObj e)]"

text \<open>Optional details: added when given and not empty.\<close>
definition details_entry :: "jobj option \<Rightarrow> jobj" where
  "details_entry d = (case d of Some (x # xs) \<Rightarrow> [(''details'', JObj (x # xs))] | _ \<Rightarrow> [])"

definition or_text :: "string option \<Rightarrow> string \<Rightarrow> string" where
  "or_text v dflt = (case v of None \<Rightarrow> dflt | Some s \<Rightarrow> s)"

text \<open>The or operator on an optional text: an empty one counts as absent.\<close>
definition text_or_else :: "string option \<Rightarrow> string \<Rightarrow> string" where
  "text_or_else v dflt = (case v of None \<Rightarrow> dflt | Some s \<Rightarrow> if s = [] then dflt else s)"

definition if_text :: "string option \<Rightarrow> (string \<Rightarrow> string) \<Rightarrow> string" where
  "if_text v f = (case v of None \<Rightarrow> [] | Some s \<Rightarrow> if s = [] then [] else f s)"

text \<open>An entry for a given, non-empty text.\<close>
definition text_entry :: "string \<Rightarrow> string option \<Rightarrow> jobj" where
  "text_entry k v = (case v of None \<Rightarrow> [] | Some s \<Rightarrow> if s = [] then [] else [(k, JStr s)])"

section \<open>Authority: 403 and 262\<close>

definition method_not_permitted_for_agent :: "string \<Rightarrow> string \<Rightarrow> string option \<Rightarrow> response" where
  "method_not_permitted_for_agent m aid expl = build_error FORBIDDEN
     [(''code'', JStr ''method-not-permitted-for-agent''), (''method'', JStr m), (''agent_id'', JStr aid),
      (''explanation'', JStr (or_text expl (''This agent'' @ [CHR 0x27] @ ''s permissions do not include '' @ m @
         ''. The principal has not authorized this method.'')))]"

definition authorization_required :: "string \<Rightarrow> string \<Rightarrow> jobj option \<Rightarrow> py_error + response" where
  "authorization_required type expl details =
     (if type \<notin> set ALL_AUTH_TYPES then Inl ValueError
      else Inr (build_error AUTHORIZATION_REQUIRED
        ([(''code'', JStr ''authorization-required''), (''type'', JStr type), (''explanation'', JStr expl)] @
         details_entry details)))"

definition insufficient_scope :: "string \<Rightarrow> string \<Rightarrow> string list \<Rightarrow> string option \<Rightarrow> py_error + response" where
  "insufficient_scope m p missing expl = authorization_required ''scope-required''
     (or_text expl (m @ '' '' @ p @ '' requires scope(s) the agent has not declared: '' @ join_with '', '' missing))
     (Some [(''method'', JStr m), (''path'', JStr p), (''missing_scopes'', strs (sort missing))])"

definition wildcards_refused :: "string \<Rightarrow> string option \<Rightarrow> py_error + response" where
  "wildcards_refused aid expl = authorization_required ''wildcards-required''
     (or_text expl ''Server policies.wildcards_accepted is false; agent declares wildcards: true.'')
     (Some [(''agent_id'', JStr aid)])"

definition credentials_missing :: "string \<Rightarrow> jobj option \<Rightarrow> py_error + response" where
  "credentials_missing expl details = authorization_required ''credentials-missing'' expl details"

definition anonymous_discovery_disabled :: "string option \<Rightarrow> py_error + response" where
  "anonymous_discovery_disabled expl = authorization_required ''anonymous-discovery-disabled''
     (or_text expl ''Server policies.anonymous_discovery is false; manifest fetch requires credentials.'') None"

section \<open>Negotiation: 263, 463, 261, 400, 461, 464, 422\<close>

definition proposal_approved :: "string \<Rightarrow> jobj option \<Rightarrow> bool \<Rightarrow> string option \<Rightarrow> string option \<Rightarrow> jobj \<Rightarrow> response" where
  "proposal_approved sid endpoint persistent expires_at granted extra = build PROPOSAL_APPROVED
     (obj_update
       ([(''synthesis_id'', JStr sid)] @ some_entry ''endpoint'' JObj endpoint @
        [(''persistent'', JBool persistent)] @ some_entry ''expires_at'' JStr expires_at @
        some_entry ''granted_duration'' JStr granted) extra)"

definition proposal_rejected :: "string \<Rightarrow> string \<Rightarrow> jobj option \<Rightarrow> jobj \<Rightarrow> py_error + response" where
  "proposal_rejected reason expl counter extra =
     (if reason \<notin> set ALL_PROPOSAL_REJECT_REASONS then Inl ValueError
      else Inr (build_error PROPOSAL_REJECTED (obj_update
        ([(''code'', JStr ''proposal-rejected''), (''reason'', JStr reason), (''explanation'', JStr expl)] @
         some_entry ''counter_proposal'' JObj counter) extra)))"

definition negotiation_in_progress :: "string \<Rightarrow> string \<Rightarrow> string option \<Rightarrow> string option \<Rightarrow> string option \<Rightarrow> response" where
  "negotiation_in_progress pid path expl started duration = build NEGOTIATION_IN_PROGRESS
     ([(''proposal_id'', JStr pid), (''polling_path'', JStr path),
       (''explanation'', JStr (or_text expl
          (''proposal '' @ pid @ '' is under evaluation; poll QUERY '' @ path @ '' for status.'')))] @
      some_entry ''evaluation_started_at'' JStr started @ some_entry ''max_evaluation_duration'' JStr duration)"

definition bad_request_for_propose :: "string \<Rightarrow> string \<Rightarrow> jobj option \<Rightarrow> py_error + response" where
  "bad_request_for_propose issue expl details =
     (if issue \<notin> set ALL_BAD_REQUEST_ISSUES then Inl ValueError
      else Inr (build_error BAD_REQUEST
        ([(''code'', JStr ''bad-request''), (''issue'', JStr issue), (''explanation'', JStr expl)] @
         details_entry details)))"

definition rcns_contract_available :: "jobj \<Rightarrow> string \<Rightarrow> string option \<Rightarrow> jobj \<Rightarrow> response" where
  "rcns_contract_available contract sid expires_at extra = build RCNS_CONTRACT_AVAILABLE
     (obj_update
       ([(''contract'', JObj contract), (''proposed_synthesis_id'', JStr sid)] @
        some_entry ''expires_at'' JStr expires_at) extra)"

definition rcns_no_contract :: "string \<Rightarrow> string \<Rightarrow> string option \<Rightarrow> string option \<Rightarrow> jobj option \<Rightarrow> py_error + response" where
  "rcns_no_contract reason expl m p details =
     (if reason \<notin> set ALL_RCNS_REFUSAL_REASONS then Inl ValueError
      else Inr (build_error RCNS_NO_CONTRACT
        ([(''code'', JStr ''rcns-no-contract''), (''reason'', JStr reason), (''explanation'', JStr expl)] @
         some_entry ''method'' (\<lambda>s. JStr (upper s)) m @ some_entry ''path'' JStr p @ details_entry details)))"

definition negotiation_refused :: "string \<Rightarrow> string \<Rightarrow> jobj \<Rightarrow> response" where
  "negotiation_refused reason expl extra = build_error UNPROCESSABLE
     (obj_update [(''code'', JStr ''negotiation-refused''), (''reason'', JStr reason), (''explanation'', JStr expl)] extra)"

definition counter_proposal :: "jobj \<Rightarrow> response" where
  "counter_proposal spec = build UNPROCESSABLE [(''counter_proposal'', JObj spec)]"

section \<open>Limits and parties: 455 to 458\<close>

definition scope_violation :: "string \<Rightarrow> string list \<Rightarrow> string option \<Rightarrow> response" where
  "scope_violation m missing expl = build_error SCOPE_VIOLATION
     [(''code'', JStr ''scope-violation''), (''method'', JStr m), (''missing_scopes'', strs missing),
      (''explanation'', JStr (or_text expl
         (m @ '' requires scope(s) the caller has not presented: '' @ join_with '', '' missing)))]"

definition budget_exceeded :: "(json \<Rightarrow> string) \<Rightarrow> string \<Rightarrow> json \<Rightarrow> string option \<Rightarrow> response" where
  "budget_exceeded repr m limit expl = build_error BUDGET_EXCEEDED
     ([(''code'', JStr ''budget-exceeded''), (''method'', JStr m),
       (''explanation'', JStr (or_text expl (m @ '' would exceed the declared Budget-Limit'' @
          (if limit = JNull then [] else '' ('' @ py_str repr limit @ '')''))))] @
      (if limit = JNull then [] else [(''declared_limit'', limit)]))"

definition zone_violation :: "(json \<Rightarrow> string) \<Rightarrow> string \<Rightarrow> string option \<Rightarrow> string option \<Rightarrow> response" where
  "zone_violation repr target zone expl = build_error ZONE_VIOLATION
     ([(''code'', JStr ''zone-violation''), (''target_zone'', JStr target),
       (''explanation'', JStr (or_text expl (''request would route outside zone '' @ repr (JStr target) @
          if_text zone (\<lambda>z. '' (request zone '' @ repr (JStr z) @ '')''))))] @
      some_entry ''request_zone'' JStr zone)"

definition counterparty_unverified :: "string option \<Rightarrow> string option \<Rightarrow> string option \<Rightarrow> response" where
  "counterparty_unverified merchant reason expl = build_error COUNTERPARTY_UNVERIFIED
     ([(''code'', JStr ''counterparty-unverified''),
       (''explanation'', JStr (or_text expl (''merchant identity could not be verified'' @
          if_text reason (\<lambda>r. '' ('' @ r @ '')''))))] @
      some_entry ''merchant_id'' JStr merchant @ some_entry ''reason'' JStr reason)"

section \<open>Grammar, routing and lifecycle: 459, 460, 404, 405, 410, 503\<close>

definition method_grammar_violation :: "(json \<Rightarrow> string) \<Rightarrow> string \<Rightarrow> string list \<Rightarrow> string option \<Rightarrow> response" where
  "method_grammar_violation repr m suggestions msg = build_error METHOD_GRAMMAR_VIOLATION
     ([(''code'', JStr ''method-violation''),
       (''message'', JStr (text_or_else msg (repr (JStr (upper m)) @ '' is not a recognized AGTP verb.''))),
       (''method'', JStr (upper m))] @
      (if suggestions = [] then [] else [(''suggestions'', strs suggestions)]))"

definition endpoint_grammar_violation :: "string \<Rightarrow> string \<Rightarrow> string option \<Rightarrow> string \<Rightarrow> response" where
  "endpoint_grammar_violation p reason segment code = build_error ENDPOINT_GRAMMAR_VIOLATION
     ([(''code'', JStr code), (''message'', JStr reason), (''path'', JStr p)] @ some_entry ''segment'' JStr segment)"

definition not_found :: "(json \<Rightarrow> string) \<Rightarrow> string \<Rightarrow> string \<Rightarrow> string option \<Rightarrow> response" where
  "not_found repr m p expl = build_error NOT_FOUND
     [(''code'', JStr ''endpoint-not-found''), (''method'', JStr m), (''path'', JStr p),
      (''message'', JStr (or_text expl (''no endpoint registered at path '' @ repr (JStr p) @ '' on this server'')))]"

definition gone :: "string \<Rightarrow> string \<Rightarrow> string option \<Rightarrow> string option \<Rightarrow> response" where
  "gone aid st changed expl = build_error GONE
     ([(''code'', JStr ''agent-revoked''), (''agent_id'', JStr aid), (''status'', JStr st),
       (''explanation'', JStr (or_text expl (''Agent-ID '' @ aid @ '' is '' @ st @ '' and permanently retired ''
          @ ''per AGTP-LOG '' @ [CHR 0xA7] @ ''2. The identifier will not be reused.'')))] @
      text_entry ''status_changed_at'' changed)"

definition unavailable :: "string \<Rightarrow> string \<Rightarrow> string option \<Rightarrow> string option \<Rightarrow> response" where
  "unavailable aid st changed expl = build_error UNAVAILABLE
     ([(''code'', JStr ''agent-suspended''), (''agent_id'', JStr aid), (''status'', JStr st),
       (''explanation'', JStr (or_text expl (''Agent-ID '' @ aid @ '' is currently '' @ st
          @ ''. Retry after the operator or the agent itself calls ACTIVATE.'')))] @
      text_entry ''status_changed_at'' changed)"

definition method_not_allowed :: "string \<Rightarrow> string \<Rightarrow> string list \<Rightarrow> string option \<Rightarrow> response" where
  "method_not_allowed m p allowed expl = build_error METHOD_NOT_ALLOWED
     [(''code'', JStr ''method-not-allowed''), (''method'', JStr m), (''path'', JStr p),
      (''message'', JStr (or_text expl (m @ '' is not registered for '' @ p @
         (if allowed = [] then [] else ''; allowed: '' @ join_with '', '' (sort allowed))))),
      (''allowed_methods_for_path'', strs (sort allowed))]"

definition method_not_implemented :: "string \<Rightarrow> string list option \<Rightarrow> response" where
  "method_not_implemented m known = build_error METHOD_NOT_ALLOWED
     ([(''code'', JStr ''method-not-implemented''), (''method'', JStr m),
       (''explanation'', JStr (m @ '' is in the AGTP catalog but no handler is registered on this server''))] @
      some_entry ''known_methods'' (strs \<circ> sort) known)"

section \<open>Delegation: 550 and 551\<close>

definition delegation_failure :: "string \<Rightarrow> string option \<Rightarrow> string option \<Rightarrow> response" where
  "delegation_failure sub underlying expl = build_error DELEGATION_FAILURE
     ([(''code'', JStr ''delegation-failure''), (''sub_agent_id'', JStr sub),
       (''explanation'', JStr (or_text expl (''sub-agent '' @ sub @ '' did not complete the delegated action'' @
          if_text underlying (\<lambda>u. '': '' @ u))))] @
      some_entry ''underlying'' JStr underlying)"

definition authority_chain_broken :: "(json \<Rightarrow> string) \<Rightarrow> string \<Rightarrow> string option \<Rightarrow> response" where
  "authority_chain_broken repr link expl = build_error AUTHORITY_CHAIN_BROKEN
     [(''code'', JStr ''authority-chain-broken''), (''broken_link'', JStr link),
      (''explanation'', JStr (or_text expl (''the delegation chain has a broken link at '' @ repr (JStr link))))]"

lemma build_status [simp]: "rs_status_code (build st body) = fst st" "rs_status_text (build st body) = snd st"
  by (simp_all add: build_def)

lemma build_error_status [simp]: "rs_status_code (build_error st e) = fst st" "rs_status_text (build_error st e) = snd st"
  by (simp_all add: build_error_def)

end
