(* ===== verification/Synthesis_Runtime.thy ===== *)
theory Synthesis_Runtime
  imports Synthesis_Plan Status
begin

text \<open>
  server/synthesis/runtime.py: the table of active syntheses with its side
  tables, expiry and the sweeps, and the execution of a plan through the
  dispatcher, which is an argument.
\<close>

section \<open>Responses\<close>

definition json_response :: "int \<Rightarrow> string \<Rightarrow> jobj \<Rightarrow> response" where
  "json_response code txt body =
     \<lparr>rs_status_code = code, rs_status_text = txt,
      rs_headers = [(''Content-Type'', ''application/json'')], rs_body = JsonBytes (JObj body),
      rs_attribution_extra = None\<rparr>"

definition error_response :: "int \<Rightarrow> string \<Rightarrow> string \<Rightarrow> string \<Rightarrow> jobj \<Rightarrow> response" where
  "error_response code txt tag explanation extra =
     json_response code txt
       [(''error'', JObj (obj_update [(''code'', JStr tag), (''explanation'', JStr explanation)] extra))]"

section \<open>The tables\<close>

record synthesis =
  sy_synthesis_id :: string
  sy_target_method :: string
  sy_parameter_mapping :: "(string, string) dict"
  sy_description :: string
  sy_proposal_name :: "string option"
  sy_plan :: "synthesis_plan option"

definition synthesis_to_dict :: "synthesis \<Rightarrow> jobj" where
  "synthesis_to_dict s =
     [(''synthesis_id'', JStr (sy_synthesis_id s)), (''target_method'', JStr (sy_target_method s)),
      (''parameter_mapping'', JObj (map (\<lambda>(k, v). (k, JStr v)) (sy_parameter_mapping s))),
      (''description'', JStr (sy_description s)),
      (''proposal_name'', case sy_proposal_name s of None \<Rightarrow> JNull | Some n \<Rightarrow> JStr n)] @
     (case sy_plan s of None \<Rightarrow> [] | Some p \<Rightarrow> [(''plan'', JObj (plan_to_dict p))])"

record synthesis_runtime =
  sr_policies :: "policy list"
  sr_max_depth :: int
  sr_active :: "(string, synthesis_plan) dict"
  sr_expires_at :: "(string, rat) dict"
  sr_persistent :: "string list"
  sr_originating :: "(string, string) dict"
  sr_contract_hashes :: "(string, string) dict"
  sr_origin :: "(string, string) dict"
  sr_legacy :: "(string, synthesis) dict"

definition new_runtime :: "policy list \<Rightarrow> int \<Rightarrow> synthesis_runtime" where
  "new_runtime policies depth =
     \<lparr>sr_policies = with_passthrough policies, sr_max_depth = depth, sr_active = [], sr_expires_at = [],
      sr_persistent = [], sr_originating = [], sr_contract_hashes = [], sr_origin = [], sr_legacy = []\<rparr>"

definition set_if :: "'v option \<Rightarrow> string \<Rightarrow> (string, 'v) dict \<Rightarrow> (string, 'v) dict" where
  "set_if v k d = (case v of None \<Rightarrow> d | Some x \<Rightarrow> dict_set k x d)"

definition non_empty :: "string option \<Rightarrow> string option" where
  "non_empty v = (case v of None \<Rightarrow> None | Some s \<Rightarrow> if s = [] then None else Some s)"

definition legacy_mapping :: "composition_step \<Rightarrow> (string, string) dict" where
  "legacy_mapping s =
     fold (\<lambda>(target, src) d. case src_value src of
             JStr v \<Rightarrow> if src_kind src = ''proposal'' then dict_set v target d else d
           | _ \<Rightarrow> d) (st_parameter_source s) []"

text \<open>The fields of an instantiation besides the plan.\<close>
record contract_terms =
  ct_expires_at :: "rat option"
  ct_persistent :: bool
  ct_originating :: "string option"
  ct_contract_hash :: "string option"
  ct_origin :: string

definition instantiate :: "string \<Rightarrow> synthesis_plan \<Rightarrow> contract_terms \<Rightarrow> synthesis_runtime
    \<Rightarrow> synthesis_runtime \<times> (py_error + string)" where
  "instantiate sid plan ct rt =
     (let rt1 = rt\<lparr>sr_active := dict_set sid plan (sr_active rt),
                   sr_expires_at := set_if (ct_expires_at ct) sid (sr_expires_at rt),
                   sr_persistent := (if ct_persistent ct then List.insert sid (sr_persistent rt) else sr_persistent rt),
                   sr_originating := set_if (non_empty (ct_originating ct)) sid (sr_originating rt),
                   sr_contract_hashes := set_if (non_empty (ct_contract_hash ct)) sid (sr_contract_hashes rt),
                   sr_origin := dict_set sid (ct_origin ct) (sr_origin rt)\<rparr>
      in case pl_steps plan of
           [] \<Rightarrow> (rt1, Inl IndexError)
         | s # _ \<Rightarrow>
             (rt1\<lparr>sr_legacy := dict_set sid
                \<lparr>sy_synthesis_id = sid, sy_target_method = st_method_name s,
                 sy_parameter_mapping = legacy_mapping s,
                 sy_description = (case pl_description plan of None \<Rightarrow> [] | Some d \<Rightarrow> d),
                 sy_proposal_name = Some (ep_name (pl_proposed_method plan)), sy_plan = Some plan\<rparr>
                (sr_legacy rt1)\<rparr>, Inr sid))"

definition expire :: "string \<Rightarrow> synthesis_runtime \<Rightarrow> synthesis_runtime \<times> bool" where
  "expire sid rt =
     (rt\<lparr>sr_active := dict_del sid (sr_active rt), sr_originating := dict_del sid (sr_originating rt),
         sr_contract_hashes := dict_del sid (sr_contract_hashes rt), sr_origin := dict_del sid (sr_origin rt),
         sr_expires_at := dict_del sid (sr_expires_at rt), sr_persistent := removeAll sid (sr_persistent rt),
         sr_legacy := dict_del sid (sr_legacy rt)\<rparr>,
      dict_get (sr_active rt) sid \<noteq> None \<or> dict_get (sr_legacy rt) sid \<noteq> None)"

text \<open>The lookup evicts a synthesis past its deadline.\<close>
definition get_plan :: "rat \<Rightarrow> string \<Rightarrow> synthesis_runtime \<Rightarrow> synthesis_runtime \<times> synthesis_plan option" where
  "get_plan now sid rt =
     (case dict_get (sr_active rt) sid of
        None \<Rightarrow> (rt, None)
      | Some p \<Rightarrow>
          (case dict_get (sr_expires_at rt) sid of
             None \<Rightarrow> (rt, Some p)
           | Some t \<Rightarrow> if t \<le> now then (fst (expire sid rt), None) else (rt, Some p)))"

record contract_record =
  cn_synthesis_id :: string
  cn_method :: string
  cn_path :: string
  cn_recipe_name :: "string option"
  cn_recipe_version :: "string option"
  cn_policy_name :: "string option"
  cn_originating :: "string option"
  cn_contract_hash :: "string option"
  cn_origin :: string

definition resolve_contract :: "string \<Rightarrow> string \<Rightarrow> synthesis_runtime \<Rightarrow> contract_record option" where
  "resolve_contract m path rt =
     map_option (\<lambda>(sid, p).
        \<lparr>cn_synthesis_id = sid, cn_method = upper m, cn_path = path_or_root (pl_proposed_method p),
         cn_recipe_name = pl_recipe_name p, cn_recipe_version = pl_recipe_version p,
         cn_policy_name = pl_policy_name p, cn_originating = dict_get (sr_originating rt) sid,
         cn_contract_hash = dict_get (sr_contract_hashes rt) sid,
         cn_origin = get_or ''propose-explicit'' (sr_origin rt) sid\<rparr>)
       (find (\<lambda>(sid, p). upper (ep_name (pl_proposed_method p)) = upper m \<and>
                         path_or_root (pl_proposed_method p) = path) (sr_active rt))"

definition is_gone :: "string \<Rightarrow> synthesis_runtime \<Rightarrow> bool" where
  "is_gone sid rt = (dict_get (sr_active rt) sid = None)"

definition is_persistent :: "string \<Rightarrow> synthesis_runtime \<Rightarrow> bool" where
  "is_persistent sid rt = (sid \<in> set (sr_persistent rt))"

definition expires_at_of :: "string \<Rightarrow> synthesis_runtime \<Rightarrow> rat option" where
  "expires_at_of sid rt = dict_get (sr_expires_at rt) sid"

definition originating_agent_id :: "string \<Rightarrow> synthesis_runtime \<Rightarrow> string option" where
  "originating_agent_id sid rt = dict_get (sr_originating rt) sid"

definition contract_hash_of :: "string \<Rightarrow> synthesis_runtime \<Rightarrow> string option" where
  "contract_hash_of sid rt = dict_get (sr_contract_hashes rt) sid"

definition negotiation_origin :: "string \<Rightarrow> synthesis_runtime \<Rightarrow> string" where
  "negotiation_origin sid rt = get_or ''propose-explicit'' (sr_origin rt) sid"

section \<open>Sweeps\<close>

fun expire_all :: "string list \<Rightarrow> synthesis_runtime \<Rightarrow> synthesis_runtime" where
  "expire_all [] rt = rt" |
  "expire_all (sid # sids) rt = expire_all sids (fst (expire sid rt))"

definition sweep_expired :: "rat \<Rightarrow> synthesis_runtime \<Rightarrow> synthesis_runtime \<times> string list" where
  "sweep_expired now rt =
     (let ids = map fst (filter (\<lambda>(sid, t). t \<le> now) (sr_expires_at rt)) in (expire_all ids rt, ids))"

definition current_versions :: "policy list \<Rightarrow> (string, string) dict" where
  "current_versions pos =
     fold (\<lambda>r d. dict_set (rc_name r) (rc_version r) d)
       (concat (map (\<lambda>po. case po_recipes po of None \<Rightarrow> [] | Some rs \<Rightarrow> rs) pos)) []"

definition stale_version :: "(string, string) dict \<Rightarrow> synthesis_plan \<Rightarrow> bool" where
  "stale_version vs p =
     (case pl_recipe_name p of None \<Rightarrow> False | Some n \<Rightarrow> dict_get vs n \<noteq> pl_recipe_version p)"

record stale_record =
  sl_synthesis_id :: string
  sl_originating :: "string option"
  sl_contract_hash :: "string option"
  sl_origin :: string
  sl_method :: string
  sl_path :: string
  sl_recipe_name :: "string option"
  sl_captured_version :: "string option"
  sl_current_version :: "string option"
  sl_action :: string

definition stale_entry :: "string \<Rightarrow> (string, string) dict \<Rightarrow> string \<Rightarrow> synthesis_plan \<Rightarrow> synthesis_runtime
    \<Rightarrow> stale_record" where
  "stale_entry mode vs sid p rt =
     \<lparr>sl_synthesis_id = sid, sl_originating = non_empty (dict_get (sr_originating rt) sid),
      sl_contract_hash = non_empty (dict_get (sr_contract_hashes rt) sid),
      sl_origin = get_or ''propose-explicit'' (sr_origin rt) sid,
      sl_method = ep_name (pl_proposed_method p), sl_path = path_or_root (pl_proposed_method p),
      sl_recipe_name = pl_recipe_name p, sl_captured_version = pl_recipe_version p,
      sl_current_version = (case pl_recipe_name p of None \<Rightarrow> None | Some n \<Rightarrow> dict_get vs n),
      sl_action = (if mode = ''invalidate'' then ''evicted'' else ''grandfathered'')\<rparr>"

fun sweep_stale :: "string \<Rightarrow> (string, string) dict \<Rightarrow> string list \<Rightarrow> synthesis_runtime
    \<Rightarrow> synthesis_runtime \<times> stale_record list" where
  "sweep_stale mode vs [] rt = (rt, [])" |
  "sweep_stale mode vs (sid # sids) rt =
     (case dict_get (sr_active rt) sid of
        None \<Rightarrow> sweep_stale mode vs sids rt
      | Some p \<Rightarrow>
          if \<not> stale_version vs p then sweep_stale mode vs sids rt
          else (let rt1 = (if mode = ''invalidate'' then fst (expire sid rt) else rt);
                    (rt2, rest) = sweep_stale mode vs sids rt1
                in (rt2, stale_entry mode vs sid p rt # rest)))"

definition sweep_for_policy_change :: "string \<Rightarrow> synthesis_runtime
    \<Rightarrow> synthesis_runtime \<times> (py_error + stale_record list)" where
  "sweep_for_policy_change mode rt =
     (if mode \<noteq> ''grandfather'' \<and> mode \<noteq> ''invalidate'' then (rt, Inl ValueError)
      else (let (rt', out) = sweep_stale mode (current_versions (sr_policies rt)) (dict_keys (sr_active rt)) rt
            in (rt', Inr out)))"

text \<open>The verb catalog is an argument.\<close>
fun invalidate_ids :: "(string \<Rightarrow> bool) \<Rightarrow> rat \<Rightarrow> string list \<Rightarrow> synthesis_runtime
    \<Rightarrow> synthesis_runtime \<times> string list" where
  "invalidate_ids approved now [] rt = (rt, [])" |
  "invalidate_ids approved now (sid # sids) rt =
     (case get_plan now sid rt of
        (rt1, None) \<Rightarrow> invalidate_ids approved now sids rt1
      | (rt1, Some p) \<Rightarrow>
          if list_all (\<lambda>s. approved (st_method_name s)) (pl_steps p) then invalidate_ids approved now sids rt1
          else (let (rt2, out) = invalidate_ids approved now sids (fst (expire sid rt1)) in (rt2, sid # out)))"

definition invalidate_against_catalog :: "(string \<Rightarrow> bool) \<Rightarrow> rat \<Rightarrow> synthesis_runtime
    \<Rightarrow> synthesis_runtime \<times> string list" where
  "invalidate_against_catalog approved now rt = invalidate_ids approved now (dict_keys (sr_active rt)) rt"

definition clear_runtime :: "synthesis_runtime \<Rightarrow> synthesis_runtime" where
  "clear_runtime rt = rt\<lparr>sr_active := [], sr_legacy := []\<rparr>"

definition all_recipes :: "synthesis_runtime \<Rightarrow> recipe list" where
  "all_recipes rt = concat (map (\<lambda>po. case po_recipes po of None \<Rightarrow> [] | Some rs \<Rightarrow> rs) (sr_policies rt))"

definition list_recipes :: "synthesis_runtime \<Rightarrow> string list" where
  "list_recipes rt =
     fold (\<lambda>r names. if rc_name r \<in> set names then names else names @ [rc_name r]) (all_recipes rt) []"

definition get_recipe :: "string \<Rightarrow> synthesis_runtime \<Rightarrow> recipe option" where
  "get_recipe name rt = find (\<lambda>r. rc_name r = name) (all_recipes rt)"

definition has_recipe :: "string \<Rightarrow> synthesis_runtime \<Rightarrow> bool" where
  "has_recipe name rt = (get_recipe name rt \<noteq> None)"


section \<open>Execution\<close>

definition parse_request_params :: "request \<Rightarrow> jobj" where
  "parse_request_params rq = (case rq_body rq of JsonBytes (JObj d) \<Rightarrow> d | _ \<Rightarrow> [])"

definition parse_response_body :: "response \<Rightarrow> json" where
  "parse_response_body rs = (case rs_body rs of NoBytes \<Rightarrow> JNull | JsonBytes v \<Rightarrow> v | RawBytes s \<Rightarrow> JStr s)"

text \<open>The captured outputs: under the canonical key, the name as first written
  and the latest value.\<close>
type_synonym outputs = "(json, json \<times> json) dict"

definition capture :: "json \<Rightarrow> json \<Rightarrow> outputs \<Rightarrow> outputs" where
  "capture name v ctx =
     dict_set (hkey name) (case dict_get ctx (hkey name) of None \<Rightarrow> (name, v) | Some (n, _) \<Rightarrow> (n, v)) ctx"

datatype resolve_error = UndefinedOutput json | UnhashableName

fun resolve_parameters :: "(string, parameter_source) dict \<Rightarrow> jobj \<Rightarrow> outputs \<Rightarrow> jobj
    \<Rightarrow> resolve_error + jobj" where
  "resolve_parameters [] params ctx out = Inr out" |
  "resolve_parameters ((target, src) # rest) params ctx out =
     (if src_kind src = ''constant'' then resolve_parameters rest params ctx (dict_set target (src_value src) out)
      else if src_kind src = ''proposal'' then
        (if \<not> hashable (src_value src) then Inl UnhashableName
         else (case src_value src of
                 JStr k \<Rightarrow>
                   (case dict_get params k of
                      None \<Rightarrow> resolve_parameters rest params ctx out
                    | Some v \<Rightarrow> resolve_parameters rest params ctx (dict_set target v out))
               | _ \<Rightarrow> resolve_parameters rest params ctx out))
      else if src_kind src = ''previous_step'' then
        (if \<not> hashable (src_value src) then Inl UnhashableName
         else (case dict_get ctx (hkey (src_value src)) of
                 None \<Rightarrow> Inl (UndefinedOutput (src_value src))
               | Some (n, v) \<Rightarrow> resolve_parameters rest params ctx (dict_set target v out)))
      else resolve_parameters rest params ctx out)"

definition build_step_request :: "request \<Rightarrow> string \<Rightarrow> jobj \<Rightarrow> request" where
  "build_step_request orig m params =
     (let h = filter (\<lambda>(k, v). lower k \<noteq> ''synthesis-id'') (rq_headers orig)
      in \<lparr>rq_method = m,
          rq_headers = (if params \<noteq> [] then dict_set ''Content-Type'' ''application/json'' h else h),
          rq_body = (if params \<noteq> [] then JsonBytes (JObj params) else NoBytes),
          rq_path = ''/'', rq_query = [], rq_verified_cert = None, rq_aliased_from = None, rq_acting_principal = None\<rparr>)"

record step_outcome =
  so_method :: string
  so_status :: int
  so_output :: "json option"

definition outcome_steps :: "step_outcome list \<Rightarrow> json" where
  "outcome_steps out =
     JArr (map (\<lambda>e. JObj [(''method'', JStr (so_method e)), (''status_code'', JInt (so_status e))]) out)"

definition output_json :: "step_outcome \<Rightarrow> json" where
  "output_json e = (case so_output e of None \<Rightarrow> JNull | Some v \<Rightarrow> v)"

definition aggregate :: "synthesis_plan \<Rightarrow> string \<Rightarrow> step_outcome list \<Rightarrow> response" where
  "aggregate p sid captured =
     json_response 200 ''OK''
       [(''method'', JStr (ep_name (pl_proposed_method p))), (''synthesis_id'', JStr sid),
        (''outcome'', JStr ''ok''),
        (''output'',
          if pl_output_aggregation p = ''last'' then (if captured = [] then JNull else output_json (last captured))
          else if pl_output_aggregation p = ''merge'' then
            JObj (fold (\<lambda>e d. case output_json e of JObj new \<Rightarrow> obj_update d new | _ \<Rightarrow> d) captured [])
          else JArr (map output_json captured)),
        (''steps'', outcome_steps captured)]"

text \<open>The captured outputs as an object: JSON turns the names into strings.\<close>
definition outputs_json :: "(json \<Rightarrow> string) \<Rightarrow> outputs \<Rightarrow> json" where
  "outputs_json key ctx = JObj (map (\<lambda>(_, n, v). (case n of JStr s \<Rightarrow> s | _ \<Rightarrow> key n, v)) ctx)"

definition failure_response :: "(json \<Rightarrow> string) \<Rightarrow> synthesis_plan \<Rightarrow> string \<Rightarrow> nat \<Rightarrow> string \<Rightarrow> response
    \<Rightarrow> outputs \<Rightarrow> step_outcome list \<Rightarrow> response" where
  "failure_response key p sid i m underlying ctx captured =
     json_response (rs_status_code underlying)
       (if rs_status_text underlying = [] then ''Error'' else rs_status_text underlying)
       [(''method'', JStr (ep_name (pl_proposed_method p))), (''synthesis_id'', JStr sid),
        (''outcome'', JStr ''error''),
        (''error'', JObj
          [(''code'', JStr ''synthesis-step-failed''), (''failed_step'', JInt (int i)), (''method'', JStr m),
           (''underlying_status'', JInt (rs_status_code underlying)),
           (''underlying'', case rs_body underlying of NoBytes \<Rightarrow> JStr [] | JsonBytes v \<Rightarrow> v | RawBytes s \<Rightarrow> JStr s),
           (''captured_outputs'', outputs_json key ctx)]),
        (''steps'', outcome_steps captured)]"

definition bad_reference_response :: "(json \<Rightarrow> string) \<Rightarrow> string \<Rightarrow> nat \<Rightarrow> string \<Rightarrow> json \<Rightarrow> response" where
  "bad_reference_response key sid i m name =
     error_response 500 ''Internal Server Error'' ''synthesis-bad-reference''
       (''step '' @ show_int (int i + 1) @ '' ('' @ m @ '') references undefined output '' @ key name)
       ([(''failed_step'', JInt (int i)), (''method'', JStr m)] @
        (if sid = [] then [] else [(''synthesis_id'', JStr sid)]))"

type_synonym 'w dispatcher = "request \<Rightarrow> 'w \<Rightarrow> 'w \<times> (py_error + response)"

fun run_steps :: "(json \<Rightarrow> string) \<Rightarrow> 'w dispatcher \<Rightarrow> synthesis_plan \<Rightarrow> string \<Rightarrow> request \<Rightarrow> nat
    \<Rightarrow> composition_step list \<Rightarrow> outputs \<Rightarrow> step_outcome list \<Rightarrow> 'w \<Rightarrow> 'w \<times> (py_error + response)" where
  "run_steps key disp p sid rq i [] ctx captured w = (w, Inr (aggregate p sid captured))" |
  "run_steps key disp p sid rq i (s # ss) ctx captured w =
     (case resolve_parameters (st_parameter_source s) (parse_request_params rq) ctx [] of
        Inl (UndefinedOutput n) \<Rightarrow> (w, Inr (bad_reference_response key sid i (st_method_name s) n))
      | Inl UnhashableName \<Rightarrow> (w, Inl TypeError)
      | Inr params \<Rightarrow>
          (case disp (build_step_request rq (st_method_name s) params) w of
             (w1, Inl e) \<Rightarrow> (w1, Inl e)
           | (w1, Inr rs) \<Rightarrow>
               if rs_status_code rs \<noteq> 200 then
                 (w1, Inr (failure_response key p sid i (st_method_name s) rs ctx
                    (captured @ [\<lparr>so_method = st_method_name s, so_status = rs_status_code rs, so_output = None\<rparr>])))
               else
                 (let v = parse_response_body rs;
                      captured' = captured @ [\<lparr>so_method = st_method_name s, so_status = 200, so_output = Some v\<rparr>]
                  in if \<not> truthy (st_capture_output_as s) then
                       run_steps key disp p sid rq (Suc i) ss ctx captured' w1
                     else if \<not> hashable (st_capture_output_as s) then (w1, Inl TypeError)
                     else run_steps key disp p sid rq (Suc i) ss (capture (st_capture_output_as s) v ctx) captured' w1)))"

definition execute_plan :: "(json \<Rightarrow> string) \<Rightarrow> 'w dispatcher option \<Rightarrow> synthesis_plan \<Rightarrow> string \<Rightarrow> request
    \<Rightarrow> 'w \<Rightarrow> 'w \<times> (py_error + response)" where
  "execute_plan key disp p sid rq w =
     (case disp of
        None \<Rightarrow> (w, Inr (error_response 500 ''Internal Server Error'' ''synthesis-runtime-misconfigured''
                   ''synthesis runtime has no step dispatcher configured''
                   (if sid = [] then [] else [(''synthesis_id'', JStr sid)])))
      | Some d \<Rightarrow> run_steps key d p sid rq 0 (pl_steps p) [] [] w)"

text \<open>The execution of an active synthesis, in a world that holds the runtime.\<close>
definition execute :: "('w \<Rightarrow> synthesis_runtime) \<Rightarrow> (synthesis_runtime \<Rightarrow> 'w \<Rightarrow> 'w) \<Rightarrow> (json \<Rightarrow> string) \<Rightarrow> rat
    \<Rightarrow> 'w dispatcher option \<Rightarrow> string \<Rightarrow> request \<Rightarrow> 'w \<Rightarrow> 'w \<times> (py_error + response)" where
  "execute rt_of set_rt key now disp sid rq w =
     (case get_plan now sid (rt_of w) of
        (rt, None) \<Rightarrow> (set_rt rt w, Inr (error_response 404 ''Not Found'' ''synthesis-not-found''
            (''synthesis '' @ key (JStr sid) @ '' is not active on this server'')
            [(''synthesis_id'', JStr sid)]))
      | (rt, Some p) \<Rightarrow> execute_plan key disp p sid rq (set_rt rt w))"

section \<open>The tables stay consistent\<close>

datatype runtime_event =
    Instantiate string synthesis_plan contract_terms
  | Lookup rat string
  | Expire string
  | SweepExpired rat
  | SweepPolicy string
  | SweepCatalog "string \<Rightarrow> bool" rat

fun runtime_step :: "runtime_event \<Rightarrow> synthesis_runtime \<Rightarrow> synthesis_runtime" where
  "runtime_step (Instantiate sid p ct) rt = fst (instantiate sid p ct rt)" |
  "runtime_step (Lookup now sid) rt = fst (get_plan now sid rt)" |
  "runtime_step (Expire sid) rt = fst (expire sid rt)" |
  "runtime_step (SweepExpired now) rt = fst (sweep_expired now rt)" |
  "runtime_step (SweepPolicy mode) rt = fst (sweep_for_policy_change mode rt)" |
  "runtime_step (SweepCatalog approved now) rt = fst (invalidate_against_catalog approved now rt)"

definition known :: "string \<Rightarrow> synthesis_runtime \<Rightarrow> bool" where
  "known sid rt = (dict_get (sr_active rt) sid \<noteq> None)"

text \<open>No side table speaks of a synthesis that is not active, every active one
  has an origin, and the legacy registry holds the same plans.\<close>
definition tables_ok :: "synthesis_runtime \<Rightarrow> bool" where
  "tables_ok rt =
     (dict_ok (sr_active rt) \<and> dict_ok (sr_expires_at rt) \<and>
      (\<forall>sid. known sid rt = (dict_get (sr_origin rt) sid \<noteq> None)) \<and>
      (\<forall>sid. map_option sy_plan (dict_get (sr_legacy rt) sid) = map_option Some (dict_get (sr_active rt) sid)) \<and>
      (\<forall>sid. \<not> known sid rt \<longrightarrow> dict_get (sr_expires_at rt) sid = None \<and> dict_get (sr_originating rt) sid = None \<and>
             dict_get (sr_contract_hashes rt) sid = None \<and> sid \<notin> set (sr_persistent rt)))"

definition fits_runtime :: "runtime_event \<Rightarrow> bool" where
  "fits_runtime e = (case e of Instantiate sid p ct \<Rightarrow> pl_steps p \<noteq> [] | _ \<Rightarrow> True)"

lemma tables_ok_new: "tables_ok (new_runtime pos depth)"
  by (simp add: tables_ok_def new_runtime_def known_def)

lemma set_if_get: "dict_get (set_if v k d) k' = (if k' = k \<and> v \<noteq> None then v else dict_get d k')"
  by (simp add: set_if_def split: option.split)

lemma set_if_ok: "dict_ok d \<Longrightarrow> dict_ok (set_if v k d)"
  by (simp add: set_if_def split: option.split)

lemma tables_ok_instantiate:
  assumes "tables_ok rt" "pl_steps p \<noteq> []"
  shows "tables_ok (fst (instantiate sid p ct rt))"
  using assms
  by (cases "pl_steps p")
     (auto simp: tables_ok_def instantiate_def known_def Let_def set_if_get set_if_ok)

lemma tables_ok_expire: "tables_ok rt \<Longrightarrow> tables_ok (fst (expire sid rt))"
  by (simp add: tables_ok_def expire_def known_def del: map_of_eq_Some_iff)

lemma tables_ok_get: "tables_ok rt \<Longrightarrow> tables_ok (fst (get_plan now sid rt))"
  by (simp add: get_plan_def tables_ok_expire split: option.split)

lemma tables_ok_expire_all: "tables_ok rt \<Longrightarrow> tables_ok (expire_all sids rt)"
  by (induction sids arbitrary: rt) (simp_all add: tables_ok_expire)

lemma tables_ok_stale: "tables_ok rt \<Longrightarrow> tables_ok (fst (sweep_stale mode vs sids rt))"
proof (induction sids arbitrary: rt)
  case (Cons sid sids)
  define rt1 where "rt1 = (if mode = ''invalidate'' then fst (expire sid rt) else rt)"
  have "tables_ok rt1" using Cons.prems by (simp add: tables_ok_expire rt1_def)
  from Cons.IH[OF this] Cons.IH[OF Cons.prems] show ?case
    by (cases "mode = ''invalidate''") (simp_all add: Let_def case_prod_unfold rt1_def split: option.split)
qed simp

lemma tables_ok_catalog: "tables_ok rt \<Longrightarrow> tables_ok (fst (invalidate_ids approved now sids rt))"
proof (induction sids arbitrary: rt)
  case (Cons sid sids)
  obtain rt1 out where g: "get_plan now sid rt = (rt1, out)" by (cases "get_plan now sid rt")
  have "tables_ok rt1" using tables_ok_get[OF Cons.prems, of now sid] g by simp
  then show ?case using Cons.IH g
    by (simp add: tables_ok_expire Let_def case_prod_unfold split: option.split)
qed simp

lemma runtime_step_ok: "tables_ok rt \<Longrightarrow> fits_runtime e \<Longrightarrow> tables_ok (runtime_step e rt)"
  by (cases e) (simp_all add: fits_runtime_def tables_ok_instantiate tables_ok_get tables_ok_expire sweep_expired_def
     Let_def tables_ok_expire_all sweep_for_policy_change_def case_prod_unfold tables_ok_stale
     invalidate_against_catalog_def tables_ok_catalog)


section \<open>The life of a contract\<close>

type_synonym contract = "synthesis_plan \<times> rat option \<times> string option \<times> string option"

definition contract_of :: "string \<Rightarrow> synthesis_runtime \<Rightarrow> contract option" where
  "contract_of sid rt =
     map_option (\<lambda>p. (p, dict_get (sr_expires_at rt) sid, dict_get (sr_originating rt) sid,
                      dict_get (sr_contract_hashes rt) sid)) (dict_get (sr_active rt) sid)"

lemma known_contract: "known sid rt \<longleftrightarrow> contract_of sid rt \<noteq> None"
  by (simp add: known_def contract_of_def)

text \<open>An operation leaves a contract as it is or drops it.\<close>
definition keeps_or_drops :: "string \<Rightarrow> synthesis_runtime \<Rightarrow> synthesis_runtime \<Rightarrow> bool" where
  "keeps_or_drops sid rt rt' = (contract_of sid rt' = contract_of sid rt \<or> contract_of sid rt' = None)"

lemma keeps_refl [simp]: "keeps_or_drops sid rt rt"
  by (simp add: keeps_or_drops_def)

lemma keeps_trans: "keeps_or_drops sid rt rt1 \<Longrightarrow> keeps_or_drops sid rt1 rt2 \<Longrightarrow> keeps_or_drops sid rt rt2"
  by (auto simp: keeps_or_drops_def)

lemma contract_expire: "contract_of sid (fst (expire s rt)) = (if s = sid then None else contract_of sid rt)"
  by (simp add: contract_of_def expire_def)

lemma keeps_expire [simp]: "keeps_or_drops sid rt (fst (expire s rt))"
  by (simp add: keeps_or_drops_def contract_expire)

lemma keeps_get [simp]: "keeps_or_drops sid rt (fst (get_plan now s rt))"
  by (simp add: get_plan_def split: option.split)

lemma keeps_expire_all: "keeps_or_drops sid rt (expire_all sids rt)"
proof (induction sids arbitrary: rt)
  case (Cons s sids)
  show ?case using keeps_trans[OF keeps_expire Cons.IH] by simp
qed simp

lemma keeps_stale: "keeps_or_drops sid rt (fst (sweep_stale mode vs sids rt))"
proof (induction sids arbitrary: rt)
  case (Cons s sids)
  have "keeps_or_drops sid rt (fst (sweep_stale mode vs sids (fst (expire s rt))))"
    by (rule keeps_trans[OF keeps_expire Cons.IH])
  then show ?case using Cons.IH
    by (cases "mode = ''invalidate''") (simp_all add: Let_def case_prod_unfold split: option.split)
qed simp

lemma keeps_catalog: "keeps_or_drops sid rt (fst (invalidate_ids approved now sids rt))"
proof (induction sids arbitrary: rt)
  case (Cons s sids)
  obtain rt1 out where g: "get_plan now s rt = (rt1, out)" by (cases "get_plan now s rt")
  have k: "keeps_or_drops sid rt rt1" using keeps_get[of sid rt now s] g by simp
  have "keeps_or_drops sid rt (fst (invalidate_ids approved now sids rt1))"
    "keeps_or_drops sid rt (fst (invalidate_ids approved now sids (fst (expire s rt1))))"
    using keeps_trans[OF k Cons.IH] keeps_trans[OF k keeps_trans[OF keeps_expire Cons.IH]] .
  then show ?case using g by (simp add: Let_def case_prod_unfold split: option.split)
qed simp

lemma contract_instantiate_other:
  "s \<noteq> sid \<Longrightarrow> contract_of sid (fst (instantiate s p ct rt)) = contract_of sid rt"
  by (simp add: contract_of_def instantiate_def Let_def set_if_get split: list.split)

definition other_than :: "string \<Rightarrow> runtime_event \<Rightarrow> synthesis_runtime \<Rightarrow> bool" where
  "other_than sid e rt =
     (fits_runtime e \<and> (case e of Instantiate s p ct \<Rightarrow> s \<noteq> sid | _ \<Rightarrow> True))"

lemma keeps_step: "other_than sid e rt \<Longrightarrow> keeps_or_drops sid rt (runtime_step e rt)"
  by (cases e)
     (simp_all add: other_than_def sweep_expired_def Let_def keeps_expire_all sweep_for_policy_change_def
        case_prod_unfold keeps_stale invalidate_against_catalog_def keeps_catalog,
      simp add: keeps_or_drops_def contract_instantiate_other)

interpretation contract: absorbing_machine runtime_step "other_than sid" tables_ok
  "\<lambda>rt. if known sid rt then None else Some ()" for sid
proof
  fix rt e assume ok: "tables_ok rt" and f: "other_than sid e rt"
  show "tables_ok (runtime_step e rt)"
    by (rule runtime_step_ok[OF ok]) (use f in \<open>simp add: other_than_def\<close>)
  fix h assume "(if known sid rt then None else Some ()) = Some h"
  then have "\<not> known sid rt" by (simp split: if_splits)
  then have "\<not> known sid (runtime_step e rt)"
    using keeps_step[OF f] by (auto simp: keeps_or_drops_def known_contract)
  then show "(if known sid (runtime_step e rt) then None else Some ()) = Some h" by simp
qed

lemma run_keeps: "all_fit runtime_step (other_than sid) es rt \<Longrightarrow> keeps_or_drops sid rt (run_events runtime_step es rt)"
proof (induction es arbitrary: rt)
  case (Cons e es)
  then show ?case using keeps_trans[OF keeps_step, of sid e rt] by simp
qed simp

lemma run_stays_gone:
  assumes "tables_ok rt" "all_fit runtime_step (other_than sid) es rt" "\<not> known sid rt"
  shows "\<not> known sid (run_events runtime_step es rt)"
  using contract.run_held[OF assms(1,2), of "()"] assms(3) by (simp split: if_splits)

lemma get_plan_result:
  assumes "snd (get_plan now sid rt) = Some q"
  shows "fst (get_plan now sid rt) = rt \<and> dict_get (sr_active rt) sid = Some q \<and>
     (\<forall>t. dict_get (sr_expires_at rt) sid = Some t \<longrightarrow> now < t)"
  using assms by (auto simp: get_plan_def split: option.splits if_splits)

lemma get_plan_evicts:
  assumes "dict_get (sr_expires_at rt) sid = Some t" "t \<le> now"
  shows "\<not> known sid (fst (get_plan now sid rt))"
  using assms by (simp add: get_plan_def known_contract contract_expire split: option.split)
     (simp add: contract_of_def)

lemma runtime_run_ok:
  assumes "all_fit runtime_step (\<lambda>e rt. fits_runtime e) es (new_runtime pos depth)"
  shows "tables_ok (run_events runtime_step es (new_runtime pos depth))"
proof -
  have "tables_ok rt \<Longrightarrow> all_fit runtime_step (\<lambda>e rt. fits_runtime e) es rt \<Longrightarrow> tables_ok (run_events runtime_step es rt)" for rt
    by (induction es arbitrary: rt) (simp_all add: runtime_step_ok)
  then show ?thesis using assms tables_ok_new by blast
qed



definition example_plan :: synthesis_plan where
  "example_plan = passthrough_plan (example_method ''QUERY'') (example_method ''QUERY'')"

definition example_terms :: contract_terms where
  "example_terms = \<lparr>ct_expires_at = Some 10, ct_persistent = False, ct_originating = Some ''a'',
     ct_contract_hash = None, ct_origin = ''propose-explicit''\<rparr>"


section \<open>Policy changes\<close>

lemma sweep_grandfather: "mode \<noteq> ''invalidate'' \<Longrightarrow> fst (sweep_stale mode vs sids rt) = rt"
  by (induction sids) (simp_all add: Let_def case_prod_unfold split: option.split)

lemma active_expire: "sr_active (fst (expire sid rt)) = filter (\<lambda>(s, p). s \<noteq> sid) (sr_active rt)"
  by (simp add: expire_def AList.delete_eq case_prod_unfold eq_commute)

definition stale_in :: "(string, string) dict \<Rightarrow> string list \<Rightarrow> synthesis_runtime \<Rightarrow> string list" where
  "stale_in vs sids rt =
     filter (\<lambda>sid. case dict_get (sr_active rt) sid of None \<Rightarrow> False | Some p \<Rightarrow> stale_version vs p) sids"

lemma stale_in_expire: "sid \<notin> set sids \<Longrightarrow> stale_in vs sids (fst (expire sid rt)) = stale_in vs sids rt"
proof -
  assume a: "sid \<notin> set sids"
  have "dict_get (sr_active (fst (expire sid rt))) s = dict_get (sr_active rt) s" if "s \<in> set sids" for s
    using that a by (auto simp: expire_def)
  then show ?thesis unfolding stale_in_def by (intro filter_cong) simp_all
qed

lemma sweep_stale_ids:
  "distinct sids \<Longrightarrow> map sl_synthesis_id (snd (sweep_stale mode vs sids rt)) = stale_in vs sids rt"
proof (induction sids arbitrary: rt)
  case Nil
  then show ?case by (simp add: stale_in_def)
next
  case (Cons sid sids)
  define rt1 where "rt1 = (if mode = ''invalidate'' then fst (expire sid rt) else rt)"
  have d: "distinct sids" "sid \<notin> set sids" using Cons.prems by simp_all
  have "stale_in vs sids rt1 = stale_in vs sids rt" using stale_in_expire[OF d(2)] by (simp add: rt1_def)
  then have ih: "map sl_synthesis_id (snd (sweep_stale mode vs sids rt1)) = stale_in vs sids rt"
    using Cons.IH[OF d(1), of rt1] by simp
  have step: "stale_in vs (sid # sids) rt =
      (if sid \<in> set (stale_in vs [sid] rt) then sid # stale_in vs sids rt else stale_in vs sids rt)"
    by (simp add: stale_in_def)
  show ?case
  proof (cases "\<exists>p. dict_get (sr_active rt) sid = Some p \<and> stale_version vs p")
    case True
    then obtain p where p: "dict_get (sr_active rt) sid = Some p" "stale_version vs p" by blast
    have "snd (sweep_stale mode vs (sid # sids) rt) =
        stale_entry mode vs sid p rt # snd (sweep_stale mode vs sids rt1)"
      unfolding sweep_stale.simps p option.case rt1_def[symmetric] using p by (simp add: Let_def case_prod_unfold)
    then show ?thesis using ih p unfolding step by (simp add: stale_entry_def stale_in_def)
  next
    case False
    then have "sweep_stale mode vs (sid # sids) rt = sweep_stale mode vs sids rt"
      by (simp split: option.split)
    then show ?thesis using Cons.IH[OF d(1)] False unfolding step
      by (simp add: stale_in_def split: option.split)
  qed
qed

lemma sweep_stale_active:
  "snd (sweep_stale ''invalidate'' vs sids rt) = out \<Longrightarrow> distinct sids \<Longrightarrow>
   sr_active (fst (sweep_stale ''invalidate'' vs sids rt)) =
     filter (\<lambda>(s, p). s \<notin> set (stale_in vs sids rt)) (sr_active rt)"
proof (induction sids arbitrary: rt out)
  case Nil
  then show ?case by (simp add: stale_in_def)
next
  case (Cons sid sids)
  have d: "distinct sids" "sid \<notin> set sids" using Cons.prems by simp_all
  show ?case
  proof (cases "\<exists>p. dict_get (sr_active rt) sid = Some p \<and> stale_version vs p")
    case True
    then obtain p where p: "dict_get (sr_active rt) sid = Some p" "stale_version vs p" by blast
    define rt1 where "rt1 = fst (expire sid rt)"
    have "fst (sweep_stale ''invalidate'' vs (sid # sids) rt) = fst (sweep_stale ''invalidate'' vs sids rt1)"
      using p by (simp add: Let_def case_prod_unfold rt1_def)
    moreover have "stale_in vs (sid # sids) rt = sid # stale_in vs sids rt" using p by (simp add: stale_in_def)
    moreover have "stale_in vs sids rt1 = stale_in vs sids rt" unfolding rt1_def by (rule stale_in_expire[OF d(2)])
    moreover have "sr_active rt1 = filter (\<lambda>(s, p). s \<noteq> sid) (sr_active rt)"
      unfolding rt1_def by (rule active_expire)
    ultimately show ?thesis using Cons.IH[OF refl d(1), of rt1]
      by (simp add: case_prod_unfold conj_commute)
  next
    case False
    then have "sweep_stale ''invalidate'' vs (sid # sids) rt = sweep_stale ''invalidate'' vs sids rt"
      by (simp split: option.split)
    moreover have "stale_in vs (sid # sids) rt = stale_in vs sids rt"
      using False by (simp add: stale_in_def split: option.split)
    ultimately show ?thesis using Cons.IH[OF refl d(1), of rt] by simp
  qed
qed

text \<open>A policy change sweep finds exactly the stale contracts.  After any history, in
  both modes the sweep reports, in order of instantiation, exactly the active contracts
  that come from a recipe whose current version differs from the captured one or which is
  no longer loaded; the grandfather mode changes nothing; the invalidate mode removes the
  reported contracts and no other, so that no stale contract is left.\<close>
theorem policy_sweep_exact:
  assumes "all_fit runtime_step (\<lambda>e rt. fits_runtime e) es (new_runtime pos depth)"
    and "rt = run_events runtime_step es (new_runtime pos depth)"
  shows "let stale = stale_in (current_versions (sr_policies rt)) (dict_keys (sr_active rt)) rt in
     (case sweep_for_policy_change ''grandfather'' rt of
        (rt', Inr out) \<Rightarrow> rt' = rt \<and> map sl_synthesis_id out = stale
      | (rt', Inl e) \<Rightarrow> False) \<and>
     (case sweep_for_policy_change ''invalidate'' rt of
        (rt', Inr out) \<Rightarrow> map sl_synthesis_id out = stale \<and>
          sr_active rt' = filter (\<lambda>(s, p). \<not> stale_version (current_versions (sr_policies rt)) p) (sr_active rt)
      | (rt', Inl e) \<Rightarrow> False)"
proof -
  have ok: "dict_ok (sr_active rt)" using runtime_run_ok[OF assms(1)] by (simp add: assms(2) tables_ok_def)
  let ?vs = "current_versions (sr_policies rt)" and ?ids = "dict_keys (sr_active rt)"
  have f: "filter (\<lambda>(s, p). s \<notin> set (stale_in ?vs ?ids rt)) (sr_active rt) =
      filter (\<lambda>(s, p). \<not> stale_version ?vs p) (sr_active rt)"
  proof (rule filter_cong[OF refl])
    fix x assume x: "x \<in> set (sr_active rt)"
    obtain s p where sp: "x = (s, p)" by (cases x)
    have "dict_get (sr_active rt) s = Some p" using x ok sp by simp
    then show "(case x of (s, p) \<Rightarrow> s \<notin> set (stale_in ?vs ?ids rt)) = (case x of (s, p) \<Rightarrow> \<not> stale_version ?vs p)"
      using x sp by (force simp: stale_in_def simp del: map_of_eq_Some_iff)
  qed
  have i: "sr_active (fst (sweep_stale ''invalidate'' ?vs ?ids rt)) =
      filter (\<lambda>(s, p). \<not> stale_version ?vs p) (sr_active rt)"
    unfolding sweep_stale_active[OF refl ok] by (rule f)
  show ?thesis using i sweep_stale_ids[OF ok]
    by (simp add: sweep_for_policy_change_def Let_def case_prod_unfold sweep_grandfather)
qed

lemma policy_sweep_exact_witness:
  "let rt = run_events runtime_step [Instantiate ''s'' (plan_of_recipe example_recipe (example_method ''EVALUATE'')) example_terms]
       (new_runtime [] 10)
   in map sl_synthesis_id (case sweep_for_policy_change ''invalidate'' rt of (rt', Inr out) \<Rightarrow> out | _ \<Rightarrow> []) = [''s'']"
proof -
  let ?es = "[Instantiate ''s'' (plan_of_recipe example_recipe (example_method ''EVALUATE'')) example_terms]"
  define rt where "rt = run_events runtime_step ?es (new_runtime [] 10)"
  have f: "all_fit runtime_step (\<lambda>e rt. fits_runtime e) ?es (new_runtime [] 10)"
    by (simp add: fits_runtime_def plan_of_recipe_def example_recipe_def)
  have a: "sr_active rt = [(''s'', plan_of_recipe example_recipe (example_method ''EVALUATE''))]"
    "sr_policies rt = [passthrough_policy]"
    by (simp_all add: rt_def instantiate_def Let_def new_runtime_def with_passthrough_def plan_of_recipe_def example_recipe_def)
  have "stale_in (current_versions (sr_policies rt)) (dict_keys (sr_active rt)) rt = [''s'']"
    by (simp add: a stale_in_def stale_version_def current_versions_def plan_of_recipe_def passthrough_policy_def example_recipe_def)
  with policy_sweep_exact[OF f rt_def]
  have "map sl_synthesis_id (case sweep_for_policy_change ''invalidate'' rt of (rt', Inr out) \<Rightarrow> out | _ \<Rightarrow> []) = [''s'']"
    by (simp add: Let_def split: prod.splits sum.splits)
  then show ?thesis by (simp only: Let_def rt_def[symmetric])
qed


section \<open>What an execution dispatches\<close>

text \<open>A dispatcher that also writes down the requests it is given.\<close>
definition recorded :: "'w dispatcher \<Rightarrow> ('w \<times> request list) dispatcher" where
  "recorded d rq wl = (case wl of (w, tr) \<Rightarrow> (case d rq w of (w', r) \<Rightarrow> ((w', tr @ [rq]), r)))"

definition sent_for :: "request \<Rightarrow> composition_step list \<Rightarrow> request list \<Rightarrow> bool" where
  "sent_for rq ss sent =
     (length sent \<le> length ss \<and> map rq_method sent = map st_method_name (take (length sent) ss) \<and>
      (\<forall>q \<in> set sent. \<exists>params. q = build_step_request rq (rq_method q) params))"

lemma sent_for_Nil [simp]: "sent_for rq ss []"
  by (simp add: sent_for_def)

lemma rq_method_step [simp]: "rq_method (build_step_request rq m params) = m"
  by (simp add: build_step_request_def Let_def)

lemma rq_path_step: "rq_path (build_step_request rq m params) = ''/''"
  by (simp add: build_step_request_def Let_def)

lemma sent_for_Cons:
  "sent_for rq ss sent \<Longrightarrow> sent_for rq (s # ss) (build_step_request rq (st_method_name s) params # sent)"
  by (auto simp: sent_for_def)

lemma sent_for_mem:
  assumes "sent_for rq ss sent" and "q \<in> set sent"
  obtains m params where "q = build_step_request rq m params"
proof -
  have "\<exists>params. q = build_step_request rq (rq_method q) params"
    using assms(1) unfolding sent_for_def by (elim conjE) (rule bspec[OF _ assms(2)])
  then show ?thesis by (elim exE) (rule that)
qed

lemma status_failure: "rs_status_code (failure_response key p sid i m rs ctx cap) = rs_status_code rs"
  by (simp add: failure_response_def json_response_def)

lemma status_bad_reference: "rs_status_code (bad_reference_response key sid i m n) = 500"
  by (simp add: bad_reference_response_def error_response_def json_response_def)

lemma run_steps_recorded:
  "\<exists>w' sent out. run_steps key (recorded d) p sid rq i ss ctx cap (w, tr) = ((w', tr @ sent), out) \<and>
     run_steps key d p sid rq i ss ctx cap w = (w', out) \<and> sent_for rq ss sent \<and>
     (\<forall>r. out = Inr r \<and> rs_status_code r = 200 \<longrightarrow> length sent = length ss)"
proof (induction ss arbitrary: i ctx cap w tr)
  case Nil
  then show ?case by simp
next
  case (Cons s ss)
  show ?case
  proof (cases "resolve_parameters (st_parameter_source s) (parse_request_params rq) ctx []")
    case (Inl e)
    then show ?thesis by (cases e) (simp_all add: status_bad_reference)
  next
    case (Inr params)
    let ?q = "build_step_request rq (st_method_name s) params"
    obtain w1 res where d: "d ?q w = (w1, res)" by (cases "d ?q w")
    have rd: "recorded d ?q (w, tr) = ((w1, tr @ [?q]), res)" by (simp add: recorded_def d)
    have one: "sent_for rq (s # ss) [?q]" by (rule sent_for_Cons) simp
    show ?thesis
    proof (cases res)
      case (Inl e)
      then show ?thesis using d rd Inr one by auto
    next
      case res: (Inr rs)
      show ?thesis
      proof (cases "rs_status_code rs = 200")
        case False
        then show ?thesis using d rd Inr one res by (auto simp: status_failure)
      next
        case True
        let ?cap = "cap @ [\<lparr>so_method = st_method_name s, so_status = 200, so_output = Some (parse_response_body rs)\<rparr>]"
        have go: "\<exists>w' sent out. run_steps key (recorded d) p sid rq (Suc i) ss c ?cap (w1, tr @ [?q]) = ((w', tr @ sent), out) \<and>
            run_steps key d p sid rq (Suc i) ss c ?cap w1 = (w', out) \<and> sent_for rq (s # ss) sent \<and>
            (\<forall>r. out = Inr r \<and> rs_status_code r = 200 \<longrightarrow> length sent = length (s # ss))" for c
        proof -
          obtain w' sent out where ih: "run_steps key (recorded d) p sid rq (Suc i) ss c ?cap (w1, tr @ [?q]) = ((w', (tr @ [?q]) @ sent), out)"
            "run_steps key d p sid rq (Suc i) ss c ?cap w1 = (w', out)" "sent_for rq ss sent"
            "\<forall>r. out = Inr r \<and> rs_status_code r = 200 \<longrightarrow> length sent = length ss"
            using Cons.IH[of "Suc i" c ?cap w1 "tr @ [?q]"] by blast
          show ?thesis
            by (rule exI[of _ w'], rule exI[of _ "?q # sent"], rule exI[of _ out])
               (use ih sent_for_Cons[OF ih(3)] in simp)
        qed
        show ?thesis
        proof (cases "truthy (st_capture_output_as s) \<and> \<not> hashable (st_capture_output_as s)")
          case True
          then show ?thesis using d rd Inr one res \<open>rs_status_code rs = 200\<close> by auto
        next
          case False
          then show ?thesis using d rd Inr res True go by (auto simp: Let_def)
        qed
      qed
    qed
  qed
qed

lemma find_filter: "find P (filter Q xs) = find (\<lambda>x. Q x \<and> P x) xs"
  by (induction xs) auto

lemma find_set:
  "\<not> P (k, v) \<Longrightarrow> (\<And>v'. \<not> P (k, v')) \<Longrightarrow> find P (dict_set k v d) = find P d"
  by (induction d) auto

text \<open>The headers of a step request: those of the original, without Synthesis-Id
  and with the content type of the body.\<close>
lemma step_request_header:
  assumes "lower name \<noteq> ''synthesis-id''" "lower name \<noteq> ''content-type''"
  shows "header_in (rq_headers (build_step_request rq m params)) name = header_in (rq_headers rq) name"
proof -
  have l: "lower ''Content-Type'' = ''content-type''" by code_simp
  have f: "find (\<lambda>(k, v). lower k = lower name) (filter (\<lambda>(k, v). lower k \<noteq> ''synthesis-id'') h) =
      find (\<lambda>(k, v). lower k = lower name) h" for h
    unfolding find_filter by (rule arg_cong2[where f = find]) (use assms in \<open>auto simp: fun_eq_iff\<close>)
  show ?thesis using assms l
    by (simp add: header_in_def find_header_def build_step_request_def Let_def find_set f)
qed

lemma step_request_no_synthesis_id:
  "header_in (rq_headers (build_step_request rq m params)) ''Synthesis-Id'' = []"
proof -
  have l: "lower ''Content-Type'' = ''content-type''" "lower ''Synthesis-Id'' = ''synthesis-id''" by code_simp+
  have n: "find (\<lambda>(k, v). lower k = ''synthesis-id'') (filter (\<lambda>(k, v). lower k \<noteq> ''synthesis-id'') h) = None"
    for h :: headers by (auto simp: find_None_iff)
  show ?thesis
    by (simp add: header_in_def find_header_def build_step_request_def Let_def find_set n l)
qed

lemma step_request_agent: "read_agent_id (rq_headers (build_step_request rq m params)) = read_agent_id (rq_headers rq)"
proof -
  have "lower ''Agent-ID'' = ''agent-id''" "lower ''Target-Agent'' = ''target-agent''" by code_simp+
  then show ?thesis by (simp add: read_agent_id_def read_renamed_def step_request_header)
qed

text \<open>C19: an execution dispatches its plan, in order, as the caller.  The requests handed
  to the dispatcher are those of a prefix of the plan's steps, one each and in order; each
  has the step's method, the root path, the caller's Agent-ID and every other header of the
  caller's request except Synthesis-Id and the content type; nothing is dispatched after a
  step that fails, since a response with status 200 is given only when every step was
  dispatched; and recording the requests changes neither the result nor the state.\<close>
theorem execution_follows_plan:
  "\<exists>w' sent out. execute_plan key (Some (recorded d)) p sid rq (w, []) = ((w', sent), out) \<and>
     execute_plan key (Some d) p sid rq w = (w', out) \<and>
     map rq_method sent = map st_method_name (take (length sent) (pl_steps p)) \<and>
     (\<forall>q \<in> set sent. rq_path q = ''/'' \<and> read_agent_id (rq_headers q) = read_agent_id (rq_headers rq) \<and>
        header_in (rq_headers q) ''Synthesis-Id'' = [] \<and>
        (\<forall>name. lower name \<noteq> ''synthesis-id'' \<and> lower name \<noteq> ''content-type'' \<longrightarrow>
           header_in (rq_headers q) name = header_in (rq_headers rq) name)) \<and>
     (\<forall>r. out = Inr r \<and> rs_status_code r = 200 \<longrightarrow> map rq_method sent = map st_method_name (pl_steps p))"
proof -
  obtain w' sent out where run: "run_steps key (recorded d) p sid rq 0 (pl_steps p) [] [] (w, []) = ((w', sent), out)"
    "run_steps key d p sid rq 0 (pl_steps p) [] [] w = (w', out)" "sent_for rq (pl_steps p) sent"
    "\<forall>r. out = Inr r \<and> rs_status_code r = 200 \<longrightarrow> length sent = length (pl_steps p)"
    using run_steps_recorded[of key d p sid rq 0 "pl_steps p" "[]" "[]" w "[]"] by auto
  have m: "map rq_method sent = map st_method_name (take (length sent) (pl_steps p))"
    using run(3) by (simp add: sent_for_def)
  have q: "rq_path q = ''/'' \<and> read_agent_id (rq_headers q) = read_agent_id (rq_headers rq) \<and>
        header_in (rq_headers q) ''Synthesis-Id'' = [] \<and>
        (\<forall>name. lower name \<noteq> ''synthesis-id'' \<and> lower name \<noteq> ''content-type'' \<longrightarrow>
           header_in (rq_headers q) name = header_in (rq_headers rq) name)" if mem: "q \<in> set sent" for q
  proof -
    obtain m params where e: "q = build_step_request rq m params"
      by (rule sent_for_mem[OF run(3) mem])
    have "rq_path q = ''/''" unfolding e by (rule rq_path_step)
    moreover have "read_agent_id (rq_headers q) = read_agent_id (rq_headers rq)"
      unfolding e by (rule step_request_agent)
    moreover have "header_in (rq_headers q) ''Synthesis-Id'' = []"
      unfolding e by (rule step_request_no_synthesis_id)
    moreover have "header_in (rq_headers q) name = header_in (rq_headers rq) name"
      if "lower name \<noteq> ''synthesis-id'' \<and> lower name \<noteq> ''content-type''" for name
      unfolding e by (rule step_request_header) (use that in simp_all)
    ultimately show ?thesis by blast
  qed
  have e: "execute_plan key (Some (recorded d)) p sid rq (w, []) = ((w', sent), out)"
    "execute_plan key (Some d) p sid rq w = (w', out)" using run(1,2) by (simp_all add: execute_plan_def)
  have all: "map rq_method sent = map st_method_name (pl_steps p)" if "out = Inr r \<and> rs_status_code r = 200" for r
    using m run(4) that by simp
  show ?thesis
    by (rule exI[of _ w'], rule exI[of _ sent], rule exI[of _ out], intro conjI ballI allI impI)
       (use e m q all in blast)+
qed

lemma execution_follows_plan_witness:
  "\<exists>w' sent. execute_plan (\<lambda>v. []) (Some (recorded (\<lambda>q w. (w + 1, Inr (json_response 200 ''OK'' []))))) example_plan ''s''
     \<lparr>rq_method = ''QUERY'', rq_headers = [(''Agent-ID'', ''a'')], rq_body = NoBytes, rq_path = ''/'', rq_query = [],
      rq_verified_cert = None, rq_aliased_from = None, rq_acting_principal = None\<rparr> (0 :: nat, [])
     = ((w', sent), Inr (aggregate example_plan ''s'' [\<lparr>so_method = ''QUERY'', so_status = 200, so_output = Some (JObj [])\<rparr>])) \<and>
     map rq_method sent = [''QUERY'']"
proof -
  let ?rq = "\<lparr>rq_method = ''QUERY'', rq_headers = [(''Agent-ID'', ''a'')], rq_body = NoBytes, rq_path = ''/'', rq_query = [],
      rq_verified_cert = None, rq_aliased_from = None, rq_acting_principal = None\<rparr>"
  let ?d = "\<lambda>q w. (w + 1 :: nat, Inr (json_response 200 ''OK'' []))"
  have e: "snd (execute_plan (\<lambda>v. []) (Some ?d) example_plan ''s'' ?rq 0)
      = Inr (aggregate example_plan ''s'' [\<lparr>so_method = ''QUERY'', so_status = 200, so_output = Some (JObj [])\<rparr>])"
    by (simp add: execute_plan_def example_plan_def passthrough_plan_def passthrough_params_def example_method_def
        json_response_def parse_response_body_def)
  have s: "map st_method_name (pl_steps example_plan) = [''QUERY'']"
    by (simp add: example_plan_def passthrough_plan_def example_method_def)
  from execution_follows_plan[of "\<lambda>v. []" ?d example_plan "''s''" ?rq 0] e s show ?thesis
    by (auto simp: aggregate_def json_response_def)
qed

end
