(* ===== verification/Endpoint.thy ===== *)
theory Endpoint
  imports Prelude
begin

text \<open>
  core/endpoint.py: the declaration of an endpoint (fields, semantic block,
  handler binding, deprecation) with its wire form in both directions, and the
  reading of a PROPOSE body.  An attribute the reader copies without converting it
  stays a JSON value, with JNull for None; str of a container is the argument repr.
\<close>

section \<open>Data\<close>

record semantic_block =
  se_intent :: string
  se_actor :: string
  se_outcome :: string
  se_capability :: json
  se_confidence :: "rat option"
  se_impact :: json
  se_is_idempotent :: "bool option"

record field_spec =
  fs_name :: string
  fs_type :: string
  fs_description :: string
  fs_schema :: json
  fs_enum :: "json list option"
  fs_format :: "string option"

record handler_binding =
  hb_type :: string
  hb_function :: "string option"
  hb_recipe :: "string option"
  hb_url :: "string option"
  hb_method :: "string option"
  hb_headers :: "(string, string) dict"
  hb_input_transform :: "(string, string) dict"
  hb_output_transform :: "(string, string) dict"
  hb_error_map :: "(string, string) dict"
  hb_timeout_seconds :: rat

record endpoint_deprecation =
  ed_deprecated_in :: string
  ed_removed_in :: "string option"
  ed_successor_method :: "string option"
  ed_successor_path :: "string option"

record endpoint =
  es_name :: string
  es_path :: "string option"
  es_description :: string
  es_required_params :: "field_spec list"
  es_optional_params :: "field_spec list"
  es_output :: "field_spec list"
  es_errors :: "string list"
  es_semantic :: "semantic_block option"
  es_handler :: "handler_binding option"
  es_required_scopes :: "string list"
  es_deprecated :: "endpoint_deprecation option"
  es_namespace :: "string option"
  es_category :: string
  es_error_codes :: "json list"

definition ALL_CAPABILITIES :: "string list" where
  "ALL_CAPABILITIES = [''discovery'', ''retrieval'', ''analysis'', ''transaction'', ''modification'',
     ''creation'', ''notification'', ''mechanics'', ''domain_spanning'']"

definition ALL_IMPACTS :: "string list" where
  "ALL_IMPACTS = [''informational'', ''reversible'', ''irreversible'']"

definition ALL_PARAM_TYPES :: "string list" where
  "ALL_PARAM_TYPES = [''string'', ''integer'', ''number'', ''boolean'', ''object'', ''array'']"

definition ALL_HANDLER_TYPES :: "string list" where
  "ALL_HANDLER_TYPES = [''registered_function'', ''composition'', ''external_service'', ''proxy'']"

definition DEFAULT_EXTERNAL_SERVICE_TIMEOUT_SECONDS :: rat where
  "DEFAULT_EXTERNAL_SERVICE_TIMEOUT_SECONDS = 30"

section \<open>Small readers shared by the parts\<close>

text \<open>str(d[k]) if d.get(k) else None.\<close>
definition opt_text :: "(json \<Rightarrow> string) \<Rightarrow> jobj \<Rightarrow> string \<Rightarrow> string option" where
  "opt_text repr d k = (if truthy (jget d k) then Some (py_str repr (jget d k)) else None)"

text \<open>str(d.get(k, dflt)): the default only for an absent key.\<close>
definition text_or :: "(json \<Rightarrow> string) \<Rightarrow> string \<Rightarrow> jobj \<Rightarrow> string \<Rightarrow> string" where
  "text_or repr dflt d k = py_str repr (get_or (JStr dflt) d k)"

definition entry_if :: "string \<Rightarrow> bool \<Rightarrow> json \<Rightarrow> jobj" where
  "entry_if k c v = (if c then [(k, v)] else [])"

section \<open>The semantic block\<close>

definition semantic_to_dict :: "semantic_block \<Rightarrow> jobj" where
  "semantic_to_dict s =
     [(''intent'', JStr (se_intent s)), (''actor'', JStr (se_actor s)), (''outcome'', JStr (se_outcome s))] @
     entry_if ''capability'' (se_capability s \<noteq> JNull) (se_capability s) @
     (case se_confidence s of None \<Rightarrow> [] | Some r \<Rightarrow> [(''confidence'', JFloat r)]) @
     entry_if ''impact'' (se_impact s \<noteq> JNull) (se_impact s) @
     (case se_is_idempotent s of None \<Rightarrow> [] | Some b \<Rightarrow> [(''is_idempotent'', JBool b)])"

text \<open>The first of two keys that is present and not None.\<close>
definition either_key :: "jobj \<Rightarrow> string \<Rightarrow> string \<Rightarrow> json" where
  "either_key d k old = (if jget d k = JNull then jget d old else jget d k)"

definition opt_float :: "json \<Rightarrow> py_error + rat option" where
  "opt_float v = (if v = JNull then Inr None else map_sum id Some (py_float v))"

definition semantic_from_dict :: "(json \<Rightarrow> string) \<Rightarrow> jobj \<Rightarrow> py_error + semantic_block" where
  "semantic_from_dict repr d =
     bind_res (opt_float (either_key d ''confidence'' ''confidence_guidance'')) (\<lambda>conf. Inr
       \<lparr>se_intent = text_or repr [] d ''intent'', se_actor = text_or repr [] d ''actor'',
        se_outcome = text_or repr [] d ''outcome'', se_capability = jget d ''capability'',
        se_confidence = conf, se_impact = either_key d ''impact'' ''impact_tier'',
        se_is_idempotent = (if jget d ''is_idempotent'' = JNull then None
          else Some (truthy (jget d ''is_idempotent'')))\<rparr>)"

section \<open>Fields\<close>

definition field_to_dict :: "field_spec \<Rightarrow> py_error + jobj" where
  "field_to_dict f =
     bind_res (if fs_schema f = JNull then Inr []
               else bind_res (py_dict (fs_schema f)) (\<lambda>sch. Inr [(''schema'', JObj sch)])) (\<lambda>schema. Inr
       ([(''name'', JStr (fs_name f)), (''type'', JStr (fs_type f)), (''description'', JStr (fs_description f))] @
        schema @
        (case fs_enum f of None \<Rightarrow> [] | Some vs \<Rightarrow> [(''enum'', JArr vs)]) @
        (case fs_format f of None \<Rightarrow> [] | Some s \<Rightarrow> [(''format'', JStr s)])))"

definition field_from_dict :: "(json \<Rightarrow> string) \<Rightarrow> jobj \<Rightarrow> py_error + field_spec" where
  "field_from_dict repr d =
     bind_res (if jget d ''enum'' = JNull then Inr None else map_sum id Some (iter_items (jget d ''enum''))) (\<lambda>enum. Inr
       \<lparr>fs_name = text_or repr [] d ''name'', fs_type = text_or repr ''string'' d ''type'',
        fs_description = text_or repr [] d ''description'', fs_schema = jget d ''schema'',
        fs_enum = enum, fs_format = opt_text repr d ''format''\<rparr>)"

definition field_from_bare_name :: "string \<Rightarrow> field_spec" where
  "field_from_bare_name n =
     \<lparr>fs_name = n, fs_type = ''string'',
      fs_description = ''parameter '' @ [CHR 0x27] @ n @ [CHR 0x27],
      fs_schema = JNull, fs_enum = None, fs_format = None\<rparr>"

text \<open>An element of a parameter list: a table, or anything else as a bare name.\<close>
definition field_from_item :: "(json \<Rightarrow> string) \<Rightarrow> json \<Rightarrow> py_error + field_spec" where
  "field_from_item repr v =
     (case v of JObj d \<Rightarrow> field_from_dict repr d | _ \<Rightarrow> Inr (field_from_bare_name (py_str repr v)))"

section \<open>Handler bindings\<close>

abbreviation given :: "string option \<Rightarrow> bool" where
  "given v \<equiv> (case v of None \<Rightarrow> False | Some s \<Rightarrow> s \<noteq> [])"

text \<open>The legacy arguments of the constructor, routed to the fields that replace them.\<close>
definition post_init ::
    "string option \<Rightarrow> (string, string) dict option \<Rightarrow> (string, string) dict option \<Rightarrow> handler_binding \<Rightarrow> handler_binding" where
  "post_init reference input_map output_map b =
     (let b1 = (if given reference then
                  (if hb_type b = ''registered_function'' \<and> \<not> given (hb_function b) then b\<lparr>hb_function := reference\<rparr>
                   else if hb_type b = ''composition'' \<and> \<not> given (hb_recipe b) then b\<lparr>hb_recipe := reference\<rparr>
                   else if hb_type b = ''external_service'' \<and> \<not> given (hb_url b) then b\<lparr>hb_url := reference\<rparr>
                   else if hb_type b = ''proxy'' \<and> \<not> given (hb_url b) then b\<lparr>hb_url := reference\<rparr>
                   else b)
                else b);
          b2 = (case input_map of
                  Some m \<Rightarrow> if hb_input_transform b1 = [] then b1\<lparr>hb_input_transform := m\<rparr> else b1
                | None \<Rightarrow> b1)
      in (case output_map of
            Some m \<Rightarrow> if hb_output_transform b2 = [] then b2\<lparr>hb_output_transform := m\<rparr> else b2
          | None \<Rightarrow> b2))"

definition text_of_opt :: "string option \<Rightarrow> string" where
  "text_of_opt v = (case v of None \<Rightarrow> [] | Some s \<Rightarrow> s)"

definition reference_value :: "handler_binding \<Rightarrow> string" where
  "reference_value b =
     (if hb_type b = ''registered_function'' then text_of_opt (hb_function b)
      else if hb_type b = ''composition'' then text_of_opt (hb_recipe b)
      else if hb_type b \<in> {''external_service'', ''proxy''} then text_of_opt (hb_url b)
      else [])"

definition texts :: "(string, string) dict \<Rightarrow> json" where
  "texts d = JObj (map (map_prod id JStr) d)"

definition reference_entry :: "handler_binding \<Rightarrow> jobj" where
  "reference_entry b =
     (if hb_type b = ''registered_function'' \<and> given (hb_function b) then [(''function'', JStr (text_of_opt (hb_function b)))]
      else if hb_type b = ''composition'' \<and> given (hb_recipe b) then [(''recipe'', JStr (text_of_opt (hb_recipe b)))]
      else if hb_type b \<in> {''external_service'', ''proxy''} \<and> given (hb_url b)
        then [(''url'', JStr (text_of_opt (hb_url b)))]
      else [])"

definition external_entries :: "handler_binding \<Rightarrow> jobj" where
  "external_entries b =
     (case hb_method b of None \<Rightarrow> [] | Some m \<Rightarrow> [(''method'', JStr m)]) @
     entry_if ''headers'' (hb_headers b \<noteq> []) (texts (hb_headers b)) @
     entry_if ''input_transform'' (hb_input_transform b \<noteq> []) (texts (hb_input_transform b)) @
     entry_if ''output_transform'' (hb_output_transform b \<noteq> []) (texts (hb_output_transform b)) @
     entry_if ''error_map'' (hb_error_map b \<noteq> []) (texts (hb_error_map b)) @
     entry_if ''timeout_seconds'' (hb_timeout_seconds b \<noteq> DEFAULT_EXTERNAL_SERVICE_TIMEOUT_SECONDS)
       (JFloat (hb_timeout_seconds b))"

definition handler_to_dict :: "handler_binding \<Rightarrow> jobj" where
  "handler_to_dict b =
     (''type'', JStr (hb_type b)) # reference_entry b @
     (if hb_type b = ''external_service'' then external_entries b else [])"

text \<open>The items of a mapping, rendered as text; anything else has no items method.\<close>
definition text_items :: "(json \<Rightarrow> string) \<Rightarrow> json \<Rightarrow> py_error + (string, string) dict" where
  "text_items repr v =
     (case v of JObj kvs \<Rightarrow> Inr (map (map_prod id (py_str repr)) kvs) | _ \<Rightarrow> Inl AttributeError)"

text \<open>The reference under its own key, or under the legacy one when the binding is of
  the kind that uses it.\<close>
definition reference_under :: "jobj \<Rightarrow> string \<Rightarrow> bool \<Rightarrow> json" where
  "reference_under d k mine =
     (if mine \<and> truthy (jget d ''reference'') \<and> \<not> truthy (jget d k) then jget d ''reference'' else jget d k)"

definition opt_str :: "(json \<Rightarrow> string) \<Rightarrow> json \<Rightarrow> string option" where
  "opt_str repr v = (if truthy v then Some (py_str repr v) else None)"

definition handler_from_dict :: "(json \<Rightarrow> string) \<Rightarrow> jobj \<Rightarrow> py_error + handler_binding" where
  "handler_from_dict repr d =
     (let type = text_or repr [] d ''type'' in
      bind_res (text_items repr (jor (jget d ''headers'') (JObj []))) (\<lambda>headers.
      bind_res (text_items repr (jor (jget d ''input_transform'') (jor (jget d ''input_map'') (JObj [])))) (\<lambda>inp.
      bind_res (text_items repr (jor (jget d ''output_transform'') (jor (jget d ''output_map'') (JObj [])))) (\<lambda>outp.
      bind_res (text_items repr (jor (jget d ''error_map'') (JObj []))) (\<lambda>errs.
      bind_res (opt_float (jget d ''timeout_seconds'')) (\<lambda>timeout. Inr (post_init None None None
       \<lparr>hb_type = type,
        hb_function = opt_str repr (reference_under d ''function'' (type = ''registered_function'')),
        hb_recipe = opt_str repr (reference_under d ''recipe'' (type = ''composition'')),
        hb_url = opt_str repr (reference_under d ''url'' (type \<in> {''external_service'', ''proxy''})),
        hb_method = map_option upper (opt_text repr d ''method''),
        hb_headers = headers, hb_input_transform = inp, hb_output_transform = outp, hb_error_map = errs,
        hb_timeout_seconds = (case timeout of None \<Rightarrow> DEFAULT_EXTERNAL_SERVICE_TIMEOUT_SECONDS | Some t \<Rightarrow> t)\<rparr>)))))))"

section \<open>Deprecation\<close>

definition deprecation_to_dict :: "endpoint_deprecation \<Rightarrow> jobj" where
  "deprecation_to_dict e =
     [(''deprecated_in'', JStr (ed_deprecated_in e))] @
     entry_if ''removed_in'' (given (ed_removed_in e)) (JStr (text_of_opt (ed_removed_in e))) @
     entry_if ''successor'' (given (ed_successor_method e) \<or> given (ed_successor_path e))
       (JObj (entry_if ''method'' (given (ed_successor_method e)) (JStr (upper (text_of_opt (ed_successor_method e)))) @
              entry_if ''path'' (given (ed_successor_path e)) (JStr (text_of_opt (ed_successor_path e)))))"

definition deprecation_from_dict :: "(json \<Rightarrow> string) \<Rightarrow> jobj \<Rightarrow> endpoint_deprecation" where
  "deprecation_from_dict repr d =
     (let succ = (case jget d ''successor'' of JObj s \<Rightarrow> s | _ \<Rightarrow> []) in
      \<lparr>ed_deprecated_in = text_or repr [] d ''deprecated_in'', ed_removed_in = opt_text repr d ''removed_in'',
       ed_successor_method = map_option upper (opt_text repr succ ''method''),
       ed_successor_path = opt_text repr succ ''path''\<rparr>)"

section \<open>Endpoints\<close>

definition field_dicts :: "field_spec list \<Rightarrow> py_error + json" where
  "field_dicts fs = map_sum id JArr (map_res (\<lambda>f. map_sum id JObj (field_to_dict f)) fs)"

definition optional_entries :: "endpoint \<Rightarrow> jobj" where
  "optional_entries e =
     (case es_path e of None \<Rightarrow> [] | Some p \<Rightarrow> [(''path'', JStr p)]) @
     entry_if ''namespace'' (given (es_namespace e)) (JStr (text_of_opt (es_namespace e))) @
     (case es_semantic e of None \<Rightarrow> [] | Some s \<Rightarrow> [(''semantic'', JObj (semantic_to_dict s))]) @
     (case es_handler e of None \<Rightarrow> [] | Some h \<Rightarrow> [(''handler'', JObj (handler_to_dict h))]) @
     entry_if ''required_scopes'' (es_required_scopes e \<noteq> []) (JArr (map JStr (es_required_scopes e))) @
     (case es_deprecated e of None \<Rightarrow> [] | Some x \<Rightarrow> [(''deprecated'', JObj (deprecation_to_dict x))])"

definition endpoint_to_dict :: "endpoint \<Rightarrow> py_error + jobj" where
  "endpoint_to_dict e =
     bind_res (field_dicts (es_required_params e)) (\<lambda>req.
     bind_res (field_dicts (es_optional_params e)) (\<lambda>opt.
     bind_res (field_dicts (es_output e)) (\<lambda>outp. Inr
       ([(''method'', JStr (es_name e)),
         (''input'', JObj [(''required'', req), (''optional'', opt)]),
         (''output'', outp), (''errors'', JArr (map JStr (es_errors e))),
         (''name'', JStr (es_name e)), (''description'', JStr (es_description e)),
         (''required_params'', req), (''optional_params'', opt),
         (''category'', JStr (es_category e)), (''error_codes'', JArr (es_error_codes e))] @
        optional_entries e))))"

text \<open>A block that is read only when it is a table.\<close>
definition sub_block :: "(jobj \<Rightarrow> py_error + 'a) \<Rightarrow> json \<Rightarrow> py_error + 'a option" where
  "sub_block f v = (case v of JObj d \<Rightarrow> map_sum id Some (f d) | _ \<Rightarrow> Inr None)"

definition deprecation_block :: "(json \<Rightarrow> string) \<Rightarrow> jobj \<Rightarrow> endpoint_deprecation option" where
  "deprecation_block repr d =
     (case jget d ''deprecated'' of
        JObj b \<Rightarrow> if truthy (jget b ''deprecated_in'') then Some (deprecation_from_dict repr b) else None
      | _ \<Rightarrow> None)"

definition default_error_codes :: json where
  "default_error_codes = JArr [JInt 400, JInt 422]"

text \<open>The raw parameter lists are read before any element of them.\<close>
definition input_lists :: "jobj \<Rightarrow> json \<times> json" where
  "input_lists d =
     (case jget d ''input'' of
        JObj b \<Rightarrow> (jor (jget b ''required'') (JArr []), jor (jget b ''optional'') (JArr []))
      | _ \<Rightarrow> (jor (jget d ''required_params'') (JArr []), jor (jget d ''optional_params'') (JArr [])))"

definition fields_of :: "(json \<Rightarrow> string) \<Rightarrow> json \<Rightarrow> py_error + field_spec list" where
  "fields_of repr v = bind_res (iter_items v) (map_res (field_from_item repr))"

definition str_items :: "(json \<Rightarrow> string) \<Rightarrow> jobj \<Rightarrow> string \<Rightarrow> py_error + string list" where
  "str_items repr d k = map_sum id (map (py_str repr)) (iter_items (jor (jget d k) (JArr [])))"

definition endpoint_from_dict :: "(json \<Rightarrow> string) \<Rightarrow> jobj \<Rightarrow> py_error + endpoint" where
  "endpoint_from_dict repr d =
     (let name = upper (py_str repr (jor (jget d ''method'') (get_or (JStr []) d ''name''))) in
      bind_res (fields_of repr (fst (input_lists d))) (\<lambda>req.
      bind_res (fields_of repr (snd (input_lists d))) (\<lambda>opt.
      bind_res (fields_of repr (jor (jget d ''output'') (JArr []))) (\<lambda>outp.
      bind_res (sub_block (semantic_from_dict repr) (jget d ''semantic'')) (\<lambda>sem.
      bind_res (sub_block (handler_from_dict repr) (jget d ''handler'')) (\<lambda>hdl.
      bind_res (str_items repr d ''errors'') (\<lambda>errs.
      bind_res (str_items repr d ''required_scopes'') (\<lambda>scopes.
      bind_res (iter_items (jor (jget d ''error_codes'') default_error_codes)) (\<lambda>codes. Inr
        \<lparr>es_name = name, es_path = opt_text repr d ''path'',
         es_description = py_str repr (jor (jget d ''description'') (JStr [])),
         es_required_params = req, es_optional_params = opt, es_output = outp, es_errors = errs,
         es_semantic = sem, es_handler = hdl, es_required_scopes = scopes,
         es_deprecated = deprecation_block repr d, es_namespace = opt_text repr d ''namespace'',
         es_category = text_or repr ''custom'' d ''category'', es_error_codes = codes\<rparr>)))))))))"

text \<open>A parameter of a proposal given as name and type.\<close>
definition proposed_field :: "string \<times> json \<Rightarrow> field_spec" where
  "proposed_field kv =
     \<lparr>fs_name = fst kv, fs_type = (case snd kv of JStr t \<Rightarrow> t | _ \<Rightarrow> ''string''),
      fs_description = ''parameter '' @ [CHR 0x27] @ fst kv @ [CHR 0x27] @ '' from proposal'',
      fs_schema = JNull, fs_enum = None, fs_format = None\<rparr>"

text \<open>A parameter given as an element of a list; other elements are skipped.\<close>
fun proposed_items :: "(json \<Rightarrow> string) \<Rightarrow> json list \<Rightarrow> py_error + field_spec list" where
  "proposed_items repr [] = Inr []" |
  "proposed_items repr (JObj d # vs) =
     bind_res (field_from_dict repr d) (\<lambda>f. bind_res (proposed_items repr vs) (\<lambda>fs. Inr (f # fs)))" |
  "proposed_items repr (JStr n # vs) =
     bind_res (proposed_items repr vs) (\<lambda>fs. Inr (field_from_bare_name n # fs))" |
  "proposed_items repr (_ # vs) = proposed_items repr vs"

definition proposed_params :: "(json \<Rightarrow> string) \<Rightarrow> json \<Rightarrow> py_error + field_spec list" where
  "proposed_params repr v =
     (case v of JObj kvs \<Rightarrow> Inr (map proposed_field kvs)
      | JArr vs \<Rightarrow> proposed_items repr vs
      | _ \<Rightarrow> Inr [])"

definition endpoint_from_proposal :: "(json \<Rightarrow> string) \<Rightarrow> jobj \<Rightarrow> py_error + endpoint" where
  "endpoint_from_proposal repr d =
     (let name = upper (text_or repr [] d ''name'') in
      bind_res (proposed_params repr (jor (jget d ''parameters'') (JObj []))) (\<lambda>req.
      bind_res (sub_block (semantic_from_dict repr) (jget d ''semantic'')) (\<lambda>sem.
      bind_res (iter_items (jor (jget d ''error_codes'') default_error_codes)) (\<lambda>codes. Inr
        \<lparr>es_name = name, es_path = opt_text repr d ''path'',
         es_description = py_str repr (jor (jget d ''description'')
           (JStr (''runtime proposal: '' @ (if name = [] then ''(unnamed)'' else name)))),
         es_required_params = req, es_optional_params = [], es_output = [], es_errors = [],
         es_semantic = sem, es_handler = None, es_required_scopes = [], es_deprecated = None,
         es_namespace = Some (py_str repr (jor (jget d ''namespace'') (JStr ''proposal''))),
         es_category = text_or repr ''custom'' d ''category'', es_error_codes = codes\<rparr>))))"

section \<open>What survives a round trip\<close>

text \<open>An option that is absent or not empty: what the writers keep.\<close>
abbreviation kept :: "string option \<Rightarrow> bool" where
  "kept v \<equiv> v = None \<or> given v"

definition field_ok :: "field_spec \<Rightarrow> bool" where
  "field_ok f = ((case fs_schema f of JNull \<Rightarrow> True | JObj d \<Rightarrow> True | _ \<Rightarrow> False) \<and> kept (fs_format f))"

definition handler_ok :: "handler_binding \<Rightarrow> bool" where
  "handler_ok b =
     (kept (hb_function b) \<and> kept (hb_recipe b) \<and> kept (hb_url b) \<and> kept (hb_method b) \<and>
      (hb_function b \<noteq> None \<longrightarrow> hb_type b = ''registered_function'') \<and>
      (hb_recipe b \<noteq> None \<longrightarrow> hb_type b = ''composition'') \<and>
      (hb_url b \<noteq> None \<longrightarrow> hb_type b \<in> {''external_service'', ''proxy''}) \<and>
      map_option upper (hb_method b) = hb_method b \<and>
      (hb_type b \<noteq> ''external_service'' \<longrightarrow>
         hb_method b = None \<and> hb_headers b = [] \<and> hb_input_transform b = [] \<and> hb_output_transform b = [] \<and>
         hb_error_map b = [] \<and> hb_timeout_seconds b = DEFAULT_EXTERNAL_SERVICE_TIMEOUT_SECONDS))"

definition deprecation_ok :: "endpoint_deprecation \<Rightarrow> bool" where
  "deprecation_ok e =
     (ed_deprecated_in e \<noteq> [] \<and> kept (ed_removed_in e) \<and> kept (ed_successor_method e) \<and>
      kept (ed_successor_path e) \<and> map_option upper (ed_successor_method e) = ed_successor_method e)"

definition endpoint_ok :: "endpoint \<Rightarrow> bool" where
  "endpoint_ok e =
     (upper (es_name e) = es_name e \<and> kept (es_path e) \<and> kept (es_namespace e) \<and> es_error_codes e \<noteq> [] \<and>
      list_all field_ok (es_required_params e) \<and> list_all field_ok (es_optional_params e) \<and>
      list_all field_ok (es_output e) \<and>
      (case es_handler e of None \<Rightarrow> True | Some h \<Rightarrow> handler_ok h) \<and>
      (case es_deprecated e of None \<Rightarrow> True | Some d \<Rightarrow> deprecation_ok d))"

lemma jget_entry_if [json_simps]:
  "jget (entry_if k' c v @ d) k = (if k = k' \<and> c then v else jget d k)"
  "jget (entry_if k' c v) k = (if k = k' \<and> c then v else JNull)"
  by (simp_all add: entry_if_def jget_def)

lemma semantic_roundtrip: "semantic_from_dict repr (semantic_to_dict s) = Inr s"
proof (cases s)
  case (fields i a out cap conf imp idem)
  then show ?thesis
    by (cases conf; cases idem)
       (simp_all add: semantic_from_dict_def semantic_to_dict_def json_simps text_or_def get_or_def either_key_def
          opt_float_def)
qed

lemma field_roundtrip:
  assumes "field_ok f"
  shows "bind_res (field_to_dict f) (field_from_dict repr) = Inr f"
proof (cases f)
  case (fields name t desc schema enum fmt)
  show ?thesis
    using assms unfolding fields
    by (cases schema; cases enum; cases fmt)
       (simp_all add: field_ok_def field_to_dict_def field_from_dict_def json_simps text_or_def get_or_def opt_text_def)
qed

lemma field_dict: "field_ok f \<Longrightarrow> \<exists>d. field_to_dict f = Inr d \<and> field_from_dict repr d = Inr f"
  using field_roundtrip[of f repr] by (cases "field_to_dict f") simp_all

lemma field_dicts_roundtrip:
  "list_all field_ok fs \<Longrightarrow> \<exists>v. field_dicts fs = Inr (JArr v) \<and> map_res (field_from_item repr) v = Inr fs"
proof (induction fs)
  case (Cons f fs)
  then obtain v d where v: "field_dicts fs = Inr (JArr v)" "map_res (field_from_item repr) v = Inr fs"
    "field_to_dict f = Inr d" "field_from_dict repr d = Inr f" using field_dict[of f repr] by auto
  have "map_res (\<lambda>f. map_sum id JObj (field_to_dict f)) fs = Inr v"
    using v(1) unfolding field_dicts_def by (cases "map_res (\<lambda>f. map_sum id JObj (field_to_dict f)) fs") simp_all
  moreover have "field_from_item repr (JObj d) = Inr f" using v(4) by (simp add: field_from_item_def)
  ultimately show ?case using v by (simp add: field_dicts_def)
qed (simp add: field_dicts_def)

lemma text_items_texts: "text_items repr (texts d) = Inr d"
  by (simp add: text_items_def texts_def o_def map_prod_def split_beta)

lemma texts_empty: "text_items repr (JObj []) = Inr []"
  by (simp add: text_items_def)

lemma post_init_new [simp]: "post_init None None None b = b"
  by (simp add: post_init_def)

lemma read_texts: "text_items repr (jor (texts d) (JObj [])) = Inr d"
proof -
  have "jor (texts d) (JObj []) = texts d" by (cases d) (simp_all add: jor_def texts_def)
  then show ?thesis by (simp only: text_items_texts)
qed

lemma external_roundtrip:
  assumes "handler_ok b" and "hb_type b = ''external_service''"
  shows "handler_from_dict repr (handler_to_dict b) = Inr b"
proof (cases b)
  case (fields t fn rec url m hd inp outp errs tm)
  have fs: "fn = None" "rec = None" "t = ''external_service''" using assms by (auto simp: handler_ok_def fields)
  show ?thesis using assms unfolding fields fs
    by (cases url; cases m)
       (simp_all add: handler_ok_def handler_from_dict_def handler_to_dict_def Let_def reference_entry_def external_entries_def
          json_simps text_or_def get_or_def reference_under_def opt_text_def opt_str_def read_texts opt_float_def text_of_opt_def
          texts_empty)
qed

lemma internal_roundtrip:
  assumes "handler_ok b" and "hb_type b \<noteq> ''external_service''"
  shows "handler_from_dict repr (handler_to_dict b) = Inr b"
proof (cases b)
  case (fields t fn rec url m hd inp outp errs tm)
  have fs: "m = None" "hd = []" "inp = []" "outp = []" "errs = []" "tm = DEFAULT_EXTERNAL_SERVICE_TIMEOUT_SECONDS"
    using assms by (auto simp: handler_ok_def fields)
  consider "t = ''registered_function''" | "t = ''composition''" | "t = ''proxy''"
    | "t \<notin> {''registered_function'', ''composition'', ''proxy''}" by blast
  then show ?thesis using assms unfolding fields fs
    by cases (cases fn; cases rec; cases url;
       simp add: handler_ok_def handler_from_dict_def handler_to_dict_def Let_def reference_entry_def
          json_simps text_or_def get_or_def reference_under_def opt_text_def opt_str_def texts_empty opt_float_def text_of_opt_def)+
qed

lemma handler_roundtrip: "handler_ok b \<Longrightarrow> handler_from_dict repr (handler_to_dict b) = Inr b"
  using internal_roundtrip external_roundtrip by blast

lemma deprecation_roundtrip:
  assumes "deprecation_ok e"
  shows "deprecation_from_dict repr (deprecation_to_dict e) = e"
proof (cases e)
  case (fields since gone m p)
  show ?thesis using assms unfolding fields
    by (cases gone; cases m; cases p)
       (simp_all add: deprecation_ok_def deprecation_from_dict_def deprecation_to_dict_def json_simps text_or_def get_or_def
          opt_text_def text_of_opt_def)
qed

text \<open>The optional entries are read back one key at a time.\<close>
lemma optional_keys:
  "jget (optional_entries e) ''path'' = (case es_path e of None \<Rightarrow> JNull | Some p \<Rightarrow> JStr p)"
  "jget (optional_entries e) ''namespace'' = (if given (es_namespace e) then JStr (text_of_opt (es_namespace e)) else JNull)"
  "jget (optional_entries e) ''semantic'' = (case es_semantic e of None \<Rightarrow> JNull | Some s \<Rightarrow> JObj (semantic_to_dict s))"
  "jget (optional_entries e) ''handler'' = (case es_handler e of None \<Rightarrow> JNull | Some s \<Rightarrow> JObj (handler_to_dict s))"
  "jget (optional_entries e) ''required_scopes'' =
     (if es_required_scopes e \<noteq> [] then JArr (map JStr (es_required_scopes e)) else JNull)"
  "jget (optional_entries e) ''deprecated'' = (case es_deprecated e of None \<Rightarrow> JNull | Some s \<Rightarrow> JObj (deprecation_to_dict s))"
  by (cases "es_path e"; cases "es_semantic e"; cases "es_handler e"; cases "es_deprecated e";
      simp add: optional_entries_def json_simps)+

lemma kept_text: "kept v \<Longrightarrow> (case v of None \<Rightarrow> False | Some s \<Rightarrow> s \<noteq> []) = (v \<noteq> None)"
  by (cases v) simp_all

lemma items_of_texts: "map_sum id (map (py_str repr)) (iter_items (jor (JArr (map JStr ss)) (JArr []))) = Inr ss"
  by (simp add: jor_def o_def)

lemma texts_of_texts: "map (py_str repr \<circ> JStr) ss = ss"
  by (simp add: o_def)

lemma jor_arr: "jor (JArr v) (JArr []) = JArr v"
  by (simp add: jor_def)

lemma deprecation_read:
  "case_option True deprecation_ok (es_deprecated e) \<Longrightarrow>
   jget d ''deprecated'' = jget (optional_entries e) ''deprecated'' \<Longrightarrow> deprecation_block repr d = es_deprecated e"
  by (cases "es_deprecated e")
     (simp_all add: deprecation_block_def optional_keys deprecation_roundtrip, simp add: deprecation_to_dict_def json_simps deprecation_ok_def)

text \<open>C23: a declaration survives its wire form.  What the manifest and the persisted files
  hold of an endpoint is read back as the same endpoint: fields with their schemas and
  enumerations, the semantic block, the handler binding of each kind, scopes, errors and
  deprecation.  The declaration must be one the writers keep whole: method names in upper
  case, optional texts absent or not empty, some error code, a handler that sets the
  attributes of its kind only, and field schemas that are tables.\<close>
theorem endpoint_roundtrip:
  assumes "endpoint_ok e"
  shows "bind_res (endpoint_to_dict e) (endpoint_from_dict repr) = Inr e"
proof -
  obtain req where req: "field_dicts (es_required_params e) = Inr (JArr req)"
    "map_res (field_from_item repr) req = Inr (es_required_params e)"
    using assms field_dicts_roundtrip[of "es_required_params e" repr] by (auto simp: endpoint_ok_def)
  obtain opt where opt: "field_dicts (es_optional_params e) = Inr (JArr opt)"
    "map_res (field_from_item repr) opt = Inr (es_optional_params e)"
    using assms field_dicts_roundtrip[of "es_optional_params e" repr] by (auto simp: endpoint_ok_def)
  obtain outp where outp: "field_dicts (es_output e) = Inr (JArr outp)"
    "map_res (field_from_item repr) outp = Inr (es_output e)"
    using assms field_dicts_roundtrip[of "es_output e" repr] by (auto simp: endpoint_ok_def)
  define d where "d = [(''method'', JStr (es_name e)), (''input'', JObj [(''required'', JArr req), (''optional'', JArr opt)]),
         (''output'', JArr outp), (''errors'', JArr (map JStr (es_errors e))),
         (''name'', JStr (es_name e)), (''description'', JStr (es_description e)),
         (''required_params'', JArr req), (''optional_params'', JArr opt),
         (''category'', JStr (es_category e)), (''error_codes'', JArr (es_error_codes e))] @ optional_entries e"
  have w: "endpoint_to_dict e = Inr d" by (simp add: endpoint_to_dict_def req(1) opt(1) outp(1) d_def)
  have d: "jget d ''method'' = JStr (es_name e)" "get_or dflt d ''name'' = JStr (es_name e)"
    "jget d ''input'' = JObj [(''required'', JArr req), (''optional'', JArr opt)]" "jget d ''output'' = JArr outp"
    "jget d ''errors'' = JArr (map JStr (es_errors e))" "jget d ''description'' = JStr (es_description e)"
    "get_or dflt d ''category'' = JStr (es_category e)" "jget d ''error_codes'' = JArr (es_error_codes e)" for dflt
    by (simp_all add: d_def json_simps get_or_def)
  have o: "jget d ''path'' = jget (optional_entries e) ''path''" "jget d ''namespace'' = jget (optional_entries e) ''namespace''"
    "jget d ''semantic'' = jget (optional_entries e) ''semantic''" "jget d ''handler'' = jget (optional_entries e) ''handler''"
    "jget d ''required_scopes'' = jget (optional_entries e) ''required_scopes''"
    "jget d ''deprecated'' = jget (optional_entries e) ''deprecated''"
    by (simp_all add: d_def json_simps)
  have sem: "sub_block (semantic_from_dict repr) (jget d ''semantic'') = Inr (es_semantic e)"
    by (cases "es_semantic e") (simp_all add: o optional_keys sub_block_def semantic_roundtrip)
  have hdl: "sub_block (handler_from_dict repr) (jget d ''handler'') = Inr (es_handler e)"
    using assms by (cases "es_handler e") (simp_all add: o optional_keys sub_block_def handler_roundtrip endpoint_ok_def)
  have dep: "deprecation_block repr d = es_deprecated e"
    by (rule deprecation_read) (use assms in \<open>simp_all add: endpoint_ok_def o\<close>)
  have scopes: "str_items repr d ''required_scopes'' = Inr (es_required_scopes e)"
    by (simp add: str_items_def o optional_keys jor_arr texts_of_texts)
  have errs: "str_items repr d ''errors'' = Inr (es_errors e)"
    by (simp add: str_items_def d(5) items_of_texts)
  have opts: "opt_text repr d ''path'' = es_path e" "opt_text repr d ''namespace'' = es_namespace e"
    using assms by (cases "es_path e"; cases "es_namespace e";
      simp add: endpoint_ok_def opt_text_def o optional_keys text_of_opt_def)+
  have name: "upper (py_str repr (jor (JStr (es_name e)) (JStr (es_name e)))) = es_name e"
    using assms by (simp add: endpoint_ok_def jor_def)
  have codes: "jor (JArr (es_error_codes e)) default_error_codes = JArr (es_error_codes e)"
    using assms by (simp add: endpoint_ok_def jor_def)
  have descr: "py_str repr (jor (JStr (es_description e)) (JStr [])) = es_description e" by (simp add: jor_def)
  show ?thesis
    by (simp add: w endpoint_from_dict_def d input_lists_def json_simps jor_arr fields_of_def
        req(2) opt(2) outp(2) sem hdl errs scopes codes dep opts name descr text_or_def)
qed

text \<open>A sample declaration.\<close>
definition example_endpoint :: endpoint where
  "example_endpoint =
     \<lparr>es_name = ''BOOK'', es_path = Some ''/room'', es_description = ''Book a room'',
      es_required_params = [\<lparr>fs_name = ''guest'', fs_type = ''object'', fs_description = ''who'',
        fs_schema = JObj [(''type'', JStr ''object'')], fs_enum = None, fs_format = None\<rparr>],
      es_optional_params = [], es_output = [], es_errors = [''room_unavailable''],
      es_semantic = Some \<lparr>se_intent = ''Book'', se_actor = ''agent'', se_outcome = ''booked'',
        se_capability = JStr ''transaction'', se_confidence = Some (3 / 4), se_impact = JStr ''reversible'',
        se_is_idempotent = Some False\<rparr>,
      es_handler = Some \<lparr>hb_type = ''external_service'', hb_function = None, hb_recipe = None,
        hb_url = Some ''https://host'', hb_method = Some ''POST'', hb_headers = [(''Accept'', ''*'')],
        hb_input_transform = [], hb_output_transform = [], hb_error_map = [(''409'', ''room_unavailable'')],
        hb_timeout_seconds = 5\<rparr>,
      es_required_scopes = [''book''], es_deprecated = None, es_namespace = None,
      es_category = ''custom'', es_error_codes = [JInt 400]\<rparr>"

lemma endpoint_roundtrip_witness:
  "bind_res (endpoint_to_dict example_endpoint) (endpoint_from_dict (\<lambda>v. [])) = Inr example_endpoint"
proof -
  have "endpoint_ok example_endpoint"
  proof -
    have "upper ''BOOK'' = ''BOOK''" "upper ''POST'' = ''POST''" by code_simp+
    then show ?thesis by (simp add: endpoint_ok_def example_endpoint_def field_ok_def handler_ok_def)
  qed
  then show ?thesis by (rule endpoint_roundtrip)
qed

end
