(* ===== verification/Catalog.thy ===== *)
theory Catalog
  imports Prelude
begin

text \<open>
  core/methods.py: the verb catalog, its queries, the Levenshtein distance and
  the suggestions of a 459 refusal.  The catalog document (core/methods.json)
  is the argument of every operation; a set of verbs is a list.
\<close>

section \<open>The catalog\<close>

record verb_catalog =
  cg_version :: json
  cg_methods :: "(string, jobj) dict"
  cg_embedded :: "string list"
  cg_legacy :: "(string, jobj) dict"

definition verb_table :: "json \<Rightarrow> (string, jobj) dict" where
  "verb_table v = (case v of JObj d \<Rightarrow> map (\<lambda>(k, e). (k, case e of JObj d \<Rightarrow> d | _ \<Rightarrow> [])) d | _ \<Rightarrow> [])"

text \<open>Old documents keep the table under the key verbs.\<close>
definition load_methods_doc :: "jobj \<Rightarrow> jobj" where
  "load_methods_doc raw =
     (case (dict_get raw ''methods'', dict_get raw ''verbs'') of
        (None, Some v) \<Rightarrow> dict_set ''methods'' v raw
      | _ \<Rightarrow> raw)"

definition catalog_of :: "jobj \<Rightarrow> verb_catalog" where
  "catalog_of raw =
     (let d = load_methods_doc raw in
      \<lparr>cg_version = jget d ''version'', cg_methods = verb_table (jget d ''methods''),
       cg_embedded = (case jget d ''embedded'' of JArr xs \<Rightarrow> map (\<lambda>x. case x of JStr s \<Rightarrow> s | _ \<Rightarrow> []) xs | _ \<Rightarrow> []),
       cg_legacy = verb_table (jget d ''legacy'')\<rparr>)"

definition approved_verbs :: "verb_catalog \<Rightarrow> string list" where
  "approved_verbs cg = dict_keys (cg_methods cg)"

definition legacy_verbs :: "verb_catalog \<Rightarrow> string list" where
  "legacy_verbs cg = dict_keys (cg_legacy cg)"

definition all_protocol_verbs :: "verb_catalog \<Rightarrow> string list" where
  "all_protocol_verbs cg = remdups (approved_verbs cg @ cg_embedded cg)"

definition is_approved_verb :: "verb_catalog \<Rightarrow> string \<Rightarrow> bool" where
  "is_approved_verb cg name = (upper name \<in> set (all_protocol_verbs cg))"

definition is_legacy_verb :: "verb_catalog \<Rightarrow> string \<Rightarrow> bool" where
  "is_legacy_verb cg name = (upper name \<in> set (legacy_verbs cg))"

definition is_embedded_verb :: "verb_catalog \<Rightarrow> string \<Rightarrow> bool" where
  "is_embedded_verb cg name = (upper name \<in> set (cg_embedded cg))"

definition categorize :: "verb_catalog \<Rightarrow> string \<Rightarrow> (py_error + json list) option" where
  "categorize cg name =
     map_option (\<lambda>e. case dict_get e ''categories'' of
        None \<Rightarrow> Inl (KeyError ''categories'') | Some v \<Rightarrow> iter_items v) (dict_get (cg_methods cg) (upper name))"

definition describe :: "(json \<Rightarrow> string) \<Rightarrow> verb_catalog \<Rightarrow> string \<Rightarrow> string option" where
  "describe repr cg name =
     map_option (\<lambda>e. py_str repr (get_or (JStr []) e ''description'')) (dict_get (cg_methods cg) (upper name))"

definition get_legacy_preferred :: "(json \<Rightarrow> string) \<Rightarrow> verb_catalog \<Rightarrow> string \<Rightarrow> string option" where
  "get_legacy_preferred repr cg name =
     (case dict_get (cg_legacy cg) (upper name) of
        None \<Rightarrow> None
      | Some e \<Rightarrow> (let p = py_str repr (jget e ''preferred'') in if p = [] then None else Some p))"

definition catalog_version :: "(json \<Rightarrow> string) \<Rightarrow> verb_catalog \<Rightarrow> string" where
  "catalog_version repr cg = py_str repr (jor (cg_version cg) (JStr ''1.0.0''))"

definition catalog_versions_supported :: "(json \<Rightarrow> string) \<Rightarrow> verb_catalog \<Rightarrow> string list" where
  "catalog_versions_supported repr cg = [catalog_version repr cg]"

definition is_deprecated :: "verb_catalog \<Rightarrow> string \<Rightarrow> bool" where
  "is_deprecated cg name =
     (case dict_get (cg_methods cg) (upper name) of None \<Rightarrow> False | Some e \<Rightarrow> dict_get e ''deprecated_in'' \<noteq> None)"

record deprecation =
  dp_deprecated_in :: string
  dp_removed_in :: "string option"
  dp_successor :: "string option"

definition deprecation_metadata :: "(json \<Rightarrow> string) \<Rightarrow> verb_catalog \<Rightarrow> string \<Rightarrow> deprecation option" where
  "deprecation_metadata repr cg name =
     (case dict_get (cg_methods cg) (upper name) of
        None \<Rightarrow> None
      | Some e \<Rightarrow> map_option (\<lambda>v.
          \<lparr>dp_deprecated_in = py_str repr v,
           dp_removed_in = (let r = jget e ''removed_in'' in if truthy r then Some (py_str repr r) else None),
           dp_successor = (let r = jget e ''successor'' in if truthy r then Some (upper (py_str repr r)) else None)\<rparr>)
          (dict_get e ''deprecated_in''))"

section \<open>Levenshtein distance\<close>

text \<open>One row of the table: the entries right of a first one, from the row above.\<close>
fun lev_row :: "char \<Rightarrow> nat list \<Rightarrow> string \<Rightarrow> nat \<Rightarrow> nat list" where
  "lev_row ca (diag # over # prev) (cb # bs) left =
     (let v = min (min (over + 1) (left + 1)) (diag + (if ca = cb then 0 else 1))
      in v # lev_row ca (over # prev) bs v)" |
  "lev_row ca prev bs left = []"

fun lev_rows :: "string \<Rightarrow> nat \<Rightarrow> nat list \<Rightarrow> string \<Rightarrow> nat list" where
  "lev_rows [] i prev b = prev" |
  "lev_rows (ca # as) i prev b = lev_rows as (Suc i) (i # lev_row ca prev b i) b"

definition levenshtein :: "string \<Rightarrow> string \<Rightarrow> nat" where
  "levenshtein a b =
     (if a = b then 0 else if a = [] then length b else if b = [] then length a
      else last (lev_rows a 1 [0..<length b + 1] b))"

section \<open>Suggestions\<close>

fun add_suggestions :: "nat \<Rightarrow> string list \<Rightarrow> string list \<Rightarrow> string list" where
  "add_suggestions limit [] out = out" |
  "add_suggestions limit (cand # cands) out =
     (let out' = (if cand \<in> set out then out else out @ [cand])
      in if limit \<le> length out' then out' else add_suggestions limit cands out')"

definition scored_candidates :: "verb_catalog \<Rightarrow> string \<Rightarrow> nat \<Rightarrow> (nat \<times> string) list" where
  "scored_candidates cg name max_distance =
     sort (map (\<lambda>cand. (levenshtein name cand, cand))
       (filter (\<lambda>cand. cand \<noteq> name \<and> levenshtein name cand \<le> max_distance) (all_protocol_verbs cg)))"

definition find_close_matches :: "(json \<Rightarrow> string) \<Rightarrow> verb_catalog \<Rightarrow> string \<Rightarrow> nat \<Rightarrow> nat \<Rightarrow> string list" where
  "find_close_matches repr cg name max_distance limit =
     (let u = upper name;
          first = (if u \<in> set (legacy_verbs cg)
                   then (case get_legacy_preferred repr cg u of None \<Rightarrow> [] | Some p \<Rightarrow> [p]) else [])
      in take limit (add_suggestions limit (map snd (scored_candidates cg u max_distance)) first))"

section \<open>The distance is the least number of edits\<close>

text \<open>One insertion, deletion or substitution.\<close>
inductive one_edit :: "string \<Rightarrow> string \<Rightarrow> bool" where
  insertion: "one_edit b (y # b)"
| deletion: "one_edit (x # b) b"
| substitution: "one_edit (x # b) (y # b)"
| tail: "one_edit b c \<Longrightarrow> one_edit (x # b) (x # c)"

inductive_cases one_edit_NilE: "one_edit [] c"
inductive_cases one_edit_ConsE: "one_edit (x # b) c"

lemmas one_edit_cases = one_edit_ConsE[consumes 1, case_names ins del sub rest]

text \<open>Alignments: a transformation with its cost.\<close>
inductive aligned :: "string \<Rightarrow> string \<Rightarrow> nat \<Rightarrow> bool" where
  empty: "aligned [] [] 0"
| keep: "aligned a b n \<Longrightarrow> aligned (x # a) (x # b) n"
| change: "aligned a b n \<Longrightarrow> aligned (x # a) (y # b) (Suc n)"
| insert: "aligned a b n \<Longrightarrow> aligned a (y # b) (Suc n)"
| delete: "aligned a b n \<Longrightarrow> aligned (x # a) b (Suc n)"

inductive_cases aligned_Nil1E: "aligned [] b n"
inductive_cases aligned_Nil2E: "aligned a [] n"

lemma aligned_refl: "aligned a a 0"
  by (induction a) (auto intro: aligned.intros)

lemma edits_tail: "(one_edit ^^ n) a b \<Longrightarrow> (one_edit ^^ n) (x # a) (x # b)"
  by (induction n arbitrary: b) (auto intro: one_edit.tail)

lemma aligned_edits: "aligned a b n \<Longrightarrow> (one_edit ^^ n) a b"
proof (induction rule: aligned.induct)
  case (change a b n x y)
  have "(one_edit ^^ n) (y # a) (y # b)" by (rule edits_tail[OF change.IH])
  then show ?case by (rule relpowp_Suc_I2[rotated]) (rule one_edit.substitution)
next
  case (insert a b n y)
  show ?case by (rule relpowp_Suc_I[OF insert.IH]) (rule one_edit.insertion)
next
  case (delete a b n x)
  show ?case by (rule relpowp_Suc_I2[OF _ delete.IH]) (rule one_edit.deletion)
qed (simp_all add: edits_tail)

lemma aligned_step: "aligned a b n \<Longrightarrow> one_edit b c \<Longrightarrow> \<exists>m \<le> Suc n. aligned a c m"
proof (induction arbitrary: c rule: aligned.induct)
  case empty
  then obtain y where "c = [y]" by (rule one_edit_NilE)
  then have "aligned [] c (Suc 0)" by (simp add: aligned.insert aligned.empty)
  then show ?case by blast
next
  case (keep a b n x)
  from keep.prems show ?case
  proof (cases rule: one_edit_cases)
    case (ins z)
    have "aligned (x # a) c (Suc n)" unfolding ins by (rule aligned.insert[OF aligned.keep[OF keep.hyps]])
    then show ?thesis by blast
  next
    case del
    have "aligned (x # a) c (Suc n)" unfolding del by (rule aligned.delete[OF keep.hyps])
    then show ?thesis by blast
  next
    case (sub z)
    have "aligned (x # a) c (Suc n)" unfolding sub by (rule aligned.change[OF keep.hyps])
    then show ?thesis by blast
  next
    case (rest d)
    obtain m where "m \<le> Suc n" "aligned a d m" using keep.IH[OF rest(2)] by blast
    then show ?thesis unfolding rest(1) using aligned.keep by blast
  qed
next
  case (change a b n x y)
  from change.prems show ?case
  proof (cases rule: one_edit_cases)
    case (ins z)
    have "aligned (x # a) c (Suc (Suc n))" unfolding ins by (rule aligned.insert[OF aligned.change[OF change.hyps]])
    then show ?thesis by blast
  next
    case del
    have "aligned (x # a) c (Suc n)" unfolding del by (rule aligned.delete[OF change.hyps])
    then show ?thesis by (meson le_SucI order_refl)
  next
    case (sub z)
    have "aligned (x # a) c (Suc n)" unfolding sub by (rule aligned.change[OF change.hyps])
    then show ?thesis by (meson le_SucI order_refl)
  next
    case (rest d)
    obtain m where "m \<le> Suc n" "aligned a d m" using change.IH[OF rest(2)] by blast
    then have "aligned (x # a) c (Suc m)" "Suc m \<le> Suc (Suc n)" unfolding rest(1) by (simp_all add: aligned.change)
    then show ?thesis by blast
  qed
next
  case (insert a b n y)
  from insert.prems show ?case
  proof (cases rule: one_edit_cases)
    case (ins z)
    have "aligned a c (Suc (Suc n))" unfolding ins by (rule aligned.insert[OF aligned.insert[OF insert.hyps]])
    then show ?thesis by blast
  next
    case del
    then show ?thesis using insert.hyps by (meson le_SucI order_refl)
  next
    case (sub z)
    have "aligned a c (Suc n)" unfolding sub by (rule aligned.insert[OF insert.hyps])
    then show ?thesis by (meson le_SucI order_refl)
  next
    case (rest d)
    obtain m where "m \<le> Suc n" "aligned a d m" using insert.IH[OF rest(2)] by blast
    then have "aligned a c (Suc m)" "Suc m \<le> Suc (Suc n)" unfolding rest(1) by (simp_all add: aligned.insert)
    then show ?thesis by blast
  qed
next
  case (delete a b n x)
  obtain m where "m \<le> Suc n" "aligned a c m" using delete.IH[OF delete.prems] by blast
  then have "aligned (x # a) c (Suc m)" "Suc m \<le> Suc (Suc n)" by (simp_all add: aligned.delete)
  then show ?case by blast
qed

lemma edits_aligned: "(one_edit ^^ n) a b \<Longrightarrow> \<exists>m \<le> n. aligned a b m"
proof (induction n arbitrary: b)
  case 0
  then show ?case using aligned_refl by auto
next
  case (Suc n)
  then obtain c where c: "(one_edit ^^ n) a c" "one_edit c b" by auto
  obtain m where m: "m \<le> n" "aligned a c m" using Suc.IH[OF c(1)] by blast
  obtain k where "k \<le> Suc m" "aligned a b k" using aligned_step[OF m(2) c(2)] by blast
  then show ?case using m(1) by (intro exI[of _ k]) simp
qed


section \<open>The table computes the distance\<close>

fun edit :: "string \<Rightarrow> string \<Rightarrow> nat" where
  "edit [] b = length b" |
  "edit (x # a) [] = Suc (length a)" |
  "edit (x # a) (y # b) =
     min (min (edit a (y # b) + 1) (edit (x # a) b + 1)) (edit a b + (if x = y then 0 else 1))"

lemma edit_Nil2 [simp]: "edit a [] = length a"
  by (cases a) simp_all

lemma aligned_Nil1: "aligned [] b (length b)"
  by (induction b) (auto intro: aligned.intros)

lemma aligned_Nil2: "aligned a [] (length a)"
  by (induction a) (auto intro: aligned.intros)

lemma edit_aligned: "aligned a b (edit a b)"
proof (induction a b rule: edit.induct)
  case (1 b)
  then show ?case by (simp add: aligned_Nil1)
next
  case (2 x a)
  then show ?case using aligned_Nil2[of "x # a"] by simp
next
  case (3 x a y b)
  have i: "aligned (x # a) (y # b) (edit (x # a) b + 1)" "aligned (x # a) (y # b) (edit a (y # b) + 1)"
    "aligned (x # a) (y # b) (edit a b + (if x = y then 0 else 1))"
    using 3 aligned.insert aligned.delete aligned.change aligned.keep by (auto split: if_splits)
  have "edit (x # a) (y # b) \<in> {edit (x # a) b + 1, edit a (y # b) + 1, edit a b + (if x = y then 0 else 1)}"
    by (auto simp: min_def)
  then show ?case using i by auto
qed

lemma edit_insert: "edit a (y # b) \<le> Suc (edit a b)"
  by (cases a) simp_all

lemma edit_delete: "edit (x # a) b \<le> Suc (edit a b)"
  by (cases b) simp_all

lemma edit_least: "aligned a b n \<Longrightarrow> edit a b \<le> n"
proof (induction rule: aligned.induct)
  case (insert a b n y)
  then show ?case using edit_insert[of a y b] by simp
next
  case (delete a b n x)
  then show ?case using edit_delete[of x a b] by simp
qed auto

lemma aligned_append: "aligned a b n \<Longrightarrow> aligned c d m \<Longrightarrow> aligned (a @ c) (b @ d) (n + m)"
  by (induction rule: aligned.induct) (auto intro: aligned.intros)

lemma aligned_rev: "aligned a b n \<Longrightarrow> aligned (rev a) (rev b) n"
proof (induction rule: aligned.induct)
  case empty
  then show ?case by (simp add: aligned.empty)
next
  case (keep a b n x)
  have "aligned [x] [x] 0" by (rule aligned_refl)
  from aligned_append[OF keep.IH this] show ?case by simp
next
  case (change a b n x y)
  have "aligned [x] [y] (Suc 0)" by (rule aligned.change[OF aligned.empty])
  from aligned_append[OF change.IH this] show ?case by simp
next
  case (insert a b n y)
  have "aligned [] [y] (Suc 0)" by (rule aligned.insert[OF aligned.empty])
  from aligned_append[OF insert.IH this] show ?case by simp
next
  case (delete a b n x)
  have "aligned [x] [] (Suc 0)" by (rule aligned.delete[OF aligned.empty])
  from aligned_append[OF delete.IH this] show ?case by simp
qed

lemma edit_rev: "edit (rev a) (rev b) = edit a b"
  using edit_least[OF aligned_rev[OF edit_aligned[of a b]]]
    edit_least[OF aligned_rev[OF edit_aligned[of "rev a" "rev b"]]] by simp

text \<open>The row of the characters read so far, last first.\<close>
definition row :: "string \<Rightarrow> string \<Rightarrow> nat \<Rightarrow> nat list" where
  "row p b k = map (\<lambda>j. edit p (rev (take j b))) [k..<Suc (length b)]"

lemma row_step: "k < Suc (length b) \<Longrightarrow> row p b k = edit p (rev (take k b)) # row p b (Suc k)"
  by (simp add: row_def upt_rec)

lemma lev_row_correct:
  "k \<le> length b \<Longrightarrow> lev_row ca (row p b k) (drop k b) (edit (ca # p) (rev (take k b))) = row (ca # p) b (Suc k)"
proof (induction "length b - k" arbitrary: k)
  case 0
  then have "k = length b" by simp
  then show ?case by (simp add: row_def)
next
  case (Suc n)
  then have k: "k < length b" by simp
  have t: "rev (take (Suc k) b) = b ! k # rev (take k b)" using k by (simp add: take_Suc_conv_app_nth)
  have d: "drop k b = b ! k # drop (Suc k) b" using k by (simp add: Cons_nth_drop_Suc)
  have rows: "row p b k = edit p (rev (take k b)) # edit p (rev (take (Suc k) b)) # row p b (Suc (Suc k))"
    "row p b (Suc k) = edit p (rev (take (Suc k) b)) # row p b (Suc (Suc k))"
    "row (ca # p) b (Suc k) = edit (ca # p) (rev (take (Suc k) b)) # row (ca # p) b (Suc (Suc k))"
    using k row_step by simp_all
  have v: "edit (ca # p) (rev (take (Suc k) b)) =
     min (min (edit p (rev (take (Suc k) b)) + 1) (edit (ca # p) (rev (take k b)) + 1))
         (edit p (rev (take k b)) + (if ca = b ! k then 0 else 1))" unfolding t by simp
  have ih: "lev_row ca (row p b (Suc k)) (drop (Suc k) b) (edit (ca # p) (rev (take (Suc k) b))) =
      row (ca # p) b (Suc (Suc k))" using Suc k by simp
  show ?case unfolding rows(1,3) d lev_row.simps(1) Let_def v[symmetric] ih[unfolded rows(2)] by simp
qed

lemma lev_rows_correct:
  "lev_rows a (Suc (length p)) (row p b 0) b = row (rev a @ p) b 0"
proof (induction a arbitrary: p)
  case (Cons ca a)
  have "lev_row ca (row p b 0) b (Suc (length p)) = row (ca # p) b (Suc 0)"
    using lev_row_correct[of 0 b ca p] by simp
  then have "Suc (length p) # lev_row ca (row p b 0) b (Suc (length p)) = row (ca # p) b 0"
    by (simp add: row_step[of 0])
  then show ?case using Cons[of "ca # p"] by simp
qed simp

lemma levenshtein_edit: "levenshtein a b = edit a b"
proof -
  have s: "edit c c = 0" for c using edit_least[OF aligned_refl] by simp
  have r: "[0..<length b + 1] = row [] b 0"
    by (rule nth_equalityI) (simp_all add: row_def del: upt_Suc)
  have l: "row p b 0 ! length b = edit p (rev b)" "length (row p b 0) = Suc (length b)" for p
    by (simp_all add: row_def del: upt_Suc)
  have "last (row p b 0) = edit p (rev b)" for p
    using l by (metis diff_Suc_1 last_conv_nth length_0_conv nat.distinct(1))
  then have "last (lev_rows a 1 [0..<length b + 1] b) = edit a b"
    using lev_rows_correct[of a "[]" b] edit_rev r by simp
  then show ?thesis using s by (simp add: levenshtein_def)
qed

text \<open>C20: the two-row table computes the edit distance.  The result of the iterative
  routine is the least number of single-character insertions, deletions and substitutions
  that turn the first text into the second, and that many edits do turn it.\<close>
theorem levenshtein_least:
  "levenshtein a b = (LEAST n. (one_edit ^^ n) a b) \<and> (one_edit ^^ levenshtein a b) a b"
proof -
  have e: "(one_edit ^^ edit a b) a b" by (rule aligned_edits[OF edit_aligned])
  have "edit a b \<le> n" if n: "(one_edit ^^ n) a b" for n
  proof -
    obtain m where "m \<le> n" "aligned a b m" using edits_aligned[OF n] by blast
    then show ?thesis using edit_least[of a b m] by simp
  qed
  then show ?thesis using e unfolding levenshtein_edit by (simp add: Least_equality)
qed

section \<open>The suggestions are the nearest verbs\<close>

lemma add_suggestions_plain:
  "distinct cands \<Longrightarrow> set cands \<inter> set out = {} \<Longrightarrow> length out < limit \<Longrightarrow>
   add_suggestions limit cands out = out @ take (limit - length out) cands"
proof (induction limit cands out rule: add_suggestions.induct)
  case (2 limit cand cands out)
  show ?case
  proof (cases "limit \<le> Suc (length out)")
    case True
    then have "limit - length out = 1" using 2(4) by simp
    then show ?thesis using 2(3) True by simp
  next
    case False
    have "add_suggestions limit cands (out @ [cand]) = (out @ [cand]) @ take (limit - length (out @ [cand])) cands"
      using 2(1)[of "out @ [cand]"] 2(2,3) False by auto
    moreover have "limit - length out = Suc (limit - Suc (length out))" using 2(4) by simp
    ultimately show ?thesis using 2(3) False by simp
  qed
qed simp

lemma scored_mem:
  "x \<in> set (scored_candidates cg name d) \<longleftrightarrow>
   (\<exists>v \<in> set (all_protocol_verbs cg). v \<noteq> name \<and> levenshtein name v \<le> d \<and> x = (levenshtein name v, v))"
  by (auto simp: scored_candidates_def)

lemma scored_distinct: "distinct (map snd (scored_candidates cg name d))"
proof -
  have "distinct (filter (\<lambda>cand. cand \<noteq> name \<and> levenshtein name cand \<le> d) (all_protocol_verbs cg))"
    by (simp add: all_protocol_verbs_def)
  then have "distinct (map (\<lambda>cand. (levenshtein name cand, cand))
      (filter (\<lambda>cand. cand \<noteq> name \<and> levenshtein name cand \<le> d) (all_protocol_verbs cg)))"
    by (simp add: distinct_map inj_on_def)
  then have "distinct (scored_candidates cg name d)" unfolding scored_candidates_def by simp
  moreover have "inj_on snd (set (scored_candidates cg name d))"
    by (rule inj_onI) (auto simp: scored_mem)
  ultimately show ?thesis by (simp add: distinct_map)
qed

text \<open>The suggestions of a refusal are the nearest verbs, nearest first.  For a name
  that is not a legacy verb and a positive limit, the suggestions are at most that many
  protocol verbs other than the name, all different, within the distance bound, in order of
  distance and then of name, and a verb within the bound that is left out comes after every
  one that is listed, the limit being reached.\<close>
theorem suggestions_nearest:
  assumes "upper name \<notin> set (legacy_verbs cg)" and "0 < limit"
  shows "let out = find_close_matches repr cg name d limit; u = upper name;
             near = {v \<in> set (all_protocol_verbs cg). v \<noteq> u \<and> levenshtein u v \<le> d}
         in set out \<subseteq> near \<and> distinct out \<and> length out = min limit (card near) \<and>
            sorted (map (\<lambda>v. (levenshtein u v, v)) out) \<and>
            (\<forall>v \<in> near - set out. \<forall>w \<in> set out. (levenshtein u w, w) \<le> (levenshtein u v, v))"
proof -
  define u where "u = upper name"
  define sc where "sc = scored_candidates cg u d"
  define near where "near = {v \<in> set (all_protocol_verbs cg). v \<noteq> u \<and> levenshtein u v \<le> d}"
  define out where "out = find_close_matches repr cg name d limit"
  have out: "out = take limit (map snd sc)"
    using add_suggestions_plain[of "map snd sc" "[]" limit] scored_distinct[of cg u d] assms
    by (simp add: out_def find_close_matches_def Let_def u_def[symmetric] sc_def)
  have near: "set (map snd sc) = near"
    by (auto simp: near_def sc_def scored_mem image_iff Bex_def)
  have pairs: "map (\<lambda>v. (levenshtein u v, v)) (map snd sc) = sc"
    unfolding map_map by (rule map_idI) (auto simp: sc_def scored_mem)
  have pair_of: "x = (levenshtein u (snd x), snd x)" if "x \<in> set sc" for x
    using that by (auto simp: sc_def scored_mem)
  have srt: "sorted sc" by (simp add: sc_def scored_candidates_def)
  have dist: "distinct (map snd sc)" unfolding sc_def by (rule scored_distinct)
  have card: "card near = length sc" using distinct_card[OF dist] near by simp
  have sorted_out: "sorted (map (\<lambda>v. (levenshtein u v, v)) out)"
    unfolding out take_map[symmetric] pairs by (rule sorted_wrt_take[OF srt])
  have rest: "(levenshtein u w, w) \<le> (levenshtein u v, v)" if v: "v \<in> near - set out" and w: "w \<in> set out" for v w
  proof -
      have "v \<in> set (take limit (map snd sc)) \<union> set (drop limit (map snd sc))"
      using v near unfolding set_append[symmetric] append_take_drop_id by blast
    then have "v \<in> snd ` set (drop limit sc)" using v unfolding out by (simp add: drop_map)
    then have "(levenshtein u v, v) \<in> set (drop limit sc)"
      using pair_of in_set_dropD by fastforce
    moreover have "w \<in> snd ` set (take limit sc)" using w unfolding out by (simp add: take_map)
    then have "(levenshtein u w, w) \<in> set (take limit sc)"
      using pair_of in_set_takeD by fastforce
    moreover have "sorted (take limit sc @ drop limit sc)" using srt by simp
    ultimately show ?thesis unfolding sorted_append by blast
  qed
  have "length out = min limit (card near)" using out card by simp
  moreover have "set out \<subseteq> near" unfolding out near[symmetric] by (rule set_take_subset)
  moreover have "distinct out" unfolding out by (rule distinct_take[OF dist])
  ultimately show ?thesis using sorted_out rest
    unfolding Let_def out_def[symmetric] u_def[symmetric] near_def[symmetric] by blast
qed


definition example_catalog :: verb_catalog where
  "example_catalog = \<lparr>cg_version = JStr ''1.0.0'', cg_methods = [(''FETCH'', []), (''FIND'', []), (''QUERY'', [])],
     cg_embedded = [''QUERY''], cg_legacy = [(''GET'', [(''preferred'', JStr ''FETCH'')])]\<rparr>"

lemma suggestions_nearest_witness:
  "distinct (find_close_matches (\<lambda>v. []) example_catalog ''fetc'' 2 3) \<and>
   set (find_close_matches (\<lambda>v. []) example_catalog ''fetc'' 2 3) \<subseteq> {''FETCH'', ''FIND'', ''QUERY''}"
proof -
  have "upper ''fetc'' = ''FETC''" by code_simp
  then have l: "upper ''fetc'' \<notin> set (legacy_verbs example_catalog)"
    by (simp add: legacy_verbs_def example_catalog_def)
  from suggestions_nearest[OF l, of 3 "\<lambda>v. []" 2] show ?thesis
    by (auto simp: Let_def all_protocol_verbs_def approved_verbs_def example_catalog_def)
qed

end
