(* ===== verification/Path_Grammar.thy ===== *)
theory Path_Grammar
  imports Catalog
begin

text \<open>
  core/path_grammar.py: the structural rules of endpoint paths and the rule
  that no segment is a verb.  The part of urllib.parse.urlparse that a path
  beginning with a slash meets is modelled: dropped line breaks and tabs, the
  authority after two slashes, the fragment, the query and the parameters of
  the last segment.
\<close>

section \<open>Reading a path as a URL\<close>

datatype path_error =
    InvalidFormat string
  | VerbInPath string
  | DiscoverReservedPrefix string
  | InvalidNetloc

definition url_delim :: "char \<Rightarrow> bool" where
  "url_delim c = (c = CHR ''/'' \<or> c = CHR ''?'' \<or> c = CHR ''#'')"

definition drop_breaks :: "string \<Rightarrow> string" where
  "drop_breaks s = filter (\<lambda>c. c \<noteq> CHR 0x09 \<and> c \<noteq> CHR 0x0A \<and> c \<noteq> CHR 0x0D) s"

text \<open>The authority and what follows it.\<close>
definition split_netloc :: "string \<Rightarrow> string \<times> string" where
  "split_netloc s =
     (if starts_with ''//'' s
      then (takeWhile (\<lambda>c. \<not> url_delim c) (drop 2 s), dropWhile (\<lambda>c. \<not> url_delim c) (drop 2 s))
      else ([], s))"

definition cut_at :: "char \<Rightarrow> string \<Rightarrow> string" where
  "cut_at c s = takeWhile (\<lambda>x. x \<noteq> c) s"

text \<open>The path without the parameters of its last segment.\<close>
definition cut_params :: "string \<Rightarrow> string" where
  "cut_params s =
     (let tail = rev (takeWhile (\<lambda>c. c \<noteq> CHR ''/'') (rev s));
          front = take (length s - length tail) s
      in front @ cut_at (CHR '';'') tail)"

definition url_path :: "string \<Rightarrow> path_error + (string \<times> string)" where
  "url_path s =
     (case split_netloc (drop_breaks s) of (netloc, rest) \<Rightarrow>
        if (CHR ''['' \<in> set netloc) \<noteq> (CHR '']'' \<in> set netloc) then Inl InvalidNetloc
        else Inr (netloc, cut_params (cut_at (CHR ''?'') (cut_at (CHR ''#'') rest))))"

section \<open>The grammar\<close>

definition path_protocol_verbs :: "verb_catalog \<Rightarrow> string list" where
  "path_protocol_verbs cg = approved_verbs cg @ legacy_verbs cg"

definition ends_with :: "string \<Rightarrow> string \<Rightarrow> bool" where
  "ends_with p s = starts_with (rev p) (rev s)"

definition parameterized :: "string \<Rightarrow> bool" where
  "parameterized seg = (starts_with ''{'' seg \<and> ends_with ''}'' seg)"

definition normalized_segment :: "string \<Rightarrow> string" where
  "normalized_segment seg = filter (\<lambda>c. c \<noteq> CHR ''-'' \<and> c \<noteq> CHR ''_'') (upper seg)"

definition segments :: "string \<Rightarrow> string list" where
  "segments p = filter (\<lambda>s. s \<noteq> []) (split_char (CHR ''/'') p)"

fun check_segments :: "verb_catalog \<Rightarrow> string list \<Rightarrow> path_error option" where
  "check_segments cg [] = None" |
  "check_segments cg (seg # segs) =
     (if parameterized seg then check_segments cg segs
      else if normalized_segment seg \<in> set (path_protocol_verbs cg) then Some (VerbInPath seg)
      else check_segments cg segs)"

definition validate_path :: "verb_catalog \<Rightarrow> string \<Rightarrow> path_error option" where
  "validate_path cg path =
     (if \<not> starts_with ''/'' path then Some (InvalidFormat (''Path must begin with '' @ [CHR 0x27, CHR ''/'', CHR 0x27]))
      else if path \<noteq> ''/'' \<and> ends_with ''/'' path then Some (InvalidFormat ''Path must not have a trailing slash'')
      else (case url_path path of
              Inl e \<Rightarrow> Some e
            | Inr (netloc, p) \<Rightarrow>
                if netloc \<noteq> [] then Some (InvalidFormat ''Path must be a relative URI path, not an absolute URL'')
                else check_segments cg (segments p)))"

definition discover_reserved_roots :: "string list" where
  "discover_reserved_roots =
     [''agents'', ''methods'', ''tools'', ''apis'', ''genesis'', ''patterns'', ''contracts'', ''population'', ''providers'']"

definition validate_discover_path :: "verb_catalog \<Rightarrow> string \<Rightarrow> path_error option" where
  "validate_discover_path cg path =
     (case validate_path cg path of
        Some e \<Rightarrow> Some e
      | None \<Rightarrow>
          (case segments path of
             [] \<Rightarrow> None
           | seg # _ \<Rightarrow>
               (let first = lower seg in
                if parameterized first \<or> first \<in> set discover_reserved_roots then None
                else if list_ex (\<lambda>root. starts_with root first) discover_reserved_roots
                     then Some (DiscoverReservedPrefix first) else None)))"

section \<open>The documented rules\<close>

text \<open>A path of ordinary characters: no query, fragment, parameter or line break.\<close>
definition plain_path :: "string \<Rightarrow> bool" where
  "plain_path p = (\<forall>c \<in> set p. c \<notin> set ''?#;'' \<and> c \<noteq> CHR 0x09 \<and> c \<noteq> CHR 0x0A \<and> c \<noteq> CHR 0x0D)"

definition documented_path :: "verb_catalog \<Rightarrow> string \<Rightarrow> bool" where
  "documented_path cg p =
     (starts_with ''/'' p \<and> (p = ''/'' \<or> \<not> ends_with ''/'' p) \<and>
      (\<forall>seg \<in> set (segments p). parameterized seg \<or> normalized_segment seg \<notin> set (path_protocol_verbs cg)))"

lemma check_segments_None:
  "check_segments cg segs = None \<longleftrightarrow>
   (\<forall>seg \<in> set segs. parameterized seg \<or> normalized_segment seg \<notin> set (path_protocol_verbs cg))"
  by (induction segs) auto

lemma takeWhile_all: "(\<And>x. x \<in> set s \<Longrightarrow> P x) \<Longrightarrow> takeWhile P s = s"
  by (simp add: takeWhile_eq_all_conv)

lemma cut_params_plain: "CHR '';'' \<notin> set s \<Longrightarrow> cut_params s = s"
proof -
  assume a: "CHR '';'' \<notin> set s"
  define tail where "tail = rev (takeWhile (\<lambda>c. c \<noteq> CHR ''/'') (rev s))"
  have e: "s = rev (dropWhile (\<lambda>c. c \<noteq> CHR ''/'') (rev s)) @ tail"
    unfolding tail_def by (metis rev_append rev_rev_ident takeWhile_dropWhile_id)
  have "set tail \<subseteq> set s" using e by (metis set_append Un_upper2)
  then have "cut_at (CHR '';'') tail = tail" unfolding cut_at_def using a by (intro takeWhile_all) auto
  moreover have "take (length s - length tail) s = rev (dropWhile (\<lambda>c. c \<noteq> CHR ''/'') (rev s))"
    by (subst (2) e, subst e) simp
  ultimately show ?thesis using e by (simp add: cut_params_def tail_def[symmetric])
qed

lemma url_path_plain:
  assumes "plain_path p" "\<not> starts_with ''//'' p"
  shows "url_path p = Inr ([], p)"
proof -
  have d: "drop_breaks p = p" using assms(1) unfolding drop_breaks_def plain_path_def by (simp add: filter_id_conv)
  have "cut_at (CHR ''#'') p = p" "cut_at (CHR ''?'') p = p" "CHR '';'' \<notin> set p"
    using assms(1) by (auto simp: plain_path_def cut_at_def takeWhile_eq_all_conv)
  then show ?thesis using assms(2) by (simp add: url_path_def d split_netloc_def cut_params_plain)
qed



text \<open>A malformed authority escapes the validator.  A path that begins with two
  slashes and holds an unmatched bracket makes the URL parser raise its own ValueError,
  which is neither acceptance nor the PathGrammarError that the dispatcher turns into a
  460 refusal; a well-formed authority is refused as an absolute URL.\<close>
theorem path_grammar_unhandled:
  "validate_path cg ''//[a'' = Some InvalidNetloc \<and>
   (\<exists>msg. validate_path cg ''//a/b'' = Some (InvalidFormat msg))"
proof -
  have u: "url_path ''//[a'' = Inl InvalidNetloc" "url_path ''//a/b'' = Inr (''a'', ''/b'')" by code_simp+
  have s: "starts_with ''/'' ''//[a''" "\<not> ends_with ''/'' ''//[a''" "starts_with ''/'' ''//a/b''" "\<not> ends_with ''/'' ''//a/b''"
    by code_simp+
  show ?thesis by (simp add: validate_path_def u s)
qed

end
