(* ===== verification/Endpoint_Registry.thy ===== *)
theory Endpoint_Registry
  imports Endpoint Path_Grammar
begin

text \<open>
  server/endpoint_registry.py: the checks of a registration, the registry of bound
  endpoints and its manifest section; server/schema_validation.py: the JSON schemas
  that section holds; core/endpoint_tiers.py: the tier of an endpoint.  A handler is
  a value of any type.  Attributes have the types core/endpoint.py gives them, so the
  checks that an attribute is a list or a string have no branch here.
\<close>

section \<open>Refusals\<close>

text \<open>An InvalidEndpointError by its detail tag, a DuplicateEndpointError, and an
  exception of another kind that escapes.\<close>
datatype registry_error =
    InvalidEndpoint string
  | DuplicateEndpoint string string
  | Escaped py_error

text \<open>Checks in sequence: the first refusal.\<close>
fun first_some :: "'a option list \<Rightarrow> 'a option" where
  "first_some [] = None" |
  "first_some (None # xs) = first_some xs" |
  "first_some (Some x # xs) = Some x"

definition refuse_if :: "bool \<Rightarrow> string \<Rightarrow> registry_error option" where
  "refuse_if c detail = (if c then Some (InvalidEndpoint detail) else None)"

section \<open>The checks\<close>

definition validate_param :: "string \<Rightarrow> nat \<times> field_spec \<Rightarrow> registry_error option" where
  "validate_param kind ip =
     (case ip of (i, p) \<Rightarrow>
        let tag = (\<lambda>reason. ''param-bad-shape:'' @ kind @ '':'' @ show_int (int i) @ '':'' @ reason)
        in first_some
          [refuse_if (fs_name p = []) (tag ''empty-name''),
           refuse_if (fs_type p \<notin> set ALL_PARAM_TYPES) (tag ''bad-type''),
           refuse_if (fs_description p = []) (tag ''empty-description'')])"

definition validate_params :: "string \<Rightarrow> field_spec list \<Rightarrow> registry_error option" where
  "validate_params kind ps = first_some (map (validate_param kind) (enumerate 0 ps))"

definition blank :: "string \<Rightarrow> bool" where
  "blank s = (strip s = [])"

definition missing_field :: "string \<Rightarrow> json \<Rightarrow> registry_error option" where
  "missing_field name v =
     refuse_if (case v of JNull \<Rightarrow> True | JStr s \<Rightarrow> blank s | _ \<Rightarrow> False) (''semantic-missing-field:'' @ name)"

text \<open>Membership in a set of names; a container is not hashable.\<close>
definition one_of :: "string list \<Rightarrow> json \<Rightarrow> string \<Rightarrow> registry_error option" where
  "one_of names v detail =
     (if \<not> hashable v then Some (Escaped TypeError)
      else refuse_if (v \<notin> JStr ` set names) detail)"

definition validate_semantic :: "semantic_block option \<Rightarrow> registry_error option" where
  "validate_semantic semantic =
     (case semantic of
        None \<Rightarrow> Some (InvalidEndpoint ''semantic-missing'')
      | Some s \<Rightarrow> first_some
          [missing_field ''intent'' (JStr (se_intent s)),
           missing_field ''actor'' (JStr (se_actor s)),
           missing_field ''outcome'' (JStr (se_outcome s)),
           missing_field ''capability'' (se_capability s),
           missing_field ''confidence'' (case se_confidence s of None \<Rightarrow> JNull | Some r \<Rightarrow> JFloat r),
           missing_field ''impact'' (se_impact s),
           missing_field ''is_idempotent'' (case se_is_idempotent s of None \<Rightarrow> JNull | Some b \<Rightarrow> JBool b),
           one_of ALL_CAPABILITIES (se_capability s) ''semantic-bad-capability'',
           one_of ALL_IMPACTS (se_impact s) ''semantic-bad-impact'',
           refuse_if (case se_confidence s of None \<Rightarrow> True | Some r \<Rightarrow> \<not> (0 \<le> r \<and> r \<le> 1))
             ''semantic-bad-confidence''])"

definition external_service_methods :: "string list" where
  "external_service_methods = [''GET'', ''POST'', ''PUT'', ''PATCH'', ''DELETE'', ''HEAD'', ''OPTIONS'']"

definition undeclared :: "string list \<Rightarrow> string \<times> string \<Rightarrow> registry_error option" where
  "undeclared errs kv = refuse_if (snd kv \<notin> set errs) (''external-service-error-map-undeclared:'' @ snd kv)"

definition https_url :: "handler_binding \<Rightarrow> bool" where
  "https_url b = starts_with ''https:'' (strip (text_of_opt (hb_url b)))"

definition validate_external_service :: "handler_binding \<Rightarrow> string list \<Rightarrow> registry_error option" where
  "validate_external_service b errs = first_some
     ([refuse_if (\<not> given (hb_method b)) ''external-service-missing-method'',
       refuse_if (text_of_opt (hb_method b) \<notin> set external_service_methods) ''external-service-bad-method'',
       refuse_if (\<not> https_url b) ''external-service-bad-scheme'',
       refuse_if (hb_timeout_seconds b \<le> 0) ''external-service-bad-timeout''] @
      map (undeclared errs) (hb_error_map b))"

text \<open>The reference the check reads: a binding of any other kind has an empty one.\<close>
definition checked_reference :: "handler_binding \<Rightarrow> string" where
  "checked_reference b =
     (if hb_type b = ''registered_function'' then text_of_opt (hb_function b)
      else if hb_type b = ''composition'' then text_of_opt (hb_recipe b)
      else if hb_type b = ''external_service'' then text_of_opt (hb_url b)
      else [])"

definition validate_handler :: "handler_binding option \<Rightarrow> string list \<Rightarrow> registry_error option" where
  "validate_handler handler errs =
     (case handler of
        None \<Rightarrow> Some (InvalidEndpoint ''handler-missing'')
      | Some b \<Rightarrow> first_some
          [refuse_if (hb_type b \<notin> set ALL_HANDLER_TYPES) ''handler-bad-type'',
           refuse_if (checked_reference b = []) ''handler-empty-reference'',
           if hb_type b = ''external_service'' then validate_external_service b errs else None])"

definition validate_spec_path :: "verb_catalog \<Rightarrow> string option \<Rightarrow> registry_error option" where
  "validate_spec_path cg path =
     (if \<not> given path then Some (InvalidEndpoint ''path-missing'')
      else (case validate_path cg (text_of_opt path) of
              None \<Rightarrow> None
            | Some InvalidNetloc \<Rightarrow> Some (Escaped ValueError)
            | Some (VerbInPath _) \<Rightarrow> Some (InvalidEndpoint ''path-grammar:verb-in-path'')
            | Some _ \<Rightarrow> Some (InvalidEndpoint ''path-grammar:invalid-format'')))"

definition validate_errors :: "string list \<Rightarrow> registry_error option" where
  "validate_errors errs = first_some
     (map (\<lambda>(i, e). refuse_if (blank e) (''errors-bad-shape:'' @ show_int (int i))) (enumerate 0 errs))"

definition validate_scopes :: "string list \<Rightarrow> registry_error option" where
  "validate_scopes scopes = first_some (map (\<lambda>s. refuse_if (blank s) ''required-scopes-bad-shape'') scopes)"

definition validate_spec :: "verb_catalog \<Rightarrow> endpoint \<Rightarrow> registry_error option" where
  "validate_spec cg e = first_some
     [refuse_if (\<not> is_approved_verb cg (upper (es_name e))) ''verb-not-in-catalog'',
      validate_spec_path cg (es_path e),
      validate_semantic (es_semantic e),
      validate_params ''input.required'' (es_required_params e),
      validate_params ''input.optional'' (es_optional_params e),
      validate_params ''output'' (es_output e),
      validate_errors (es_errors e),
      validate_handler (es_handler e) (es_errors e),
      validate_scopes (es_required_scopes e)]"

section \<open>The registry\<close>

record 'h registry =
  rg_entries :: "(string \<times> string, endpoint \<times> 'h) dict"
  rg_paths :: "(string, string list) dict"

definition new_endpoint_registry :: "'h registry" where
  "new_endpoint_registry = \<lparr>rg_entries = [], rg_paths = []\<rparr>"

definition register_endpoint ::
    "verb_catalog \<Rightarrow> endpoint \<Rightarrow> 'h \<Rightarrow> 'h registry \<Rightarrow> 'h registry \<times> registry_error option" where
  "register_endpoint cg e h rg =
     (case validate_spec cg e of
        Some err \<Rightarrow> (rg, Some err)
      | None \<Rightarrow>
          (let m = upper (es_name e); p = text_of_opt (es_path e) in
           if dict_get (rg_entries rg) (m, p) \<noteq> None then (rg, Some (DuplicateEndpoint m p))
           else (rg\<lparr>rg_entries := dict_set (m, p) (e, h) (rg_entries rg),
                    rg_paths := dict_set p (List.insert m (get_or [] (rg_paths rg) p)) (rg_paths rg)\<rparr>, None)))"

definition lookup_endpoint :: "string \<Rightarrow> string \<Rightarrow> 'h registry \<Rightarrow> (endpoint \<times> 'h) option" where
  "lookup_endpoint m p rg = dict_get (rg_entries rg) (upper m, p)"

definition methods_for_path :: "string \<Rightarrow> 'h registry \<Rightarrow> string list" where
  "methods_for_path p rg = get_or [] (rg_paths rg) p"

definition has_path :: "string \<Rightarrow> 'h registry \<Rightarrow> bool" where
  "has_path p rg = (methods_for_path p rg \<noteq> [])"

definition all_endpoints :: "'h registry \<Rightarrow> endpoint list" where
  "all_endpoints rg = map fst (dict_values (rg_entries rg))"

definition endpoint_count :: "'h registry \<Rightarrow> nat" where
  "endpoint_count rg = length (rg_entries rg)"

section \<open>Schemas\<close>

definition add_default :: "string \<Rightarrow> json option \<Rightarrow> jobj \<Rightarrow> jobj" where
  "add_default k v d = (case v of Some x \<Rightarrow> if dict_get d k = None then dict_set k x d else d | None \<Rightarrow> d)"

definition schema_fragment :: "field_spec \<Rightarrow> jobj" where
  "schema_fragment f =
     (let enum = map_option JArr (fs_enum f); fmt = map_option JStr (fs_format f);
          descr = (if fs_description f = [] then None else Some (JStr (fs_description f)))
      in (case fs_schema f of
            JObj (kv # kvs) \<Rightarrow>
              add_default ''description'' descr (add_default ''format'' fmt (add_default ''enum'' enum (kv # kvs)))
          | _ \<Rightarrow> [(''type'', JStr (fs_type f))] @
              (case descr of None \<Rightarrow> [] | Some v \<Rightarrow> [(''description'', v)]) @
              (case enum of None \<Rightarrow> [] | Some v \<Rightarrow> [(''enum'', v)]) @
              (case fmt of None \<Rightarrow> [] | Some v \<Rightarrow> [(''format'', v)])))"

definition add_properties :: "field_spec list \<Rightarrow> jobj \<Rightarrow> jobj" where
  "add_properties fs d = fold (\<lambda>f. dict_set (fs_name f) (JObj (schema_fragment f))) fs d"

definition object_schema :: "jobj \<Rightarrow> string list \<Rightarrow> bool \<Rightarrow> jobj" where
  "object_schema props required open_ended =
     [(''$schema'', JStr ''https://json-schema.org/draft/2020-12/schema''), (''type'', JStr ''object''),
      (''properties'', JObj props), (''additionalProperties'', JBool open_ended)] @
     entry_if ''required'' (required \<noteq> []) (JArr (map JStr (sort required)))"

definition spec_to_input_schema :: "endpoint \<Rightarrow> jobj" where
  "spec_to_input_schema e =
     object_schema (add_properties (es_optional_params e) (add_properties (es_required_params e) []))
       (map fs_name (es_required_params e)) False"

definition spec_to_output_schema :: "endpoint \<Rightarrow> jobj" where
  "spec_to_output_schema e = object_schema (add_properties (es_output e) []) (map fs_name (es_output e)) True"

section \<open>The manifest section\<close>

definition manifest_entry :: "endpoint \<Rightarrow> py_error + jobj" where
  "manifest_entry e =
     bind_res (endpoint_to_dict e) (\<lambda>full. Inr
       ([(''method'', jget full ''method''), (''path'', jget full ''path''),
         (''description'', get_or (JStr []) full ''description''),
         (''input_schema'', JObj (spec_to_input_schema e)), (''output_schema'', JObj (spec_to_output_schema e)),
         (''errors'', jget full ''errors'')] @
        entry_if ''namespace'' (dict_get full ''namespace'' \<noteq> None) (jget full ''namespace'') @
        entry_if ''semantic'' (dict_get full ''semantic'' \<noteq> None) (jget full ''semantic'') @
        (case es_handler e of None \<Rightarrow> [] | Some b \<Rightarrow> [(''handler'', JObj [(''type'', JStr (hb_type b))])]) @
        entry_if ''required_scopes'' (dict_get full ''required_scopes'' \<noteq> None) (jget full ''required_scopes'') @
        (case es_deprecated e of None \<Rightarrow> [] | Some x \<Rightarrow> [(''deprecated'', JObj (deprecation_to_dict x))])))"

definition render_manifest_section :: "'h registry \<Rightarrow> py_error + jobj list" where
  "render_manifest_section rg = map_res manifest_entry (all_endpoints rg)"

section \<open>Tiers\<close>

definition tier_a_reserved_endpoints :: "(string \<times> string) list" where
  "tier_a_reserved_endpoints =
     [(''DISCOVER'', ''/''), (''DISCOVER'', ''/methods''), (''DISCOVER'', ''/agents''), (''DISCOVER'', ''/tools''),
      (''DISCOVER'', ''/apis''), (''DISCOVER'', ''/genesis''), (''DISCOVER'', ''/patterns''),
      (''DISCOVER'', ''/contracts''), (''QUERY'', ''/proposals'')]"

text \<open>The registry and the table of contracts may be absent; builtin says which handlers
  carry the marker of the built-in endpoints.\<close>
definition classify_tier ::
    "('h \<Rightarrow> bool) \<Rightarrow> 'h registry option \<Rightarrow> (string \<Rightarrow> string \<Rightarrow> bool) option \<Rightarrow> string \<Rightarrow> string \<Rightarrow> string" where
  "classify_tier builtin registry contract m p =
     (if (upper m, p) \<in> set tier_a_reserved_endpoints then ''A''
      else (case Option.bind registry (lookup_endpoint (upper m) p) of
              Some (e, h) \<Rightarrow> if builtin h then ''A'' else ''B''
            | None \<Rightarrow>
                (case contract of
                   Some resolve \<Rightarrow> if resolve (upper m) p then ''C'' else ''unregistered''
                 | None \<Rightarrow> ''unregistered'')))"

text \<open>The inventory walks all_endpoints, which returns the declarations without their
  handlers, so no entry of the registry carries the marker.\<close>
definition tier_a_inventory :: "'h registry option \<Rightarrow> (string \<times> string) list" where
  "tier_a_inventory registry = sort tier_a_reserved_endpoints"

section \<open>What a check that passes says\<close>

lemma first_some_None: "first_some xs = None \<longleftrightarrow> (\<forall>x \<in> set xs. x = None)"
  by (induction xs rule: first_some.induct) simp_all

lemma refuse_if_None [simp]: "refuse_if c d = None \<longleftrightarrow> \<not> c"
  by (simp add: refuse_if_def)

lemma validate_spec_path_None:
  "validate_spec_path cg path = None \<longleftrightarrow> (\<exists>p. path = Some p \<and> p \<noteq> [] \<and> validate_path cg p = None)"
  by (cases path) (auto simp: validate_spec_path_def text_of_opt_def split: option.splits path_error.splits)

lemma validate_semantic_None:
  "validate_semantic s = None \<Longrightarrow> \<exists>b c. s = Some b \<and> se_confidence b = Some c \<and> 0 \<le> c \<and> c \<le> 1 \<and>
     se_capability b \<in> JStr ` set ALL_CAPABILITIES \<and> se_impact b \<in> JStr ` set ALL_IMPACTS"
  by (auto simp: validate_semantic_def first_some_None one_of_def split: option.splits if_splits)

lemma validate_handler_None:
  assumes "validate_handler h errs = None"
  shows "\<exists>b. h = Some b \<and> hb_type b \<in> {''registered_function'', ''composition'', ''external_service''} \<and>
     reference_value b \<noteq> [] \<and>
     (hb_type b = ''external_service'' \<longrightarrow> https_url b \<and> 0 < hb_timeout_seconds b \<and> snd ` set (hb_error_map b) \<subseteq> set errs)"
proof -
  obtain b where b: "h = Some b" using assms by (cases h) (simp_all add: validate_handler_def)
  have c: "checked_reference b \<noteq> []" "hb_type b = ''external_service'' \<longrightarrow> validate_external_service b errs = None"
    using assms by (simp_all add: b validate_handler_def first_some_None split: if_splits)
  have t: "hb_type b \<in> {''registered_function'', ''composition'', ''external_service''}"
    using c(1) by (auto simp: checked_reference_def split: if_splits)
  moreover have "reference_value b = checked_reference b"
    using t by (auto simp: reference_value_def checked_reference_def)
  moreover have "https_url b \<and> 0 < hb_timeout_seconds b \<and> snd ` set (hb_error_map b) \<subseteq> set errs"
    if "validate_external_service b errs = None"
    using that by (auto simp: validate_external_service_def first_some_None undeclared_def)
  ultimately show ?thesis using b c by auto
qed

lemma validate_spec_None:
  assumes "validate_spec cg e = None"
  shows "is_approved_verb cg (upper (es_name e))"
    and "\<exists>p. es_path e = Some p \<and> p \<noteq> [] \<and> validate_path cg p = None"
    and "validate_semantic (es_semantic e) = None"
    and "validate_handler (es_handler e) (es_errors e) = None"
  using assms by (simp_all add: validate_spec_def first_some_None validate_spec_path_None)

section \<open>The registry is exact\<close>

type_synonym 'h call = "endpoint \<times> 'h"

definition register_call :: "verb_catalog \<Rightarrow> 'h call \<Rightarrow> 'h registry \<Rightarrow> 'h registry" where
  "register_call cg c rg = fst (register_endpoint cg (fst c) (snd c) rg)"

text \<open>The calls that can bind a method and a path.\<close>
definition binds :: "verb_catalog \<Rightarrow> string \<Rightarrow> string \<Rightarrow> 'h call \<Rightarrow> bool" where
  "binds cg m p c =
     (validate_spec cg (fst c) = None \<and> upper (es_name (fst c)) = m \<and> es_path (fst c) = Some p)"

definition path_index_ok :: "'h registry \<Rightarrow> bool" where
  "path_index_ok rg = (\<forall>p. distinct (methods_for_path p rg) \<and>
     (\<forall>m. m \<in> set (methods_for_path p rg) \<longleftrightarrow> dict_get (rg_entries rg) (m, p) \<noteq> None))"

lemma register_call_entries:
  "dict_get (rg_entries (register_call cg c rg)) (m, p) =
     (case dict_get (rg_entries rg) (m, p) of
        Some x \<Rightarrow> Some x
      | None \<Rightarrow> if binds cg m p c then Some c else None)"
proof (cases "validate_spec cg (fst c)")
  case None
  obtain e h where c: "c = (e, h)" by (cases c)
  obtain q where q: "es_path e = Some q" using None validate_spec_None(2) by (auto simp: c)
  show ?thesis using None unfolding c
    by (cases "dict_get (rg_entries rg) (upper (es_name e), q)")
       (auto simp: register_call_def register_endpoint_def Let_def text_of_opt_def q binds_def split: option.split)
next
  case (Some err)
  then show ?thesis by (simp add: register_call_def register_endpoint_def binds_def split: option.split)
qed

lemma register_call_ok:
  assumes ok: "path_index_ok rg"
  shows "path_index_ok (register_call cg c rg)"
proof (cases "validate_spec cg (fst c) = None \<and>
    dict_get (rg_entries rg) (upper (es_name (fst c)), text_of_opt (es_path (fst c))) = None")
  case True
  then have e: "register_call cg c rg = rg\<lparr>
      rg_entries := dict_set (upper (es_name (fst c)), text_of_opt (es_path (fst c))) (fst c, snd c) (rg_entries rg),
      rg_paths := dict_set (text_of_opt (es_path (fst c)))
        (List.insert (upper (es_name (fst c))) (methods_for_path (text_of_opt (es_path (fst c))) rg)) (rg_paths rg)\<rparr>"
    by (simp add: register_call_def register_endpoint_def Let_def methods_for_path_def)
  have m: "methods_for_path p (register_call cg c rg) =
      (if p = text_of_opt (es_path (fst c)) then List.insert (upper (es_name (fst c))) (methods_for_path p rg)
       else methods_for_path p rg)" for p
    unfolding e by (simp add: methods_for_path_def get_or_def)
  show ?thesis unfolding path_index_ok_def m using ok by (auto simp: path_index_ok_def e)
next
  case False
  then have "register_call cg c rg = rg"
    by (auto simp: register_call_def register_endpoint_def Let_def split: option.split)
  then show ?thesis using ok by simp
qed

lemma run_registry_ok: "path_index_ok rg \<Longrightarrow> path_index_ok (run_events (register_call cg) calls rg)"
  by (induction calls arbitrary: rg) (simp_all add: register_call_ok)

lemma run_registry_entries:
  "dict_get (rg_entries (run_events (register_call cg) calls rg)) (m, p) =
     (case dict_get (rg_entries rg) (m, p) of Some x \<Rightarrow> Some x | None \<Rightarrow> find (binds cg m p) calls)"
  by (induction calls arbitrary: rg) (simp_all add: register_call_entries split: option.split)

text \<open>C22: the registry is the first valid registration of each method and path.  After any
  sequence of registrations, refused ones included, a lookup (in any letter case of the
  method) returns the first call of the sequence that passes validation and has that
  method and path, with its handler; the methods listed for a path are exactly those a
  lookup finds there, each once; and a further registration is accepted if and only if it
  passes validation and no lookup of its method and path succeeds yet.\<close>
theorem registry_exact:
  "let rg = run_events (register_call cg) calls new_endpoint_registry in
     lookup_endpoint m p rg = find (binds cg (upper m) p) calls \<and>
     distinct (methods_for_path p rg) \<and>
     (upper m \<in> set (methods_for_path p rg) \<longleftrightarrow> lookup_endpoint m p rg \<noteq> None) \<and>
     (snd (register_endpoint cg e h rg) = None \<longleftrightarrow>
        validate_spec cg e = None \<and> lookup_endpoint (es_name e) (text_of_opt (es_path e)) rg = None)"
proof -
  define rg where "rg = run_events (register_call cg) calls new_endpoint_registry"
  have ok: "path_index_ok rg" unfolding rg_def
    by (rule run_registry_ok) (simp add: path_index_ok_def new_endpoint_registry_def methods_for_path_def get_or_def)
  have "lookup_endpoint m p rg = find (binds cg (upper m) p) calls"
    by (simp add: lookup_endpoint_def rg_def run_registry_entries new_endpoint_registry_def)
  moreover have "distinct (methods_for_path p rg) \<and>
      (upper m \<in> set (methods_for_path p rg) \<longleftrightarrow> lookup_endpoint m p rg \<noteq> None)"
    using ok unfolding path_index_ok_def lookup_endpoint_def by blast
  moreover have "snd (register_endpoint cg e h rg) = None \<longleftrightarrow>
      validate_spec cg e = None \<and> lookup_endpoint (es_name e) (text_of_opt (es_path e)) rg = None"
    by (cases "dict_get (rg_entries rg) (upper (es_name e), text_of_opt (es_path e))")
      (simp_all add: register_endpoint_def lookup_endpoint_def Let_def split: option.split)
  ultimately show ?thesis unfolding Let_def rg_def[symmetric] by blast
qed

text \<open>What is registered keeps the documented contract.  Whatever was tried before, an
  endpoint a lookup finds has a catalog verb and a grammatical path, a semantic block with
  a known capability and impact and a confidence between 0 and 1, and a handler with a
  non-empty reference, of one of three kinds: an external service has an HTTPS address,
  a positive timeout and maps errors to declared ones only.  The fourth declared kind,
  proxy, is never registered, although the vocabulary of handler kinds lists it.\<close>
theorem registered_contract:
  assumes "lookup_endpoint m p (run_events (register_call cg) calls new_endpoint_registry) = Some (e, h)"
  shows "is_approved_verb cg (upper m) \<and> validate_path cg p = None \<and>
     (\<exists>s c. es_semantic e = Some s \<and> se_confidence s = Some c \<and> 0 \<le> c \<and> c \<le> 1 \<and>
        se_capability s \<in> JStr ` set ALL_CAPABILITIES \<and> se_impact s \<in> JStr ` set ALL_IMPACTS) \<and>
     (\<exists>b. es_handler e = Some b \<and> reference_value b \<noteq> [] \<and> hb_type b \<noteq> ''proxy'' \<and>
        hb_type b \<in> set ALL_HANDLER_TYPES \<and>
        (hb_type b = ''external_service'' \<longrightarrow>
           https_url b \<and> 0 < hb_timeout_seconds b \<and> snd ` set (hb_error_map b) \<subseteq> set (es_errors e)))"
proof -
  have "binds cg (upper m) p (e, h)"
    using assms by (auto simp: lookup_endpoint_def run_registry_entries new_endpoint_registry_def find_Some_iff)
  then have v: "validate_spec cg e = None" and m: "upper (es_name e) = upper m" and p: "es_path e = Some p"
    by (simp_all add: binds_def)
  obtain b where b: "es_handler e = Some b"
      "hb_type b \<in> {''registered_function'', ''composition'', ''external_service''}" "reference_value b \<noteq> []"
      "hb_type b = ''external_service'' \<longrightarrow> https_url b \<and> 0 < hb_timeout_seconds b \<and> snd ` set (hb_error_map b) \<subseteq> set (es_errors e)"
    using validate_handler_None[OF validate_spec_None(4)[OF v]] by blast
  have k: "hb_type b \<noteq> ''proxy'' \<and> hb_type b \<in> set ALL_HANDLER_TYPES" using b(2) by (auto simp: ALL_HANDLER_TYPES_def)
  have "validate_path cg p = None" using validate_spec_None(2)[OF v] p by auto
  then show ?thesis
    using validate_spec_None(1)[OF v] validate_semantic_None[OF validate_spec_None(3)[OF v]] b k m by metis
qed

text \<open>A binding with everything removed but its kind.\<close>
definition hide_binding :: "endpoint \<Rightarrow> endpoint" where
  "hide_binding e = e\<lparr>es_handler := map_option (\<lambda>b.
     \<lparr>hb_type = hb_type b, hb_function = None, hb_recipe = None, hb_url = None, hb_method = None, hb_headers = [],
      hb_input_transform = [], hb_output_transform = [], hb_error_map = [], hb_timeout_seconds = 0\<rparr>) (es_handler e)\<rparr>"

lemma written_keys:
  assumes "endpoint_to_dict e = Inr d"
  shows "jget d ''method'' = JStr (es_name e)" "get_or x d ''description'' = JStr (es_description e)"
    "jget d ''errors'' = JArr (map JStr (es_errors e))"
    "\<And>k. k \<in> {''path'', ''namespace'', ''semantic'', ''required_scopes''} \<Longrightarrow>
       dict_get d k = dict_get (optional_entries e) k"
  using assms by (auto simp: endpoint_to_dict_def bind_res_Inr jget_def get_or_def)

lemma optional_hidden:
  "k \<in> {''path'', ''namespace'', ''semantic'', ''required_scopes''} \<Longrightarrow>
   dict_get (optional_entries (hide_binding e)) k = dict_get (optional_entries e) k"
  by (cases "es_path e"; cases "es_semantic e"; cases "es_handler e"; cases "es_deprecated e")
     (auto simp: optional_entries_def hide_binding_def entry_if_def)

lemma manifest_entry_hidden: "manifest_entry (hide_binding e) = manifest_entry e"
proof -
  have s: "spec_to_input_schema (hide_binding e) = spec_to_input_schema e"
    "spec_to_output_schema (hide_binding e) = spec_to_output_schema e"
    by (simp_all add: spec_to_input_schema_def spec_to_output_schema_def hide_binding_def)
  have h: "(case es_handler (hide_binding e) of None \<Rightarrow> [] | Some b \<Rightarrow> [(''handler'', JObj [(''type'', JStr (hb_type b))])]) =
      (case es_handler e of None \<Rightarrow> [] | Some b \<Rightarrow> [(''handler'', JObj [(''type'', JStr (hb_type b))])])"
    by (simp add: hide_binding_def split: option.split)
  have same: "es_name (hide_binding e) = es_name e" "es_description (hide_binding e) = es_description e"
    "es_errors (hide_binding e) = es_errors e" "es_deprecated (hide_binding e) = es_deprecated e"
    by (simp_all add: hide_binding_def)
  show ?thesis
  proof (cases "endpoint_to_dict e")
    case (Inl x)
    then have "endpoint_to_dict (hide_binding e) = Inl x"
      by (auto simp: endpoint_to_dict_def hide_binding_def bind_res_Inl)
    then show ?thesis using Inl by (simp add: manifest_entry_def)
  next
    case (Inr d)
    then obtain d' where d': "endpoint_to_dict (hide_binding e) = Inr d'"
      by (auto simp: endpoint_to_dict_def hide_binding_def bind_res_Inr)
    have k: "dict_get d' k = dict_get d k" if "k \<in> {''path'', ''namespace'', ''semantic'', ''required_scopes''}" for k
      using that written_keys(4)[OF Inr that] written_keys(4)[OF d' that] by (simp add: optional_hidden)
    have j: "jget d' k = jget d k" if "k \<in> {''path'', ''namespace'', ''semantic'', ''required_scopes''}" for k
      using k[OF that] by (simp add: jget_def)
    show ?thesis
      by (simp add: manifest_entry_def Inr d' written_keys(1-3)[OF Inr] written_keys(1-3)[OF d'] s h same k j)
  qed
qed

text \<open>The manifest discloses no binding.  The section rendered from the registry is the
  one rendered after every handler binding has lost everything but its kind: function
  paths, recipe names, upstream addresses, headers, transforms and timeouts do not
  influence it, not even whether rendering raises.\<close>
theorem manifest_hides_bindings:
  "render_manifest_section rg = map_res manifest_entry (map hide_binding (all_endpoints rg))"
proof -
  have "map_res f (map g xs) = map_res (f \<circ> g) xs" for f :: "endpoint \<Rightarrow> py_error + jobj" and g :: "endpoint \<Rightarrow> endpoint" and xs
    by (induction xs) simp_all
  then show ?thesis by (simp add: render_manifest_section_def o_def manifest_entry_hidden)
qed

definition booking_catalog :: verb_catalog where
  "booking_catalog = example_catalog\<lparr>cg_methods := [(''BOOK'', [])]\<rparr>"

lemma registered_contract_witness:
  "is_approved_verb booking_catalog (upper ''book'') \<and> validate_path booking_catalog ''/room'' = None"
proof -
  have v: "validate_spec booking_catalog example_endpoint = None" by code_simp
  have n: "es_name example_endpoint = ''BOOK''" "es_path example_endpoint = Some ''/room''" by code_simp+
  have u: "upper ''BOOK'' = ''BOOK''" "upper ''book'' = ''BOOK''" by code_simp+
  have "lookup_endpoint ''book'' ''/room'' (run_events (register_call booking_catalog) [(example_endpoint, ())] new_endpoint_registry) =
      Some (example_endpoint, ())"
    by (simp add: lookup_endpoint_def register_call_entries new_endpoint_registry_def binds_def v n u)
  from registered_contract[OF this] show ?thesis by blast
qed

end
