(* ===== verification/Identity.thy ===== *)
theory Identity
  imports Prelude
begin

text \<open>
  core/identity.py: the Agent Document, the checks of its construction, its wire and
  YAML forms, the readers of both document versions, and the signature of a document
  by a registrar.  The entries of its lists are JSON values, as the reader copies
  them.  Base64, the signature scheme, the parsing of a PEM key, the canonical JSON
  encoder and repr are arguments.
\<close>

section \<open>Documents\<close>

record requires_declaration =
  rd_methods :: "json list"
  rd_scopes :: "json list"
  rd_wildcards :: bool

definition requires_to_dict :: "requires_declaration \<Rightarrow> jobj" where
  "requires_to_dict r =
     [(''methods'', JArr (rd_methods r)), (''scopes'', JArr (rd_scopes r)), (''wildcards'', JBool (rd_wildcards r))]"

record agent_document =
  ad_agtp_version :: string
  ad_document_version :: string
  ad_agent_id :: string
  ad_name :: string
  ad_role :: string
  ad_principal :: string
  ad_principal_id :: string
  ad_description :: string
  ad_status :: string
  ad_skills :: "json list"
  ad_requires :: requires_declaration
  ad_scopes_accepted :: "json list"
  ad_trust_tier :: int
  ad_verification_path :: string
  ad_trust_warning :: string
  ad_trust_score :: "rat option"
  ad_trust_score_computed_at :: string
  ad_owner_id :: string
  ad_issued_at :: string
  ad_issuer :: string
  ad_manifest_issuer :: string
  ad_manifest_issuer_public_key :: string
  ad_manifest_signature :: string
  ad_policies :: jobj

definition DOCUMENT_VERSION_V2 :: string where "DOCUMENT_VERSION_V2 = ''v2''"
definition DOCUMENT_VERSION_V1_MIGRATED :: string where "DOCUMENT_VERSION_V1_MIGRATED = ''v1-migrated''"

definition VALID_VERIFICATION_PATHS :: "string list" where
  "VALID_VERIFICATION_PATHS = [''dns-anchored'', ''log-anchored'', ''hybrid'', ''org-asserted'', ''self-signed'']"

definition VALID_ROLES :: "string list" where
  "VALID_ROLES = [''agent'', ''merchant'']"

definition TIER_2_TRUST_WARNING :: string where
  "TIER_2_TRUST_WARNING = ''verification-incomplete''"

text \<open>The checks and the default the constructor adds.\<close>
definition check_document :: "agent_document \<Rightarrow> py_error + agent_document" where
  "check_document d =
     (if ad_trust_tier d \<notin> {1, 2, 3} then Inl ValueError
      else if ad_verification_path d \<notin> set VALID_VERIFICATION_PATHS then Inl ValueError
      else if ad_role d \<notin> set VALID_ROLES then Inl ValueError
      else if (case ad_trust_score d of
                 None \<Rightarrow> False
               | Some s \<Rightarrow> \<not> (0 \<le> s \<and> s \<le> 1) \<or> ad_trust_score_computed_at d = []) then Inl ValueError
      else Inr (if ad_trust_tier d = 2 \<and> ad_trust_warning d = []
                then d\<lparr>ad_trust_warning := TIER_2_TRUST_WARNING\<rparr> else d))"

definition is_migrated :: "agent_document \<Rightarrow> bool" where
  "is_migrated d = (ad_document_version d = DOCUMENT_VERSION_V1_MIGRATED)"

definition all_text :: "json list \<Rightarrow> string list option" where
  "all_text vs = (if list_all (\<lambda>v. case v of JStr _ \<Rightarrow> True | _ \<Rightarrow> False) vs
     then Some (map (\<lambda>v. case v of JStr s \<Rightarrow> s | _ \<Rightarrow> []) vs) else None)"

text \<open>A method list with an entry that is not a text has no upper case.\<close>
definition accepts_method :: "agent_document \<Rightarrow> string \<Rightarrow> py_error + bool" where
  "accepts_method d m =
     (if rd_wildcards (ad_requires d) then Inr True
      else (case all_text (rd_methods (ad_requires d)) of
              None \<Rightarrow> Inl AttributeError
            | Some ms \<Rightarrow> Inr (upper m \<in> set (map upper ms))))"

section \<open>The wire form\<close>

text \<open>An optional text, elided when empty.\<close>
definition elide :: "string \<Rightarrow> string \<Rightarrow> jobj" where
  "elide k s = (if s = [] then [] else [(k, JStr s)])"

definition document_to_dict :: "agent_document \<Rightarrow> jobj" where
  "document_to_dict d =
     [(''agtp_version'', JStr (ad_agtp_version d)),
      (''document_version'', JStr (if is_migrated d then DOCUMENT_VERSION_V2 else ad_document_version d)),
      (''agent_id'', JStr (ad_agent_id d)), (''name'', JStr (ad_name d))] @
     (if ad_role d = ''agent'' then [] else [(''role'', JStr (ad_role d))]) @
     [(''principal'', JStr (ad_principal d)), (''principal_id'', JStr (ad_principal_id d)),
      (''description'', JStr (ad_description d)), (''status'', JStr (ad_status d)), (''skills'', JArr (ad_skills d)),
      (''requires'', JObj (requires_to_dict (ad_requires d))), (''scopes_accepted'', JArr (ad_scopes_accepted d)),
      (''trust_tier'', JInt (ad_trust_tier d)), (''verification_path'', JStr (ad_verification_path d))] @
     elide ''trust_warning'' (ad_trust_warning d) @
     (case ad_trust_score d of None \<Rightarrow> [] | Some s \<Rightarrow> [(''trust_score'', JFloat s)]) @
     elide ''trust_score_computed_at'' (ad_trust_score_computed_at d) @
     elide ''owner_id'' (ad_owner_id d) @
     [(''issued_at'', JStr (ad_issued_at d)), (''issuer'', JStr (ad_issuer d))] @
     elide ''manifest_issuer'' (ad_manifest_issuer d) @
     elide ''manifest_issuer_public_key'' (ad_manifest_issuer_public_key d) @
     elide ''manifest_signature'' (ad_manifest_signature d) @
     (if ad_policies d = [] then [] else [(''policies'', JObj (ad_policies d))])"

definition v2_required_keys :: "string list" where
  "v2_required_keys =
     [''agtp_version'', ''agent_id'', ''name'', ''principal'', ''principal_id'', ''description'', ''status'',
      ''skills'', ''requires'', ''scopes_accepted'', ''issued_at'', ''issuer'']"

definition v1_required_keys :: "string list" where
  "v1_required_keys =
     [''agtp_version'', ''agent_id'', ''name'', ''principal'', ''principal_id'', ''description'', ''status'',
      ''capabilities'', ''scopes_accepted'', ''issued_at'', ''issuer'']"

definition has_key :: "jobj \<Rightarrow> string \<Rightarrow> bool" where
  "has_key d k = (dict_get d k \<noteq> None)"

definition is_v1_document :: "jobj \<Rightarrow> bool" where
  "is_v1_document d = (has_key d ''capabilities'' \<and> \<not> (has_key d ''skills'' \<and> has_key d ''requires''))"

definition seed_skills_from_description :: "string \<Rightarrow> json list" where
  "seed_skills_from_description s = (if strip s = [] then [] else [JStr (strip s)])"

text \<open>str of a required key, and of an optional one or the empty text.\<close>
definition req_text :: "(json \<Rightarrow> string) \<Rightarrow> jobj \<Rightarrow> string \<Rightarrow> string" where
  "req_text repr d k = py_str repr (jget d k)"

definition or_empty :: "(json \<Rightarrow> string) \<Rightarrow> jobj \<Rightarrow> string \<Rightarrow> string" where
  "or_empty repr d k = py_str repr (jor (jget d k) (JStr []))"

definition requires_from_dict :: "jobj \<Rightarrow> py_error + requires_declaration" where
  "requires_from_dict b =
     bind_res (iter_items (get_or (JArr []) b ''methods'')) (\<lambda>ms.
     bind_res (iter_items (get_or (JArr []) b ''scopes'')) (\<lambda>ss.
       Inr \<lparr>rd_methods = ms, rd_scopes = ss, rd_wildcards = truthy (get_or (JBool False) b ''wildcards'')\<rparr>))"

definition document_from_v2 :: "(json \<Rightarrow> string) \<Rightarrow> jobj \<Rightarrow> jobj \<Rightarrow> py_error + agent_document" where
  "document_from_v2 repr d block =
     bind_res (requires_from_dict block) (\<lambda>req.
     bind_res (iter_items (jget d ''skills'')) (\<lambda>skills.
     bind_res (iter_items (jget d ''scopes_accepted'')) (\<lambda>accepted.
     bind_res (py_int (get_or (JInt 2) d ''trust_tier'')) (\<lambda>tier.
     bind_res (if jget d ''trust_score'' = JNull then Inr None
               else map_sum id Some (py_float (jget d ''trust_score''))) (\<lambda>score.
     bind_res (py_dict (jor (jget d ''policies'') (JObj []))) (\<lambda>policies. check_document
       \<lparr>ad_agtp_version = req_text repr d ''agtp_version'',
        ad_document_version = py_str repr (get_or (JStr DOCUMENT_VERSION_V2) d ''document_version''),
        ad_agent_id = req_text repr d ''agent_id'', ad_name = req_text repr d ''name'',
        ad_role = py_str repr (jor (jget d ''role'') (JStr ''agent'')),
        ad_principal = req_text repr d ''principal'', ad_principal_id = req_text repr d ''principal_id'',
        ad_description = req_text repr d ''description'', ad_status = req_text repr d ''status'',
        ad_skills = skills, ad_requires = req, ad_scopes_accepted = accepted, ad_trust_tier = tier,
        ad_verification_path = py_str repr (get_or (JStr ''self-signed'') d ''verification_path''),
        ad_trust_warning = or_empty repr d ''trust_warning'', ad_trust_score = score,
        ad_trust_score_computed_at = or_empty repr d ''trust_score_computed_at'',
        ad_owner_id = or_empty repr d ''owner_id'',
        ad_issued_at = req_text repr d ''issued_at'', ad_issuer = req_text repr d ''issuer'',
        ad_manifest_issuer = or_empty repr d ''manifest_issuer'',
        ad_manifest_issuer_public_key = or_empty repr d ''manifest_issuer_public_key'',
        ad_manifest_signature = or_empty repr d ''manifest_signature'', ad_policies = policies\<rparr>))))))"

text \<open>A description that is not a text has no strip method.\<close>
definition seeded_skills :: "json \<Rightarrow> py_error + json list" where
  "seeded_skills v =
     (case v of JStr s \<Rightarrow> Inr (seed_skills_from_description s)
      | _ \<Rightarrow> if truthy v then Inl AttributeError else Inr [])"

definition document_from_v1 :: "(json \<Rightarrow> string) \<Rightarrow> jobj \<Rightarrow> py_error + agent_document" where
  "document_from_v1 repr d =
     (if \<not> list_all (has_key d) v1_required_keys then Inl ValueError
      else
        bind_res (iter_items (jget d ''capabilities'')) (\<lambda>ms.
        bind_res (seeded_skills (jget d ''description'')) (\<lambda>skills.
        bind_res (iter_items (jget d ''scopes_accepted'')) (\<lambda>accepted. check_document
          \<lparr>ad_agtp_version = req_text repr d ''agtp_version'', ad_document_version = DOCUMENT_VERSION_V1_MIGRATED,
           ad_agent_id = req_text repr d ''agent_id'', ad_name = req_text repr d ''name'', ad_role = ''agent'',
           ad_principal = req_text repr d ''principal'', ad_principal_id = req_text repr d ''principal_id'',
           ad_description = req_text repr d ''description'', ad_status = req_text repr d ''status'',
           ad_skills = skills, ad_requires = \<lparr>rd_methods = ms, rd_scopes = [], rd_wildcards = False\<rparr>,
           ad_scopes_accepted = accepted, ad_trust_tier = 2, ad_verification_path = ''self-signed'',
           ad_trust_warning = [], ad_trust_score = None, ad_trust_score_computed_at = [], ad_owner_id = [],
           ad_issued_at = req_text repr d ''issued_at'', ad_issuer = req_text repr d ''issuer'',
           ad_manifest_issuer = [], ad_manifest_issuer_public_key = [], ad_manifest_signature = [],
           ad_policies = []\<rparr>))))"

definition document_from_dict :: "(json \<Rightarrow> string) \<Rightarrow> jobj \<Rightarrow> py_error + agent_document" where
  "document_from_dict repr d =
     (if is_v1_document d then document_from_v1 repr d
      else if \<not> list_all (has_key d) v2_required_keys then Inl ValueError
      else (case jget d ''requires'' of
              JObj block \<Rightarrow> document_from_v2 repr d block
            | _ \<Rightarrow> Inl ValueError))"

section \<open>Signatures\<close>

definition to_canonical_json :: "(jobj \<Rightarrow> string) \<Rightarrow> bool \<Rightarrow> agent_document \<Rightarrow> string" where
  "to_canonical_json dumps exclude d =
     dumps (if exclude then dict_del ''manifest_signature'' (document_to_dict d) else document_to_dict d)"

definition manifest_fingerprint :: "(string \<Rightarrow> string) \<Rightarrow> (jobj \<Rightarrow> string) \<Rightarrow> agent_document \<Rightarrow> string" where
  "manifest_fingerprint sha256 dumps d = sha256 (to_canonical_json dumps False d)"

text \<open>sign is the registrar's key at work, with the base64 encoding of its result.\<close>
definition sign_manifest :: "(string \<Rightarrow> string) \<Rightarrow> (jobj \<Rightarrow> string) \<Rightarrow> agent_document \<Rightarrow> py_error + agent_document" where
  "sign_manifest sign dumps d =
     (if ad_manifest_issuer_public_key d = [] then Inl ValueError
      else Inr (d\<lparr>ad_manifest_signature := sign (to_canonical_json dumps True d)\<rparr>))"

text \<open>verify answers for a PEM text, an encoded signature and a message; it is None when
  the text is no Ed25519 key or the signature is not base64.\<close>
definition verify_manifest_signature ::
    "(string \<Rightarrow> string \<Rightarrow> string \<Rightarrow> bool option) \<Rightarrow> (jobj \<Rightarrow> string) \<Rightarrow> agent_document \<Rightarrow> py_error + unit" where
  "verify_manifest_signature verify dumps d =
     (if ad_manifest_signature d = [] then Inl ValueError
      else if ad_manifest_issuer_public_key d = [] then Inl ValueError
      else (case verify (ad_manifest_issuer_public_key d) (ad_manifest_signature d) (to_canonical_json dumps True d) of
              Some True \<Rightarrow> Inr ()
            | _ \<Rightarrow> Inl ValueError))"

section \<open>YAML\<close>

definition yaml_escape :: "string \<Rightarrow> string" where
  "yaml_escape s = concat (map (\<lambda>c. if c = CHR 0x5C then [CHR 0x5C, CHR 0x5C]
     else if c = CHR 0x22 then [CHR 0x5C, CHR 0x22] else [c]) s)"

definition yaml_needs_quoting :: "string \<Rightarrow> bool" where
  "yaml_needs_quoting s =
     (CHR '':'' \<in> set s \<or> CHR '','' \<in> set s \<or> s \<noteq> strip s \<or>
      hd s \<in> set (''!&*[{|>%@'' @ [CHR 0x60]) \<or>
      lower s \<in> {''yes'', ''no'', ''true'', ''false'', ''null''})"

definition yaml_scalar :: "(json \<Rightarrow> string) \<Rightarrow> json \<Rightarrow> string" where
  "yaml_scalar repr v =
     (case v of
        JNull \<Rightarrow> ''null''
      | JBool b \<Rightarrow> if b then ''true'' else ''false''
      | _ \<Rightarrow> let s = py_str repr v in
              if s = [] then [CHR 0x22, CHR 0x22]
              else if yaml_needs_quoting s then [CHR 0x22] @ yaml_escape s @ [CHR 0x22]
              else s)"

definition yaml_inline_list :: "(json \<Rightarrow> string) \<Rightarrow> json list \<Rightarrow> string" where
  "yaml_inline_list repr vs =
     (if vs = [] then ''[]'' else ''['' @ join_with '', '' (map (yaml_scalar repr) vs) @ '']'')"

text \<open>The lines of one key.\<close>
definition yaml_lines :: "(json \<Rightarrow> string) \<Rightarrow> requires_declaration \<Rightarrow> string \<times> json \<Rightarrow> string list" where
  "yaml_lines repr req kv =
     (case kv of (k, v) \<Rightarrow>
        if k = ''requires'' then
          [''requires:'',
           ''  methods: '' @ yaml_inline_list repr (rd_methods req),
           ''  scopes:  '' @ yaml_inline_list repr (rd_scopes req),
           ''  wildcards: '' @ (if rd_wildcards req then ''true'' else ''false'')]
        else (case v of
                JArr [] \<Rightarrow> [k @ '': []'']
              | JArr vs \<Rightarrow> (k @ '':'') # map (\<lambda>x. ''  - '' @ yaml_scalar repr x) vs
              | _ \<Rightarrow> [k @ '': '' @ yaml_scalar repr v]))"

definition document_to_yaml :: "(json \<Rightarrow> string) \<Rightarrow> agent_document \<Rightarrow> string" where
  "document_to_yaml repr d =
     join_with [CHR 0x0A] (concat (map (yaml_lines repr (ad_requires d)) (document_to_dict d))) @ [CHR 0x0A]"

section \<open>A document survives its wire form\<close>

lemma has_key_iff: "has_key d k \<longleftrightarrow> k \<in> set (dict_keys d)"
  by (simp add: has_key_def map_of_eq_None_iff)

lemma get_or_present: "has_key d k \<Longrightarrow> get_or x d k = jget d k"
  by (auto simp: has_key_def get_or_def jget_def)

lemma written_has:
  "list_all (has_key (document_to_dict d)) v2_required_keys" "\<not> is_v1_document (document_to_dict d)"
  "has_key (document_to_dict d) ''document_version''" "has_key (document_to_dict d) ''trust_tier''"
  "has_key (document_to_dict d) ''verification_path''"
  by (simp_all add: v2_required_keys_def is_v1_document_def has_key_iff document_to_dict_def)

lemma jget_parts [json_simps]:
  "jget (elide k' s @ d) k = (if k = k' \<and> s \<noteq> [] then JStr s else jget d k)"
  "jget ((if c then [] else [(k', v)]) @ d) k = (if k = k' \<and> \<not> c then v else jget d k)"
  "jget (if c then [] else [(k', v)]) k = (if k = k' \<and> \<not> c then v else JNull)"
  "jget ((case r of None \<Rightarrow> [] | Some x \<Rightarrow> [(k', f x)]) @ d) k =
     (if k = k' then (case r of None \<Rightarrow> jget d k | Some x \<Rightarrow> f x) else jget d k)"
  "jget (elide k' s) k = (if k = k' \<and> s \<noteq> [] then JStr s else JNull)"
  by (simp_all add: elide_def jget_def split: option.split)

lemma written_texts:
  "jget (document_to_dict d) ''agtp_version'' = JStr (ad_agtp_version d)"
  "jget (document_to_dict d) ''document_version'' =
     JStr (if is_migrated d then DOCUMENT_VERSION_V2 else ad_document_version d)"
  "jget (document_to_dict d) ''agent_id'' = JStr (ad_agent_id d)"
  "jget (document_to_dict d) ''name'' = JStr (ad_name d)"
  "jget (document_to_dict d) ''principal'' = JStr (ad_principal d)"
  "jget (document_to_dict d) ''principal_id'' = JStr (ad_principal_id d)"
  "jget (document_to_dict d) ''description'' = JStr (ad_description d)"
  "jget (document_to_dict d) ''status'' = JStr (ad_status d)"
  "jget (document_to_dict d) ''skills'' = JArr (ad_skills d)"
  "jget (document_to_dict d) ''requires'' = JObj (requires_to_dict (ad_requires d))"
  "jget (document_to_dict d) ''scopes_accepted'' = JArr (ad_scopes_accepted d)"
  "jget (document_to_dict d) ''trust_tier'' = JInt (ad_trust_tier d)"
  "jget (document_to_dict d) ''verification_path'' = JStr (ad_verification_path d)"
  "jget (document_to_dict d) ''trust_score'' = (case ad_trust_score d of None \<Rightarrow> JNull | Some s \<Rightarrow> JFloat s)"
  "jget (document_to_dict d) ''issued_at'' = JStr (ad_issued_at d)"
  "jget (document_to_dict d) ''issuer'' = JStr (ad_issuer d)"
  "jget (document_to_dict d) ''policies'' = (if ad_policies d = [] then JNull else JObj (ad_policies d))"
  "jget (document_to_dict d) ''role'' = (if ad_role d = ''agent'' then JNull else JStr (ad_role d))"
  unfolding document_to_dict_def append_Cons append_Nil append_assoc by (simp_all add: json_simps split: option.split)

lemma written_elided:
  "or_empty repr (document_to_dict d) ''trust_warning'' = ad_trust_warning d"
  "or_empty repr (document_to_dict d) ''trust_score_computed_at'' = ad_trust_score_computed_at d"
  "or_empty repr (document_to_dict d) ''owner_id'' = ad_owner_id d"
  "or_empty repr (document_to_dict d) ''manifest_issuer'' = ad_manifest_issuer d"
  "or_empty repr (document_to_dict d) ''manifest_issuer_public_key'' = ad_manifest_issuer_public_key d"
  "or_empty repr (document_to_dict d) ''manifest_signature'' = ad_manifest_signature d"
  unfolding document_to_dict_def append_Cons append_Nil append_assoc or_empty_def
  by (simp_all add: json_simps jor_def split: option.split)

lemma requires_written: "requires_from_dict (requires_to_dict r) = Inr r"
  by (simp add: requires_from_dict_def requires_to_dict_def get_or_def)

definition as_v2 :: "agent_document \<Rightarrow> agent_document" where
  "as_v2 d = (if is_migrated d then d\<lparr>ad_document_version := DOCUMENT_VERSION_V2\<rparr> else d)"

lemma as_v2_written: "document_to_dict (as_v2 d) = document_to_dict d"
  by (simp add: as_v2_def document_to_dict_def is_migrated_def DOCUMENT_VERSION_V2_def DOCUMENT_VERSION_V1_MIGRATED_def)

lemma read_written:
  assumes "ad_role d \<noteq> []"
  shows "document_from_dict repr (document_to_dict d) = check_document (as_v2 d)"
proof -
  let ?w = "document_to_dict d"
  have score: "(if jget ?w ''trust_score'' = JNull then Inr None else map_sum id Some (py_float (jget ?w ''trust_score''))) =
      Inr (ad_trust_score d)"
    unfolding written_texts by (cases "ad_trust_score d") simp_all
  have policies: "py_dict (jor (jget ?w ''policies'') (JObj [])) = Inr (ad_policies d)"
    unfolding written_texts by (cases "ad_policies d") (simp_all add: jor_def)
  have role: "py_str repr (jor (jget ?w ''role'') (JStr ''agent'')) = ad_role d"
    unfolding written_texts using assms by (simp add: jor_def)
  have "document_from_dict repr ?w = document_from_v2 repr ?w (requires_to_dict (ad_requires d))"
    by (simp add: document_from_dict_def written_has written_texts(10))
  also have "\<dots> = check_document (as_v2 d)"
    unfolding document_from_v2_def score policies role requires_written bind_res_simps
    by (cases d) (simp add: get_or_present written_has req_text_def written_elided written_texts as_v2_def)
  finally show ?thesis .
qed

text \<open>The construction as a condition and a default.\<close>
definition document_valid :: "agent_document \<Rightarrow> bool" where
  "document_valid d =
     (ad_trust_tier d \<in> {1, 2, 3} \<and> ad_verification_path d \<in> set VALID_VERIFICATION_PATHS \<and>
      ad_role d \<in> set VALID_ROLES \<and>
      (case ad_trust_score d of None \<Rightarrow> True | Some s \<Rightarrow> 0 \<le> s \<and> s \<le> 1 \<and> ad_trust_score_computed_at d \<noteq> []))"

definition warned :: "agent_document \<Rightarrow> agent_document" where
  "warned d = (if ad_trust_tier d = 2 \<and> ad_trust_warning d = []
     then d\<lparr>ad_trust_warning := TIER_2_TRUST_WARNING\<rparr> else d)"

lemma check_document_Inr: "check_document d = Inr e \<longleftrightarrow> document_valid d \<and> e = warned d"
  unfolding check_document_def document_valid_def warned_def[symmetric]
  by (cases "ad_trust_score d"; simp del: insert_iff; blast)

lemma warned_simps:
  "document_valid (warned d) = document_valid d" "warned (warned d) = warned d"
  by (simp_all add: warned_def document_valid_def TIER_2_TRUST_WARNING_def cong: option.case_cong)

lemma valid_updates:
  "document_valid (d\<lparr>ad_manifest_signature := x\<rparr>) = document_valid d"
  "document_valid (d\<lparr>ad_document_version := v\<rparr>) = document_valid d"
  "warned (d\<lparr>ad_manifest_signature := x\<rparr>) = (warned d)\<lparr>ad_manifest_signature := x\<rparr>"
  "warned (d\<lparr>ad_document_version := v\<rparr>) = (warned d)\<lparr>ad_document_version := v\<rparr>"
  by (simp_all add: warned_def document_valid_def cong: option.case_cong)

lemma valid_role: "document_valid d \<Longrightarrow> ad_role d \<noteq> []"
  by (auto simp: document_valid_def VALID_ROLES_def)

lemma signed_form_ignores_signature:
  "to_canonical_json dumps True (d\<lparr>ad_manifest_signature := x\<rparr>) = to_canonical_json dumps True d"
proof -
  have "dict_del ''manifest_signature'' (document_to_dict (d\<lparr>ad_manifest_signature := x\<rparr>)) =
      dict_del ''manifest_signature'' (document_to_dict d)"
    by (simp add: AList.delete_eq document_to_dict_def elide_def is_migrated_def split: option.split)
  then show ?thesis by (simp add: to_canonical_json_def)
qed

text \<open>C24: a registrar's signature survives the wire.  A document that the constructor accepts
  and a registrar signs is read back from its wire form as the same document (a migrated one
  as a plain version 2 one), and the signature of the document read verifies; the check
  covers everything but the signature itself.  The hypotheses on the scheme: what the
  registrar's key signs verifies under the public key in the document, and an encoded
  signature is not empty.\<close>
theorem signed_document_travels:
  assumes "check_document d0 = Inr d" and "sign_manifest sign dumps d = Inr s"
    and "\<forall>m. verify (ad_manifest_issuer_public_key d) (sign m) m = Some True" and "\<forall>m. sign m \<noteq> []"
  shows "document_from_dict repr (document_to_dict s) = Inr (as_v2 s) \<and>
     verify_manifest_signature verify dumps (as_v2 s) = Inr () \<and>
     manifest_fingerprint sha256 dumps (as_v2 s) = manifest_fingerprint sha256 dumps s \<and>
     (\<forall>x. to_canonical_json dumps True (s\<lparr>ad_manifest_signature := x\<rparr>) = to_canonical_json dumps True s)"
proof -
  have key: "ad_manifest_issuer_public_key d \<noteq> []" and s: "s = d\<lparr>ad_manifest_signature := sign (to_canonical_json dumps True d)\<rparr>"
    using assms(2) by (simp_all add: sign_manifest_def split: if_splits)
  have v: "document_valid d" "warned d = d" using assms(1) by (auto simp: check_document_Inr warned_simps)
  have ok: "document_valid s" "warned s = s" by (simp_all add: s valid_updates v)
  have role: "ad_role s \<noteq> []" by (rule valid_role[OF ok(1)])
  have read: "check_document (as_v2 s) = Inr (as_v2 s)"
    by (simp add: check_document_Inr as_v2_def valid_updates ok)
  have form: "to_canonical_json dumps b (as_v2 s) = to_canonical_json dumps b s" for b
    by (simp add: to_canonical_json_def as_v2_written)
  have msg: "to_canonical_json dumps True s = to_canonical_json dumps True d"
    unfolding s by (rule signed_form_ignores_signature)
  have fields: "ad_manifest_signature (as_v2 s) = sign (to_canonical_json dumps True d)"
    "ad_manifest_issuer_public_key (as_v2 s) = ad_manifest_issuer_public_key d"
    by (simp_all add: as_v2_def s)
  have "verify_manifest_signature verify dumps (as_v2 s) = Inr ()"
    using assms(3,4) key by (simp add: verify_manifest_signature_def fields form msg)
  then show ?thesis using read read_written[OF role, of repr]
    by (simp add: manifest_fingerprint_def form signed_form_ignores_signature)
qed

definition example_document :: agent_document where
  "example_document =
     \<lparr>ad_agtp_version = ''1.0'', ad_document_version = ''v1-migrated'', ad_agent_id = ''a1'', ad_name = ''Lauren'',
      ad_role = ''merchant'', ad_principal = ''p'', ad_principal_id = ''p1'', ad_description = ''d'', ad_status = ''active'',
      ad_skills = [JStr ''plan''], ad_requires = \<lparr>rd_methods = [JStr ''QUERY''], rd_scopes = [], rd_wildcards = False\<rparr>,
      ad_scopes_accepted = [], ad_trust_tier = 2, ad_verification_path = ''self-signed'', ad_trust_warning = [],
      ad_trust_score = Some (1 / 2), ad_trust_score_computed_at = ''2026-01-01T00:00:00Z'', ad_owner_id = [],
      ad_issued_at = ''t'', ad_issuer = ''i'', ad_manifest_issuer = ''r'', ad_manifest_issuer_public_key = ''pem'',
      ad_manifest_signature = [], ad_policies = []\<rparr>"

text \<open>A toy scheme: the signature of a message is the message after a mark, and it verifies
  when it is that.\<close>
lemma signed_document_travels_witness:
  "document_from_dict (\<lambda>v. [])
     (document_to_dict (example_document\<lparr>ad_trust_warning := TIER_2_TRUST_WARNING, ad_manifest_signature := ''s''\<rparr>)) =
   Inr (example_document\<lparr>ad_trust_warning := TIER_2_TRUST_WARNING, ad_manifest_signature := ''s'',
          ad_document_version := ''v2''\<rparr>)"
proof -
  define d where "d = example_document\<lparr>ad_trust_warning := TIER_2_TRUST_WARNING\<rparr>"
  have c: "check_document example_document = Inr d"
    by (simp add: check_document_Inr document_valid_def warned_def example_document_def d_def VALID_VERIFICATION_PATHS_def
        VALID_ROLES_def)
  have s: "sign_manifest (\<lambda>m. ''s'') (\<lambda>d. []) d = Inr (d\<lparr>ad_manifest_signature := ''s''\<rparr>)"
    by (simp add: sign_manifest_def d_def example_document_def)
  have m: "is_migrated (d\<lparr>ad_manifest_signature := ''s''\<rparr>)"
    by (simp add: is_migrated_def d_def example_document_def DOCUMENT_VERSION_V1_MIGRATED_def)
  from signed_document_travels[OF c s, of "\<lambda>k x m. Some (x = ''s'')" "\<lambda>v. []"] m show ?thesis
    by (simp add: as_v2_def d_def DOCUMENT_VERSION_V2_def)
qed

end
