(* ===== verification/Method_Registry.thy ===== *)
theory Method_Registry
  imports Endpoint_Registry Identity Status Synthesis_Plan
begin

text \<open>
  server/methods.py, the registry of methods: declarations, their registration and
  removal, their projections, and the helpers the handlers share (body parsing,
  responses, required parameters, the capability check).  A handler is a value of
  any type.
\<close>

section \<open>Method declarations\<close>

record 'h method_spec =
  ms_name :: string
  ms_category :: string
  ms_semantic_class :: string
  ms_idempotent :: bool
  ms_state_modifying :: bool
  ms_required_params :: "string list"
  ms_optional_params :: "string list"
  ms_error_codes :: "int list"
  ms_description :: string
  ms_handler :: "'h option"
  ms_namespace :: "string option"
  ms_semantic :: "semantic_block option"

type_synonym 'h methods = "(string, 'h method_spec) dict"

text \<open>The scalar form of the semantic block in a declaration.\<close>
record semantic_args =
  sa_intent :: "string option"
  sa_actor :: "string option"
  sa_outcome :: "string option"
  sa_capability :: json
  sa_confidence :: "rat option"
  sa_impact :: json
  sa_is_idempotent :: "bool option"

definition build_semantic_block :: "semantic_args \<Rightarrow> semantic_block option \<Rightarrow> semantic_block option" where
  "build_semantic_block a semantic =
     (case semantic of
        Some s \<Rightarrow> Some s
      | None \<Rightarrow>
          if sa_intent a = None \<and> sa_actor a = None \<and> sa_outcome a = None \<and> sa_capability a = JNull \<and>
             sa_confidence a = None \<and> sa_impact a = JNull \<and> sa_is_idempotent a = None
          then None
          else Some \<lparr>se_intent = text_or_else (sa_intent a) [], se_actor = text_or_else (sa_actor a) ''agent'',
                     se_outcome = text_or_else (sa_outcome a) [], se_capability = sa_capability a,
                     se_confidence = sa_confidence a, se_impact = sa_impact a,
                     se_is_idempotent = sa_is_idempotent a\<rparr>)"

text \<open>The pattern of a verb name; its end anchor admits one final line break.\<close>
definition verb_name_pattern :: "string \<Rightarrow> bool" where
  "verb_name_pattern n =
     (let body = (if n \<noteq> [] \<and> last n = CHR 0x0A then butlast n else n)
      in body \<noteq> [] \<and> list_all is_upper body)"

definition validate_method_spec ::
    "verb_catalog \<Rightarrow> 'h methods \<Rightarrow> string \<Rightarrow> string option \<Rightarrow> string \<Rightarrow> int list \<Rightarrow> py_error option" where
  "validate_method_spec cg reg n namespace description codes =
     (if \<not> verb_name_pattern n then Some ValueError
      else if \<not> (3 \<le> length n \<and> length n \<le> 32) then Some ValueError
      else if dict_get reg n \<noteq> None then Some RuntimeError
      else if \<not> is_embedded_verb cg n \<and> \<not> given namespace then Some ValueError
      else if is_embedded_verb cg n \<and> namespace \<noteq> None then Some ValueError
      else if description = [] then Some ValueError
      else if codes = [] then Some ValueError
      else None)"

text \<open>The decorator and register_custom: a verb outside the catalog is skipped with a
  warning.\<close>
definition register_method :: "verb_catalog \<Rightarrow> 'h method_spec \<Rightarrow> 'h methods \<Rightarrow> py_error + 'h methods" where
  "register_method cg spec reg =
     (let n = upper (ms_name spec) in
      if \<not> is_approved_verb cg n then Inr reg
      else (case validate_method_spec cg reg n (ms_namespace spec) (ms_description spec) (ms_error_codes spec) of
              Some e \<Rightarrow> Inl e
            | None \<Rightarrow> Inr (dict_set n (spec\<lparr>ms_name := n\<rparr>) reg)))"

definition unregister_method :: "string \<Rightarrow> 'h methods \<Rightarrow> 'h methods" where
  "unregister_method n reg = dict_del (upper n) reg"

definition method_to_dict :: "'h method_spec \<Rightarrow> jobj" where
  "method_to_dict s =
     [(''name'', JStr (ms_name s)), (''category'', JStr (ms_category s)), (''semantic_class'', JStr (ms_semantic_class s)),
      (''idempotent'', JBool (ms_idempotent s)), (''state_modifying'', JBool (ms_state_modifying s)),
      (''required_params'', strs (ms_required_params s)), (''optional_params'', strs (ms_optional_params s)),
      (''error_codes'', JArr (map JInt (ms_error_codes s))), (''description'', JStr (ms_description s))] @
     some_entry ''namespace'' JStr (ms_namespace s) @
     some_entry ''semantic'' (JObj \<circ> semantic_to_dict) (ms_semantic s)"

definition promote_param :: "string \<Rightarrow> field_spec" where
  "promote_param n =
     \<lparr>fs_name = n, fs_type = ''string'',
      fs_description = ''parameter '' @ [CHR 0x27] @ n @ [CHR 0x27] @ '' from server method spec'',
      fs_schema = JNull, fs_enum = None, fs_format = None\<rparr>"

definition method_to_endpoint :: "'h method_spec \<Rightarrow> endpoint" where
  "method_to_endpoint s =
     (let codes = (if ms_error_codes s = [] then [400, 422] else ms_error_codes s);
          codes' = (if 422 \<in> set codes then codes else codes @ [422])
      in \<lparr>es_name = ms_name s, es_path = None,
          es_description = (if ms_description s = [] then ''server method '' @ ms_name s else ms_description s),
          es_required_params = map promote_param (ms_required_params s),
          es_optional_params = map promote_param (ms_optional_params s), es_output = [], es_errors = [],
          es_semantic = ms_semantic s, es_handler = None, es_required_scopes = [], es_deprecated = None,
          es_namespace = ms_namespace s,
          es_category = (if ms_category s = [] then ''custom'' else ms_category s),
          es_error_codes = map JInt codes'\<rparr>)"

text \<open>What the synthesis reads of a declaration.\<close>
definition param_of_field :: "field_spec \<Rightarrow> param_spec" where
  "param_of_field f = \<lparr>pa_name = fs_name f, pa_type = fs_type f\<rparr>"

definition synthesis_view :: "endpoint \<Rightarrow> endpoint_spec" where
  "synthesis_view e =
     \<lparr>ep_name = es_name e, ep_path = es_path e, ep_required_params = map param_of_field (es_required_params e),
      ep_optional_params = map param_of_field (es_optional_params e), ep_category = es_category e\<rparr>"

text \<open>The methods a composition may use: the registered ones and the bound endpoints.\<close>
definition available_methods :: "'h methods \<Rightarrow> 'k registry option \<Rightarrow> endpoint_spec list" where
  "available_methods reg endpoints =
     map (synthesis_view \<circ> method_to_endpoint) (dict_values reg) @
     (case endpoints of None \<Rightarrow> [] | Some rg \<Rightarrow> map synthesis_view (all_endpoints rg))"

section \<open>Helpers of the handlers\<close>

definition parse_body :: "request \<Rightarrow> py_error + jobj" where
  "parse_body rq =
     (case rq_body rq of
        NoBytes \<Rightarrow> Inr []
      | JsonBytes (JObj d) \<Rightarrow> Inr d
      | _ \<Rightarrow> Inl ValueError)"

definition method_response :: "int \<Rightarrow> string \<Rightarrow> jobj \<Rightarrow> string option \<Rightarrow> headers \<Rightarrow> response" where
  "method_response code txt body m extra_headers =
     \<lparr>rs_status_code = code, rs_status_text = txt,
      rs_headers = fold (\<lambda>(k, v). dict_set k v) extra_headers
        [(''Content-Type'', case m of None \<Rightarrow> ''application/json'' | Some n \<Rightarrow> if n = [] then ''application/json''
            else ''application/vnd.agtp.'' @ lower n @ ''+json'')],
      rs_body = JsonBytes (JObj body), rs_attribution_extra = None\<rparr>"

definition method_error :: "int \<Rightarrow> string \<Rightarrow> string \<Rightarrow> string \<Rightarrow> jobj \<Rightarrow> response" where
  "method_error code txt tag detail extra =
     build_error (code, txt) (obj_update [(''code'', JStr tag), (''detail'', JStr detail)] extra)"

definition missing_params :: "string list \<Rightarrow> jobj \<Rightarrow> string list" where
  "missing_params required params = filter (\<lambda>n. jget params n \<in> {JNull, JStr []}) required"

definition require_params :: "'h method_spec \<Rightarrow> jobj \<Rightarrow> response option" where
  "require_params spec params =
     (case missing_params (ms_required_params spec) params of
        [] \<Rightarrow> None
      | m # ms \<Rightarrow> Some (method_error 422 ''Unprocessable Entity'' ''missing-required-params''
          (''missing required parameter(s): '' @ join_with '', '' (m # ms))
          [(''missing'', strs (m # ms)), (''method'', JStr (ms_name spec))]))"

definition check_capability :: "'h method_spec \<Rightarrow> agent_document \<Rightarrow> py_error + response option" where
  "check_capability spec doc =
     bind_res (accepts_method doc (ms_name spec)) (\<lambda>ok. Inr
       (if ok then None
        else Some (method_error 405 ''Method Not Allowed'' ''method-not-in-requires''
          (''agent '' @ take 12 (ad_agent_id doc) @ ''... does not declare '' @ ms_name spec @ '' in requires.methods'')
          [(''method'', JStr (ms_name spec)), (''requires'', JObj (requires_to_dict (ad_requires doc)))])))"

lemma method_error_status [simp]: "rs_status_code (method_error c t tag d x) = c"
  by (simp add: method_error_def)

lemma method_response_status [simp]: "rs_status_code (method_response c t b m h) = c"
  by (simp add: method_response_def)

end
