(* ===== verification/Rcns_Gate.thy ===== *)
theory Rcns_Gate
  imports Rcns_State Synthesis_Runtime Method_Registry
begin

text \<open>
  server/rcns_gate.py: the gate that negotiates a contract for a method and a path
  that nothing is bound to, with its locks, its rate limit, its idempotency keys and
  its two modes of delivery; and the state a request of the server works on.  The
  clock stands still while a request is served.  Fresh identifiers are drawn from a
  supply by number; hashing, the rendering of an exception and the signing of an
  audit event are arguments.
\<close>

section \<open>The state of the server\<close>

record rcns_config =
  rc_enabled :: bool
  rc_min_trust_tier :: int
  rc_max_negotiations_per_minute :: int
  rc_idempotency_window_seconds :: rat
  rc_on_policy_change :: string
  rc_require_verified_identity :: bool
  rc_state_backend :: string

definition check_rcns_config :: "rcns_config \<Rightarrow> py_error + rcns_config" where
  "check_rcns_config c =
     (if rc_min_trust_tier c \<notin> {1, 2, 3} then Inl ValueError
      else if rc_max_negotiations_per_minute c < 0 then Inl ValueError
      else if rc_idempotency_window_seconds c < 0 then Inl ValueError
      else if rc_state_backend c \<notin> {''memory'', ''sqlite''} then Inl ValueError
      else if rc_on_policy_change c \<notin> {''grandfather'', ''invalidate''} then Inl ValueError
      else Inr c)"

text \<open>What a request changes: the document of the agent it addresses, the synthesis
  runtime, the negotiation state and its durable form, the supply of identifiers,
  the audit stream (agent and event), and whatever else the handlers touch.\<close>
record 'x world =
  wd_agent :: agent_document
  wd_runtime :: "synthesis_runtime option"
  wd_rcns :: rcns_state
  wd_durable :: sqlite_store
  wd_supply :: nat
  wd_stream :: "(string \<times> jobj) list"
  wd_rest :: 'x

text \<open>What a request meets and does not change.\<close>
record environment =
  en_repr :: "json \<Rightarrow> string"
  en_now :: rat
  en_token :: "nat \<Rightarrow> string"
  en_synthesis_id :: "nat \<Rightarrow> string"
  en_hash :: "jobj \<Rightarrow> string"
  en_error_name :: "py_error \<Rightarrow> string"
  en_error_text :: "py_error \<Rightarrow> string"
  en_signing :: bool
  en_audit_id :: "string \<Rightarrow> jobj \<Rightarrow> string"

definition runtime_of :: "'x world \<Rightarrow> synthesis_runtime" where
  "runtime_of w = (case wd_runtime w of None \<Rightarrow> new_runtime [] 0 | Some rt \<Rightarrow> rt)"

definition set_runtime :: "synthesis_runtime \<Rightarrow> 'x world \<Rightarrow> 'x world" where
  "set_runtime rt w = w\<lparr>wd_runtime := Some rt\<rparr>"

text \<open>An event on the stream of an agent, when events are signed; its identifier.\<close>
definition emit_event :: "environment \<Rightarrow> string \<Rightarrow> jobj \<Rightarrow> 'x world \<Rightarrow> 'x world \<times> string option" where
  "emit_event en aid extra w =
     (if aid = [] \<or> \<not> en_signing en then (w, None)
      else (w\<lparr>wd_stream := wd_stream w @ [(aid, extra)]\<rparr>, Some (en_audit_id en aid extra)))"

definition maybe_emit_rcns_event ::
    "environment \<Rightarrow> string \<Rightarrow> string \<Rightarrow> jobj \<Rightarrow> string \<Rightarrow> string \<Rightarrow> 'x world \<Rightarrow> 'x world \<times> string option" where
  "maybe_emit_rcns_event en event aid snapshot actor reason w =
     emit_event en aid
       (obj_update [(''event_type'', JStr event), (''actor_agent_id'', JStr actor)]
          (filter (\<lambda>(k, v). v \<noteq> JNull) snapshot @ (if reason = [] then [] else [(''reason'', JStr reason)]))) w"

definition opt_json :: "string option \<Rightarrow> json" where
  "opt_json v = (case v of None \<Rightarrow> JNull | Some s \<Rightarrow> JStr s)"

section \<open>The locks\<close>

definition parse_allow_rcns :: "request \<Rightarrow> string option" where
  "parse_allow_rcns rq =
     (let v = lower (strip (header_in (rq_headers rq) ''Allow-RCNS''))
      in if v \<in> {''true'', ''optimistic''} then Some v else None)"

definition declared_scopes :: "agent_document \<Rightarrow> py_error + json list" where
  "declared_scopes d =
     (if list_all hashable (rd_scopes (ad_requires d)) then Inr (rd_scopes (ad_requires d)) else Inl TypeError)"

definition set_header :: "string \<Rightarrow> string \<Rightarrow> response \<Rightarrow> response" where
  "set_header k v r = r\<lparr>rs_headers := dict_set k v (rs_headers r)\<rparr>"

text \<open>A 464 refusal that is kept as an attempt; what the operator reads and what the
  caller reads differ.\<close>
definition refuse ::
    "environment \<Rightarrow> string \<Rightarrow> string \<Rightarrow> string \<Rightarrow> string \<Rightarrow> jobj \<Rightarrow> string \<Rightarrow> jobj \<Rightarrow> 'x world \<Rightarrow> 'x world \<times> (py_error + response)" where
  "refuse en m p reason noted noted_details told details w =
     (let aid = ''rcns-'' @ en_token en (wd_supply w);
          w1 = w\<lparr>wd_supply := Suc (wd_supply w),
                 wd_rcns := record_attempt aid
                   \<lparr>at_agent_id = ad_agent_id (wd_agent w), at_method = m, at_path = p, at_reason = reason,
                    at_explanation = noted, at_details = noted_details, at_time = en_now en\<rparr> (wd_rcns w)\<rparr>
      in (w1, map_sum id (set_header ''RCNS-Attempt-Id'' aid)
           (rcns_no_contract reason told (Some m) (Some p) (Some (details @ [(''attempt_id'', JStr aid)])))))"

definition too_many :: "rcns_config \<Rightarrow> string \<Rightarrow> string \<Rightarrow> response" where
  "too_many c m p = build_error (429, ''Too Many Requests'')
     [(''code'', JStr ''rate-limited''), (''scope'', JStr ''rcns''),
      (''explanation'', JStr (''agent exceeded '' @ show_int (rc_max_negotiations_per_minute c) @ '' RCNS negotiations per minute'')),
      (''method'', JStr m), (''path'', JStr p)]"

text \<open>The rate limit: the durable store reserves the attempt, the window in memory is
  only read.\<close>
definition limited :: "environment \<Rightarrow> rcns_config \<Rightarrow> 'x world \<Rightarrow> 'x world \<times> bool" where
  "limited en c w =
     (if rc_state_backend c = ''sqlite'' then
        (case sq_consume (ad_agent_id (wd_agent w)) (rc_max_negotiations_per_minute c) (en_now en) (wd_durable w) of
           (db, b) \<Rightarrow> (w\<lparr>wd_durable := db\<rparr>, b))
      else (w, rate_limited (ad_agent_id (wd_agent w)) (rc_max_negotiations_per_minute c) (en_now en) (wd_rcns w)))"

definition cached_contract :: "environment \<Rightarrow> rcns_config \<Rightarrow> string \<Rightarrow> 'x world \<Rightarrow> 'x world \<times> string option" where
  "cached_contract en c key w =
     (if key = [] then (w, None)
      else if rc_state_backend c = ''sqlite'' then
        (case sq_get_idempotency (ad_agent_id (wd_agent w)) key (en_now en) (wd_durable w) of
           (db, sid) \<Rightarrow> (w\<lparr>wd_durable := db\<rparr>, sid))
      else (case idempotent_lookup (ad_agent_id (wd_agent w)) key (rc_idempotency_window_seconds c) (en_now en) (wd_rcns w) of
              (st, sid) \<Rightarrow> (w\<lparr>wd_rcns := st\<rparr>, sid)))"

definition note_negotiation :: "environment \<Rightarrow> rcns_config \<Rightarrow> 'x world \<Rightarrow> 'x world" where
  "note_negotiation en c w =
     (if rc_state_backend c = ''sqlite'' then w
      else w\<lparr>wd_rcns := record_negotiation (ad_agent_id (wd_agent w)) (en_now en) (wd_rcns w)\<rparr>)"

definition remember_contract :: "environment \<Rightarrow> rcns_config \<Rightarrow> string \<Rightarrow> string \<Rightarrow> 'x world \<Rightarrow> 'x world" where
  "remember_contract en c key sid w =
     (let aid = ad_agent_id (wd_agent w); window = rc_idempotency_window_seconds c in
      if key = [] then w
      else if rc_state_backend c = ''sqlite''
        then w\<lparr>wd_durable := sq_put_idempotency aid key sid (en_now en + window) (wd_durable w)\<rparr>
      else w\<lparr>wd_rcns := idempotent_record aid key sid window (en_now en) (wd_rcns w)\<rparr>)"

section \<open>Composition and delivery\<close>

definition rcns_proposal :: "string \<Rightarrow> string \<Rightarrow> endpoint_spec" where
  "rcns_proposal m p =
     \<lparr>ep_name = upper m, ep_path = Some p, ep_required_params = [], ep_optional_params = [], ep_category = ''negotiated''\<rparr>"

text \<open>What the caller is shown and what is hashed.\<close>
definition contract_preview :: "string \<Rightarrow> string \<Rightarrow> synthesis_plan \<Rightarrow> jobj" where
  "contract_preview m p plan =
     [(''method'', JStr (upper m)), (''path'', JStr p), (''plan_summary'', JStr (or_text (pl_description plan) [])),
      (''recipe_name'', opt_json (pl_recipe_name plan)), (''recipe_version'', opt_json (pl_recipe_version plan)),
      (''policy_name'', opt_json (pl_policy_name plan))]"

definition origin_of_mode :: "string \<Rightarrow> string" where
  "origin_of_mode mode = (if mode = ''optimistic'' then ''rcns-optimistic'' else ''rcns-confirmed'')"

definition policies_tried :: "synthesis_runtime \<Rightarrow> json" where
  "policies_tried rt = strs (map (\<lambda>po. or_text (po_name po) ''?'') (sr_policies rt))"

definition deliver ::
    "environment \<Rightarrow> 'x world dispatcher option \<Rightarrow> string \<Rightarrow> request \<Rightarrow> string \<Rightarrow> string \<Rightarrow> string \<Rightarrow> string option
      \<Rightarrow> synthesis_plan \<Rightarrow> 'x world \<Rightarrow> 'x world \<times> (py_error + response option)" where
  "deliver en disp mode rq m p sid hash plan w =
     (if mode = ''true'' then (w, Inr (Some (rcns_contract_available (contract_preview m p plan) sid None [])))
      else (case execute runtime_of set_runtime (en_repr en) (en_now en) disp sid rq w of
              (w1, Inl e) \<Rightarrow> (w1, Inl e)
            | (w1, Inr r) \<Rightarrow>
                (w1, Inr (Some ((set_header ''Contract-Synthesized'' sid r)\<lparr>rs_attribution_extra := Some
                   [(''synthesis_id'', JStr sid), (''contract_hash'', JStr (or_text hash [])),
                    (''negotiation_origin'', JStr ''rcns-optimistic'')]\<rparr>)))))"

text \<open>The terms of a negotiated contract: it has no deadline.\<close>
definition rcns_terms :: "string \<Rightarrow> string \<Rightarrow> string \<Rightarrow> contract_terms" where
  "rcns_terms aid hash mode =
     \<lparr>ct_expires_at = None, ct_persistent = False, ct_originating = Some aid, ct_contract_hash = Some hash,
      ct_origin = origin_of_mode mode\<rparr>"

definition bind_contract ::
    "environment \<Rightarrow> rcns_config \<Rightarrow> string \<Rightarrow> string \<Rightarrow> string \<Rightarrow> string \<Rightarrow> synthesis_plan \<Rightarrow> 'x world
      \<Rightarrow> 'x world \<times> (py_error + string)" where
  "bind_contract en c mode key m p plan w =
     (let hash = en_hash en (contract_preview m p plan);
          sid = en_synthesis_id en (wd_supply w); aid = ad_agent_id (wd_agent w)
      in case instantiate sid plan (rcns_terms aid hash mode) (runtime_of w) of
           (rt, Inl e) \<Rightarrow> (set_runtime rt (w\<lparr>wd_supply := Suc (wd_supply w)\<rparr>), Inl e)
         | (rt, Inr _) \<Rightarrow>
             (fst (maybe_emit_rcns_event en ''rcns_propose_accepted'' aid
                [(''synthesis_id'', JStr sid), (''contract_hash'', JStr hash),
                 (''negotiation_origin'', JStr (origin_of_mode mode)), (''method'', JStr (upper m)), (''path'', JStr p),
                 (''recipe_name'', opt_json (pl_recipe_name plan)), (''recipe_version'', opt_json (pl_recipe_version plan))]
                aid [] (remember_contract en c key sid (set_runtime rt (w\<lparr>wd_supply := Suc (wd_supply w)\<rparr>)))), Inr sid))"

text \<open>A composition for the pair, kept under a fresh identifier.\<close>
definition negotiate ::
    "environment \<Rightarrow> rcns_config \<Rightarrow> 'x world dispatcher option \<Rightarrow> endpoint_spec list \<Rightarrow> string \<Rightarrow> string \<Rightarrow> request
      \<Rightarrow> string \<Rightarrow> string \<Rightarrow> 'x world \<Rightarrow> 'x world \<times> (py_error + response option)" where
  "negotiate en c disp available mode key rq m p w =
     (let rt = runtime_of w; w1 = note_negotiation en c w in
      case attempt_synthesis (sr_max_depth rt) (sr_policies rt) (rcns_proposal m p) available of
        Inl e \<Rightarrow>
          (let told = ''synthesis runtime raised '' @ en_error_text en e;
               noted = ''runtime raised '' @ en_error_text en e;
               name = [(''exception'', JStr (en_error_name en e))]
           in map_prod id (map_sum id Some)
                (refuse en m p ''synthesis-error'' noted (name @ [(''policies_tried'', policies_tried rt)]) told name w1))
      | Inr None \<Rightarrow>
          map_prod id (map_sum id Some)
            (refuse en m p ''composition-impossible'' ''no composition policy returned a plan''
               [(''policies_tried'', policies_tried rt)]
               (''no composition policy could fulfill '' @ m @ '' '' @ p @ '' from the server'' @ [CHR 0x27] @
                ''s available methods'') [] w1)
      | Inr (Some plan) \<Rightarrow>
          (case bind_contract en c mode key m p plan w1 of
             (w2, Inl e) \<Rightarrow> (w2, Inl e)
           | (w2, Inr sid) \<Rightarrow> deliver en disp mode rq m p sid (Some (en_hash en (contract_preview m p plan))) plan w2))"

text \<open>Past the locks: an idempotency key that still names a live contract short-cuts the
  composition.\<close>
definition serve_contract ::
    "environment \<Rightarrow> rcns_config \<Rightarrow> 'x world dispatcher option \<Rightarrow> endpoint_spec list \<Rightarrow> string \<Rightarrow> request \<Rightarrow> string \<Rightarrow> string
      \<Rightarrow> 'x world \<Rightarrow> 'x world \<times> (py_error + response option)" where
  "serve_contract en c disp available mode rq m p w =
     (let key = read_idempotency_key (rq_headers rq); (w1, cached) = cached_contract en c key w in
      if wd_runtime w1 = None then
        map_prod id (map_sum id Some)
          (refuse en m p ''synthesis-error'' ''server has no synthesis_runtime configured'' []
             (''RCNS is enabled but the server has no synthesis runtime configured; this is a deployment '' @
              ''misconfiguration'') [] w1)
      else (case cached of
              None \<Rightarrow> negotiate en c disp available mode key rq m p w1
            | Some sid \<Rightarrow>
                (case get_plan (en_now en) sid (runtime_of w1) of
                   (rt, None) \<Rightarrow> negotiate en c disp available mode key rq m p (set_runtime rt w1)
                 | (rt, Some plan) \<Rightarrow>
                     deliver en disp mode rq m p sid (contract_hash_of sid rt) plan (set_runtime rt w1))))"

section \<open>The gate\<close>

definition try_rcns ::
    "environment \<Rightarrow> rcns_config option \<Rightarrow> 'x world dispatcher option \<Rightarrow> endpoint_spec list \<Rightarrow> request \<Rightarrow> string \<Rightarrow> string
      \<Rightarrow> 'x world \<Rightarrow> 'x world \<times> (py_error + response option)" where
  "try_rcns en cfg disp available rq m p w =
     (case cfg of
        None \<Rightarrow> (w, Inr None)
      | Some c \<Rightarrow>
          if \<not> rc_enabled c then (w, Inr None)
          else (case parse_allow_rcns rq of
            None \<Rightarrow> (w, Inr None)
          | Some mode \<Rightarrow>
              if rc_require_verified_identity c \<and> rq_verified_cert rq = None then
                map_prod id (map_sum id Some)
                  (refuse en m p ''identity-unverified''
                     (''this server requires a verified mTLS client certificate to negotiate RCNS contracts; this '' @
                      ''connection presented none'') []
                     (''RCNS negotiation requires a verified mTLS client certificate on this server '' @
                      ''([policies.rcns].require_verified_identity = true)'') [] w)
              else (case declared_scopes (wd_agent w) of
                Inl e \<Rightarrow> (w, Inl e)
              | Inr scopes \<Rightarrow>
                  if JStr ''rcns:negotiate'' \<notin> set scopes then
                    (w, map_sum id Some (authorization_required ''scope-required''
                       (''RCNS negotiation requires the '' @ [CHR 0x27] @ ''rcns:negotiate'' @ [CHR 0x27] @
                        '' scope. Declare it in the agent'' @ [CHR 0x27] @ ''s requires.scopes to opt in.'')
                       (Some [(''code'', JStr ''rcns-scope-required''),
                              (''missing_scopes'', strs [''rcns:negotiate'']), (''method'', JStr m), (''path'', JStr p)])))
                  else if ad_trust_tier (wd_agent w) > rc_min_trust_tier c then
                    (let tiers = [(''min_trust_tier'', JInt (rc_min_trust_tier c)),
                                  (''agent_trust_tier'', JInt (ad_trust_tier (wd_agent w)))]
                     in map_prod id (map_sum id Some)
                          (refuse en m p ''trust-tier-insufficient'' ''agent trust tier below configured minimum'' tiers
                             (''RCNS requires trust_tier <= '' @ show_int (rc_min_trust_tier c) @
                              ''; agent'' @ [CHR 0x27] @ ''s resolved trust_tier is '' @ show_int (ad_trust_tier (wd_agent w)))
                             tiers w))
                  else (case limited en c w of
                          (w1, True) \<Rightarrow> (w1, Inr (Some (too_many c m p)))
                        | (w1, False) \<Rightarrow> serve_contract en c disp available mode rq m p w1))))"

section \<open>The locks guard everything\<close>

text \<open>The four locks of the documentation, the identity guard and the rate limit.\<close>
definition locks_open :: "environment \<Rightarrow> rcns_config option \<Rightarrow> request \<Rightarrow> 'x world \<Rightarrow> bool" where
  "locks_open en cfg rq w =
     (\<exists>c scopes. cfg = Some c \<and> rc_enabled c \<and> parse_allow_rcns rq \<noteq> None \<and>
        (rc_require_verified_identity c \<longrightarrow> rq_verified_cert rq \<noteq> None) \<and>
        declared_scopes (wd_agent w) = Inr scopes \<and> JStr ''rcns:negotiate'' \<in> set scopes \<and>
        ad_trust_tier (wd_agent w) \<le> rc_min_trust_tier c \<and> \<not> snd (limited en c w))"

lemma refuse_keeps:
  "wd_runtime (fst (refuse en m p reason a b c d w)) = wd_runtime w"
  "wd_stream (fst (refuse en m p reason a b c d w)) = wd_stream w"
  "wd_agent (fst (refuse en m p reason a b c d w)) = wd_agent w"
  "wd_rest (fst (refuse en m p reason a b c d w)) = wd_rest w"
  by (simp_all add: refuse_def Let_def)

lemma refuse_status:
  "reason \<in> set ALL_RCNS_REFUSAL_REASONS \<Longrightarrow>
   \<exists>r. snd (refuse en m p reason a b c d w) = Inr r \<and> rs_status_code r = 464"
  by (simp add: refuse_def Let_def rcns_no_contract_def set_header_def RCNS_NO_CONTRACT_def)

lemma limited_keeps:
  "wd_runtime (fst (limited en c w)) = wd_runtime w" "wd_stream (fst (limited en c w)) = wd_stream w"
  "wd_agent (fst (limited en c w)) = wd_agent w" "wd_rest (fst (limited en c w)) = wd_rest w"
  by (simp_all add: limited_def split: prod.split)

text \<open>The refusals before the rate limit.\<close>
lemma early_refusal:
  assumes "reason \<in> set ALL_RCNS_REFUSAL_REASONS"
    and "out = map_prod id (map_sum id Some) (refuse en m p reason a b c d w)"
  shows "wd_runtime (fst out) = wd_runtime w \<and> wd_stream (fst out) = wd_stream w \<and>
     wd_agent (fst out) = wd_agent w \<and> wd_rest (fst out) = wd_rest w \<and>
     (\<exists>r. snd out = Inr (Some r) \<and> rs_status_code r = 464)"
proof -
  obtain r where "snd (refuse en m p reason a b c d w) = Inr r" "rs_status_code r = 464"
    using refuse_status[OF assms(1)] by blast
  then show ?thesis by (simp add: assms(2) refuse_keeps)
qed

lemma reasons:
  "''identity-unverified'' \<in> set ALL_RCNS_REFUSAL_REASONS" "''trust-tier-insufficient'' \<in> set ALL_RCNS_REFUSAL_REASONS"
  "''synthesis-error'' \<in> set ALL_RCNS_REFUSAL_REASONS" "''composition-impossible'' \<in> set ALL_RCNS_REFUSAL_REASONS"
  "''contract-not-yours'' \<in> set ALL_RCNS_REFUSAL_REASONS"
  by (simp_all add: ALL_RCNS_REFUSAL_REASONS_def)

text \<open>A gate that refuses whatever the dispatcher and the inventory are.\<close>
lemma refused_for_all:
  assumes "\<And>d a. try_rcns en cfg d a rq m p w = R"
    and "reason \<in> set ALL_RCNS_REFUSAL_REASONS"
    and "R = map_prod id (map_sum id Some) (refuse en m p reason x y z u w)"
    and "try_rcns en cfg disp available rq m p w = (w', out)"
  shows "wd_runtime w' = wd_runtime w \<and> wd_stream w' = wd_stream w \<and> wd_agent w' = wd_agent w \<and> wd_rest w' = wd_rest w \<and>
     (\<forall>disp' available'. try_rcns en cfg disp' available' rq m p w = (w', out)) \<and>
     (case out of Inl e \<Rightarrow> e = TypeError | Inr None \<Rightarrow> True | Inr (Some r) \<Rightarrow> rs_status_code r \<in> {464, 262, 429})"
proof -
  have R: "R = (w', out)" using assms(1,4) by simp
  show ?thesis using early_refusal[OF assms(2,3)] assms(1) unfolding R by auto
qed

text \<open>C25: a closed lock keeps the server untouched.  Unless negotiation is enabled, the
  caller asks for it, its identity is verified where that is required, the agent declares
  the scope, its trust tier is strong enough and it is under the rate limit, the gate
  changes neither the contracts, nor the audit stream, nor the agent's document, nor
  anything handlers keep, never consults the composition or the dispatcher, and answers
  with nothing (the caller then gets a 404), a 464, a 262 or a 429; the only exception it
  can raise is the type error of a scope list with an entry that is not hashable.\<close>
theorem rcns_locks:
  assumes "\<not> locks_open en cfg rq w" and "try_rcns en cfg disp available rq m p w = (w', out)"
  shows "wd_runtime w' = wd_runtime w \<and> wd_stream w' = wd_stream w \<and> wd_agent w' = wd_agent w \<and> wd_rest w' = wd_rest w \<and>
     (\<forall>disp' available'. try_rcns en cfg disp' available' rq m p w = (w', out)) \<and>
     (case out of Inl e \<Rightarrow> e = TypeError | Inr None \<Rightarrow> True | Inr (Some r) \<Rightarrow> rs_status_code r \<in> {464, 262, 429})"
proof -
  consider (off) "cfg = None \<or> (\<exists>c. cfg = Some c \<and> (\<not> rc_enabled c \<or> parse_allow_rcns rq = None))"
    | (on) c mode where "cfg = Some c" "rc_enabled c" "parse_allow_rcns rq = Some mode"
    by (cases cfg; cases "parse_allow_rcns rq") auto
  then show ?thesis
  proof cases
    case off
    have "try_rcns en cfg d a rq m p w = (w, Inr None)" for d a
      using off by (auto simp: try_rcns_def split: option.split)
    then show ?thesis using assms(2) by auto
  next
    case on
    note T = try_rcns_def on option.case if_True not_True_eq_False if_False
    show ?thesis
    proof (cases "rc_require_verified_identity c \<and> rq_verified_cert rq = None")
      case True
      then have "\<And>d a. try_rcns en cfg d a rq m p w = map_prod id (map_sum id Some)
          (refuse en m p ''identity-unverified''
             (''this server requires a verified mTLS client certificate to negotiate RCNS contracts; this '' @
              ''connection presented none'') []
             (''RCNS negotiation requires a verified mTLS client certificate on this server '' @
              ''([policies.rcns].require_verified_identity = true)'') [] w)" by (simp only: T simp_thms if_True)
      then show ?thesis by (rule refused_for_all[OF _ reasons(1) refl assms(2)])
    next
      case verified: False
      show ?thesis
      proof (cases "declared_scopes (wd_agent w)")
        case (Inl x)
        have e: "try_rcns en cfg d a rq m p w = (w, Inl x)" for d a using verified Inl by (auto simp: T)
        have "x = TypeError" using Inl by (simp add: declared_scopes_def split: if_splits)
        then show ?thesis using e assms(2) by auto
      next
        case (Inr scopes)
        show ?thesis
        proof (cases "JStr ''rcns:negotiate'' \<in> set scopes")
          case False
          have "\<exists>r. (\<forall>d a. try_rcns en cfg d a rq m p w = (w, Inr (Some r))) \<and> rs_status_code r = 262"
            using verified Inr False
            by (auto simp: T authorization_required_def ALL_AUTH_TYPES_def AUTHORIZATION_REQUIRED_def)
          then show ?thesis using assms(2) by auto
        next
          case scope: True
          show ?thesis
          proof (cases "ad_trust_tier (wd_agent w) > rc_min_trust_tier c")
            case True
            define R where "R = map_prod id (map_sum id Some) (refuse en m p ''trust-tier-insufficient''
               ''agent trust tier below configured minimum''
               [(''min_trust_tier'', JInt (rc_min_trust_tier c)), (''agent_trust_tier'', JInt (ad_trust_tier (wd_agent w)))]
               (''RCNS requires trust_tier <= '' @ show_int (rc_min_trust_tier c) @
                ''; agent'' @ [CHR 0x27] @ ''s resolved trust_tier is '' @ show_int (ad_trust_tier (wd_agent w)))
               [(''min_trust_tier'', JInt (rc_min_trust_tier c)), (''agent_trust_tier'', JInt (ad_trust_tier (wd_agent w)))] w)"
            have "\<And>d a. try_rcns en cfg d a rq m p w = R"
              using verified by (simp only: T Inr scope True sum.case simp_thms if_True Let_def R_def)
            then show ?thesis by (rule refused_for_all[OF _ reasons(2) R_def assms(2)])
          next
            case False
            then have lim: "snd (limited en c w)"
              using assms(1) on verified Inr scope by (auto simp: locks_open_def)
            then have e: "try_rcns en cfg d a rq m p w = (fst (limited en c w), Inr (Some (too_many c m p)))" for d a
              using verified Inr scope False by (cases "limited en c w") (auto simp: T)
            show ?thesis using e assms(2) limited_keeps[of en c w] by (auto simp: too_many_def)
          qed
        qed
      qed
    qed
  qed
qed


definition example_environment :: environment where
  "example_environment =
     \<lparr>en_repr = (\<lambda>v. []), en_now = 100, en_token = (\<lambda>n. replicate n CHR ''t''), en_synthesis_id = (\<lambda>n. ''syn-'' @ replicate n CHR ''i''),
      en_hash = (\<lambda>d. ''h''), en_error_name = (\<lambda>e. ''Error''), en_error_text = (\<lambda>e. []), en_signing = True,
      en_audit_id = (\<lambda>a d. ''aud'')\<rparr>"

definition example_world :: "unit world" where
  "example_world =
     \<lparr>wd_agent = example_document, wd_runtime = Some (new_runtime [] 3), wd_rcns = new_rcns_state,
      wd_durable = new_sqlite_store, wd_supply = 0, wd_stream = [], wd_rest = ()\<rparr>"

definition example_request :: "string \<Rightarrow> headers \<Rightarrow> request" where
  "example_request m h =
     \<lparr>rq_method = m, rq_headers = h, rq_body = NoBytes, rq_path = ''/orders'', rq_query = [],
      rq_verified_cert = None, rq_aliased_from = None, rq_acting_principal = None\<rparr>"

definition example_rcns :: rcns_config where
  "example_rcns =
     \<lparr>rc_enabled = True, rc_min_trust_tier = 1, rc_max_negotiations_per_minute = 10, rc_idempotency_window_seconds = 60,
      rc_on_policy_change = ''grandfather'', rc_require_verified_identity = False, rc_state_backend = ''memory''\<rparr>"

text \<open>An agent of the second tier at a server that wants the first.\<close>
lemma rcns_locks_witness:
  "wd_runtime (fst (try_rcns example_environment (Some example_rcns) None [] (example_request ''BOOK'' [(''allow-rcns'', ''true'')])
     ''BOOK'' ''/orders'' example_world)) = Some (new_runtime [] 3)"
proof -
  let ?r = "try_rcns example_environment (Some example_rcns) None [] (example_request ''BOOK'' [(''allow-rcns'', ''true'')])
     ''BOOK'' ''/orders'' example_world"
  have "\<not> locks_open example_environment (Some example_rcns) (example_request ''BOOK'' [(''allow-rcns'', ''true'')]) example_world"
    by (simp add: locks_open_def example_rcns_def example_world_def example_document_def)
  moreover obtain w' out where r: "?r = (w', out)" by (cases ?r)
  ultimately have "wd_runtime w' = wd_runtime example_world" using rcns_locks by blast
  then show ?thesis by (simp add: r) (simp add: example_world_def)
qed

end
