(* ===== verification/Lifecycle.thy ===== *)
theory Lifecycle
  imports Rcns_Gate
begin

text \<open>
  The lifecycle of an agent and of its contracts in server/methods.py: the transitions
  of the status with their authorization and their signed events, and the handlers
  REVOKE and SUSPEND that end contracts.  The Genesis of an agent, the writing of its
  document to disk, the hooks run after a transition and the rendering of the clock
  are arguments.
\<close>

section \<open>Authorization\<close>

record 'x lifecycle_setup =
  lc_auth_mode :: string
  lc_issuer_key :: "string \<Rightarrow> (string + string) option"
  lc_persist :: "agent_document \<Rightarrow> 'x \<Rightarrow> 'x"
  lc_hooks :: "(agent_document \<Rightarrow> string \<Rightarrow> string \<Rightarrow> 'x \<Rightarrow> 'x) list"
  lc_now_iso :: string
  lc_offset_iso :: "int \<Rightarrow> py_error + string"
  lc_on_policy_change :: string

definition quoted :: "environment \<Rightarrow> string \<Rightarrow> string" where
  "quoted en s = en_repr en (JStr s)"

text \<open>The key of the issuer of an agent's Genesis: no Genesis, a key that does not parse,
  or its fingerprint.\<close>
definition lifecycle_auth_check :: "environment \<Rightarrow> 'x lifecycle_setup \<Rightarrow> request \<Rightarrow> agent_document \<Rightarrow> string \<Rightarrow> response option" where
  "lifecycle_auth_check en ls rq doc event =
     (let mode = (if lc_auth_mode ls = [] then ''open'' else lc_auth_mode ls) in
      if mode = ''open'' then None
      else if mode = ''genesis_issuer'' then
        (case rq_verified_cert rq of
           None \<Rightarrow> Some (method_error 401 ''Unauthorized'' ''lifecycle-auth-no-cert''
             (''[audit].lifecycle_auth=genesis_issuer requires a verified mTLS client certificate for '' @ upper event) [])
         | Some cert \<Rightarrow>
             (case lc_issuer_key ls (ad_agent_id doc) of
                None \<Rightarrow> Some (method_error 403 ''Forbidden'' ''lifecycle-auth-no-genesis''
                  (''agent '' @ ad_agent_id doc @ '' has no loaded Genesis; [audit].lifecycle_auth=genesis_issuer cannot '' @
                   ''verify the caller'' @ [CHR 0x27] @ ''s authority'') [])
              | Some (Inl e) \<Rightarrow> Some (method_error 500 ''Internal Server Error'' ''lifecycle-auth-bad-genesis''
                  (''could not derive issuer key fingerprint from agent'' @ [CHR 0x27] @ ''s Genesis: '' @ e) [])
              | Some (Inr expected) \<Rightarrow>
                  if lower (vc_agent_id cert) \<noteq> lower expected then
                    Some (method_error 403 ''Forbidden'' ''lifecycle-auth-wrong-issuer''
                      (''caller'' @ [CHR 0x27] @ ''s cert key '' @ quoted en (lower (vc_agent_id cert)) @ '' does not match the agent'' @
                       [CHR 0x27] @ ''s Genesis issuer key '' @ quoted en expected)
                      [(''caller_key'', JStr (lower (vc_agent_id cert))), (''expected_issuer_key'', JStr expected)])
                  else None))
      else Some (method_error 500 ''Internal Server Error'' ''lifecycle-auth-unknown-mode''
             (''unrecognized [audit].lifecycle_auth mode: '' @ quoted en mode) []))"

section \<open>Transitions\<close>

definition text_of :: "environment \<Rightarrow> jobj \<Rightarrow> string \<Rightarrow> string \<Rightarrow> string" where
  "text_of en params k dflt = py_str (en_repr en) (jor (jget params k) (JStr dflt))"

definition invalid_body :: "environment \<Rightarrow> response" where
  "invalid_body en = method_error 400 ''Bad Request'' ''invalid-body'' (en_error_text en ValueError) []"

text \<open>What a lifecycle event says of the transition.\<close>
definition lifecycle_event :: "string \<Rightarrow> string \<Rightarrow> string \<Rightarrow> string \<Rightarrow> jobj" where
  "lifecycle_event event previous new reason =
     [(''event_type'', JStr (lower event)), (''previous_status'', JStr previous), (''new_status'', JStr new)] @
     (if reason = [] then [] else [(''reason'', JStr reason)])"

definition emit_lifecycle_event :: "environment \<Rightarrow> string \<Rightarrow> jobj \<Rightarrow> 'x world \<Rightarrow> 'x world \<times> string" where
  "emit_lifecycle_event en aid extra w =
     (if en_signing en then (w\<lparr>wd_stream := wd_stream w @ [(aid, extra)]\<rparr>, en_audit_id en aid extra) else (w, []))"

text \<open>The status in memory, then the file, then the hooks.\<close>
definition set_status :: "'x lifecycle_setup \<Rightarrow> string \<Rightarrow> string \<Rightarrow> 'x world \<Rightarrow> 'x world" where
  "set_status ls event new w =
     (let doc = (wd_agent w)\<lparr>ad_status := new\<rparr> in
      w\<lparr>wd_agent := doc,
        wd_rest := fold (\<lambda>h x. h doc event new x) (lc_hooks ls) (lc_persist ls doc (wd_rest w))\<rparr>)"

definition lifecycle_transition ::
    "environment \<Rightarrow> 'x lifecycle_setup \<Rightarrow> string \<Rightarrow> string \<Rightarrow> request \<Rightarrow> 'x world \<Rightarrow> 'x world \<times> response" where
  "lifecycle_transition en ls event new rq w =
     (case parse_body rq of
        Inl _ \<Rightarrow> (w, invalid_body en)
      | Inr params \<Rightarrow>
          (case lifecycle_auth_check en ls rq (wd_agent w) event of
             Some r \<Rightarrow> (w, r)
           | None \<Rightarrow>
               (let reason = strip (text_of en params ''reason'' []); previous = ad_status (wd_agent w);
                    aid = ad_agent_id (wd_agent w)
                in if previous = new then
                     (w, method_response 200 ''OK''
                       [(''method'', JStr (upper event)), (''agent_id'', JStr aid), (''noop'', JBool True),
                        (''status'', JStr previous), (''issued_at'', JStr (lc_now_iso ls))] (Some (upper event)) [])
                   else (case emit_lifecycle_event en aid (lifecycle_event event previous new reason) (set_status ls event new w) of
                     (w1, audit_id) \<Rightarrow>
                       (w1, method_response 200 ''OK''
                         ([(''method'', JStr (upper event)), (''agent_id'', JStr aid), (''previous_status'', JStr previous),
                           (''status'', JStr new), (''event_type'', JStr (lower event)), (''issued_at'', JStr (lc_now_iso ls))] @
                          (if reason = [] then [] else [(''reason'', JStr reason)]) @
                          (if audit_id = [] then [] else [(''audit_id'', JStr audit_id)])) (Some (upper event)) [])))))"

definition handle_activate :: "environment \<Rightarrow> 'x lifecycle_setup \<Rightarrow> request \<Rightarrow> 'x world \<Rightarrow> 'x world \<times> response" where
  "handle_activate en ls = lifecycle_transition en ls ''activate'' ''active''"

definition handle_deactivate :: "environment \<Rightarrow> 'x lifecycle_setup \<Rightarrow> request \<Rightarrow> 'x world \<Rightarrow> 'x world \<times> response" where
  "handle_deactivate en ls = lifecycle_transition en ls ''deactivate'' ''suspended''"

definition handle_reinstate :: "environment \<Rightarrow> 'x lifecycle_setup \<Rightarrow> request \<Rightarrow> 'x world \<Rightarrow> 'x world \<times> response" where
  "handle_reinstate en ls = lifecycle_transition en ls ''reinstate'' ''active''"

definition handle_deprecate :: "environment \<Rightarrow> 'x lifecycle_setup \<Rightarrow> request \<Rightarrow> 'x world \<Rightarrow> 'x world \<times> response" where
  "handle_deprecate en ls = lifecycle_transition en ls ''deprecate'' ''deprecated''"

section \<open>Ending contracts\<close>

text \<open>What an event says of a contract, taken before it ends.\<close>
definition contract_snapshot :: "string \<Rightarrow> synthesis_plan \<Rightarrow> synthesis_runtime \<Rightarrow> json \<Rightarrow> jobj" where
  "contract_snapshot sid p rt originating =
     [(''synthesis_id'', JStr sid), (''originating_agent_id'', originating),
      (''contract_hash'', opt_json (contract_hash_of sid rt)), (''negotiation_origin'', JStr (negotiation_origin sid rt)),
      (''method'', JStr (ep_name (pl_proposed_method p))), (''path'', JStr (path_or_root (pl_proposed_method p))),
      (''recipe_name'', opt_json (pl_recipe_name p)), (''recipe_version'', opt_json (pl_recipe_version p))]"

definition or_null :: "string \<Rightarrow> json" where
  "or_null s = (if s = [] then JNull else JStr s)"

definition revoke_contract ::
    "environment \<Rightarrow> 'x lifecycle_setup \<Rightarrow> jobj \<Rightarrow> 'x world \<Rightarrow> 'x world \<times> (py_error + response)" where
  "revoke_contract en ls params w =
     (let sid = strip (text_of en params ''synthesis_id'' []);
          missing = method_error 404 ''Not Found'' ''contract-not-found'' (''no active synthesis with id '' @ quoted en sid)
            [(''synthesis_id'', JStr sid)]
      in if sid = [] then
           (w, Inr (method_error 400 ''Bad Request'' ''missing-synthesis-id''
             ''REVOKE target=contract requires a synthesis_id parameter'' []))
         else if wd_runtime w = None then (w, Inr missing)
         else (case get_plan (en_now en) sid (runtime_of w) of
             (rt, None) \<Rightarrow> (set_runtime rt w, Inr missing)
           | (rt, Some p) \<Rightarrow>
               (let originating = or_text (originating_agent_id sid rt) []; me = ad_agent_id (wd_agent w) in
                case declared_scopes (wd_agent w) of
                  Inl e \<Rightarrow> (set_runtime rt w, Inl e)
                | Inr scopes \<Rightarrow>
                    if originating \<noteq> [] \<and> \<not> (originating = me \<or> JStr ''inspect:all'' \<in> set scopes) then
                      (set_runtime rt w, Inr (method_error 403 ''Forbidden'' ''contract-not-yours''
                        (''this synthesis_id belongs to a different Agent-ID; only the originator or an inspect:all '' @
                         ''caller can REVOKE it'') [(''synthesis_id'', JStr sid)]))
                    else
                      (let reason = strip (text_of en params ''reason'' []);
                           emitted = maybe_emit_rcns_event en ''rcns_revoke'' (if originating = [] then me else originating)
                             (contract_snapshot sid p rt (JStr originating)) me reason (set_runtime (fst (expire sid rt)) w)
                       in (fst emitted, Inr (method_response 200 ''OK''
                            ([(''method'', JStr ''REVOKE''), (''target'', JStr ''contract''), (''synthesis_id'', JStr sid),
                              (''revoked_at'', JStr (lc_now_iso ls)), (''originating_agent_id'', or_null originating),
                              (''reason'', or_null reason)] @ text_entry ''audit_id'' (snd emitted))
                            (Some ''REVOKE'') []))))))"

definition stale_snapshot :: "stale_record \<Rightarrow> jobj" where
  "stale_snapshot r =
     [(''synthesis_id'', JStr (sl_synthesis_id r)), (''originating_agent_id'', opt_json (sl_originating r)),
      (''contract_hash'', opt_json (sl_contract_hash r)), (''negotiation_origin'', JStr (sl_origin r)),
      (''method'', JStr (sl_method r)), (''path'', JStr (sl_path r)), (''recipe_name'', opt_json (sl_recipe_name r)),
      (''captured_recipe_version'', opt_json (sl_captured_version r)),
      (''current_recipe_version'', opt_json (sl_current_version r))]"

definition stale_json :: "stale_record \<Rightarrow> json" where
  "stale_json r = JObj
     [(''synthesis_id'', JStr (sl_synthesis_id r)), (''originating_agent_id'', opt_json (sl_originating r)),
      (''contract_hash'', opt_json (sl_contract_hash r)), (''negotiation_origin'', JStr (sl_origin r)),
      (''method'', JStr (sl_method r)), (''path'', JStr (sl_path r)), (''recipe_name'', opt_json (sl_recipe_name r)),
      (''captured_version'', opt_json (sl_captured_version r)), (''current_version'', opt_json (sl_current_version r)),
      (''action'', JStr (sl_action r))]"

text \<open>One release event per evicted contract, on the stream of its owner.\<close>
fun release_all :: "environment \<Rightarrow> string \<Rightarrow> stale_record list \<Rightarrow> 'x world \<Rightarrow> 'x world \<times> string list" where
  "release_all en me [] w = (w, [])" |
  "release_all en me (r # rs) w =
     (let emitted = maybe_emit_rcns_event en ''rcns_release'' (text_or_else (sl_originating r) me) (stale_snapshot r) me
            ''policy-change-invalidation'' w;
          rest = release_all en me rs (fst emitted)
      in (fst rest, (case non_empty (snd emitted) of None \<Rightarrow> [] | Some a \<Rightarrow> [a]) @ snd rest))"

definition revoke_stale_contracts ::
    "environment \<Rightarrow> 'x lifecycle_setup \<Rightarrow> jobj \<Rightarrow> 'x world \<Rightarrow> 'x world \<times> (py_error + response)" where
  "revoke_stale_contracts en ls params w =
     (let me = ad_agent_id (wd_agent w);
          mode = lower (text_of en params ''mode'' (if lc_on_policy_change ls = [] then ''grandfather'' else lc_on_policy_change ls))
      in case declared_scopes (wd_agent w) of
        Inl e \<Rightarrow> (w, Inl e)
      | Inr scopes \<Rightarrow>
          if JStr ''inspect:all'' \<notin> set scopes then
            (w, Inr (method_error 403 ''Forbidden'' ''operator-scope-required''
              ''REVOKE target=stale-contracts requires the inspect:all scope (operator-only sweep)'' []))
          else if wd_runtime w = None then
            (w, Inr (method_error 500 ''Internal Server Error'' ''runtime-misconfigured''
              ''server has no synthesis_runtime configured'' []))
          else (case sweep_for_policy_change mode (runtime_of w) of
              (_, Inl _) \<Rightarrow>
                (w, Inr (method_error 400 ''Bad Request'' ''invalid-mode''
                  (''mode must be '' @ quoted en ''grandfather'' @ '' or '' @ quoted en ''invalidate'' @ '' (got '' @ quoted en mode @ '')'') []))
            | (rt, Inr records) \<Rightarrow>
                (let released = (if mode = ''invalidate'' then release_all en me records (set_runtime rt w) else (set_runtime rt w, []))
                 in (fst released, Inr (method_response 200 ''OK''
                   [(''method'', JStr ''REVOKE''), (''target'', JStr ''stale-contracts''), (''mode'', JStr mode),
                    (''swept_at'', JStr (lc_now_iso ls)), (''actor_agent_id'', JStr me),
                    (''records'', JArr (map stale_json records)), (''stale_count'', JInt (int (length records))),
                    (''audit_ids'', strs (snd released))] (Some ''REVOKE'') [])))))"

definition handle_revoke ::
    "environment \<Rightarrow> 'x lifecycle_setup \<Rightarrow> request \<Rightarrow> 'x world \<Rightarrow> 'x world \<times> (py_error + response)" where
  "handle_revoke en ls rq w =
     (case parse_body rq of
        Inl _ \<Rightarrow> (w, Inr (invalid_body en))
      | Inr params \<Rightarrow>
          (let target = lower (text_of en params ''target'' ''agent'') in
           if target = ''contract'' then revoke_contract en ls params w
           else if target = ''stale-contracts'' then revoke_stale_contracts en ls params w
           else map_prod id Inr (lifecycle_transition en ls ''revoke'' ''retired'' rq w)))"

text \<open>The release of a named contract by SUSPEND: whether it ended, and the identifier of
  the event.\<close>
definition suspend_contract :: "environment \<Rightarrow> string \<Rightarrow> string \<Rightarrow> 'x world \<Rightarrow> 'x world \<times> bool \<times> string option" where
  "suspend_contract en sid reason w =
     (if wd_runtime w = None then (w, False, None)
      else (case get_plan (en_now en) sid (runtime_of w) of (rt, plan) \<Rightarrow>
        (let snapshot = (case plan of None \<Rightarrow> []
               | Some p \<Rightarrow> contract_snapshot sid p rt (opt_json (originating_agent_id sid rt)));
             ended = expire sid rt; me = ad_agent_id (wd_agent w);
             owner = (if plan = None then me else text_or_else (originating_agent_id sid rt) me)
         in if snd ended then
              (case maybe_emit_rcns_event en ''rcns_release'' owner snapshot me reason (set_runtime (fst ended) w) of
                 (w1, a) \<Rightarrow> (w1, True, a))
            else (set_runtime (fst ended) w, False, None))))"

definition fresh_token :: "environment \<Rightarrow> string \<Rightarrow> 'x world \<Rightarrow> 'x world \<times> string" where
  "fresh_token en kind w = (w\<lparr>wd_supply := Suc (wd_supply w)\<rparr>, kind @ en_token en (wd_supply w))"

definition handle_suspend ::
    "environment \<Rightarrow> 'x lifecycle_setup \<Rightarrow> request \<Rightarrow> 'x world \<Rightarrow> 'x world \<times> (py_error + response)" where
  "handle_suspend en ls rq w =
     (case parse_body rq of
        Inl _ \<Rightarrow> (w, Inr (invalid_body en))
      | Inr params \<Rightarrow>
          (case py_int (get_or (JInt 3600) params ''ttl_seconds'') of
             Inl e \<Rightarrow> (w, Inl e)
           | Inr ttl \<Rightarrow>
               (let (w1, nonce) = fresh_token en [] w; v = jget params ''synthesis_id'';
                    sid = py_str (en_repr en) v;
                    (w2, ended, audit_id) = (if truthy v then suspend_contract en sid (text_of en params ''reason'' []) w1
                                             else (w1, False, None));
                    (w3, session) = fresh_token en ''sess-'' w2
                in case lc_offset_iso ls ttl of
                     Inl e \<Rightarrow> (w3, Inl e)
                   | Inr until \<Rightarrow>
                       (w3, Inr (method_response 200 ''OK''
                         ([(''method'', JStr ''SUSPEND''), (''agent_id'', JStr (ad_agent_id (wd_agent w))),
                           (''session_id'', get_or (JStr session) params ''session_id''), (''resumption_nonce'', JStr nonce),
                           (''expires_at'', JStr until), (''reason'', jget params ''reason''),
                           (''synthesis_cleared'', if ended then JStr sid else JNull),
                           (''suspended_at'', JStr (lc_now_iso ls))] @ text_entry ''rcns_release_audit_id'' audit_id)
                         (Some ''SUSPEND'') [])))))"


section \<open>The audit trail\<close>

datatype lifecycle_call = Activate | Deactivate | Revoke | Reinstate | Deprecate | Suspend

fun lifecycle_step :: "environment \<Rightarrow> 'x lifecycle_setup \<Rightarrow> lifecycle_call \<times> request \<Rightarrow> 'x world \<Rightarrow> 'x world" where
  "lifecycle_step en ls (Activate, rq) w = fst (handle_activate en ls rq w)" |
  "lifecycle_step en ls (Deactivate, rq) w = fst (handle_deactivate en ls rq w)" |
  "lifecycle_step en ls (Revoke, rq) w = fst (handle_revoke en ls rq w)" |
  "lifecycle_step en ls (Reinstate, rq) w = fst (handle_reinstate en ls rq w)" |
  "lifecycle_step en ls (Deprecate, rq) w = fst (handle_deprecate en ls rq w)" |
  "lifecycle_step en ls (Suspend, rq) w = fst (handle_suspend en ls rq w)"

text \<open>The transitions an audit stream tells of an agent, and the paths they form.\<close>
fun transitions :: "string \<Rightarrow> (string \<times> jobj) list \<Rightarrow> (json \<times> json) list" where
  "transitions aid [] = []" |
  "transitions aid ((a, e) # es) =
     (if a = aid \<and> dict_get e ''new_status'' \<noteq> None then [(jget e ''previous_status'', jget e ''new_status'')] else []) @
     transitions aid es"

fun path_from :: "string \<Rightarrow> (json \<times> json) list \<Rightarrow> string \<Rightarrow> bool" where
  "path_from s [] t = (s = t)" |
  "path_from s ((p, n) # ps) t = (p = JStr s \<and> n \<noteq> p \<and> (\<exists>u. n = JStr u \<and> path_from u ps t))"

text \<open>A world that another follows: the stream grew by transitions that lead from the
  status of the one to the status of the other, and of the document only the status differs.\<close>
definition trail :: "'x world \<Rightarrow> 'x world \<Rightarrow> bool" where
  "trail w w' =
     (\<exists>es. wd_stream w' = wd_stream w @ es \<and>
        path_from (ad_status (wd_agent w)) (transitions (ad_agent_id (wd_agent w)) es) (ad_status (wd_agent w')) \<and>
        wd_agent w' = (wd_agent w)\<lparr>ad_status := ad_status (wd_agent w')\<rparr>)"

lemma transitions_append: "transitions aid (es @ fs) = transitions aid es @ transitions aid fs"
  by (induction aid es rule: transitions.induct) simp_all

lemma path_from_append: "path_from s ps u \<Longrightarrow> path_from u qs t \<Longrightarrow> path_from s (ps @ qs) t"
  by (induction s ps u rule: path_from.induct) auto

lemma trail_refl: "wd_stream w' = wd_stream w \<Longrightarrow> wd_agent w' = wd_agent w \<Longrightarrow> trail w w'"
  by (simp add: trail_def exI[of _ "[]"])

lemma trail_trans:
  assumes "trail a b" and "trail b c"
  shows "trail a c"
proof -
  obtain es where es: "wd_stream b = wd_stream a @ es"
    "path_from (ad_status (wd_agent a)) (transitions (ad_agent_id (wd_agent a)) es) (ad_status (wd_agent b))"
    "wd_agent b = (wd_agent a)\<lparr>ad_status := ad_status (wd_agent b)\<rparr>" using assms(1) by (auto simp: trail_def)
  obtain fs where fs: "wd_stream c = wd_stream b @ fs"
    "path_from (ad_status (wd_agent b)) (transitions (ad_agent_id (wd_agent b)) fs) (ad_status (wd_agent c))"
    "wd_agent c = (wd_agent b)\<lparr>ad_status := ad_status (wd_agent c)\<rparr>" using assms(2) by (auto simp: trail_def)
  have id: "ad_agent_id (wd_agent b) = ad_agent_id (wd_agent a)" by (subst es(3)) simp
  have "wd_agent c = (wd_agent a)\<lparr>ad_status := ad_status (wd_agent c)\<rparr>"
    by (subst fs(3), subst es(3)) simp
  moreover have "path_from (ad_status (wd_agent a)) (transitions (ad_agent_id (wd_agent a)) (es @ fs)) (ad_status (wd_agent c))"
    unfolding transitions_append using path_from_append[OF es(2)] fs(2) id by simp
  ultimately show ?thesis using es(1) fs(1) unfolding trail_def by (metis append_assoc)
qed

lemma set_runtime_keeps [simp]:
  "wd_stream (set_runtime rt w) = wd_stream w" "wd_agent (set_runtime rt w) = wd_agent w"
  "wd_rest (set_runtime rt w) = wd_rest w"
  by (simp_all add: set_runtime_def)

lemma fresh_token_keeps [simp]:
  "wd_stream (fst (fresh_token en p w)) = wd_stream w" "wd_agent (fst (fresh_token en p w)) = wd_agent w"
  "wd_runtime (fst (fresh_token en p w)) = wd_runtime w"
  by (simp_all add: fresh_token_def)

text \<open>An event about a contract tells no transition.\<close>
lemma obj_update_other: "k \<notin> fst ` set e \<Longrightarrow> dict_get (obj_update d e) k = dict_get d k"
  unfolding obj_update_def by (induction e arbitrary: d) auto

lemma rcns_event_trail:
  assumes "''new_status'' \<notin> fst ` set snapshot"
  shows "trail w (fst (maybe_emit_rcns_event en ev aid snapshot actor reason w))"
proof -
  let ?e = "obj_update [(''event_type'', JStr ev), (''actor_agent_id'', JStr actor)]
          (filter (\<lambda>(k, v). v \<noteq> JNull) snapshot @ (if reason = [] then [] else [(''reason'', JStr reason)]))"
  have "dict_get ?e ''new_status'' = None"
    by (subst obj_update_other) (use assms in auto)
  then show ?thesis
    unfolding maybe_emit_rcns_event_def emit_event_def trail_def
    by (auto simp: exI[of _ "[]"] exI[of _ "[(aid, ?e)]"])
qed

lemma snapshot_keys [simp]:
  "''new_status'' \<notin> fst ` set (contract_snapshot sid p rt v)" "''new_status'' \<notin> fst ` set (stale_snapshot r)"
  by (simp_all add: contract_snapshot_def stale_snapshot_def)


lemma set_status_keeps [simp]:
  "wd_stream (set_status ls ev new w) = wd_stream w" "wd_agent (set_status ls ev new w) = (wd_agent w)\<lparr>ad_status := new\<rparr>"
  by (simp_all add: set_status_def Let_def)

lemma transition_trail:
  assumes "en_signing en"
  shows "trail w (fst (lifecycle_transition en ls ev new rq w))"
proof -
  have step: "ad_status (wd_agent w) \<noteq> new \<Longrightarrow>
      trail w (fst (emit_lifecycle_event en (ad_agent_id (wd_agent w))
        (lifecycle_event ev (ad_status (wd_agent w)) new reason) (set_status ls ev new w)))" for reason
    using assms by (simp add: trail_def emit_lifecycle_event_def lifecycle_event_def jget_def)
  show ?thesis
    unfolding lifecycle_transition_def Let_def case_prod_unfold
    using step by (simp add: trail_refl split: sum.split option.split)
qed

lemma revoke_contract_trail: "trail w (fst (revoke_contract en ls params w))"
proof -
  have "trail w (fst (maybe_emit_rcns_event en ev aid (contract_snapshot sid p rt v) me r (set_runtime rt' w)))" for ev aid sid p rt v me r rt'
    by (rule trail_trans[OF trail_refl rcns_event_trail]) simp_all
  then show ?thesis
    unfolding revoke_contract_def Let_def case_prod_unfold by (simp add: trail_refl split: option.split sum.split)
qed

lemma release_all_trail: "trail w (fst (release_all en me rs w))"
proof (induction rs arbitrary: w)
  case (Cons r rs)
  show ?case
    unfolding release_all.simps Let_def fst_conv
    by (rule trail_trans[OF rcns_event_trail Cons.IH]) simp
qed (simp add: trail_refl)

lemma revoke_stale_trail: "trail w (fst (revoke_stale_contracts en ls params w))"
proof -
  have "trail w (fst (release_all en me rs (set_runtime rt w)))" for me rs rt
    by (rule trail_trans[OF trail_refl release_all_trail]) simp_all
  then show ?thesis
    unfolding revoke_stale_contracts_def Let_def case_prod_unfold by (simp add: trail_refl split: option.split sum.split)
qed

lemma suspend_contract_trail: "trail w (fst (suspend_contract en sid reason w))"
proof -
  have "trail w (fst (maybe_emit_rcns_event en ev aid (contract_snapshot sid p rt v) me r (set_runtime rt' w)))"
    "trail w (fst (maybe_emit_rcns_event en ev aid [] me r (set_runtime rt' w)))" for ev aid sid p rt v me r rt'
    by (rule trail_trans[OF trail_refl rcns_event_trail]; simp)+
  then show ?thesis
    unfolding suspend_contract_def by (simp add: Let_def trail_refl case_prod_unfold split: option.split)
qed

lemma suspend_trail: "trail w (fst (handle_suspend en ls rq w))"
proof -
  have t: "trail w (fst (fresh_token en k w))" for k and w :: "'a world" by (rule trail_refl) simp_all
  have c: "trail w (fst (fresh_token en ''sess-'' (fst (suspend_contract en sid r (fst (fresh_token en [] w))))))" for sid r
    by (rule trail_trans[OF t trail_trans[OF suspend_contract_trail t]])
  have n: "trail w (fst (fresh_token en ''sess-'' (fst (fresh_token en [] w))))" by (rule trail_trans[OF t t])
  show ?thesis using c n
    by (simp add: handle_suspend_def Let_def case_prod_unfold trail_refl split: sum.split)
qed

lemma lifecycle_step_trail: "en_signing en \<Longrightarrow> trail w (lifecycle_step en ls c w)"
  by (cases "(en, ls, c, w)" rule: lifecycle_step.cases)
     (auto simp: handle_activate_def handle_deactivate_def handle_reinstate_def handle_deprecate_def handle_revoke_def
       Let_def transition_trail revoke_contract_trail revoke_stale_trail suspend_trail trail_refl split: sum.split)



section \<open>Who ends a contract\<close>

text \<open>A contract that is served: its plan is found at the time.\<close>
definition served :: "environment \<Rightarrow> string \<Rightarrow> 'x world \<Rightarrow> bool" where
  "served en sid w = (wd_runtime w \<noteq> None \<and> snd (get_plan (en_now en) sid (runtime_of w)) \<noteq> None)"

lemma runtime_of_set [simp]: "runtime_of (set_runtime rt w) = rt"
  by (simp add: runtime_of_def set_runtime_def)

lemma runtime_of_emit [simp]:
  "runtime_of (fst (maybe_emit_rcns_event en ev aid s me r w)) = runtime_of w"
  "wd_runtime (fst (maybe_emit_rcns_event en ev aid s me r w)) = wd_runtime w"
  by (simp_all add: maybe_emit_rcns_event_def emit_event_def runtime_of_def)

lemma wd_runtime_set [simp]: "wd_runtime (set_runtime rt w) = Some rt"
  by (simp add: set_runtime_def)

text \<open>A found plan leaves the runtime as it is.\<close>
lemma get_plan_same: "get_plan now sid rt = (rt', Some p) \<Longrightarrow> rt' = rt"
  using get_plan_result[of now sid rt p] by simp

lemma get_after_expire: "snd (get_plan now sid (fst (expire sid' rt))) = (if sid = sid' then None else snd (get_plan now sid rt))"
  by (simp add: get_plan_def expire_def split: option.split)


text \<open>SUSPEND ends any contract.  Whoever the caller is and whatever scopes it has, a
  SUSPEND that names a contract which is served ends it; the event goes to the stream of the
  contract's originator with the caller as its actor.\<close>
theorem suspend_ends_foreign_contract:
  assumes "served en sid w" and "parse_body rq = Inr params" and "py_int (get_or (JInt 3600) params ''ttl_seconds'') = Inr ttl"
    and "jget params ''synthesis_id'' = JStr sid" and "sid \<noteq> []"
  shows "\<not> served en sid (fst (handle_suspend en ls rq w)) \<and>
     (en_signing en \<and> originating_agent_id sid (runtime_of w) = Some owner \<and> owner \<noteq> [] \<longrightarrow>
        (\<exists>e. wd_stream (fst (handle_suspend en ls rq w)) = wd_stream w @ [(owner, e)] \<and>
             jget e ''actor_agent_id'' = JStr (ad_agent_id (wd_agent w))))"
proof -
  define w1 where "w1 = fst (fresh_token en [] w)"
  have w1: "wd_stream w1 = wd_stream w" "wd_agent w1 = wd_agent w" "wd_runtime w1 = wd_runtime w" "runtime_of w1 = runtime_of w"
    by (simp_all add: w1_def runtime_of_def)
  obtain p where g: "get_plan (en_now en) sid (runtime_of w) = (runtime_of w, Some p)"
    using assms(1) get_plan_same unfolding served_def by (metis option.exhaust prod.collapse)
  have known: "snd (expire sid (runtime_of w))"
    using get_plan_result[of "en_now en" sid "runtime_of w" p] g by (simp add: expire_def)
  have rt: "wd_runtime w1 \<noteq> None" using assms(1) unfolding served_def w1 by blast
  define own where "own = text_or_else (originating_agent_id sid (runtime_of w)) (ad_agent_id (wd_agent w))"
  define snap where "snap = contract_snapshot sid p (runtime_of w) (opt_json (originating_agent_id sid (runtime_of w)))"
  let ?emit = "\<lambda>r. maybe_emit_rcns_event en ''rcns_release'' own snap (ad_agent_id (wd_agent w)) r
       (set_runtime (fst (expire sid (runtime_of w))) w1)"
  have s: "suspend_contract en sid r w1 = (fst (?emit r), True, snd (?emit r))" for r
    unfolding suspend_contract_def own_def snap_def
    using rt by (simp add: w1 g known Let_def case_prod_unfold del: not_None_eq)
  have f: "fst (handle_suspend en ls rq w) = fst (fresh_token en ''sess-'' (fst (?emit (text_of en params ''reason'' []))))"
    unfolding handle_suspend_def w1_def[symmetric]
    using assms(2-5) s by (simp add: Let_def case_prod_unfold w1_def[symmetric] split: sum.split)
  have "\<not> served en sid (fst (handle_suspend en ls rq w))"
    unfolding f served_def by (simp add: runtime_of_def get_after_expire)
  moreover have "\<exists>e. wd_stream (fst (handle_suspend en ls rq w)) = wd_stream w @ [(owner, e)] \<and>
      jget e ''actor_agent_id'' = JStr (ad_agent_id (wd_agent w))"
    if "en_signing en" "originating_agent_id sid (runtime_of w) = Some owner" "owner \<noteq> []"
  proof -
    have "own = owner" using that by (simp add: own_def text_or_else_def)
    then show ?thesis
      unfolding f using that w1
      by (simp add: maybe_emit_rcns_event_def emit_event_def jget_def obj_update_other snap_def contract_snapshot_def)
  qed
  ultimately show ?thesis by blast
qed


definition example_contract_world :: "unit world" where
  "example_contract_world = example_world\<lparr>wd_runtime := Some (fst (instantiate ''s1'' example_plan
     \<lparr>ct_expires_at = None, ct_persistent = False, ct_originating = Some ''owner'', ct_contract_hash = None, ct_origin = ''rcns''\<rparr>
     (new_runtime [] 3)))\<rparr>"

definition example_setup :: "unit lifecycle_setup" where
  "example_setup =
     \<lparr>lc_auth_mode = ''open'', lc_issuer_key = (\<lambda>a. None), lc_persist = (\<lambda>d x. x), lc_hooks = [], lc_now_iso = ''t'',
      lc_offset_iso = (\<lambda>n. Inr ''u''), lc_on_policy_change = []\<rparr>"

lemma example_contract:
  "wd_agent example_contract_world = example_document" "wd_runtime example_contract_world \<noteq> None"
  "get_plan now ''s1'' (runtime_of example_contract_world) = (runtime_of example_contract_world, Some example_plan)"
  "originating_agent_id ''s1'' (runtime_of example_contract_world) = Some ''owner''"
  "wd_stream example_contract_world = []"
  by (simp_all add: example_contract_world_def example_world_def instantiate_def new_runtime_def runtime_of_def Let_def
      get_plan_def originating_agent_id_def set_if_def non_empty_def example_plan_def passthrough_plan_def)



lemma suspend_ends_foreign_contract_witness:
  "\<not> served example_environment ''s1'' (fst (handle_suspend example_environment example_setup
      ((example_request ''SUSPEND'' [])\<lparr>rq_body := JsonBytes (JObj [(''synthesis_id'', JStr ''s1'')])\<rparr>) example_contract_world))"
  by (rule conjunct1[OF suspend_ends_foreign_contract[of _ _ _ _ "[(''synthesis_id'', JStr ''s1'')]" 3600]])
     (simp_all add: example_contract served_def parse_body_def get_or_def jget_def)

end
