(* ===== verification/Oauth.thy ===== *)
theory Oauth
  imports Method_Registry
begin

text \<open>
  server/oauth_context.py and the OAuth gate of the dispatcher: the bearer token, the
  two validators that ship and their registry, the merge of the server's policy with
  the one of an agent document, and the gate itself.  The decoding of a base64 JSON
  segment, the PEM loader, the signature check and the rendering of values and of
  exceptions are arguments; text is ASCII.
\<close>

section \<open>Tokens\<close>

definition extract_token :: "request \<Rightarrow> string option" where
  "extract_token rq =
     (let t = strip (header_in (rq_headers rq) ''Authorization'') in
      if length t \<le> 7 then None
      else if lower (take 7 t) \<noteq> ''bearer '' then None
      else (let tok = strip (drop 7 t) in if tok = [] then None else Some tok))"

text \<open>The key objects of the cryptography library, as far as the validator tells them
  apart.\<close>
datatype public_key = Ed25519Key string | RsaKey string | OtherKey string

record token_services =
  ts_repr :: "json \<Rightarrow> string"
  ts_error_name :: "py_error \<Rightarrow> string"
  ts_error_text :: "py_error \<Rightarrow> string"
  ts_segment :: "string \<Rightarrow> py_error + json"
  ts_base64 :: "string \<Rightarrow> py_error + string"
  ts_load_pem :: "string \<Rightarrow> py_error + public_key"
  ts_verifies :: "public_key \<Rightarrow> string \<Rightarrow> string \<Rightarrow> string \<Rightarrow> bool"

text \<open>The structured failure with its reason and text, or another exception.\<close>
datatype token_error = Refused string string | Raised py_error

type_synonym validator = "string \<Rightarrow> token_error + json"

section \<open>The validator that accepts everything\<close>

definition noop_validate :: "token_services \<Rightarrow> validator" where
  "noop_validate ts tok =
     (if tok = [] then Inl (Refused ''oauth-malformed'' ''no token presented'')
      else (case split_char (CHR ''.'') tok of
              _ # p # _ \<Rightarrow>
                (case ts_segment ts p of
                   Inr (JObj claims) \<Rightarrow> Inr (JObj claims)
                 | Inr _ \<Rightarrow> Inr (JObj [])
                 | Inl ValueError \<Rightarrow> Inr (JObj [])
                 | Inl e \<Rightarrow> Inl (Raised e))
            | _ \<Rightarrow> Inr (JObj [])))"

section \<open>JSON web tokens\<close>

record jwt_validator =
  jv_public_key :: public_key
  jv_allowed_algs :: "json list"
  jv_expected_issuer :: json
  jv_expected_audience :: "json list"
  jv_leeway_seconds :: int

definition contains_text :: "string \<Rightarrow> string \<Rightarrow> bool" where
  "contains_text p s = list_ex (starts_with p) (suffixes s)"

definition load_public_key_any :: "token_services \<Rightarrow> string \<Rightarrow> py_error + public_key" where
  "load_public_key_any ts v =
     (if contains_text ''-----BEGIN'' v then ts_load_pem ts v
      else bind_res (ts_base64 ts v) (\<lambda>raw. if length raw = 32 then Inr (Ed25519Key raw) else Inl ValueError))"

definition audience_list :: "json \<Rightarrow> py_error + json list" where
  "audience_list v =
     (case v of JStr s \<Rightarrow> Inr (if s = [] then [] else [JStr s])
      | _ \<Rightarrow> if truthy v then iter_items v else Inr [])"

text \<open>The constructor, on the configuration of the validator.\<close>
definition new_jwt_validator :: "token_services \<Rightarrow> json \<Rightarrow> py_error + jwt_validator" where
  "new_jwt_validator ts cfg =
     (case cfg of
        JObj d \<Rightarrow>
          (let key = strip (py_str (ts_repr ts) (jor (jget d ''public_key'') (JStr []))) in
           if key = [] then Inl ValueError
           else bind_res (load_public_key_any ts key) (\<lambda>pk.
                bind_res (iter_items (jor (jget d ''allowed_algs'') (JArr [JStr ''EdDSA'']))) (\<lambda>algs.
                if \<not> list_all hashable algs then Inl TypeError
                else bind_res (audience_list (jget d ''expected_audience'')) (\<lambda>aud.
                bind_res (py_int (jor (jget d ''leeway_seconds'') (JInt 60))) (\<lambda>leeway. Inr
                  \<lparr>jv_public_key = pk, jv_allowed_algs = algs, jv_expected_issuer = jor (jget d ''expected_issuer'') (JStr []),
                   jv_expected_audience = aud, jv_leeway_seconds = leeway\<rparr>)))))
      | _ \<Rightarrow> Inl AttributeError)"

definition rsa_algorithms :: "string list" where
  "rsa_algorithms = [''RS256'', ''RS384'', ''RS512'']"

text \<open>The check of the key against the algorithm, then of the signature.\<close>
definition check_signature :: "token_services \<Rightarrow> public_key \<Rightarrow> string \<Rightarrow> string \<Rightarrow> string \<Rightarrow> token_error option" where
  "check_signature ts pk alg sig msg =
     (let verdict = (if ts_verifies ts pk alg sig msg then None
                     else Some (Refused ''oauth-invalid-signature'' ''JWT signature did not verify''))
      in case pk of
        Ed25519Key _ \<Rightarrow>
          if alg \<noteq> ''EdDSA'' then Some (Refused ''oauth-malformed'' ''Ed25519 key requires alg=EdDSA'') else verdict
      | RsaKey _ \<Rightarrow>
          if alg \<notin> set rsa_algorithms
          then Some (Refused ''oauth-malformed'' (''RSA key does not accept alg '' @ ts_repr ts (JStr alg))) else verdict
      | OtherKey kind \<Rightarrow> Some (Refused ''oauth-invalid'' (''unsupported public-key type '' @ kind)))"

text \<open>Membership in a Python list, by the equality of JSON values up to the kind of a
  number.\<close>
definition json_in :: "json \<Rightarrow> json list \<Rightarrow> bool" where
  "json_in v xs = list_ex (\<lambda>x. hkey x = hkey v) xs"

definition audience_values :: "json \<Rightarrow> py_error + json list" where
  "audience_values v =
     (case v of JStr s \<Rightarrow> Inr [JStr s] | _ \<Rightarrow> if truthy v then iter_items v else Inr [])"

definition check_audience :: "token_services \<Rightarrow> jwt_validator \<Rightarrow> jobj \<Rightarrow> token_error option" where
  "check_audience ts jv claims =
     (if jv_expected_audience jv = [] then None
      else (case audience_values (jget claims ''aud'') of
              Inl e \<Rightarrow> Some (Raised e)
            | Inr vs \<Rightarrow>
                if list_ex (\<lambda>a. json_in a (jv_expected_audience jv)) vs then None
                else Some (Refused ''oauth-invalid''
                  (''aud claim '' @ ts_repr ts (jget claims ''aud'') @ '' does not match expected audiences '' @
                   ts_repr ts (JArr (jv_expected_audience jv))))))"

text \<open>A time claim: absent, within its bound, out of it, or not an integer.\<close>
definition check_time :: "token_services \<Rightarrow> string \<Rightarrow> (int \<Rightarrow> bool) \<Rightarrow> token_error \<Rightarrow> json \<Rightarrow> token_error option" where
  "check_time ts name out_of_bound refusal v =
     (if v = JNull then None
      else (case py_int v of
              Inl e \<Rightarrow>
                if e \<in> {TypeError, ValueError}
                then Some (Refused ''oauth-malformed'' (name @ '' claim is not an integer: '' @ ts_repr ts v))
                else Some (Raised e)
            | Inr t \<Rightarrow> if out_of_bound t then Some refusal else None))"

fun first_error :: "token_error option list \<Rightarrow> token_error option" where
  "first_error [] = None" |
  "first_error (None # es) = first_error es" |
  "first_error (Some e # es) = Some e"

text \<open>The checks of the payload, which must be an object for its get method.\<close>
definition check_claims :: "token_services \<Rightarrow> int \<Rightarrow> jwt_validator \<Rightarrow> jobj \<Rightarrow> token_error option" where
  "check_claims ts now jv claims = first_error
     [if truthy (jv_expected_issuer jv) \<and> hkey (jget claims ''iss'') \<noteq> hkey (jv_expected_issuer jv)
      then Some (Refused ''oauth-unknown-issuer''
        (''iss claim '' @ ts_repr ts (jget claims ''iss'') @ '' does not match expected '' @ ts_repr ts (jv_expected_issuer jv)))
      else None,
      check_audience ts jv claims,
      check_time ts ''exp'' (\<lambda>t. t + jv_leeway_seconds jv < now) (Refused ''oauth-expired'' ''JWT exp is in the past'')
        (jget claims ''exp''),
      check_time ts ''nbf'' (\<lambda>t. now < t - jv_leeway_seconds jv) (Refused ''oauth-not-yet-valid'' ''JWT nbf is in the future'')
        (jget claims ''nbf'')]"

definition jwt_validate :: "token_services \<Rightarrow> int \<Rightarrow> jwt_validator \<Rightarrow> validator" where
  "jwt_validate ts now jv tok =
     (let malformed = (\<lambda>e txt. if e = ValueError then Refused ''oauth-malformed'' (txt @ ts_error_text ts e) else Raised e)
      in case split_char (CHR ''.'') tok of
        [h, p, s] \<Rightarrow>
          (case ts_segment ts h of
             Inl e \<Rightarrow> Inl (malformed e ''JWT segments did not parse: '')
           | Inr header \<Rightarrow>
          (case ts_segment ts p of
             Inl e \<Rightarrow> Inl (malformed e ''JWT segments did not parse: '')
           | Inr payload \<Rightarrow>
          (case header of
             JObj head_fields \<Rightarrow>
               (let alg = py_str (ts_repr ts) (jor (jget head_fields ''alg'') (JStr [])) in
                if JStr alg \<notin> set (jv_allowed_algs jv)
                then Inl (Refused ''oauth-malformed'' (''alg '' @ ts_repr ts (JStr alg) @ '' is not in the configured allowed_algs''))
                else (case ts_base64 ts s of
                  Inl e \<Rightarrow> Inl (malformed e ''signature segment is not valid base64url: '')
                | Inr sig \<Rightarrow>
                    (case check_signature ts (jv_public_key jv) alg sig (h @ ''.'' @ p) of
                       Some e \<Rightarrow> Inl e
                     | None \<Rightarrow>
                         (case payload of
                            JObj claims \<Rightarrow>
                              (case check_claims ts now jv claims of Some e \<Rightarrow> Inl e | None \<Rightarrow> Inr payload)
                          | _ \<Rightarrow> Inl (Raised AttributeError)))))
           | _ \<Rightarrow> Inl (Raised AttributeError))))
      | _ \<Rightarrow> Inl (Refused ''oauth-malformed'' ''JWT must be three dot-separated segments''))"

section \<open>The registry of validators\<close>

type_synonym factory = "json \<Rightarrow> py_error + validator"
type_synonym validator_registry = "(string, factory) dict"

definition shipped_validators :: "token_services \<Rightarrow> int \<Rightarrow> validator_registry" where
  "shipped_validators ts now =
     [(''noop'', \<lambda>cfg. Inr (noop_validate ts)),
      (''jwt'', \<lambda>cfg. map_sum id (jwt_validate ts now) (new_jwt_validator ts cfg))]"

definition register_validator :: "string \<Rightarrow> factory \<Rightarrow> validator_registry \<Rightarrow> py_error + validator_registry" where
  "register_validator n f reg = (if n = [] then Inl ValueError else Inr (dict_set n f reg))"

definition get_validator :: "token_services \<Rightarrow> validator_registry \<Rightarrow> json \<Rightarrow> json \<Rightarrow> py_error + validator" where
  "get_validator ts reg n cfg =
     (if \<not> hashable n then Inl TypeError
      else (case (case n of JStr s \<Rightarrow> dict_get reg s | _ \<Rightarrow> None) of
              None \<Rightarrow> Inl (KeyError (''no OAuth validator registered under '' @ ts_repr ts n))
            | Some f \<Rightarrow> f (jor cfg (JObj []))))"

section \<open>The policy\<close>

record oauth_config =
  oc_enabled :: bool
  oc_required_on_methods :: "string list"
  oc_validator :: string
  oc_validator_config :: jobj
  oc_principal_id_claim :: string

definition default_oauth_config :: oauth_config where
  "default_oauth_config =
     \<lparr>oc_enabled = False, oc_required_on_methods = [], oc_validator = ''noop'', oc_validator_config = [],
      oc_principal_id_claim = ''sub''\<rparr>"

definition normalize_oauth_config :: "oauth_config \<Rightarrow> oauth_config" where
  "normalize_oauth_config c = c\<lparr>oc_required_on_methods := map (upper \<circ> strip) (oc_required_on_methods c)\<rparr>"

text \<open>A merged policy: the document's fields may be any value.\<close>
record oauth_policy =
  op_enabled :: json
  op_required_on_methods :: "string list"
  op_validator :: json
  op_validator_config :: json
  op_principal_id_claim :: json

definition server_oauth_fields :: "oauth_config option \<Rightarrow> jobj" where
  "server_oauth_fields cfg =
     (case cfg of
        Some c \<Rightarrow>
          [(''enabled'', JBool (oc_enabled c)), (''required_on_methods'', JArr (map JStr (oc_required_on_methods c))),
           (''validator'', JStr (oc_validator c)), (''validator_config'', JObj (oc_validator_config c)),
           (''principal_id_claim'', JStr (oc_principal_id_claim c))]
      | None \<Rightarrow>
          [(''enabled'', JBool False), (''required_on_methods'', JArr []), (''validator'', JStr ''noop''),
           (''validator_config'', JObj []), (''principal_id_claim'', JStr ''sub'')])"

definition resolve_oauth_config :: "token_services \<Rightarrow> oauth_config option \<Rightarrow> agent_document \<Rightarrow> py_error + oauth_policy option" where
  "resolve_oauth_config ts cfg doc =
     (let per_agent = (case jget (ad_policies doc) ''oauth'' of JObj d \<Rightarrow> d | _ \<Rightarrow> []);
          field = (\<lambda>k. case dict_get per_agent k of Some v \<Rightarrow> v | None \<Rightarrow> jget (server_oauth_fields cfg) k)
      in if cfg = None \<and> per_agent = [] then Inr None
         else bind_res (iter_items (jor (field ''required_on_methods'') (JArr []))) (\<lambda>ms.
           if \<not> truthy (field ''enabled'') then Inr None
           else Inr (Some
             \<lparr>op_enabled = field ''enabled'', op_required_on_methods = map (upper \<circ> strip \<circ> py_str (ts_repr ts)) ms,
              op_validator = field ''validator'', op_validator_config = field ''validator_config'',
              op_principal_id_claim = field ''principal_id_claim''\<rparr>)))"

section \<open>The gate\<close>

definition oauth_401 :: "string \<Rightarrow> string \<Rightarrow> string \<Rightarrow> response" where
  "oauth_401 reason explanation m =
     method_error 401 ''Unauthorized'' ''oauth-failure'' explanation [(''reason'', JStr reason), (''method'', JStr m)]"

text \<open>The principal the claims name: empty when they do not.\<close>
definition lifted_principal :: "token_services \<Rightarrow> json \<Rightarrow> json \<Rightarrow> py_error + string" where
  "lifted_principal ts claim_name claims =
     (case claims of
        JObj d \<Rightarrow>
          (let n = jor claim_name (JStr ''sub'') in
           if \<not> hashable n then Inl TypeError
           else (case n of
             JStr s \<Rightarrow> Inr (if jget d s = JNull then [] else py_str (ts_repr ts) (jget d s))
           | _ \<Rightarrow> Inr []))
      | _ \<Rightarrow> Inr [])"

text \<open>A validator that cannot be loaded is reported to the operator.\<close>
definition loading_error :: "py_error \<Rightarrow> bool" where
  "loading_error e = (case e of KeyError k \<Rightarrow> True | ValueError \<Rightarrow> True | _ \<Rightarrow> False)"

definition misconfigured :: "token_services \<Rightarrow> oauth_policy \<Rightarrow> py_error \<Rightarrow> response" where
  "misconfigured ts pol e = method_error 500 ''Internal Server Error'' ''oauth-validator-misconfigured''
     (''OAuth validator '' @ ts_repr ts (op_validator pol) @ '' could not be loaded: '' @ ts_error_text ts e) []"

text \<open>A refusal, or the request that goes on, with the principal of its token.\<close>
definition enforce_oauth ::
    "token_services \<Rightarrow> validator_registry \<Rightarrow> request \<Rightarrow> string \<Rightarrow> oauth_policy \<Rightarrow> py_error + (response + request)" where
  "enforce_oauth ts reg rq m pol =
     (case extract_token rq of
        None \<Rightarrow>
          if upper m \<in> set (op_required_on_methods pol)
          then Inr (Inl (oauth_401 ''oauth-required''
            (''this server requires an Authorization: Bearer token on '' @ m @ '' requests'') m))
          else Inr (Inr rq)
      | Some tok \<Rightarrow>
          (case get_validator ts reg (op_validator pol) (jor (op_validator_config pol) (JObj [])) of
             Inl e \<Rightarrow> if loading_error e then Inr (Inl (misconfigured ts pol e)) else Inl e
           | Inr validate \<Rightarrow>
               (case validate tok of
                  Inl (Refused reason txt) \<Rightarrow> Inr (Inl (oauth_401 reason txt m))
                | Inl (Raised e) \<Rightarrow>
                    Inr (Inl (oauth_401 ''oauth-invalid'' (''token validation raised '' @ ts_error_name ts e) m))
                | Inr claims \<Rightarrow>
                    bind_res (lifted_principal ts (op_principal_id_claim pol) claims)
                      (\<lambda>p. Inr (Inr (rq\<lparr>rq_acting_principal := Some p\<rparr>))))))"

section \<open>What the gate lets through\<close>

lemma first_error_None: "first_error es = None \<longleftrightarrow> (\<forall>e \<in> set es. e = None)"
  by (induction es rule: first_error.induct) auto

definition in_time :: "int \<Rightarrow> jwt_validator \<Rightarrow> jobj \<Rightarrow> bool" where
  "in_time now jv claims =
     ((jget claims ''exp'' = JNull \<or> (\<exists>t. py_int (jget claims ''exp'') = Inr t \<and> now \<le> t + jv_leeway_seconds jv)) \<and>
      (jget claims ''nbf'' = JNull \<or> (\<exists>t. py_int (jget claims ''nbf'') = Inr t \<and> t - jv_leeway_seconds jv \<le> now)))"

definition meant_for :: "jwt_validator \<Rightarrow> jobj \<Rightarrow> bool" where
  "meant_for jv claims =
     ((truthy (jv_expected_issuer jv) \<longrightarrow> hkey (jget claims ''iss'') = hkey (jv_expected_issuer jv)) \<and>
      (jv_expected_audience jv \<noteq> [] \<longrightarrow>
         (\<exists>vs. audience_values (jget claims ''aud'') = Inr vs \<and> (\<exists>a \<in> set vs. json_in a (jv_expected_audience jv)))))"

text \<open>A signature of the configured key over the first two segments, under an allowed
  algorithm that fits the key.\<close>
definition signed_by :: "token_services \<Rightarrow> jwt_validator \<Rightarrow> string \<Rightarrow> string \<Rightarrow> string \<Rightarrow> bool" where
  "signed_by ts jv h p s =
     (\<exists>head_fields alg sig. ts_segment ts h = Inr (JObj head_fields) \<and>
        alg = py_str (ts_repr ts) (jor (jget head_fields ''alg'') (JStr [])) \<and> JStr alg \<in> set (jv_allowed_algs jv) \<and>
        (case jv_public_key jv of Ed25519Key _ \<Rightarrow> alg = ''EdDSA'' | RsaKey _ \<Rightarrow> alg \<in> set rsa_algorithms | OtherKey _ \<Rightarrow> False) \<and>
        ts_base64 ts s = Inr sig \<and> ts_verifies ts (jv_public_key jv) alg sig (h @ ''.'' @ p))"

lemma check_time_None:
  "check_time ts n out refusal v = None \<longleftrightarrow> v = JNull \<or> (\<exists>t. py_int v = Inr t \<and> \<not> out t)"
  by (auto simp: check_time_def split: sum.splits)

lemma check_audience_None:
  "check_audience ts jv claims = None \<longleftrightarrow>
     (jv_expected_audience jv \<noteq> [] \<longrightarrow>
        (\<exists>vs. audience_values (jget claims ''aud'') = Inr vs \<and> (\<exists>a \<in> set vs. json_in a (jv_expected_audience jv))))"
  by (auto simp: check_audience_def list_ex_iff split: sum.splits)

lemma check_claims_None: "check_claims ts now jv claims = None \<longleftrightarrow> meant_for jv claims \<and> in_time now jv claims"
  unfolding check_claims_def first_error_None meant_for_def in_time_def
  by (simp add: check_time_None check_audience_None not_less)

lemma check_signature_None:
  "check_signature ts pk alg sig msg = None \<longleftrightarrow>
     (case pk of Ed25519Key _ \<Rightarrow> alg = ''EdDSA'' | RsaKey _ \<Rightarrow> alg \<in> set rsa_algorithms | OtherKey _ \<Rightarrow> False) \<and>
     ts_verifies ts pk alg sig msg"
  by (cases pk) (auto simp: check_signature_def Let_def)

lemma jwt_validate_segments:
  assumes "jwt_validate ts now jv tok = Inr c"
  obtains h p s where "split_char (CHR ''.'') tok = [h, p, s]"
  using assms by (auto simp: jwt_validate_def Let_def split: list.splits)

text \<open>An accepted token: its claims are its second segment, signed, meant for this server
  and in time.\<close>
lemma jwt_validate_sound:
  assumes "jwt_validate ts now jv tok = Inr c"
  shows "\<exists>h p s claims. tok = h @ ''.'' @ p @ ''.'' @ s \<and> ts_segment ts p = Inr (JObj claims) \<and> c = JObj claims \<and>
     signed_by ts jv h p s \<and> meant_for jv claims \<and> in_time now jv claims"
proof -
  obtain h p s where seg: "split_char (CHR ''.'') tok = [h, p, s]" using jwt_validate_segments[OF assms] .
  then have tok: "tok = h @ ''.'' @ p @ ''.'' @ s" using join_split_char[of "CHR ''.''" tok] by simp
  note r = assms[unfolded jwt_validate_def seg Let_def list.case]
  obtain header where h: "ts_segment ts h = Inr header" using r by (cases "ts_segment ts h") auto
  obtain payload where p: "ts_segment ts p = Inr payload" using r h by (cases "ts_segment ts p") auto
  obtain f where f: "header = JObj f" using r h p by (cases header) auto
  define alg where "alg = py_str (ts_repr ts) (jor (jget f ''alg'') (JStr []))"
  have a: "JStr alg \<in> set (jv_allowed_algs jv)" using r h p f by (auto simp: alg_def split: if_splits)
  obtain sig where s: "ts_base64 ts s = Inr sig" using r h p f a by (cases "ts_base64 ts s") (auto simp: alg_def)
  have v: "check_signature ts (jv_public_key jv) alg sig (h @ ''.'' @ p) = None"
    using r h p f a s by (auto simp: alg_def split: option.splits)
  obtain claims where c: "payload = JObj claims" using r h p f a s v by (cases payload) (auto simp: alg_def)
  have ok: "check_claims ts now jv claims = None" "c = JObj claims"
    using r h p f a s v c by (auto simp: alg_def split: option.splits)
  show ?thesis
    using tok h p f a s v c ok unfolding check_claims_None check_signature_None signed_by_def alg_def by blast
qed

text \<open>C27: what passes the gate under the web token validator.  When a request goes on, either
  it carries no bearer token and its method does not need one, and it goes on unchanged; or
  its token is three segments of which the third is a signature, by the configured key and
  under an allowed algorithm, over the first two, its claims name the expected issuer and
  audience, it is neither expired nor premature beyond the leeway, and the request goes on
  with the principal that the configured claim names.\<close>
theorem oauth_gate_sound:
  assumes "op_validator pol = JStr n" and "dict_get reg n = dict_get (shipped_validators ts now) ''jwt''"
    and "enforce_oauth ts reg rq m pol = Inr (Inr rq')"
  shows "(extract_token rq = None \<and> upper m \<notin> set (op_required_on_methods pol) \<and> rq' = rq) \<or>
     (\<exists>jv h p s claims who. new_jwt_validator ts (jor (jor (op_validator_config pol) (JObj [])) (JObj [])) = Inr jv \<and>
        extract_token rq = Some (h @ ''.'' @ p @ ''.'' @ s) \<and> ts_segment ts p = Inr (JObj claims) \<and>
        signed_by ts jv h p s \<and> meant_for jv claims \<and> in_time now jv claims \<and>
        lifted_principal ts (op_principal_id_claim pol) (JObj claims) = Inr who \<and>
        rq' = rq\<lparr>rq_acting_principal := Some who\<rparr>)"
proof (cases "extract_token rq")
  case None
  then show ?thesis using assms(3) by (auto simp: enforce_oauth_def split: if_splits)
next
  case (Some tok)
  let ?cfg = "jor (jor (op_validator_config pol) (JObj [])) (JObj [])"
  have g: "get_validator ts reg (op_validator pol) (jor (op_validator_config pol) (JObj [])) =
      map_sum id (jwt_validate ts now) (new_jwt_validator ts ?cfg)"
    using assms(1,2) by (simp add: get_validator_def shipped_validators_def)
  obtain jv where jv: "new_jwt_validator ts ?cfg = Inr jv"
    using assms(3) Some g by (cases "new_jwt_validator ts ?cfg") (auto simp: enforce_oauth_def split: if_splits)
  obtain c where c: "jwt_validate ts now jv tok = Inr c"
    using assms(3) Some g jv by (cases "jwt_validate ts now jv tok") (auto simp: enforce_oauth_def split: token_error.splits)
  obtain who where "lifted_principal ts (op_principal_id_claim pol) c = Inr who" "rq' = rq\<lparr>rq_acting_principal := Some who\<rparr>"
    using assms(3) Some g jv c by (auto simp: enforce_oauth_def bind_res_Inr)
  then show ?thesis using jwt_validate_sound[OF c] Some jv by blast
qed

text \<open>The operator must allow the validator that accepts everything before the server
  starts with it; but a document that turns tokens on without naming a validator gets it on
  a server whose own policy is off, whatever its token is.\<close>
lemma document_policy_is_noop:
  assumes "extract_token rq = Some tok" and "split_char (CHR ''.'') tok = [tok]"
    and "jget (ad_policies doc) ''oauth'' = JObj [(''enabled'', JBool True), (''required_on_methods'', JArr [JStr ''PURCHASE''])]"
  shows "\<exists>pol. resolve_oauth_config ts (Some default_oauth_config) doc = Inr (Some pol) \<and> op_required_on_methods pol = [''PURCHASE''] \<and>
     enforce_oauth ts (shipped_validators ts now) rq ''PURCHASE'' pol = Inr (Inr (rq\<lparr>rq_acting_principal := Some []\<rparr>))"
proof -
  have "tok \<noteq> []" using assms(1) by (auto simp: extract_token_def Let_def split: if_splits)
  moreover have u: "upper (strip ''PURCHASE'') = ''PURCHASE''" by code_simp
  ultimately show ?thesis
    using assms by (simp add: resolve_oauth_config_def default_oauth_config_def server_oauth_fields_def enforce_oauth_def get_validator_def
      shipped_validators_def noop_validate_def lifted_principal_def jor_def jget_def bind_res_def)
qed

text \<open>A toy signature: the signature of a message is a mark before it.\<close>
definition example_services :: token_services where
  "example_services =
     \<lparr>ts_repr = (\<lambda>v. []), ts_error_name = (\<lambda>e. []), ts_error_text = (\<lambda>e. []),
      ts_segment = (\<lambda>s. if s = ''h'' then Inr (JObj [(''alg'', JStr ''EdDSA'')])
        else Inr (JObj [(''sub'', JStr ''alice''), (''exp'', JInt 100)])),
      ts_base64 = (\<lambda>s. Inr s), ts_load_pem = (\<lambda>s. Inr (Ed25519Key s)), ts_verifies = (\<lambda>k alg s m. s = ''s'' \<and> m = ''h.p'')\<rparr>"

definition example_policy :: oauth_policy where
  "example_policy =
     \<lparr>op_enabled = JBool True, op_required_on_methods = [''PURCHASE''], op_validator = JStr ''jwt'',
      op_validator_config = JObj [(''public_key'', JStr ''-----BEGIN KEY'')], op_principal_id_claim = JStr ''sub''\<rparr>"

definition example_token_request :: request where
  "example_token_request =
     \<lparr>rq_method = ''PURCHASE'', rq_headers = [(''authorization'', ''Bearer h.p.s'')], rq_body = NoBytes, rq_path = ''/'',
      rq_query = [], rq_verified_cert = None, rq_aliased_from = None, rq_acting_principal = None\<rparr>"

lemma oauth_gate_sound_witness:
  "\<exists>jv h p s claims. extract_token example_token_request = Some (h @ ''.'' @ p @ ''.'' @ s) \<and>
     signed_by example_services jv h p s \<and> in_time 150 jv claims"
proof -
  have t: "extract_token example_token_request = Some ''h.p.s''" by code_simp
  have "enforce_oauth example_services (shipped_validators example_services 150) example_token_request ''PURCHASE'' example_policy =
      Inr (Inr (example_token_request\<lparr>rq_acting_principal := Some ''alice''\<rparr>))"
    by code_simp
  from oauth_gate_sound[where n = "''jwt''", OF _ refl this] have
    "\<exists>jv h p s claims. extract_token example_token_request = Some (h @ ''.'' @ p @ ''.'' @ s) \<and>
       signed_by example_services jv h p s \<and> in_time 150 jv claims"
    unfolding t by (fastforce simp: example_policy_def)
  then show ?thesis .
qed

end
