(* ===== verification/Endpoint_Serve.thy ===== *)
theory Endpoint_Serve
  imports Rcns_Gate
begin

text \<open>
  Serving a bound endpoint: the gates of _serve_endpoint in server/methods.py, the
  validation of server/schema_validation.py over the errors that jsonschema reports
  (an argument), the context and results of agtp/handlers.py, the hooks of
  server/hooks.py, and the translation of a result into a response.  Handlers and
  hooks are arguments that may change everything the server keeps.
\<close>

section \<open>Validation\<close>

text \<open>An error of the schema library: message, path in the instance, path in the schema;
  the path parts are names and indices.\<close>
record schema_error =
  se_message :: string
  se_path :: "json list"
  se_schema_path :: "json list"

type_synonym schema_checker = "jobj \<Rightarrow> jobj \<Rightarrow> schema_error list"

fun part_less :: "json \<Rightarrow> json \<Rightarrow> bool" where
  "part_less (JStr a) (JStr b) = (a < b)" |
  "part_less (JInt i) (JInt j) = (i < j)" |
  "part_less _ _ = False"

fun path_less :: "json list \<Rightarrow> json list \<Rightarrow> bool" where
  "path_less [] ys = (ys \<noteq> [])" |
  "path_less (x # xs) [] = False" |
  "path_less (x # xs) (y # ys) = (if x = y then path_less xs ys else part_less x y)"

text \<open>The first error after the stable sort by path.\<close>
fun first_by_path :: "schema_error list \<Rightarrow> schema_error option" where
  "first_by_path [] = None" |
  "first_by_path (e # es) =
     (case first_by_path es of
        None \<Rightarrow> Some e
      | Some f \<Rightarrow> if path_less (se_path f) (se_path e) then Some f else Some e)"

text \<open>The failure a validator raises: message, pointer and schema path.\<close>
record validation_error =
  ve_message :: string
  ve_field :: string
  ve_schema_path :: string

definition format_pointer :: "(json \<Rightarrow> string) \<Rightarrow> json list \<Rightarrow> string" where
  "format_pointer repr ps = (if ps = [] then [] else ''/'' @ join_with ''/'' (map (py_str repr) ps))"

definition convert_error :: "(json \<Rightarrow> string) \<Rightarrow> schema_error \<Rightarrow> validation_error" where
  "convert_error repr e =
     \<lparr>ve_message = se_message e, ve_field = format_pointer repr (se_path e),
      ve_schema_path = join_with ''/'' (map (py_str repr) (se_schema_path e))\<rparr>"

definition validate_input :: "(json \<Rightarrow> string) \<Rightarrow> schema_checker \<Rightarrow> endpoint \<Rightarrow> jobj \<Rightarrow> validation_error + jobj" where
  "validate_input repr sc e body =
     (case first_by_path (sc (spec_to_input_schema e) body) of
        Some err \<Rightarrow> Inl (convert_error repr err)
      | None \<Rightarrow> Inr body)"

text \<open>A body that is not an object is checked as an empty one.\<close>
definition validate_output :: "(json \<Rightarrow> string) \<Rightarrow> schema_checker \<Rightarrow> endpoint \<Rightarrow> json \<Rightarrow> validation_error + jobj" where
  "validate_output repr sc e body =
     (let payload = (case body of JObj d \<Rightarrow> d | _ \<Rightarrow> []) in
      case first_by_path (sc (spec_to_output_schema e) payload) of
        Some err \<Rightarrow> Inl (convert_error repr err)
      | None \<Rightarrow> Inr payload)"

section \<open>Contexts, results and hooks\<close>

record endpoint_context =
  cx_input :: jobj
  cx_agent_id :: string
  cx_principal_id :: string
  cx_agent_scopes :: "json list"
  cx_authority_scope :: "string list"
  cx_session_id :: "string option"
  cx_task_id :: "string option"
  cx_request_id :: string
  cx_method :: string
  cx_path :: string
  cx_headers :: headers
  cx_agent_verified :: bool
  cx_agent_cert_fingerprint :: "string option"
  cx_agent_cert_extensions :: jobj

record endpoint_success =
  ok_body :: json
  ok_status :: int
  ok_headers :: headers
  ok_attribution_extra :: "jobj option"

text \<open>What a handler returns: a success, an expected error, a response of the wire layer,
  or a value of another type, by the name of its type.\<close>
datatype endpoint_result =
    Success endpoint_success
  | Failure string string "json option"
  | WireResult response
  | Unexpected string

type_synonym 'x endpoint_handler = "endpoint_context \<Rightarrow> 'x world \<Rightarrow> 'x world \<times> (py_error + endpoint_result)"

record 'x hook =
  hk_before :: "(endpoint \<Rightarrow> endpoint_context \<Rightarrow> 'x world \<Rightarrow> 'x world \<times> (py_error + endpoint_result option)) option"
  hk_after :: "(endpoint \<Rightarrow> endpoint_context \<Rightarrow> endpoint_result \<Rightarrow> 'x world \<Rightarrow> 'x world \<times> py_error option) option"

text \<open>The first outcome wins; an exception is logged, unless it is the one that aborts.\<close>
fun run_before :: "'x hook list \<Rightarrow> endpoint \<Rightarrow> endpoint_context \<Rightarrow> 'x world \<Rightarrow> 'x world \<times> (py_error + endpoint_result option)" where
  "run_before [] e cx w = (w, Inr None)" |
  "run_before (h # hs) e cx w =
     (case hk_before h of
        None \<Rightarrow> run_before hs e cx w
      | Some f \<Rightarrow>
          (case f e cx w of
             (w1, Inl x) \<Rightarrow> if x = DispatchHookError then (w1, Inl x) else run_before hs e cx w1
           | (w1, Inr (Some r)) \<Rightarrow> (w1, Inr (Some r))
           | (w1, Inr None) \<Rightarrow> run_before hs e cx w1))"

fun run_after :: "'x hook list \<Rightarrow> endpoint \<Rightarrow> endpoint_context \<Rightarrow> endpoint_result \<Rightarrow> 'x world \<Rightarrow> 'x world \<times> py_error option" where
  "run_after [] e cx r w = (w, None)" |
  "run_after (h # hs) e cx r w =
     (case hk_after h of
        None \<Rightarrow> run_after hs e cx r w
      | Some f \<Rightarrow>
          (case f e cx r w of
             (w1, Some x) \<Rightarrow> if x = DispatchHookError then (w1, Some x) else run_after hs e cx r w1
           | (w1, None) \<Rightarrow> run_after hs e cx r w1))"

section \<open>Building the context\<close>

definition split_claims :: "string \<Rightarrow> string list" where
  "split_claims s = filter (\<lambda>c. c \<noteq> []) (map strip (split_char (CHR '','') s))"

definition extensions_dict :: "verified_cert option \<Rightarrow> jobj" where
  "extensions_dict cert =
     (case cert of
        None \<Rightarrow> []
      | Some vc \<Rightarrow>
          (case vc_extensions vc of
             None \<Rightarrow> []
           | Some x \<Rightarrow>
               some_entry ''subject_agent_id'' JStr (ce_subject_agent_id x) @
               some_entry ''principal_id'' JStr (ce_principal_id x) @
               some_entry ''authority_scopes'' strs (ce_authority_scopes x) @
               some_entry ''governance_zone'' JStr (ce_governance_zone x) @
               some_entry ''trust_tier'' JInt (ce_trust_tier x) @
               some_entry ''archetype'' JStr (ce_archetype x) @
               some_entry ''activation_certificate_id'' JStr (ce_activation_certificate_id x)))"

definition lower_headers :: "headers \<Rightarrow> headers" where
  "lower_headers h = fold (\<lambda>(k, v). dict_set (lower k) v) h []"

definition path_or_slash :: "string \<Rightarrow> string" where
  "path_or_slash p = (if p = [] then ''/'' else p)"

definition build_endpoint_context :: "request \<Rightarrow> jobj \<Rightarrow> agent_document \<Rightarrow> endpoint_context" where
  "build_endpoint_context rq body doc =
     (let h = lower_headers (rq_headers rq) in
      \<lparr>cx_input = body, cx_agent_id = ad_agent_id doc, cx_principal_id = ad_principal_id doc,
       cx_agent_scopes = rd_scopes (ad_requires doc), cx_authority_scope = split_claims (get_or [] h ''authority-scope''),
       cx_session_id = non_empty (dict_get h ''session-id''), cx_task_id = non_empty (dict_get h ''task-id''),
       cx_request_id = get_or [] h ''request-id'', cx_method = upper (rq_method rq), cx_path = path_or_slash (rq_path rq),
       cx_headers = h, cx_agent_verified = (rq_verified_cert rq \<noteq> None),
       cx_agent_cert_fingerprint = map_option vc_fingerprint (rq_verified_cert rq),
       cx_agent_cert_extensions = extensions_dict (rq_verified_cert rq)\<rparr>)"

definition missing_scopes :: "endpoint \<Rightarrow> json list \<Rightarrow> string list" where
  "missing_scopes e declared = sort (remdups (filter (\<lambda>s. JStr s \<notin> set declared) (es_required_scopes e)))"

definition spec_path :: "endpoint \<Rightarrow> string" where
  "spec_path e = text_or_else (es_path e) ''/''"

definition check_required_scopes :: "endpoint \<Rightarrow> agent_document \<Rightarrow> py_error + response option" where
  "check_required_scopes e doc =
     (if es_required_scopes e = [] then Inr None
      else bind_res (declared_scopes doc) (\<lambda>scopes.
        if missing_scopes e scopes = [] then Inr None
        else map_sum id Some (insufficient_scope (es_name e) (spec_path e) (missing_scopes e scopes) None)))"

section \<open>Translating the result\<close>

definition translate_endpoint_result :: "environment \<Rightarrow> schema_checker \<Rightarrow> endpoint_result \<Rightarrow> endpoint \<Rightarrow> response" where
  "translate_endpoint_result en sc result e =
     (case result of
        Success r \<Rightarrow>
          (case validate_output (en_repr en) sc e (jor (ok_body r) (JObj [])) of
             Inl err \<Rightarrow> method_error 500 ''Internal Server Error'' ''output-validation-failed''
               (''handler response did not match the endpoint'' @ [CHR 0x27] @ ''s output schema: '' @ ve_message err)
               [(''field'', JStr (ve_field err)), (''schema_path'', JStr (ve_schema_path err))]
           | Inr validated \<Rightarrow>
               (method_response (ok_status r) (if 200 \<le> ok_status r \<and> ok_status r < 300 then ''OK'' else ''Error'')
                  validated (Some (es_name e)) (ok_headers r))\<lparr>rs_attribution_extra := ok_attribution_extra r\<rparr>)
      | WireResult r \<Rightarrow> r
      | Failure code message details \<Rightarrow>
          if code \<notin> set (es_errors e) then
            method_error 500 ''Internal Server Error'' ''undeclared-error-code''
              (''handler returned undeclared error code '' @ en_repr en (JStr code) @ ''; declared: '' @
               (if join_with '', '' (es_errors e) = [] then ''(none)'' else join_with '', '' (es_errors e))) []
          else build_error UNPROCESSABLE
            ([(''code'', JStr code), (''method'', JStr (es_name e)), (''path'', JStr (spec_path e)), (''message'', JStr message)] @
             (case details of None \<Rightarrow> [] | Some d \<Rightarrow> [(''details'', d)]))
      | Unexpected kind \<Rightarrow>
          method_error 500 ''Internal Server Error'' ''bad-handler-return-type''
            (''handler returned '' @ kind @ ''; expected EndpointResponse or EndpointError'') [])"

section \<open>The hot path\<close>

text \<open>The body over the query, where there is a query.\<close>
definition merged_input :: "request \<Rightarrow> jobj \<Rightarrow> jobj" where
  "merged_input rq body =
     (if rq_query rq = [] then body else obj_update (map (\<lambda>(k, v). (k, JStr v)) (rq_query rq)) body)"

text \<open>What the gates make of a request: an exception, a refusal, or the context.\<close>
definition admit_request ::
    "environment \<Rightarrow> schema_checker \<Rightarrow> endpoint \<Rightarrow> request \<Rightarrow> agent_document \<Rightarrow> py_error + (response + endpoint_context)" where
  "admit_request en sc e rq doc =
     (case parse_body rq of
        Inl x \<Rightarrow> Inr (Inl (method_error 400 ''Bad Request'' ''invalid-body'' (en_error_text en x) []))
      | Inr body \<Rightarrow>
          (case validate_input (en_repr en) sc e (merged_input rq body) of
             Inl err \<Rightarrow> Inr (Inl (method_error 422 ''Unprocessable'' ''input-validation-failed'' (ve_message err)
               [(''field'', JStr (ve_field err)), (''schema_path'', JStr (ve_schema_path err)),
                (''method'', JStr (es_name e)), (''path'', JStr (spec_path e))]))
           | Inr validated \<Rightarrow>
               bind_res (check_required_scopes e doc) (\<lambda>refusal. Inr
                 (case refusal of Some r \<Rightarrow> Inl r | None \<Rightarrow> Inr (build_endpoint_context rq validated doc)))))"

definition run_handler ::
    "environment \<Rightarrow> schema_checker \<Rightarrow> 'x hook list \<Rightarrow> 'x endpoint_handler \<Rightarrow> endpoint \<Rightarrow> endpoint_context \<Rightarrow> 'x world
      \<Rightarrow> 'x world \<times> (py_error + response)" where
  "run_handler en sc hooks h e cx w =
     (let after = (\<lambda>w r. case run_after hooks e cx r w of
            (w1, Some x) \<Rightarrow> (w1, Inl x)
          | (w1, None) \<Rightarrow> (w1, Inr (translate_endpoint_result en sc r e)))
      in case run_before hooks e cx w of
        (w1, Inl x) \<Rightarrow> (w1, Inl x)
      | (w1, Inr (Some r)) \<Rightarrow> after w1 r
      | (w1, Inr None) \<Rightarrow>
          (case h cx w1 of
             (w2, Inl x) \<Rightarrow> (w2, Inr (method_error 500 ''Internal Server Error'' ''handler-exception''
               (en_error_name en x @ '': '' @ en_error_text en x) []))
           | (w2, Inr r) \<Rightarrow> after w2 r))"

definition serve_endpoint ::
    "environment \<Rightarrow> schema_checker \<Rightarrow> 'x hook list \<Rightarrow> endpoint \<Rightarrow> 'x endpoint_handler option \<Rightarrow> request \<Rightarrow> 'x world
      \<Rightarrow> 'x world \<times> (py_error + response)" where
  "serve_endpoint en sc hooks e handler rq w =
     (case admit_request en sc e rq (wd_agent w) of
        Inl x \<Rightarrow> (w, Inl x)
      | Inr (Inl r) \<Rightarrow> (w, Inr r)
      | Inr (Inr cx) \<Rightarrow>
          (case handler of
             None \<Rightarrow> (w, Inr (method_error 500 ''Internal Server Error'' ''no-handler-resolved''
               (''endpoint ('' @ es_name e @ '', '' @ or_text (es_path e) ''None'' @ '') has no resolved handler bound to it'') []))
           | Some h \<Rightarrow> run_handler en sc hooks h e cx w))"


section \<open>The contract of an endpoint\<close>

lemma first_by_path_None: "first_by_path es = None \<longleftrightarrow> es = []"
  by (cases es) (auto split: option.splits)

lemma first_by_path_mem: "first_by_path es = Some e \<Longrightarrow> e \<in> set es"
  by (induction es arbitrary: e) (auto split: option.splits if_splits)

lemma validate_input_Inr: "validate_input repr sc e b = Inr d \<longleftrightarrow> d = b \<and> sc (spec_to_input_schema e) b = []"
  by (auto simp: validate_input_def first_by_path_None split: option.splits)

lemma validate_output_Inr:
  "validate_output repr sc e b = Inr d \<Longrightarrow> sc (spec_to_output_schema e) d = []"
  by (auto simp: validate_output_def first_by_path_None Let_def split: option.splits)

text \<open>A context whose input fits the schema and whose agent declares the scopes.\<close>
definition admitted :: "schema_checker \<Rightarrow> endpoint \<Rightarrow> agent_document \<Rightarrow> endpoint_context \<Rightarrow> bool" where
  "admitted sc e doc cx =
     (sc (spec_to_input_schema e) (cx_input cx) = [] \<and> cx_agent_id cx = ad_agent_id doc \<and>
      (\<forall>s \<in> set (es_required_scopes e). JStr s \<in> set (cx_agent_scopes cx)) \<and>
      cx_agent_scopes cx = rd_scopes (ad_requires doc))"

lemma missing_scopes_none: "missing_scopes e declared = [] \<longleftrightarrow> (\<forall>s \<in> set (es_required_scopes e). JStr s \<in> set declared)"
proof -
  have "missing_scopes e declared = [] \<longleftrightarrow> set (missing_scopes e declared) = {}" by simp
  then show ?thesis by (simp add: missing_scopes_def del: set_empty) auto
qed

lemma check_required_scopes_ok:
  "check_required_scopes e doc = Inr None \<Longrightarrow> \<forall>s \<in> set (es_required_scopes e). JStr s \<in> set (rd_scopes (ad_requires doc))"
  by (auto simp: check_required_scopes_def bind_res_Inr declared_scopes_def missing_scopes_none split: if_splits)
     (auto simp: insufficient_scope_def authorization_required_def split: if_splits sum.splits)

lemma admit_request_admitted:
  assumes "admit_request en sc e rq doc = Inr (Inr cx)"
  shows "admitted sc e doc cx"
proof -
  obtain body where b: "parse_body rq = Inr body" using assms by (cases "parse_body rq") (auto simp: admit_request_def)
  obtain d where d: "validate_input (en_repr en) sc e (merged_input rq body) = Inr d"
    using assms b by (cases "validate_input (en_repr en) sc e (merged_input rq body)") (auto simp: admit_request_def)
  have s: "check_required_scopes e doc = Inr None" "cx = build_endpoint_context rq d doc"
    using assms b d by (auto simp: admit_request_def bind_res_Inr split: option.splits)
  show ?thesis using d s check_required_scopes_ok[OF s(1)]
    by (simp add: admitted_def validate_input_Inr build_endpoint_context_def Let_def)
qed

lemma run_handler_cong:
  "(\<And>v. h cx v = h' cx v) \<Longrightarrow> run_handler en sc hooks h e cx w = run_handler en sc hooks h' e cx w"
  by (simp add: run_handler_def)

text \<open>C30: a handler only ever runs on admitted contexts.  Two handlers that agree on the contexts
  whose input satisfies the input schema and whose agent declares every required scope cannot
  be told apart by serving a request, whatever the hooks do.\<close>
theorem handler_sees_admitted:
  assumes "\<And>cx v. admitted sc e (wd_agent w) cx \<Longrightarrow> h cx v = h' cx v"
  shows "serve_endpoint en sc hooks e (Some h) rq w = serve_endpoint en sc hooks e (Some h') rq w"
proof (cases "admit_request en sc e rq (wd_agent w)")
  case (Inr a)
  show ?thesis
  proof (cases a)
    case (Inr cx)
    then have "h cx v = h' cx v" for v
      using assms admit_request_admitted \<open>admit_request en sc e rq (wd_agent w) = Inr a\<close> by blast
    then show ?thesis using Inr \<open>admit_request en sc e rq (wd_agent w) = Inr a\<close>
      by (simp add: serve_endpoint_def run_handler_cong[of h cx h'])
  qed (simp add: serve_endpoint_def Inr)
qed (simp add: serve_endpoint_def)

lemma admit_request_refusal:
  "admit_request en sc e rq doc = Inr (Inl r) \<Longrightarrow> rs_status_code r \<in> {400, 262, 422}"
  by (auto simp: admit_request_def bind_res_Inr check_required_scopes_def insufficient_scope_def authorization_required_def
      AUTHORIZATION_REQUIRED_def split: sum.splits option.splits if_splits)

lemma translate_conforms:
  assumes "\<And>y. x \<noteq> WireResult y"
  shows "rs_status_code (translate_endpoint_result en sc x e) \<in> {422, 500} \<or>
    (\<exists>d. rs_body (translate_endpoint_result en sc x e) = JsonBytes (JObj d) \<and> sc (spec_to_output_schema e) d = [])"
proof (cases x)
  case (Success s)
  show ?thesis
  proof (cases "validate_output (en_repr en) sc e (jor (ok_body s) (JObj []))")
    case (Inr d)
    then show ?thesis using validate_output_Inr[OF Inr]
      by (simp add: translate_endpoint_result_def Success method_response_def)
  qed (simp add: translate_endpoint_result_def Success)
qed (use assms in \<open>simp_all add: translate_endpoint_result_def build_error_def build_def UNPROCESSABLE_def\<close>)

text \<open>What leaves a handler conforms.  Where no hook intervenes and the handler returns no
  response of the wire layer, every response is a refusal or an error (400, 262, 422, 500) or its
  body is an object that satisfies the output schema of the endpoint.\<close>
theorem endpoint_answers_conform:
  assumes "serve_endpoint en sc [] e (Some h) rq w = (w', Inr r)" and "\<And>cx v v' y. h cx v \<noteq> (v', Inr (WireResult y))"
  shows "rs_status_code r \<in> {400, 262, 422, 500} \<or>
      (\<exists>d. rs_body r = JsonBytes (JObj d) \<and> sc (spec_to_output_schema e) d = [])"
proof (cases "admit_request en sc e rq (wd_agent w)")
  case (Inr a)
  show ?thesis
  proof (cases a)
    case (Inl x)
    then show ?thesis using assms(1) Inr admit_request_refusal[of en sc e rq "wd_agent w" r]
      by (auto simp: serve_endpoint_def)
  next
    case cx: (Inr cx)
    obtain w2 out where h: "h cx w = (w2, out)" by (cases "h cx w")
    show ?thesis
    proof (cases out)
      case (Inl y)
      then show ?thesis using assms(1) Inr cx h by (auto simp: serve_endpoint_def run_handler_def Let_def)
    next
      case out: (Inr y)
      have "r = translate_endpoint_result en sc y e"
        using assms(1) Inr cx h out by (simp add: serve_endpoint_def run_handler_def Let_def)
      moreover have "\<And>z. y \<noteq> WireResult z" using assms(2)[of cx w w2] h out by blast
      ultimately show ?thesis using translate_conforms[of y en sc e] by auto
    qed
  qed
qed (use assms(1) in \<open>simp add: serve_endpoint_def\<close>)


definition room_endpoint :: endpoint where
  "room_endpoint =
     \<lparr>es_name = ''BOOK'', es_path = Some ''/room'', es_description = [], es_required_params = [], es_optional_params = [],
      es_output = [], es_errors = [''full''], es_semantic = None, es_handler = None, es_required_scopes = [],
      es_deprecated = None, es_namespace = None, es_category = [], es_error_codes = []\<rparr>"

definition example_checker :: schema_checker where
  "example_checker schema d =
     (if dict_get d ''room'' = None then [\<lparr>se_message = ''required'', se_path = [], se_schema_path = [JStr ''required'']\<rparr>] else [])"

definition example_handler :: "unit endpoint_handler" where
  "example_handler cx w = (w, Inr (Success
     \<lparr>ok_body = JObj [(''room'', jget (cx_input cx) ''room'')], ok_status = 200, ok_headers = [], ok_attribution_extra = None\<rparr>))"

text \<open>A handler that fails without a room serves every request like one that does not.\<close>
lemma handler_sees_admitted_witness:
  "serve_endpoint example_environment example_checker [] room_endpoint
      (Some (\<lambda>cx w. if dict_get (cx_input cx) ''room'' = None then (w, Inl (KeyError ''room'')) else example_handler cx w))
      (example_request ''BOOK'' []) example_world =
   serve_endpoint example_environment example_checker [] room_endpoint (Some example_handler) (example_request ''BOOK'' []) example_world"
  by (rule handler_sees_admitted) (auto simp: admitted_def example_checker_def split: if_splits)

lemma endpoint_answers_conform_witness:
  "\<exists>r. snd (serve_endpoint example_environment example_checker [] room_endpoint (Some example_handler)
      ((example_request ''BOOK'' [])\<lparr>rq_body := JsonBytes (JObj [(''room'', JInt 7)])\<rparr>) example_world) = Inr r \<and>
     rs_status_code r = 200 \<and> (\<exists>d. rs_body r = JsonBytes (JObj d) \<and> example_checker (spec_to_output_schema room_endpoint) d = [])"
proof -
  let ?rq = "(example_request ''BOOK'' [])\<lparr>rq_body := JsonBytes (JObj [(''room'', JInt 7)])\<rparr>"
  let ?s = "serve_endpoint example_environment example_checker [] room_endpoint (Some example_handler) ?rq example_world"
  have "\<exists>w r. ?s = (w, Inr r) \<and> rs_status_code r = 200"
    by (simp add: serve_endpoint_def admit_request_def parse_body_def example_request_def merged_input_def validate_input_def
      example_checker_def check_required_scopes_def room_endpoint_def run_handler_def example_handler_def Let_def
      translate_endpoint_result_def validate_output_def build_endpoint_context_def jget_def jor_def)
  then obtain w r where e: "?s = (w, Inr r)" and r: "rs_status_code r = 200" by blast
  from endpoint_answers_conform[OF e] r e show ?thesis by (simp add: example_handler_def)
qed

end
