(* ===== verification/Methods_Policy.thy ===== *)
theory Methods_Policy
  imports Catalog
begin

text \<open>
  server/config.py, the class MethodsPolicy: the per-server method policy, its
  runtime checks, its manifest form, and the reading of its TOML table.  Sets of
  verbs are lists without duplicates; the skipped entries only warn.
\<close>

record methods_policy =
  mp_allow :: "string list"
  mp_allow_all :: bool
  mp_disallow :: "string list"
  mp_legacy :: "string list"
  mp_redirects :: "(string, string \<times> string option) dict"
  mp_aliases :: "(string, string) dict"

definition empty_policy :: methods_policy where
  "empty_policy = \<lparr>mp_allow = [], mp_allow_all = False, mp_disallow = [], mp_legacy = [],
     mp_redirects = [], mp_aliases = []\<rparr>"

section \<open>Runtime checks\<close>

definition is_method_allowed :: "methods_policy \<Rightarrow> string \<Rightarrow> bool" where
  "is_method_allowed p m =
     (let u = upper m in
      if u \<in> set (mp_disallow p) then False
      else if u \<in> set (mp_legacy p) then True
      else if mp_allow_all p then True
      else u \<in> set (mp_allow p))"

definition resolve_alias :: "methods_policy \<Rightarrow> string \<Rightarrow> string option" where
  "resolve_alias p m =
     (case dict_get (mp_aliases p) (upper m) of
        None \<Rightarrow> None | Some t \<Rightarrow> if t = upper m then None else Some t)"

definition or_path :: "string option \<Rightarrow> string \<Rightarrow> string" where
  "or_path new path = (case new of None \<Rightarrow> path | Some p \<Rightarrow> if p = [] then path else p)"

definition resolve_redirect :: "methods_policy \<Rightarrow> string \<Rightarrow> string \<Rightarrow> (string \<times> string) option" where
  "resolve_redirect p m path =
     (case dict_get (mp_redirects p) (upper m @ '' '' @ path) of
        Some (m', new) \<Rightarrow> Some (m', or_path new path)
      | None \<Rightarrow>
          (case dict_get (mp_redirects p) (upper m) of
             Some (m', new) \<Rightarrow> Some (m', or_path new path)
           | None \<Rightarrow> None))"

section \<open>The manifest form\<close>

definition redirect_entry :: "string \<times> string \<times> string option \<Rightarrow> jobj" where
  "redirect_entry r =
     (case r of (key, m, new) \<Rightarrow>
        (case partition_char (CHR '' '') key of (from, f, path) \<Rightarrow>
           [(''from_method'', JStr from)] @ (if f then [(''from_path'', JStr path)] else []) @
           [(''to_method'', JStr m)] @
           (case new of None \<Rightarrow> [] | Some q \<Rightarrow> if q = [] then [] else [(''to_path'', JStr q)])))"

definition text_of :: "jobj \<Rightarrow> string \<Rightarrow> string" where
  "text_of e k = (case dict_get e k of Some (JStr s) \<Rightarrow> s | _ \<Rightarrow> [])"

definition policy_to_wire :: "methods_policy \<Rightarrow> jobj" where
  "policy_to_wire p =
     [(''allow'', if mp_allow_all p then JStr ''*'' else JArr (map JStr (sort (mp_allow p))))] @
     (if mp_disallow p = [] then [] else [(''disallow'', JArr (map JStr (sort (mp_disallow p))))]) @
     (if mp_legacy p = [] then [] else [(''legacy'', JArr (map JStr (sort (mp_legacy p))))]) @
     (if mp_redirects p = [] then []
      else [(''redirects'', JArr (map JObj
              (sort_key (\<lambda>e. (text_of e ''from_method'', text_of e ''from_path''))
                 (map redirect_entry (mp_redirects p)))))]) @
     (if mp_aliases p = [] then []
      else [(''aliases'', JObj (map (\<lambda>(k, v). (k, JStr v)) (sort_key fst (mp_aliases p))))])"

section \<open>Reading the table\<close>

definition legacy_alias_seed :: "(json \<Rightarrow> string) \<Rightarrow> verb_catalog \<Rightarrow> (string, string) dict" where
  "legacy_alias_seed repr cg =
     fold (\<lambda>verb d. case get_legacy_preferred repr cg verb of
             None \<Rightarrow> d | Some c \<Rightarrow> dict_set (upper verb) (upper c) d) (legacy_verbs cg) []"

definition default_methods_policy :: "(json \<Rightarrow> string) \<Rightarrow> verb_catalog \<Rightarrow> methods_policy" where
  "default_methods_policy repr cg = empty_policy\<lparr>mp_allow_all := True, mp_aliases := legacy_alias_seed repr cg\<rparr>"

definition normalize_method_name :: "(json \<Rightarrow> string) \<Rightarrow> json \<Rightarrow> string" where
  "normalize_method_name repr name = upper (strip (py_str repr name))"

definition verb_in_catalog :: "verb_catalog \<Rightarrow> bool \<Rightarrow> string \<Rightarrow> bool" where
  "verb_in_catalog cg allow_legacy name =
     (is_approved_verb cg (upper name) \<or> (allow_legacy \<and> is_legacy_verb cg (upper name)))"

definition catalog_names :: "(json \<Rightarrow> string) \<Rightarrow> verb_catalog \<Rightarrow> bool \<Rightarrow> json list \<Rightarrow> string list" where
  "catalog_names repr cg allow_legacy names =
     remdups (filter (verb_in_catalog cg allow_legacy) (map (normalize_method_name repr) names))"

definition read_allow :: "(json \<Rightarrow> string) \<Rightarrow> verb_catalog \<Rightarrow> jobj \<Rightarrow> methods_policy \<Rightarrow> py_error + methods_policy" where
  "read_allow repr cg t p =
     (case jget t ''allow'' of
        JStr s \<Rightarrow> if s = ''*'' then Inr (p\<lparr>mp_allow_all := True\<rparr>) else Inl ValueError
      | JArr names \<Rightarrow> Inr (p\<lparr>mp_allow := catalog_names repr cg False names\<rparr>)
      | JNull \<Rightarrow> Inr (p\<lparr>mp_allow_all := True\<rparr>)
      | _ \<Rightarrow> Inl ValueError)"

definition read_disallow :: "(json \<Rightarrow> string) \<Rightarrow> verb_catalog \<Rightarrow> jobj \<Rightarrow> methods_policy \<Rightarrow> py_error + methods_policy" where
  "read_disallow repr cg t p =
     (case jor (jget t ''disallow'') (JArr []) of
        JArr names \<Rightarrow> Inr (p\<lparr>mp_disallow := catalog_names repr cg True names\<rparr>)
      | _ \<Rightarrow> Inl ValueError)"

definition read_legacy :: "(json \<Rightarrow> string) \<Rightarrow> verb_catalog \<Rightarrow> jobj \<Rightarrow> methods_policy \<Rightarrow> py_error + methods_policy" where
  "read_legacy repr cg t p =
     (case jget t ''legacy'' of
        JNull \<Rightarrow> Inr p
      | JStr s \<Rightarrow>
          if s = ''*'' then Inr (p\<lparr>mp_legacy := legacy_verbs cg\<rparr>)
          else if upper (strip s) = ''NONE'' then Inr p else Inl ValueError
      | JArr names \<Rightarrow>
          (let vs = map (normalize_method_name repr) names in
           if list_all (\<lambda>v. v \<in> set (legacy_verbs cg)) vs then Inr (p\<lparr>mp_legacy := remdups vs\<rparr>) else Inl ValueError)
      | _ \<Rightarrow> Inl ValueError)"

text \<open>One redirect table; None when the entry is skipped.\<close>
definition read_redirect :: "(json \<Rightarrow> string) \<Rightarrow> verb_catalog \<Rightarrow> json
    \<Rightarrow> py_error + (string \<times> string \<times> string option) option" where
  "read_redirect repr cg entry =
     (case entry of
        JObj e \<Rightarrow>
          (let from_m = normalize_method_name repr (jor (jget e ''from_method'') (JStr []));
               to_m = normalize_method_name repr (jor (jget e ''to_method'') (JStr []));
               fp = jget e ''from_path''; tp = jget e ''to_path''
           in if from_m = [] \<or> to_m = [] then Inl ValueError
              else if (fp = JNull) \<noteq> (tp = JNull) then Inl ValueError
              else if \<not> verb_in_catalog cg True from_m \<or> \<not> verb_in_catalog cg True to_m then Inr None
              else Inr (Some (if fp = JNull then from_m else from_m @ '' '' @ py_str repr fp,
                              to_m, if tp = JNull then None else Some (py_str repr tp))))
      | _ \<Rightarrow> Inl ValueError)"

fun read_redirects :: "(json \<Rightarrow> string) \<Rightarrow> verb_catalog \<Rightarrow> json list
    \<Rightarrow> (string, string \<times> string option) dict \<Rightarrow> py_error + (string, string \<times> string option) dict" where
  "read_redirects repr cg [] d = Inr d" |
  "read_redirects repr cg (e # es) d =
     (case read_redirect repr cg e of
        Inl err \<Rightarrow> Inl err
      | Inr None \<Rightarrow> read_redirects repr cg es d
      | Inr (Some (k, v)) \<Rightarrow> read_redirects repr cg es (dict_set k v d))"

fun read_aliases :: "(json \<Rightarrow> string) \<Rightarrow> verb_catalog \<Rightarrow> jobj \<Rightarrow> (string, string) dict
    \<Rightarrow> py_error + (string, string) dict" where
  "read_aliases repr cg [] d = Inr d" |
  "read_aliases repr cg ((src, tgt) # rest) d =
     (let s = normalize_method_name repr (JStr src); t = normalize_method_name repr tgt in
      if s = [] \<or> t = [] then Inl ValueError
      else if \<not> verb_in_catalog cg True t then read_aliases repr cg rest d
      else read_aliases repr cg rest (dict_set s t d))"

definition methods_policy_from_table :: "(json \<Rightarrow> string) \<Rightarrow> verb_catalog \<Rightarrow> json \<Rightarrow> py_error + methods_policy" where
  "methods_policy_from_table repr cg table =
     (case table of
        JObj t \<Rightarrow>
          bind_res (read_allow repr cg t empty_policy) (\<lambda>p.
          bind_res (read_disallow repr cg t p) (\<lambda>p.
          bind_res (read_legacy repr cg t p) (\<lambda>p.
          bind_res (case jor (jget t ''redirects'') (JArr []) of
                      JArr es \<Rightarrow> read_redirects repr cg es [] | _ \<Rightarrow> Inl ValueError) (\<lambda>rs.
          bind_res (case jget t ''aliases'' of
                      JNull \<Rightarrow> Inr (legacy_alias_seed repr cg)
                    | JObj al \<Rightarrow> read_aliases repr cg al []
                    | _ \<Rightarrow> Inl ValueError) (\<lambda>al.
            Inr (p\<lparr>mp_redirects := rs, mp_aliases := al\<rparr>))))))
      | _ \<Rightarrow> Inr empty_policy)"

section \<open>What a loaded policy holds\<close>

definition known_verb :: "verb_catalog \<Rightarrow> string \<Rightarrow> bool" where
  "known_verb cg v = verb_in_catalog cg True v"

text \<open>Every verb of the catalog document is in upper case, and the preferred
  replacements of the legacy verbs are catalog verbs.\<close>
definition catalog_ok :: "(json \<Rightarrow> string) \<Rightarrow> verb_catalog \<Rightarrow> bool" where
  "catalog_ok repr cg =
     (list_all (\<lambda>v. upper v = v) (legacy_verbs cg) \<and>
      list_all (\<lambda>v. case get_legacy_preferred repr cg v of None \<Rightarrow> True | Some c \<Rightarrow> known_verb cg (upper c)) (legacy_verbs cg))"

definition policy_ok :: "verb_catalog \<Rightarrow> methods_policy \<Rightarrow> bool" where
  "policy_ok cg p =
     (list_all (verb_in_catalog cg False) (mp_allow p) \<and> list_all (known_verb cg) (mp_disallow p) \<and>
      list_all (\<lambda>v. v \<in> set (legacy_verbs cg)) (mp_legacy p) \<and>
      list_all (\<lambda>(k, m, new). known_verb cg m) (mp_redirects p) \<and>
      list_all (\<lambda>(k, t). known_verb cg t) (mp_aliases p))"

lemma list_all_dict_set: "list_all Q d \<Longrightarrow> Q (k, v) \<Longrightarrow> list_all Q (dict_set k v d)"
  by (induction d) auto

lemma read_redirect_known: "read_redirect repr cg e = Inr (Some (k, m, new)) \<Longrightarrow> known_verb cg m"
  by (auto simp: read_redirect_def known_verb_def Let_def split: json.splits if_splits)

lemma read_redirects_known:
  "read_redirects repr cg es d = Inr rs \<Longrightarrow> list_all (\<lambda>(k, m, new). known_verb cg m) d \<Longrightarrow>
   list_all (\<lambda>(k, m, new). known_verb cg m) rs"
  by (induction es arbitrary: d)
     (auto split: sum.splits option.splits prod.splits dest: read_redirect_known intro!: list_all_dict_set)

lemma read_aliases_known:
  "read_aliases repr cg al d = Inr out \<Longrightarrow> list_all (\<lambda>(k, t). known_verb cg t) d \<Longrightarrow>
   list_all (\<lambda>(k, t). known_verb cg t) out"
  by (induction repr cg al d rule: read_aliases.induct)
     (auto simp: Let_def known_verb_def list_all_dict_set split: if_splits)

lemma seed_known: "catalog_ok repr cg \<Longrightarrow> list_all (\<lambda>(k, t). known_verb cg t) (legacy_alias_seed repr cg)"
proof -
  assume c: "catalog_ok repr cg"
  let ?f = "\<lambda>verb d. case get_legacy_preferred repr cg verb of
             None \<Rightarrow> d | Some c \<Rightarrow> dict_set (upper verb) (upper c) d"
  have "list_all (\<lambda>v. case get_legacy_preferred repr cg v of None \<Rightarrow> True | Some c \<Rightarrow> known_verb cg (upper c)) vs \<Longrightarrow>
      list_all (\<lambda>(k, t). known_verb cg t) d \<Longrightarrow> list_all (\<lambda>(k, t). known_verb cg t) (fold ?f vs d)" for vs d
    by (induction vs arbitrary: d) (auto split: option.splits intro!: list_all_dict_set)
  then show ?thesis using c by (simp add: legacy_alias_seed_def catalog_ok_def)
qed

lemma read_lists_ok:
  assumes "read_allow repr cg t empty_policy = Inr p1" "read_disallow repr cg t p1 = Inr p2"
    "read_legacy repr cg t p2 = Inr p3"
  shows "list_all (verb_in_catalog cg False) (mp_allow p3) \<and> list_all (known_verb cg) (mp_disallow p3) \<and>
     list_all (\<lambda>v. v \<in> set (legacy_verbs cg)) (mp_legacy p3)"
proof -
  have a: "list_all (verb_in_catalog cg False) (mp_allow p1)" "mp_legacy p1 = []"
    using assms(1) by (auto simp: read_allow_def empty_policy_def catalog_names_def list_all_iff split: json.splits if_splits)
  have b: "mp_allow p2 = mp_allow p1" "list_all (known_verb cg) (mp_disallow p2)" "mp_legacy p2 = []"
    using assms(2) a by (auto simp: read_disallow_def catalog_names_def known_verb_def list_all_iff split: json.splits)
  have "mp_allow p3 = mp_allow p2" "mp_disallow p3 = mp_disallow p2"
    "list_all (\<lambda>v. v \<in> set (legacy_verbs cg)) (mp_legacy p3)"
    using assms(3) b by (auto simp: read_legacy_def Let_def list_all_iff split: json.splits if_splits)
  then show ?thesis using a b by simp
qed

lemma loaded_policy_ok:
  assumes "catalog_ok repr cg" and "methods_policy_from_table repr cg table = Inr p"
  shows "policy_ok cg p"
proof (cases table)
  case (JObj t)
  from assms(2) obtain p1 p2 p3 rs al where s:
    "read_allow repr cg t empty_policy = Inr p1" "read_disallow repr cg t p1 = Inr p2" "read_legacy repr cg t p2 = Inr p3"
    "(case jor (jget t ''redirects'') (JArr []) of JArr es \<Rightarrow> read_redirects repr cg es [] | _ \<Rightarrow> Inl ValueError) = Inr rs"
    "(case jget t ''aliases'' of JNull \<Rightarrow> Inr (legacy_alias_seed repr cg)
       | JObj al \<Rightarrow> read_aliases repr cg al [] | _ \<Rightarrow> Inl ValueError) = Inr al"
    "p = p3\<lparr>mp_redirects := rs, mp_aliases := al\<rparr>"
    unfolding methods_policy_from_table_def JObj json.case bind_res_Inr by blast
  have "list_all (\<lambda>(k, m, new). known_verb cg m) rs"
    using s(4) read_redirects_known[of repr cg _ "[]"] by (auto split: json.splits)
  moreover have "list_all (\<lambda>(k, t). known_verb cg t) al"
    using s(5) read_aliases_known[of repr cg _ "[]"] seed_known[OF assms(1)] by (auto split: json.splits)
  ultimately show ?thesis using read_lists_ok[OF s(1-3)] s(6) by (simp add: policy_ok_def)
qed (use assms(2) in \<open>auto simp: methods_policy_from_table_def empty_policy_def policy_ok_def\<close>)

text \<open>A loaded policy only ever leads to verbs of the catalog.  Whatever the table says,
  if it loads, then every alias and every redirect ends in an approved or legacy verb, an
  alias never maps a verb to itself, and a verb that is allowed without the allow-all flag
  is an approved verb or one of the legacy verbs; a disallowed verb is never allowed.\<close>
theorem loaded_policy_verbs:
  assumes "catalog_ok repr cg" and "methods_policy_from_table repr cg table = Inr p"
  shows "(\<forall>m t. resolve_alias p m = Some t \<longrightarrow> known_verb cg t \<and> t \<noteq> upper m) \<and>
     (\<forall>m path m' path'. resolve_redirect p m path = Some (m', path') \<longrightarrow> known_verb cg m') \<and>
     (\<forall>m. is_method_allowed p m \<and> \<not> mp_allow_all p \<longrightarrow>
        verb_in_catalog cg False (upper m) \<or> upper m \<in> set (legacy_verbs cg)) \<and>
     (\<forall>m. upper m \<in> set (mp_disallow p) \<longrightarrow> \<not> is_method_allowed p m)"
proof -
  have ok: "policy_ok cg p" by (rule loaded_policy_ok[OF assms])
  have mem: "dict_get d k = Some v \<Longrightarrow> list_all Q d \<Longrightarrow> Q (k, v)" for d :: "(string, 'v) dict" and k v Q
    by (auto simp: list_all_iff dest: map_of_SomeD)
  have al: "known_verb cg t" if "dict_get (mp_aliases p) k = Some t" for k t
    using mem[OF that, of "\<lambda>(k, t). known_verb cg t"] ok by (simp add: policy_ok_def)
  have rd: "known_verb cg m" if "dict_get (mp_redirects p) k = Some (m, new)" for k m new
    using mem[OF that, of "\<lambda>(k, m, new). known_verb cg m"] ok by (simp add: policy_ok_def)
  have "known_verb cg t \<and> t \<noteq> upper m" if "resolve_alias p m = Some t" for m t
    using that al by (auto simp: resolve_alias_def split: option.splits if_splits)
  moreover have "known_verb cg m'" if "resolve_redirect p m path = Some (m', path')" for m path m' path'
    using that rd by (auto simp: resolve_redirect_def split: option.splits prod.splits)
  moreover have "verb_in_catalog cg False (upper m) \<or> upper m \<in> set (legacy_verbs cg)"
    if "is_method_allowed p m \<and> \<not> mp_allow_all p" for m
    using that ok by (auto simp: is_method_allowed_def policy_ok_def Let_def list_all_iff split: if_splits)
  moreover have "\<not> is_method_allowed p m" if "upper m \<in> set (mp_disallow p)" for m
    using that by (simp add: is_method_allowed_def)
  ultimately show ?thesis by blast
qed

lemma loaded_policy_verbs_witness:
  "\<exists>p. methods_policy_from_table (\<lambda>v. []) example_catalog
        (JObj [(''allow'', JArr [JStr ''QUERY'']), (''aliases'', JObj [(''LOOKUP'', JStr ''QUERY'')])]) = Inr p \<and>
     resolve_alias p ''LOOKUP'' = Some ''QUERY'' \<and> known_verb example_catalog ''QUERY''"
proof -
  let ?t = "JObj [(''allow'', JArr [JStr ''QUERY'']), (''aliases'', JObj [(''LOOKUP'', JStr ''QUERY'')])]"
  let ?p = "\<lparr>mp_allow = [''QUERY''], mp_allow_all = False, mp_disallow = [], mp_legacy = [], mp_redirects = [],
     mp_aliases = [(''LOOKUP'', ''QUERY'')]\<rparr>"
  have c: "catalog_ok (\<lambda>v. []) example_catalog" by code_simp
  have l: "methods_policy_from_table (\<lambda>v. []) example_catalog ?t = Inr ?p" by code_simp
  have a: "resolve_alias ?p ''LOOKUP'' = Some ''QUERY''" by code_simp
  show ?thesis using loaded_policy_verbs[OF c l] l a by blast
qed

end
