(* ===== verification/Dispatch.thy ===== *)
theory Dispatch
  imports Lifecycle Oauth Endpoint_Serve Methods_Policy
begin

text \<open>
  The dispatcher of server/methods.py: the lifecycle gate, the execution of a presented
  contract, aliases, claimed scopes, tokens, the verb catalog, the path grammar, the
  method policy, redirects, the bound endpoints with the negotiation of missing ones,
  and the registry of methods; and the advisory headers of its responses.  The steps of
  a synthesis go through the dispatcher again, so it recurses: the depth that the
  interpreter allows is the fuel, and running out of it is a RecursionError.
\<close>

section \<open>The server\<close>

type_synonym 'x method_handler = "request \<Rightarrow> 'x world \<Rightarrow> 'x world \<times> (py_error + response)"

text \<open>What is set when the server starts and not changed by a request.\<close>
record 'x server =
  sv_environment :: environment
  sv_catalog :: verb_catalog
  sv_policy :: methods_policy
  sv_methods :: "'x method_handler methods"
  sv_endpoints :: "'x endpoint_handler option registry"
  sv_rcns :: "rcns_config option"
  sv_oauth :: "oauth_config option"
  sv_tokens :: token_services
  sv_validators :: validator_registry
  sv_checker :: schema_checker
  sv_hooks :: "'x hook list"

type_synonym 'x outcome = "'x world \<times> (py_error + response)"

definition sv_repr :: "'x server \<Rightarrow> json \<Rightarrow> string" where
  "sv_repr sv = en_repr (sv_environment sv)"

section \<open>The lifecycle gate\<close>

definition agent_status :: "agent_document \<Rightarrow> string" where
  "agent_status doc = lower (if ad_status doc = [] then ''active'' else ad_status doc)"

definition status_extra :: "agent_document \<Rightarrow> jobj" where
  "status_extra doc = [(''agent_id'', JStr (ad_agent_id doc)), (''agent_status'', JStr (agent_status doc))]"

definition lifecycle_gate :: "agent_document \<Rightarrow> string \<Rightarrow> response option" where
  "lifecycle_gate doc m =
     (if m \<in> {''DISCOVER'', ''DESCRIBE''} then None
      else if agent_status doc \<in> {''retired'', ''deprecated''} then
        Some (method_error 410 ''Gone'' ''agent-revoked''
          (''Agent-ID '' @ ad_agent_id doc @ '' is permanently '' @ agent_status doc @
           '' and may not invoke operational methods.'') (status_extra doc))
      else if agent_status doc = ''suspended'' then
        Some (method_error 503 ''Unavailable'' ''agent-suspended''
          (''Agent-ID '' @ ad_agent_id doc @ '' is temporarily suspended.'') (status_extra doc))
      else None)"

section \<open>A presented contract\<close>

definition contract_extras :: "string \<Rightarrow> synthesis_runtime \<Rightarrow> jobj" where
  "contract_extras sid rt =
     [(''synthesis_id'', JStr sid), (''contract_hash'', JStr (or_text (contract_hash_of sid rt) [])),
      (''negotiation_origin'', JStr (negotiation_origin sid rt))]"

definition not_yours :: "string \<Rightarrow> string \<Rightarrow> py_error + response" where
  "not_yours sid me = rcns_no_contract ''contract-not-yours''
     ''this synthesis_id was negotiated for a different Agent-ID and is not transferable'' None None
     (Some [(''synthesis_id'', JStr sid), (''presenter_agent_id'', JStr me)])"

text \<open>The answer to a request that presents a contract; none without a runtime.\<close>
definition present_contract :: "'x server \<Rightarrow> 'x world dispatcher \<Rightarrow> string \<Rightarrow> request \<Rightarrow> 'x world \<Rightarrow> 'x outcome option" where
  "present_contract sv step sid rq w =
     (if wd_runtime w = None then None
      else (case get_plan (en_now (sv_environment sv)) sid (runtime_of w) of
          (rt, None) \<Rightarrow> Some (set_runtime rt w, Inr (method_error 404 ''Not Found'' ''synthesis-not-found''
            (''synthesis '' @ sv_repr sv (JStr sid) @ '' is not active on this server'') [(''synthesis_id'', JStr sid)]))
        | (rt, Some p) \<Rightarrow>
            (let me = ad_agent_id (wd_agent w); w1 = set_runtime rt w in
             if or_text (originating_agent_id sid rt) [] \<notin> {[], me} then Some (w1, not_yours sid me)
             else (case execute runtime_of set_runtime (sv_repr sv) (en_now (sv_environment sv)) (Some step) sid rq w1 of
                 (w2, Inl e) \<Rightarrow> Some (w2, Inl e)
               | (w2, Inr r) \<Rightarrow> Some (w2, Inr (r\<lparr>rs_attribution_extra := Some
                   (obj_update (case rs_attribution_extra r of None \<Rightarrow> [] | Some d \<Rightarrow> d)
                     (contract_extras sid (runtime_of w2)))\<rparr>))))))"

section \<open>Claims\<close>

text \<open>The sorted function on the members of a set: values that do not compare raise.\<close>
definition sorted_json :: "json list \<Rightarrow> py_error + json list" where
  "sorted_json vs =
     (if length vs \<le> 1 then Inr vs
      else if list_all (\<lambda>v. case v of JStr _ \<Rightarrow> True | _ \<Rightarrow> False) vs
        then Inr (map JStr (sort (map (\<lambda>v. case v of JStr s \<Rightarrow> s | _ \<Rightarrow> []) vs)))
      else if list_all (\<lambda>v. num_of v \<noteq> None) vs then Inr (sort_key (\<lambda>v. the (num_of v)) vs)
      else Inl TypeError)"

text \<open>The members of a set of values, equal ones once.\<close>
fun json_set :: "json list \<Rightarrow> json list" where
  "json_set [] = []" |
  "json_set (v # vs) = v # filter (\<lambda>x. hkey x \<noteq> hkey v) (json_set vs)"

definition claim_refusal :: "string list \<Rightarrow> string list \<Rightarrow> json list \<Rightarrow> py_error + response" where
  "claim_refusal claimed invalid declared = authorization_required ''scope-required''
     (''Authority-Scope header claims scopes not declared by the agent'' @ [CHR 0x27] @ ''s document: '' @ join_with '', '' invalid)
     (Some [(''code'', JStr ''scope-claim-invalid''), (''claimed'', strs claimed), (''invalid'', strs invalid),
            (''declared'', JArr declared)])"

text \<open>The scopes a request claims must be declared.\<close>
definition check_claimed_scopes :: "request \<Rightarrow> agent_document \<Rightarrow> py_error + response option" where
  "check_claimed_scopes rq doc =
     (let raw = header_in (rq_headers rq) ''Authority-Scope''; claimed = split_claims raw in
      if raw = [] then Inr None
      else bind_res (declared_scopes doc) (\<lambda>scopes.
        let invalid = filter (\<lambda>s. JStr s \<notin> set scopes) claimed in
        if invalid = [] then Inr None
        else bind_res (sorted_json (json_set scopes)) (\<lambda>declared. map_sum id Some (claim_refusal claimed invalid declared))))"

text \<open>The token gate, when the merged policy turns it on.\<close>
definition token_gate :: "'x server \<Rightarrow> request \<Rightarrow> string \<Rightarrow> agent_document \<Rightarrow> py_error + (response + request)" where
  "token_gate sv rq m doc =
     bind_res (resolve_oauth_config (sv_tokens sv) (sv_oauth sv) doc) (\<lambda>pol.
       case pol of None \<Rightarrow> Inr (Inr rq) | Some p \<Rightarrow> enforce_oauth (sv_tokens sv) (sv_validators sv) rq m p)"

section \<open>Admission of the verb and the path\<close>

definition catalog_admits :: "'x server \<Rightarrow> string \<Rightarrow> bool" where
  "catalog_admits sv m =
     (is_approved_verb (sv_catalog sv) m \<or> dict_get (sv_methods sv) m \<noteq> None \<or> m \<in> set (mp_legacy (sv_policy sv)))"

definition path_refusal :: "'x server \<Rightarrow> string \<Rightarrow> py_error + response option" where
  "path_refusal sv p =
     (case validate_path (sv_catalog sv) p of
        None \<Rightarrow> Inr None
      | Some (InvalidFormat msg) \<Rightarrow> Inr (Some (endpoint_grammar_violation p msg None ''endpoint-violation''))
      | Some (VerbInPath seg) \<Rightarrow> Inr (Some (endpoint_grammar_violation p
          (''Path segment '' @ sv_repr sv (JStr seg) @ '' contains a recognized AGTP verb. Verbs belong in the method, not the path.'')
          (Some seg) ''endpoint-violation''))
      | Some _ \<Rightarrow> Inl ValueError)"

definition policy_refuses :: "'x server \<Rightarrow> string \<Rightarrow> bool" where
  "policy_refuses sv m = (m \<notin> set (cg_embedded (sv_catalog sv)) \<and> \<not> is_method_allowed (sv_policy sv) m)"

text \<open>The refusals of a verb and a path, in their order.\<close>
definition admission :: "'x server \<Rightarrow> string \<Rightarrow> string \<Rightarrow> py_error + response option" where
  "admission sv m p =
     (if \<not> catalog_admits sv m then
        Inr (Some (method_grammar_violation (sv_repr sv) m (find_close_matches (sv_repr sv) (sv_catalog sv) m 2 3) None))
      else bind_res (path_refusal sv p) (\<lambda>refusal. Inr
        (case refusal of
           Some r \<Rightarrow> Some r
         | None \<Rightarrow>
             if policy_refuses sv m then Some (method_error 405 ''Method Not Allowed'' ''method-not-allowed-by-policy''
               (m @ '' is not allowed by this server'' @ [CHR 0x27] @ ''s policies.methods'') [(''method'', JStr m)])
             else None)))"

section \<open>Routing\<close>

definition run_method :: "'x server \<Rightarrow> string \<Rightarrow> request \<Rightarrow> 'x world \<Rightarrow> 'x outcome" where
  "run_method sv m rq w =
     (case dict_get (sv_methods sv) m of
        None \<Rightarrow> (w, Inr (method_error 405 ''Method Not Allowed'' ''method-not-implemented''
          (m @ '' is in the AGTP catalog but no handler is registered on this server'')
          [(''method'', JStr m), (''known_methods'', strs (sort (dict_keys (sv_methods sv))))]))
      | Some spec \<Rightarrow>
          (case check_capability spec (wd_agent w) of
             Inl e \<Rightarrow> (w, Inl e)
           | Inr (Some r) \<Rightarrow> (w, Inr r)
           | Inr None \<Rightarrow>
               (case ms_handler spec of
                  None \<Rightarrow> (w, Inr (method_error 500 ''Internal Server Error'' ''no-handler-registered''
                    (m @ '' is registered without a handler'') []))
                | Some h \<Rightarrow> h rq w)))"

definition route :: "'x server \<Rightarrow> 'x world dispatcher \<Rightarrow> string \<Rightarrow> string \<Rightarrow> request \<Rightarrow> 'x world \<Rightarrow> 'x outcome" where
  "route sv step m p rq w =
     (let en = sv_environment sv; eps = sv_endpoints sv in
      if endpoint_count eps = 0 then run_method sv m rq w
      else (case lookup_endpoint m p eps of
          Some (e, h) \<Rightarrow> serve_endpoint en (sv_checker sv) (sv_hooks sv) e h rq w
        | None \<Rightarrow>
            if p = ''/'' then run_method sv m rq w
            else if has_path p eps then (w, Inr (method_not_allowed m p (methods_for_path p eps) None))
            else (case try_rcns en (sv_rcns sv) (Some step) (available_methods (sv_methods sv) (Some eps)) rq m p w of
                (w1, Inl e) \<Rightarrow> (w1, Inl e)
              | (w1, Inr (Some r)) \<Rightarrow> (w1, Inr r)
              | (w1, Inr None) \<Rightarrow> (w1, Inr (not_found (sv_repr sv) m p None)))))"

text \<open>The request after alias resolution.\<close>
definition apply_alias :: "methods_policy \<Rightarrow> string \<Rightarrow> request \<Rightarrow> string \<times> request" where
  "apply_alias pol m rq =
     (case non_empty (resolve_alias pol m) of
        None \<Rightarrow> (m, rq)
      | Some t \<Rightarrow> (t, rq\<lparr>rq_method := t, rq_aliased_from := Some m\<rparr>))"

definition apply_redirect :: "methods_policy \<Rightarrow> string \<Rightarrow> string \<Rightarrow> string \<times> string" where
  "apply_redirect pol m p =
     (case resolve_redirect pol m p of None \<Rightarrow> (m, p) | Some (m', p') \<Rightarrow> (m', if p' = [] then p else p'))"

text \<open>From the claims on.\<close>
definition dispatch_claims :: "'x server \<Rightarrow> 'x world dispatcher \<Rightarrow> string \<Rightarrow> string \<Rightarrow> request \<Rightarrow> 'x world \<Rightarrow> 'x outcome" where
  "dispatch_claims sv step m p rq w =
     (case check_claimed_scopes rq (wd_agent w) of
        Inl e \<Rightarrow> (w, Inl e)
      | Inr (Some r) \<Rightarrow> (w, Inr r)
      | Inr None \<Rightarrow>
          (case token_gate sv rq m (wd_agent w) of
             Inl e \<Rightarrow> (w, Inl e)
           | Inr (Inl r) \<Rightarrow> (w, Inr r)
           | Inr (Inr rq1) \<Rightarrow>
               (case admission sv m p of
                  Inl e \<Rightarrow> (w, Inl e)
                | Inr (Some r) \<Rightarrow> (w, Inr r)
                | Inr None \<Rightarrow> (case apply_redirect (sv_policy sv) m p of (m1, p1) \<Rightarrow> route sv step m1 p1 rq1 w))))"

definition dispatch_inner :: "'x server \<Rightarrow> 'x world dispatcher \<Rightarrow> request \<Rightarrow> 'x world \<Rightarrow> 'x outcome" where
  "dispatch_inner sv step rq w =
     (let m = upper (rq_method rq); p = path_or_slash (rq_path rq); sid = read_synthesis_id (rq_headers rq);
          plain = (case apply_alias (sv_policy sv) m rq of (m1, rq1) \<Rightarrow> dispatch_claims sv step m1 p rq1 w)
      in case lifecycle_gate (wd_agent w) m of
           Some r \<Rightarrow> (w, Inr r)
         | None \<Rightarrow>
             if sid = [] then plain
             else (case present_contract sv step sid rq w of None \<Rightarrow> plain | Some out \<Rightarrow> out))"

section \<open>Advisory headers\<close>

definition stamp_deprecation_header :: "'x server \<Rightarrow> string \<Rightarrow> response \<Rightarrow> response" where
  "stamp_deprecation_header sv m r =
     (if \<not> is_deprecated (sv_catalog sv) m then r
      else (case deprecation_metadata (sv_repr sv) (sv_catalog sv) m of
          None \<Rightarrow> set_header ''AGTP-Catalog-Warning'' ''deprecated'' r
        | Some d \<Rightarrow> set_header ''AGTP-Catalog-Warning'' (join_with ''; ''
            ([''deprecated''] @
             (case dp_successor d of None \<Rightarrow> [] | Some s \<Rightarrow> if s = [] then [] else [''successor='' @ s]) @
             (case dp_removed_in d of None \<Rightarrow> [] | Some v \<Rightarrow> if v = [] then [] else [''removed_in='' @ v]))) r))"

definition successor_text :: "endpoint_deprecation \<Rightarrow> string list" where
  "successor_text d =
     (let m = or_text (ed_successor_method d) []; p = or_text (ed_successor_path d) [] in
      if m = [] \<and> p = [] then []
      else [''successor='' @ (if m \<noteq> [] \<and> p \<noteq> [] then m @ '' '' @ p else if m \<noteq> [] then m else p)])"

definition stamp_endpoint_deprecation_header :: "endpoint \<Rightarrow> response \<Rightarrow> response" where
  "stamp_endpoint_deprecation_header e r =
     (case es_deprecated e of
        None \<Rightarrow> r
      | Some d \<Rightarrow> set_header ''AGTP-Endpoint-Warning'' (join_with ''; ''
          ([''deprecated''] @ successor_text d @
           (let v = or_text (ed_removed_in d) [] in if v = [] then [] else [''removed_in='' @ v]))) r)"

definition stamp_response :: "'x server \<Rightarrow> request \<Rightarrow> response \<Rightarrow> response" where
  "stamp_response sv rq r =
     (let m = upper (rq_method rq); r1 = stamp_deprecation_header sv m r in
      case lookup_endpoint m (path_or_slash (rq_path rq)) (sv_endpoints sv) of
        None \<Rightarrow> r1 | Some (e, _) \<Rightarrow> stamp_endpoint_deprecation_header e r1)"

section \<open>The dispatcher\<close>

fun dispatch :: "'x server \<Rightarrow> nat \<Rightarrow> request \<Rightarrow> 'x world \<Rightarrow> 'x outcome" where
  "dispatch sv 0 rq w = (w, Inl RecursionError)" |
  "dispatch sv (Suc n) rq w =
     map_prod id (map_sum id (stamp_response sv rq)) (dispatch_inner sv (dispatch sv n) rq w)"


section \<open>What the gates promise\<close>

lemma set_header_status [simp]: "rs_status_code (set_header k v r) = rs_status_code r"
  by (simp add: set_header_def)

lemma stamp_status [simp]: "rs_status_code (stamp_response sv rq r) = rs_status_code r"
  by (simp add: stamp_response_def stamp_deprecation_header_def stamp_endpoint_deprecation_header_def Let_def split: option.split)

lemma set_runtime_same: "wd_runtime w \<noteq> None \<Longrightarrow> set_runtime (runtime_of w) w = w"
  by (auto simp: set_runtime_def runtime_of_def)

definition exempt :: "request \<Rightarrow> bool" where
  "exempt rq = (upper (rq_method rq) \<in> {''DISCOVER'', ''DESCRIBE''})"

definition inactive :: "agent_document \<Rightarrow> bool" where
  "inactive doc = (agent_status doc \<in> {''retired'', ''deprecated'', ''suspended''})"

lemma gate_closed:
  assumes "inactive (wd_agent w)" and "\<not> exempt rq"
  shows "\<exists>r. dispatch sv (Suc n) rq w = (w, Inr r) \<and>
     rs_status_code r = (if agent_status (wd_agent w) = ''suspended'' then 503 else 410)"
  using assms by (auto simp: dispatch_inner_def Let_def lifecycle_gate_def inactive_def exempt_def)

text \<open>C1: an agent that is not active stays so.  Once its status is retired, deprecated or
  suspended, no sequence of requests other than DISCOVER and DESCRIBE changes anything on the
  server, and each is answered with a 410 or, for a suspended agent, a 503: the lifecycle methods
  REINSTATE and ACTIVATE, which are documented to bring the agent back, are refused like the rest.\<close>
theorem inactive_is_absorbing:
  assumes "inactive (wd_agent w)" and "\<forall>rq \<in> set rqs. \<not> exempt rq"
  shows "run_events (\<lambda>rq w. fst (dispatch sv (Suc n) rq w)) rqs w = w \<and>
     (\<forall>rq \<in> set rqs. \<exists>r. snd (dispatch sv (Suc n) rq w) = Inr r \<and> rs_status_code r \<in> {410, 503})"
proof -
  have step: "fst (dispatch sv (Suc n) rq w) = w \<and> (\<exists>r. snd (dispatch sv (Suc n) rq w) = Inr r \<and> rs_status_code r \<in> {410, 503})"
    if "rq \<in> set rqs" for rq
  proof -
    obtain r where "dispatch sv (Suc n) rq w = (w, Inr r)"
      "rs_status_code r = (if agent_status (wd_agent w) = ''suspended'' then 503 else 410)"
      using gate_closed[OF assms(1), of rq sv n] assms(2) \<open>rq \<in> set rqs\<close> by blast
    then show ?thesis by simp
  qed
  then have "run_events (\<lambda>rq w. fst (dispatch sv (Suc n) rq w)) rqs w = w"
    by (induction rqs) (simp_all del: dispatch.simps)
  with step show ?thesis by blast
qed

text \<open>C7: a contract is not transferable.  A request that presents a served contract of another
  agent is answered with a 464, and nothing changes: no step of the contract is dispatched, no
  handler, hook or negotiation runs.\<close>
theorem contract_not_transferable:
  assumes "\<not> inactive (wd_agent w)" and "read_synthesis_id (rq_headers rq) = sid" and "sid \<noteq> []"
    and "served (sv_environment sv) sid w" and "originating_agent_id sid (runtime_of w) = Some owner"
    and "owner \<noteq> []" and "owner \<noteq> ad_agent_id (wd_agent w)"
  shows "\<exists>r. dispatch sv (Suc n) rq w = (w, Inr r) \<and> rs_status_code r = 464"
proof -
  obtain p where g: "get_plan (en_now (sv_environment sv)) sid (runtime_of w) = (runtime_of w, Some p)"
    using assms(4) get_plan_same unfolding served_def by (metis option.exhaust prod.collapse)
  have rt: "wd_runtime w \<noteq> None" using assms(4) unfolding served_def by blast
  have gate: "lifecycle_gate (wd_agent w) m = None" for m using assms(1) by (simp add: lifecycle_gate_def inactive_def)
  obtain r where r: "not_yours sid (ad_agent_id (wd_agent w)) = Inr r" "rs_status_code r = 464"
    by (simp add: not_yours_def rcns_no_contract_def ALL_RCNS_REFUSAL_REASONS_def RCNS_NO_CONTRACT_def)
  have "present_contract sv (dispatch sv n) sid rq w = Some (w, Inr r)"
    using rt assms(5-7) by (simp add: present_contract_def g Let_def or_text_def r set_runtime_same del: not_None_eq)
  then show ?thesis using assms(2,3) gate r by (simp add: dispatch_inner_def Let_def)
qed

text \<open>C2: a contract that is presented by its canonical header never runs.  The header
  Contract-Synthesized, which the gate tells callers to send, is passed on to the steps of the
  plan, whose dispatch presents the contract again: whatever depth of recursion the interpreter
  allows, the request ends in a RecursionError.\<close>
theorem canonical_header_recurses:
  assumes "\<not> inactive (wd_agent w)" and "header_in (rq_headers rq) ''Contract-Synthesized'' = sid" and "sid \<noteq> []"
    and "wd_runtime w \<noteq> None" and "get_plan (en_now (sv_environment sv)) sid (runtime_of w) = (runtime_of w, Some p)"
    and "or_text (originating_agent_id sid (runtime_of w)) [] \<in> {[], ad_agent_id (wd_agent w)}"
    and "pl_steps p = s # ss" and "\<And>params. \<exists>ps. resolve_parameters (st_parameter_source s) params [] [] = Inr ps"
  shows "dispatch sv n rq w = (w, Inl RecursionError)"
  using assms(2)
proof (induction n arbitrary: rq)
  case (Suc n)
  have gate: "lifecycle_gate (wd_agent w) m = None" for m using assms(1) by (simp add: lifecycle_gate_def inactive_def)
  obtain ps where ps: "resolve_parameters (st_parameter_source s) (parse_request_params rq) [] [] = Inr ps"
    using assms(8) by blast
  have "header_in (rq_headers (build_step_request rq (st_method_name s) ps)) ''Contract-Synthesized'' = sid"
    using step_request_header[of "''Contract-Synthesized''" rq "st_method_name s" ps] Suc.prems by (simp add: lower_def char_lower_def is_upper_def)
  from Suc.IH[OF this] have "execute runtime_of set_runtime (sv_repr sv) (en_now (sv_environment sv)) (Some (dispatch sv n)) sid rq w
      = (w, Inl RecursionError)"
    using assms(4) by (simp add: execute_def assms(5) execute_plan_def assms(7) ps set_runtime_same del: not_None_eq)
  then have "present_contract sv (dispatch sv n) sid rq w = Some (w, Inl RecursionError)"
    using assms(4,6) by (auto simp: present_contract_def assms(5) Let_def set_runtime_same simp del: not_None_eq)
  then show ?case using Suc.prems assms(3) gate by (simp add: dispatch_inner_def Let_def read_synthesis_id_def read_renamed_def)
qed simp

lemma map_sum_Some: "map_sum id Some x = Inr (Some r) \<longleftrightarrow> x = Inr r"
  by (cases x) auto

lemma claim_refusal_status: "claim_refusal c i d = Inr r \<Longrightarrow> rs_status_code r = 262"
  by (auto simp: claim_refusal_def authorization_required_def AUTHORIZATION_REQUIRED_def build_error_def build_def
      split: if_splits)

lemma claimed_scopes_refusal: "check_claimed_scopes rq doc = Inr (Some r) \<Longrightarrow> rs_status_code r = 262"
  by (auto simp: check_claimed_scopes_def Let_def bind_res_Inr map_sum_Some claim_refusal_status split: if_splits)

lemma oauth_refusal_status [simp]:
  "rs_status_code (oauth_401 reason txt m) = 401" "rs_status_code (misconfigured ts pol e) = 500"
  by (simp_all add: oauth_401_def misconfigured_def)

lemma enforce_oauth_refusal:
  assumes "enforce_oauth ts reg rq m pol = Inr (Inl r)"
  shows "rs_status_code r \<in> {401, 500}"
proof (cases "extract_token rq")
  case None
  then show ?thesis using assms unfolding enforce_oauth_def by (auto split: if_splits)
next
  case (Some tok)
  show ?thesis
  proof (cases "get_validator ts reg (op_validator pol) (jor (op_validator_config pol) (JObj []))")
    case (Inl e)
    then show ?thesis using assms Some unfolding enforce_oauth_def by (auto split: if_splits)
  next
    case (Inr v)
    then show ?thesis using assms Some unfolding enforce_oauth_def
      by (cases "v tok") (auto simp: bind_res_Inr split: token_error.splits)
  qed
qed

lemma token_gate_refusal: "token_gate sv rq m doc = Inr (Inl r) \<Longrightarrow> rs_status_code r \<in> {401, 500}"
  unfolding token_gate_def bind_res_Inr by (auto simp del: insert_iff split: option.splits dest: enforce_oauth_refusal)

lemma grammar_status [simp]:
  "rs_status_code (method_grammar_violation rp m ss t) = 459" "rs_status_code (endpoint_grammar_violation p why seg c) = 460"
  by (simp_all add: method_grammar_violation_def METHOD_GRAMMAR_VIOLATION_def endpoint_grammar_violation_def
      ENDPOINT_GRAMMAR_VIOLATION_def)

lemma path_refusal_cases:
  "path_refusal sv p = Inr None \<Longrightarrow> validate_path (sv_catalog sv) p = None"
  "path_refusal sv p = Inr (Some r) \<Longrightarrow> rs_status_code r = 460"
  unfolding path_refusal_def
  by (cases "validate_path (sv_catalog sv) p"; auto split: path_error.splits)+

lemma admission_refusal: "admission sv m p = Inr (Some r) \<Longrightarrow> rs_status_code r \<in> {405, 459, 460}"
  unfolding admission_def
  by (cases "catalog_admits sv m"; cases "path_refusal sv p")
     (auto simp: path_refusal_cases split: if_splits option.splits)

lemma admission_passes:
  "admission sv m p = Inr None \<Longrightarrow> catalog_admits sv m \<and> validate_path (sv_catalog sv) p = None \<and> \<not> policy_refuses sv m"
  unfolding admission_def
  by (cases "catalog_admits sv m"; cases "path_refusal sv p")
     (auto simp: path_refusal_cases split: if_splits option.splits)



definition example_server :: "unit server" where
  "example_server =
     \<lparr>sv_environment = example_environment, sv_catalog = example_catalog, sv_policy = empty_policy, sv_methods = [],
      sv_endpoints = new_endpoint_registry, sv_rcns = None, sv_oauth = None, sv_tokens = example_services,
      sv_validators = [], sv_checker = example_checker, sv_hooks = []\<rparr>"

lemma example_active: "\<not> inactive example_document"
  by code_simp

lemma inactive_is_absorbing_witness:
  "run_events (\<lambda>rq w. fst (dispatch example_server 5 rq w)) [example_request ''REINSTATE'' [], example_request ''ACTIVATE'' []]
     (example_world\<lparr>wd_agent := example_document\<lparr>ad_status := ''Suspended''\<rparr>\<rparr>) =
   example_world\<lparr>wd_agent := example_document\<lparr>ad_status := ''Suspended''\<rparr>\<rparr>"
proof -
  have "inactive (example_document\<lparr>ad_status := ''Suspended''\<rparr>)" by code_simp
  moreover have "\<not> exempt (example_request ''REINSTATE'' [])" "\<not> exempt (example_request ''ACTIVATE'' [])" by code_simp+
  ultimately show ?thesis
    using inactive_is_absorbing[of "example_world\<lparr>wd_agent := example_document\<lparr>ad_status := ''Suspended''\<rparr>\<rparr>"
        "[example_request ''REINSTATE'' [], example_request ''ACTIVATE'' []]" example_server 4]
    by (simp add: numeral_eq_Suc del: dispatch.simps)
qed

lemma contract_not_transferable_witness:
  "\<exists>r. dispatch example_server 5 (example_request ''QUERY'' [(''Contract-Synthesized'', ''s1'')]) example_contract_world =
     (example_contract_world, Inr r) \<and> rs_status_code r = 464"
proof -
  have "read_synthesis_id (rq_headers (example_request ''QUERY'' [(''Contract-Synthesized'', ''s1'')])) = ''s1''" by code_simp
  from contract_not_transferable[OF _ this, of example_contract_world example_server "''owner''" 4]
  show ?thesis using example_active
    by (simp add: example_contract served_def numeral_eq_Suc example_server_def del: dispatch.simps)
       (simp add: example_document_def)
qed

definition own_contract_world :: "unit world" where
  "own_contract_world = example_world\<lparr>wd_runtime := Some (fst (instantiate ''s1'' example_plan
     \<lparr>ct_expires_at = None, ct_persistent = False, ct_originating = Some ''a1'', ct_contract_hash = None, ct_origin = ''rcns''\<rparr>
     (new_runtime [] 3)))\<rparr>"

lemma own_contract:
  "wd_agent own_contract_world = example_document" "wd_runtime own_contract_world \<noteq> None"
  "get_plan now ''s1'' (runtime_of own_contract_world) = (runtime_of own_contract_world, Some example_plan)"
  "originating_agent_id ''s1'' (runtime_of own_contract_world) = Some ''a1''"
  by (simp_all add: own_contract_world_def example_world_def instantiate_def new_runtime_def runtime_of_def Let_def
      get_plan_def originating_agent_id_def set_if_def non_empty_def example_plan_def passthrough_plan_def)

lemma canonical_header_recurses_witness:
  "dispatch example_server 1000 (example_request ''QUERY'' [(''Contract-Synthesized'', ''s1'')]) own_contract_world =
     (own_contract_world, Inl RecursionError)"
proof -
  have h: "header_in (rq_headers (example_request ''QUERY'' [(''Contract-Synthesized'', ''s1'')])) ''Contract-Synthesized'' = ''s1''"
    by code_simp
  have "\<exists>s. pl_steps example_plan = [s] \<and> (\<forall>params. \<exists>ps. resolve_parameters (st_parameter_source s) params [] [] = Inr ps)"
    by (simp add: example_plan_def passthrough_plan_def passthrough_params_def example_method_def split: option.split)
  then obtain s where s: "pl_steps example_plan = [s]"
    "\<And>params. \<exists>ps. resolve_parameters (st_parameter_source s) params [] [] = Inr ps" by blast
  show ?thesis
    by (rule canonical_header_recurses[OF _ h _ own_contract(2) own_contract(3) _ s])
       (simp_all add: own_contract example_active or_text_def, simp add: example_document_def)
qed


end
