(* ===== verification/Cbor.thy ===== *)
theory Cbor
  imports Prelude "HOL-Library.Word"
begin

text \<open>
  The codec half of server/cose.py: the subset of CBOR that signed lifecycle events use.

  A byte string is a list of 8-bit words, a text a list of Unicode code points, and a
  value is a tree of the Python types the codec handles; a tagged value is the tuple
  that _decode_at returns for it.  The decoder recurses once per level of nesting, so its
  fuel is the depth the interpreter grants and running out of it is the RecursionError of
  the interpreter.  The main results: what the encoder writes, the decoder reads, with
  maps in the order of their encoded keys (decode_encoded), and the encoding is injective
  on values whose maps are in that order (encode_inj).
\<close>

unbundle bit_operations_syntax

type_synonym bytes = "8 word list"
type_synonym unicode = "nat list"

datatype cbor_error = CoseError | UnicodeDecodeError | UnicodeEncodeError | Raised py_error

section \<open>UTF-8\<close>

text \<open>The utf-8 codec of Python in strict mode: surrogates are not encodable, and the
  decoder refuses overlong forms, surrogates and code points above 0x10FFFF.\<close>

definition valid_point :: "nat \<Rightarrow> bool" where
  "valid_point c = (c < 0xD800 \<or> (0xE000 \<le> c \<and> c < 0x110000))"

definition utf8_point :: "nat \<Rightarrow> nat list" where
  "utf8_point c =
     (if c < 0x80 then [c]
      else if c < 0x800 then [0xC0 + c div 64, 0x80 + c mod 64]
      else if c < 0x10000 then [0xE0 + c div 4096, 0x80 + c div 64 mod 64, 0x80 + c mod 64]
      else [0xF0 + c div 262144, 0x80 + c div 4096 mod 64, 0x80 + c div 64 mod 64, 0x80 + c mod 64])"

definition utf8_encode :: "unicode \<Rightarrow> cbor_error + bytes" where
  "utf8_encode s =
     (if list_all valid_point s then Inr (map word_of_nat (concat (map utf8_point s)))
      else Inl UnicodeEncodeError)"

definition trail :: "nat \<Rightarrow> bool" where
  "trail b = (0x80 \<le> b \<and> b < 0xC0)"

fun utf8_points :: "nat list \<Rightarrow> unicode option" where
  "utf8_points [] = Some []" |
  "utf8_points (a # bs) =
     (if a < 0x80 then map_option ((#) a) (utf8_points bs)
      else if 0xC2 \<le> a \<and> a < 0xE0 then
        (case bs of b # r \<Rightarrow>
           if trail b then map_option ((#) ((a - 0xC0) * 64 + (b - 0x80))) (utf8_points r) else None
         | _ \<Rightarrow> None)
      else if 0xE0 \<le> a \<and> a < 0xF0 then
        (case bs of b # c # r \<Rightarrow>
           (let p = (a - 0xE0) * 4096 + (b - 0x80) * 64 + (c - 0x80) in
            if trail b \<and> trail c \<and> 0x800 \<le> p \<and> valid_point p
            then map_option ((#) p) (utf8_points r) else None)
         | _ \<Rightarrow> None)
      else if 0xF0 \<le> a \<and> a < 0xF5 then
        (case bs of b # c # d # r \<Rightarrow>
           (let p = (a - 0xF0) * 262144 + (b - 0x80) * 4096 + (c - 0x80) * 64 + (d - 0x80) in
            if trail b \<and> trail c \<and> trail d \<and> 0x10000 \<le> p \<and> valid_point p
            then map_option ((#) p) (utf8_points r) else None)
         | _ \<Rightarrow> None)
      else None)"

definition utf8_decode :: "bytes \<Rightarrow> cbor_error + unicode" where
  "utf8_decode bs = (case utf8_points (map unat bs) of None \<Rightarrow> Inl UnicodeDecodeError | Some s \<Rightarrow> Inr s)"

lemma utf8_point_bytes: "valid_point c \<Longrightarrow> b \<in> set (utf8_point c) \<Longrightarrow> b < 256"
  by (auto simp: utf8_point_def valid_point_def split: if_splits)

lemma split64: fixes c :: nat shows "c div 64 * 64 + c mod 64 = c" by simp

lemma split_quotient: fixes c m :: nat
  shows "c div (m * 64) * (m * 64) + c div m mod 64 * m = c div m * m"
proof -
  have "c div (m * 64) = c div m div 64" by (rule div_mult2_eq)
  moreover have "(c div m div 64 * 64 + c div m mod 64) * m = c div m * m"
    by (simp only: div_mult_mod_eq)
  ultimately show ?thesis by (simp only: distrib_right mult.assoc mult.commute[of 64])
qed

lemma split4096: fixes c :: nat
  shows "c div 4096 * 4096 + c div 64 mod 64 * 64 + c mod 64 = c"
  using split_quotient[of c 64] split64[of c] by simp

lemma split262144: fixes c :: nat
  shows "c div 262144 * 262144 + c div 4096 mod 64 * 4096 + c div 64 mod 64 * 64 + c mod 64 = c"
  using split_quotient[of c 4096] split4096[of c] by simp

lemma utf8_points_point:
  assumes "valid_point c"
  shows "utf8_points (utf8_point c @ bs) = map_option ((#) c) (utf8_points bs)"
proof -
  consider "c < 0x80" | "0x80 \<le> c" "c < 0x800" | "0x800 \<le> c" "c < 0x10000" | "0x10000 \<le> c" "c < 0x110000"
    using assms by (fastforce simp: valid_point_def)
  then show ?thesis
  proof cases
    case 1 then show ?thesis by (simp add: utf8_point_def)
  next
    case 2
    then have "2 \<le> c div 64" "c div 64 < 32" by auto
    with 2 show ?thesis by (simp add: utf8_point_def trail_def split64)
  next
    case 3
    then have "c div 4096 < 16" by auto
    with 3 assms show ?thesis by (simp add: utf8_point_def trail_def split4096)
  next
    case 4
    then have "c div 262144 < 5" by auto
    with 4 assms show ?thesis by (simp add: utf8_point_def trail_def split262144)
  qed
qed

lemma utf8_points_encoded: "list_all valid_point s \<Longrightarrow> utf8_points (concat (map utf8_point s)) = Some s"
  by (induction s) (simp_all add: utf8_points_point)

lemma utf8_roundtrip: "utf8_encode s = Inr bs \<Longrightarrow> utf8_decode bs = Inr s"
proof -
  assume e: "utf8_encode s = Inr bs"
  then have v: "list_all valid_point s" and b: "bs = map word_of_nat (concat (map utf8_point s))"
    by (auto simp: utf8_encode_def split: if_splits)
  have "map unat bs = concat (map utf8_point s)"
    unfolding b map_map comp_def
    by (rule map_idI) (use v in \<open>auto simp: list_all_iff unat_of_nat take_bit_eq_mod dest!: utf8_point_bytes\<close>)
  then show ?thesis by (simp add: utf8_decode_def utf8_points_encoded[OF v])
qed

section \<open>Heads\<close>

fun to_bytes_big :: "nat \<Rightarrow> nat \<Rightarrow> bytes" where
  "to_bytes_big 0 n = []" |
  "to_bytes_big (Suc k) n = to_bytes_big k (n div 256) @ [word_of_nat n]"

definition from_bytes_big :: "bytes \<Rightarrow> nat" where
  "from_bytes_big bs = foldl (\<lambda>n b. n * 256 + unat b) 0 bs"

lemma to_bytes_big_length [simp]: "length (to_bytes_big k n) = k"
  by (induction k arbitrary: n) simp_all

lemma from_to_bytes_big: "n < 256 ^ k \<Longrightarrow> from_bytes_big (to_bytes_big k n) = n"
proof (induction k arbitrary: n)
  case 0
  then show ?case by (simp add: from_bytes_big_def)
next
  case (Suc k)
  then have "n div 256 < 256 ^ k" by (simp add: less_mult_imp_div_less)
  from Suc.IH[OF this] show ?case
    by (simp add: from_bytes_big_def unat_of_nat take_bit_eq_mod)
qed

definition enc_head :: "nat \<Rightarrow> nat \<Rightarrow> cbor_error + bytes" where
  "enc_head major n =
     (let head = push_bit 5 major in
      if n < 24 then Inr [word_of_nat (head OR n)]
      else if n < 256 then Inr [word_of_nat (head OR 24), word_of_nat n]
      else if n < 65536 then Inr (word_of_nat (head OR 25) # to_bytes_big 2 n)
      else if n < 2 ^ 32 then Inr (word_of_nat (head OR 26) # to_bytes_big 4 n)
      else if n < 2 ^ 64 then Inr (word_of_nat (head OR 27) # to_bytes_big 8 n)
      else Inl (Raised OverflowError))"

definition slice :: "bytes \<Rightarrow> nat \<Rightarrow> nat \<Rightarrow> bytes" where
  "slice data i j = take (j - i) (drop i data)"

definition read_arg :: "bytes \<Rightarrow> nat \<Rightarrow> nat \<Rightarrow> nat \<Rightarrow> cbor_error + nat \<times> nat \<times> nat" where
  "read_arg data major pos k =
     (if length data < pos + k then Inl CoseError
      else Inr (major, from_bytes_big (slice data pos (pos + k)), pos + k))"

definition read_head :: "bytes \<Rightarrow> nat \<Rightarrow> cbor_error + nat \<times> nat \<times> nat" where
  "read_head data pos =
     (if length data \<le> pos then Inl CoseError
      else let b = data ! pos; major = unat (drop_bit 5 b); info = unat (b AND 0x1F); pos = pos + 1 in
        if info < 24 then Inr (major, info, pos)
        else if info = 24 then
          (if length data \<le> pos then Inl CoseError else Inr (major, unat (data ! pos), pos + 1))
        else if info = 25 then read_arg data major pos 2
        else if info = 26 then read_arg data major pos 4
        else if info = 27 then read_arg data major pos 8
        else Inl CoseError)"

lemma head_sum: "n < 32 \<Longrightarrow> push_bit 5 major OR n = major * 32 + (n::nat)"
proof -
  assume n: "n < 32"
  have "push_bit 5 major AND n = 0"
  proof (rule bit_eqI)
    fix i
    have "\<not> bit n i" if "5 \<le> i"
    proof -
      have "n < 2 ^ i" using n power_increasing[OF that, of "2::nat"] by simp
      then show ?thesis by (simp add: bit_iff_odd)
    qed
    then show "bit (push_bit 5 major AND n) i = bit (0::nat) i"
      by (auto simp: bit_simps)
  qed
  then have "push_bit 5 major OR n = push_bit 5 major + n" by (simp add: disjunctive_add_eq_or)
  then show ?thesis by (simp add: push_bit_eq_mult)
qed

lemma enc_head_short: "n < 24 \<Longrightarrow> enc_head major n = Inr [word_of_nat (major * 32 + n)]"
  using head_sum[of n major] by (simp add: enc_head_def Let_def)

lemma enc_head_byte:
  "24 \<le> n \<Longrightarrow> n < 256 \<Longrightarrow> enc_head major n = Inr [word_of_nat (major * 32 + 24), word_of_nat n]"
  using head_sum[of 24 major] by (simp add: enc_head_def Let_def)

lemma head_byte:
  assumes "major < 8" "n < 32"
  shows "unat (drop_bit 5 (word_of_nat (push_bit 5 major OR n) :: 8 word)) = major"
    "unat ((word_of_nat (push_bit 5 major OR n) :: 8 word) AND 0x1F) = n"
proof -
  define w where "w = (word_of_nat (major * 32 + n) :: 8 word)"
  have u: "unat w = major * 32 + n"
    unfolding w_def unat_of_nat using assms by simp
  have m: "(0x1F :: 8 word) = mask 5" by (simp add: mask_eq_exp_minus_1)
  have "unat (drop_bit 5 w) = major" unfolding unat_drop_bit_eq unfolding u drop_bit_eq_div using assms by simp
  moreover have "unat (w AND 0x1F) = n"
    unfolding m take_bit_eq_mask[symmetric] unsigned_take_bit_eq unfolding u take_bit_eq_mod using assms by simp
  ultimately show "unat (drop_bit 5 (word_of_nat (push_bit 5 major OR n) :: 8 word)) = major"
    "unat ((word_of_nat (push_bit 5 major OR n) :: 8 word) AND 0x1F) = n"
    unfolding head_sum[OF assms(2)] w_def by simp_all
qed

lemma slice_here [simp]: "slice (pre @ bs @ suf) (length pre) (length pre + length bs) = bs"
  by (simp add: slice_def)

lemma slice_after [simp]: "slice (pre @ b # bs @ suf) (Suc (length pre)) (Suc (length pre + length bs)) = bs"
  using slice_here[of "pre @ [b]" bs suf] by simp

lemma read_arg_here:
  assumes "n < 256 ^ k"
  shows "read_arg (pre @ b # to_bytes_big k n @ suf) major (Suc (length pre)) k = Inr (major, n, Suc (length pre + k))"
  using slice_after[of pre b "to_bytes_big k n" suf] from_to_bytes_big[OF assms] by (simp add: read_arg_def)

text \<open>What _enc_head writes, _read_head reads, wherever it stands.\<close>
lemma read_enc_head:
  assumes e: "enc_head major n = Inr bs" and m: "major < 8"
  shows "read_head (pre @ bs @ suf) (length pre) = Inr (major, n, length pre + length bs)"
proof -
  note hb = head_byte[OF m]
  consider "n < 24" | "24 \<le> n" "n < 256" | "256 \<le> n" "n < 65536" | "65536 \<le> n" "n < 2 ^ 32"
    | "2 ^ 32 \<le> n" "n < 2 ^ 64" | "2 ^ 64 \<le> n" by linarith
  then show ?thesis
  proof cases
    case 1
    with e have "bs = [word_of_nat (push_bit 5 major OR n)]" by (simp add: enc_head_def Let_def)
    with 1 show ?thesis using hb[of n] by (simp add: read_head_def Let_def nth_append)
  next
    case 2
    with e have "bs = [word_of_nat (push_bit 5 major OR 24), word_of_nat n]" by (simp add: enc_head_def Let_def)
    with 2 show ?thesis using hb[of 24]
      by (simp add: read_head_def Let_def nth_append unat_of_nat take_bit_eq_mod)
  next
    case 3
    with e have "bs = word_of_nat (push_bit 5 major OR 25) # to_bytes_big 2 n" by (simp add: enc_head_def Let_def)
    with 3 show ?thesis using hb[of 25] read_arg_here[of n 2 pre _ suf major]
      by (simp add: read_head_def Let_def nth_append)
  next
    case 4
    then have "n < 256 ^ 4" by simp
    moreover from 4 e have "bs = word_of_nat (push_bit 5 major OR 26) # to_bytes_big 4 n"
      by (simp add: enc_head_def Let_def)
    ultimately show ?thesis using hb[of 26] read_arg_here[of n 4 pre _ suf major]
      by (simp add: read_head_def Let_def nth_append)
  next
    case 5
    then have "n < 256 ^ 8" by simp
    moreover from 5 e have "bs = word_of_nat (push_bit 5 major OR 27) # to_bytes_big 8 n"
      by (simp add: enc_head_def Let_def)
    ultimately show ?thesis using hb[of 27] read_arg_here[of n 8 pre _ suf major]
      by (simp add: read_head_def Let_def nth_append)
  next
    case 6
    with e show ?thesis by (simp add: enc_head_def Let_def)
  qed
qed

section \<open>Values\<close>

text \<open>The Python values the codec handles.  A dictionary is the list of its items in
  insertion order; CTag stands for the tuple that the decoder builds for a tagged item,
  the one type of the model that the encoder does not support.\<close>
datatype cbor =
    CNull
  | CBool bool
  | CInt int
  | CBytes bytes
  | CText unicode
  | CList "cbor list"
  | CMap "(cbor \<times> cbor) list"
  | CTag nat cbor

lemma map_res_cong [fundef_cong]:
  "xs = ys \<Longrightarrow> (\<And>x. x \<in> set ys \<Longrightarrow> f x = g x) \<Longrightarrow> map_res f xs = map_res g ys"
  by (induction ys arbitrary: xs) auto

text \<open>Python compares dictionary keys by value: True equals 1 and False equals 0.\<close>
fun key_norm :: "cbor \<Rightarrow> cbor" where
  "key_norm (CBool b) = CInt (if b then 1 else 0)" |
  "key_norm (CTag n v) = CTag n (key_norm v)" |
  "key_norm v = v"

fun cv_hashable :: "cbor \<Rightarrow> bool" where
  "cv_hashable (CList _) = False" |
  "cv_hashable (CMap _) = False" |
  "cv_hashable (CTag _ v) = cv_hashable v" |
  "cv_hashable _ = True"

text \<open>Assignment to a dictionary item: an equal key keeps its place and its spelling.\<close>
definition put_item :: "cbor \<Rightarrow> cbor \<Rightarrow> (cbor \<times> cbor) list \<Rightarrow> cbor_error + (cbor \<times> cbor) list" where
  "put_item k v d =
     (if \<not> cv_hashable k then Inl (Raised TypeError)
      else if list_ex (\<lambda>(k', v'). key_norm k' = key_norm k) d
      then Inr (map (\<lambda>(k', v'). if key_norm k' = key_norm k then (k', v) else (k', v')) d)
      else Inr (d @ [(k, v)]))"

section \<open>Encoder\<close>

abbreviation with_head :: "nat \<Rightarrow> nat \<Rightarrow> bytes \<Rightarrow> cbor_error + bytes" where
  "with_head major n body \<equiv> bind_res (enc_head major n) (\<lambda>h. Inr (h @ body))"

fun cbor_encode :: "cbor \<Rightarrow> cbor_error + bytes" where
  "cbor_encode CNull = Inr [0xF6]" |
  "cbor_encode (CBool b) = Inr [if b then 0xF5 else 0xF4]" |
  "cbor_encode (CInt i) = (if 0 \<le> i then enc_head 0 (nat i) else enc_head 1 (nat (-1 - i)))" |
  "cbor_encode (CBytes bs) = with_head 2 (length bs) bs" |
  "cbor_encode (CText s) = bind_res (utf8_encode s) (\<lambda>bs. with_head 3 (length bs) bs)" |
  "cbor_encode (CList xs) =
     bind_res (enc_head 4 (length xs)) (\<lambda>h.
     bind_res (map_res cbor_encode xs) (\<lambda>bss. Inr (h @ concat bss)))" |
  "cbor_encode (CMap ps) =
     bind_res (map_res (\<lambda>(k, v). bind_res (cbor_encode k) (\<lambda>kb.
       bind_res (cbor_encode v) (\<lambda>vb. Inr (kb, vb)))) ps) (\<lambda>kvs.
     with_head 5 (length kvs) (concat (map (\<lambda>(kb, vb). kb @ vb) (sort_key fst kvs))))" |
  "cbor_encode (CTag n v) = Inl CoseError"

section \<open>Decoder\<close>

fun decode_items :: "(nat \<Rightarrow> cbor_error + cbor \<times> nat) \<Rightarrow> nat \<Rightarrow> nat \<Rightarrow> cbor list \<Rightarrow> cbor_error + cbor \<times> nat" where
  "decode_items dec 0 pos out = Inr (CList out, pos)" |
  "decode_items dec (Suc n) pos out =
     bind_res (dec pos) (\<lambda>(item, pos). decode_items dec n pos (out @ [item]))"

fun decode_pairs :: "(nat \<Rightarrow> cbor_error + cbor \<times> nat) \<Rightarrow> nat \<Rightarrow> nat \<Rightarrow> (cbor \<times> cbor) list \<Rightarrow>
    cbor_error + cbor \<times> nat" where
  "decode_pairs dec 0 pos out = Inr (CMap out, pos)" |
  "decode_pairs dec (Suc n) pos out =
     bind_res (dec pos) (\<lambda>(k, pos). bind_res (dec pos) (\<lambda>(v, pos).
     bind_res (put_item k v out) (\<lambda>out. decode_pairs dec n pos out)))"

definition decode_simple :: "nat \<Rightarrow> cbor_error + cbor" where
  "decode_simple arg =
     (if arg = 20 then Inr (CBool False)
      else if arg = 21 then Inr (CBool True)
      else if arg = 22 \<or> arg = 23 then Inr CNull
      else Inl CoseError)"

primrec decode_at :: "nat \<Rightarrow> bytes \<Rightarrow> nat \<Rightarrow> cbor_error + cbor \<times> nat" where
  "decode_at 0 data pos = Inl (Raised RecursionError)" |
  "decode_at (Suc depth) data pos =
     bind_res (read_head data pos) (\<lambda>(major, arg, pos).
       if major = 0 then Inr (CInt (int arg), pos)
       else if major = 1 then Inr (CInt (-1 - int arg), pos)
       else if major = 2 then
         (if length data < pos + arg then Inl CoseError
          else Inr (CBytes (slice data pos (pos + arg)), pos + arg))
       else if major = 3 then
         (if length data < pos + arg then Inl CoseError
          else bind_res (utf8_decode (slice data pos (pos + arg))) (\<lambda>s. Inr (CText s, pos + arg)))
       else if major = 4 then decode_items (decode_at depth data) arg pos []
       else if major = 5 then decode_pairs (decode_at depth data) arg pos []
       else if major = 6 then bind_res (decode_at depth data pos) (\<lambda>(inner, pos). Inr (CTag arg inner, pos))
       else bind_res (decode_simple arg) (\<lambda>v. Inr (v, pos)))"

definition cbor_decode :: "nat \<Rightarrow> bytes \<Rightarrow> cbor_error + cbor" where
  "cbor_decode depth data =
     bind_res (decode_at depth data 0) (\<lambda>(v, stop). if stop \<noteq> length data then Inl CoseError else Inr v)"

section \<open>Round trip\<close>

text \<open>The canonical form of a value lists the items of every dictionary in the order of
  their encoded keys, the order in which the encoder writes them.\<close>

definition encoding :: "cbor \<Rightarrow> bytes" where
  "encoding v = (case cbor_encode v of Inl _ \<Rightarrow> [] | Inr bs \<Rightarrow> bs)"

fun canon :: "cbor \<Rightarrow> cbor" where
  "canon (CList xs) = CList (map canon xs)" |
  "canon (CMap ps) = CMap (map (\<lambda>(k, v). (k, canon v)) (sort_key (\<lambda>(k, v). encoding k) ps))" |
  "canon v = v"

fun plain_key :: "cbor \<Rightarrow> bool" where
  "plain_key (CList _) = False" |
  "plain_key (CMap _) = False" |
  "plain_key (CTag _ _) = False" |
  "plain_key _ = True"

text \<open>The dictionaries of a value have hashable, pairwise different keys, as every Python
  dictionary does.\<close>
fun proper :: "cbor \<Rightarrow> bool" where
  "proper (CList xs) = list_all proper xs" |
  "proper (CMap ps) = (list_all (\<lambda>(k, v). plain_key k \<and> proper v) ps \<and> distinct (map (\<lambda>(k, v). key_norm k) ps))" |
  "proper v = True"

fun nesting :: "cbor \<Rightarrow> nat" where
  "nesting (CList xs) = Suc (fold (\<lambda>x. max (nesting x)) xs 0)" |
  "nesting (CMap ps) = Suc (fold (\<lambda>(k, v). max (max (nesting k) (nesting v))) ps 0)" |
  "nesting (CTag n v) = Suc (nesting v)" |
  "nesting v = 1"

lemma fold_max_bound:
  "fold (\<lambda>x. max (f x)) xs a \<le> (n::nat) \<longleftrightarrow> a \<le> n \<and> (\<forall>x \<in> set xs. f x \<le> n)"
  by (induction xs arbitrary: a) auto

lemma nesting_map_bound:
  "fold (\<lambda>(k, v). max (max (nesting k) (nesting v))) ps 0 \<le> n \<longleftrightarrow>
     (\<forall>(k, v) \<in> set ps. nesting k \<le> n \<and> nesting v \<le> n)"
  using fold_max_bound[of "\<lambda>(k, v). max (nesting k) (nesting v)" ps 0 n]
  by (simp add: case_prod_unfold)

lemma canon_plain [simp]: "plain_key k \<Longrightarrow> canon k = k"
  by (cases k) auto

lemma encoding_Inr: "cbor_encode v = Inr bs \<Longrightarrow> encoding v = bs"
  by (simp add: encoding_def)

lemma insort_key_map: "insort_key f (g x) (map g xs) = map g (insort_key (\<lambda>x. f (g x)) x xs)"
  by (induction xs) auto

lemma sort_key_map: "sort_key f (map g xs) = map g (sort_key (\<lambda>x. f (g x)) xs)"
  by (induction xs) (simp_all add: insort_key_map)

text \<open>A decoder reads an encoded value when it does so in every context.\<close>
definition reads :: "nat \<Rightarrow> cbor \<Rightarrow> bool" where
  "reads f v = (\<forall>bs pre suf. cbor_encode v = Inr bs \<longrightarrow>
     decode_at f (pre @ bs @ suf) (length pre) = Inr (canon v, length pre + length bs))"

lemma readsD:
  "reads f v \<Longrightarrow> cbor_encode v = Inr bs \<Longrightarrow>
   decode_at f (pre @ bs @ suf) (length pre) = Inr (canon v, length pre + length bs)"
  unfolding reads_def by blast

lemma decode_items_written:
  assumes "map_res cbor_encode xs = Inr bss" and "\<forall>x \<in> set xs. reads f x"
  shows "decode_items (decode_at f (pre @ concat bss @ suf)) (length xs) (length pre) out
     = Inr (CList (out @ map canon xs), length pre + length (concat bss))"
  using assms
proof (induction xs arbitrary: bss pre out)
  case Nil
  then show ?case by simp
next
  case (Cons x xs)
  from Cons.prems(1) obtain b bs' where b: "cbor_encode x = Inr b" "map_res cbor_encode xs = Inr bs'" "bss = b # bs'"
    by (auto simp: bind_res_Inr)
  have r: "decode_at f (pre @ b @ (concat bs' @ suf)) (length pre) = Inr (canon x, length pre + length b)"
    by (rule readsD[OF _ b(1)]) (use Cons.prems(2) in simp)
  show ?case using r Cons.IH[OF b(2), of "pre @ b" "out @ [canon x]"] Cons.prems(2) by (simp add: b(3))
qed

lemma put_fresh:
  "plain_key k \<Longrightarrow> key_norm k \<notin> (\<lambda>(k, v). key_norm k) ` set d \<Longrightarrow> put_item k v d = Inr (d @ [(k, v)])"
  by (cases k) (auto simp: put_item_def list_ex_iff image_iff case_prod_unfold)

lemma decode_pairs_written:
  assumes "list_all (\<lambda>(k, v). is_ok (cbor_encode k) \<and> is_ok (cbor_encode v) \<and> plain_key k \<and> reads f k \<and> reads f v) ps"
    and "distinct (map (\<lambda>(k, v). key_norm k) (out @ ps))"
  shows "decode_pairs (decode_at f (pre @ concat (map (\<lambda>(k, v). encoding k @ encoding v) ps) @ suf))
       (length ps) (length pre) out
     = Inr (CMap (out @ map (\<lambda>(k, v). (k, canon v)) ps),
            length pre + length (concat (map (\<lambda>(k, v). encoding k @ encoding v) ps)))"
  using assms
proof (induction ps arbitrary: pre out)
  case Nil
  then show ?case by simp
next
  case (Cons p ps)
  obtain k v where p: "p = (k, v)" by fastforce
  define tail where "tail = concat (map (\<lambda>(k, v). encoding k @ encoding v) ps) @ suf"
  from Cons.prems(1) p obtain kb vb where e: "cbor_encode k = Inr kb" "cbor_encode v = Inr vb"
    by (auto simp: is_ok_def split: sum.splits)
  have n: "encoding k = kb" "encoding v = vb" using e by (simp_all add: encoding_Inr)
  have k: "plain_key k" "reads f k" "reads f v" using Cons.prems(1) p by simp_all
  have r1: "decode_at f (pre @ kb @ vb @ tail) (length pre) = Inr (k, length pre + length kb)"
    using readsD[OF k(2) e(1), of pre "vb @ tail"] k(1) by simp
  have r2: "decode_at f (pre @ kb @ vb @ tail) (length pre + length kb)
      = Inr (canon v, length pre + length kb + length vb)"
    using readsD[OF k(3) e(2), of "pre @ kb" tail] by simp
  have fresh: "put_item k (canon v) out = Inr (out @ [(k, canon v)])"
    by (rule put_fresh[OF k(1)]) (use Cons.prems(2) in \<open>auto simp: p\<close>)
  have d: "distinct (map (\<lambda>(k, v). key_norm k) ((out @ [(k, canon v)]) @ ps))"
    using Cons.prems(2) by (simp add: p)
  have la: "list_all (\<lambda>(k, v). is_ok (cbor_encode k) \<and> is_ok (cbor_encode v) \<and> plain_key k \<and> reads f k \<and> reads f v) ps"
    using Cons.prems(1) by simp
  show ?case
    using Cons.IH[OF la d, of "pre @ kb @ vb"] r1 r2 fresh by (simp add: p n tail_def add.assoc)
qed

lemma map_res_pairs:
  "map_res (\<lambda>(k, v). bind_res (cbor_encode k) (\<lambda>kb. bind_res (cbor_encode v) (\<lambda>vb. Inr (kb, vb)))) ps = Inr kvs \<Longrightarrow>
   kvs = map (\<lambda>(k, v). (encoding k, encoding v)) ps \<and>
   list_all (\<lambda>(k, v). is_ok (cbor_encode k) \<and> is_ok (cbor_encode v)) ps"
  by (induction ps arbitrary: kvs) (auto simp: bind_res_Inr encoding_Inr)

lemma decode_head:
  assumes h: "enc_head major n = Inr h" and m: "major < 8"
  shows "read_head (pre @ (h @ body) @ suf) (length pre) = Inr (major, n, length pre + length h)"
  using read_enc_head[OF h m, of pre "body @ suf"] by simp

lemma slice_body [simp]:
  "slice (pre @ h @ body @ suf) (length pre + length h) (length pre + (length h + length body)) = body"
  using slice_here[of "pre @ h" body suf] by (simp add: add.assoc)

lemma reads_int: "0 < f \<Longrightarrow> reads f (CInt i)"
proof (unfold reads_def, intro allI impI)
  fix bs pre suf
  assume f: "0 < f" and e: "cbor_encode (CInt i) = Inr bs"
  obtain g where g: "f = Suc g" using f gr0_implies_Suc by blast
  show "decode_at f (pre @ bs @ suf) (length pre) = Inr (canon (CInt i), length pre + length bs)"
  proof (cases "0 \<le> i")
    case True
    with e have "read_head (pre @ bs @ suf) (length pre) = Inr (0, nat i, length pre + length bs)"
      by (intro read_enc_head) simp_all
    with True g show ?thesis by simp
  next
    case False
    with e have "read_head (pre @ bs @ suf) (length pre) = Inr (1, nat (-1 - i), length pre + length bs)"
      by (intro read_enc_head) simp_all
    with False g show ?thesis by simp
  qed
qed

lemma reads_simple: "0 < f \<Longrightarrow> reads f CNull" "0 < f \<Longrightarrow> reads f (CBool b)"
  by (cases f; auto simp: reads_def read_head_def decode_simple_def nth_append Let_def)+

lemma reads_bytes: "0 < f \<Longrightarrow> reads f (CBytes b)"
proof (unfold reads_def, intro allI impI)
  fix bs pre suf
  assume f: "0 < f" and e: "cbor_encode (CBytes b) = Inr bs"
  obtain g where g: "f = Suc g" using f gr0_implies_Suc by blast
  from e obtain h where h: "enc_head 2 (length b) = Inr h" "bs = h @ b" by (auto simp: bind_res_Inr)
  show "decode_at f (pre @ bs @ suf) (length pre) = Inr (canon (CBytes b), length pre + length bs)"
    using decode_head[OF h(1), of pre b suf] by (simp add: g h(2) add.assoc)
qed

lemma reads_text: "0 < f \<Longrightarrow> reads f (CText s)"
proof (unfold reads_def, intro allI impI)
  fix bs pre suf
  assume f: "0 < f" and e: "cbor_encode (CText s) = Inr bs"
  obtain g where g: "f = Suc g" using f gr0_implies_Suc by blast
  from e obtain h b where h: "utf8_encode s = Inr b" "enc_head 3 (length b) = Inr h" "bs = h @ b"
    by (auto simp: bind_res_Inr)
  show "decode_at f (pre @ bs @ suf) (length pre) = Inr (canon (CText s), length pre + length bs)"
    using decode_head[OF h(2), of pre b suf] utf8_roundtrip[OF h(1)] by (simp add: g h(3) add.assoc)
qed

lemma reads_list:
  assumes "\<And>x. x \<in> set xs \<Longrightarrow> reads f x"
  shows "reads (Suc f) (CList xs)"
proof (unfold reads_def, intro allI impI)
  fix bs pre suf
  assume e: "cbor_encode (CList xs) = Inr bs"
  then obtain h bss where h: "enc_head 4 (length xs) = Inr h" "map_res cbor_encode xs = Inr bss" "bs = h @ concat bss"
    by (auto simp: bind_res_Inr)
  have "decode_items (decode_at f ((pre @ h) @ concat bss @ suf)) (length xs) (length (pre @ h)) []
      = Inr (CList ([] @ map canon xs), length (pre @ h) + length (concat bss))"
    by (rule decode_items_written[OF h(2)]) (use assms in blast)
  then show "decode_at (Suc f) (pre @ bs @ suf) (length pre) = Inr (canon (CList xs), length pre + length bs)"
    using decode_head[OF h(1), of pre "concat bss" suf] by (simp add: h(3) add.assoc)
qed

lemma distinct_sorted_keys:
  "distinct (map g ps) \<Longrightarrow> distinct (map g (sort_key f ps))"
  by (metis distinct_map distinct_sort set_sort)

lemma reads_map:
  assumes r: "\<And>k v. (k, v) \<in> set ps \<Longrightarrow> reads f k \<and> reads f v" and w: "proper (CMap ps)"
  shows "reads (Suc f) (CMap ps)"
proof (unfold reads_def, intro allI impI)
  fix bs pre suf
  define qs where "qs = sort_key (\<lambda>(k, v). encoding k) ps"
  define body where "body = concat (map (\<lambda>(k, v). encoding k @ encoding v) qs)"
  assume e: "cbor_encode (CMap ps) = Inr bs"
  then obtain h kvs where k: "map_res (\<lambda>(k, v). bind_res (cbor_encode k) (\<lambda>kb.
        bind_res (cbor_encode v) (\<lambda>vb. Inr (kb, vb)))) ps = Inr kvs"
    and h: "enc_head 5 (length kvs) = Inr h" and b: "bs = h @ concat (map (\<lambda>(kb, vb). kb @ vb) (sort_key fst kvs))"
    by (auto simp: bind_res_Inr)
  note kp = map_res_pairs[OF k]
  have "sort_key fst kvs = map (\<lambda>(k, v). (encoding k, encoding v)) qs"
    unfolding conjunct1[OF kp] sort_key_map qs_def by (simp add: case_prod_unfold)
  then have b': "bs = h @ body" unfolding b body_def by (simp add: case_prod_unfold comp_def)
  have len: "length kvs = length qs" unfolding conjunct1[OF kp] qs_def by simp
  have all: "list_all (\<lambda>(k, v). is_ok (cbor_encode k) \<and> is_ok (cbor_encode v) \<and> plain_key k \<and> reads f k \<and> reads f v) qs"
    using conjunct2[OF kp] w r by (fastforce simp: list_all_iff qs_def)
  have dist: "distinct (map (\<lambda>(k, v). key_norm k) ([] @ qs))"
    using w unfolding qs_def append_Nil by (intro distinct_sorted_keys) simp
  have "decode_pairs (decode_at f ((pre @ h) @ body @ suf)) (length qs) (length (pre @ h)) []
      = Inr (CMap ([] @ map (\<lambda>(k, v). (k, canon v)) qs), length (pre @ h) + length body)"
    unfolding body_def by (rule decode_pairs_written[OF all dist])
  then show "decode_at (Suc f) (pre @ bs @ suf) (length pre) = Inr (canon (CMap ps), length pre + length bs)"
    using decode_head[OF h, of pre body suf] by (simp add: b' len add.assoc qs_def[symmetric])
qed

lemma reads_proper: "proper v \<Longrightarrow> nesting v \<le> f \<Longrightarrow> reads f v"
proof (induction v arbitrary: f)
  case (CList xs)
  then obtain g where g: "f = Suc g" by (cases f) auto
  have "nesting x \<le> g" "proper x" if "x \<in> set xs" for x
    using CList.prems that by (auto simp: g fold_max_bound list_all_iff)
  then show ?case unfolding g by (intro reads_list CList.IH)
next
  case (CMap ps)
  then obtain g where g: "f = Suc g" by (cases f) auto
  have b: "nesting k \<le> g" "nesting v \<le> g" "proper v" "proper k" if "(k, v) \<in> set ps" for k v
    using CMap.prems that by (cases k; force simp: g nesting_map_bound list_all_iff)+
  show ?case unfolding g
  proof (rule reads_map)
    fix k v assume kv: "(k, v) \<in> set ps"
    then show "reads g k \<and> reads g v" using b[OF kv] CMap.IH[OF kv] by (simp add: fsts.simps snds.simps)
  qed (use CMap.prems in simp)
next
  case (CTag n v)
  then show ?case by (simp add: reads_def)
qed (auto intro: reads_int reads_simple reads_bytes reads_text)

text \<open>C35: What the encoder writes, the decoder reads.  For a value whose dictionaries have
  plain, pairwise different keys, an encoding that succeeds is read back completely as the
  same value with the items of its dictionaries in the order of their encoded keys,
  whenever the interpreter grants one level of recursion per level of nesting.\<close>
theorem cbor_roundtrip:
  assumes e: "cbor_encode v = Inr bs" and p: "proper v" and d: "nesting v \<le> depth"
  shows "cbor_decode depth bs = Inr (canon v)"
  using readsD[OF reads_proper[OF p d] e, of "[]" "[]"] by (simp add: cbor_decode_def)

lemma cbor_roundtrip_witness:
  defines "v \<equiv> CMap [(CText [0xE9, 0x61], CList [CInt 30, CInt (-2), CNull]), (CInt 4, CBool True)]"
  shows "cbor_decode 3 [0xA2, 0x04, 0xF5, 0x63, 0xC3, 0xA9, 0x61, 0x83, 0x18, 0x1E, 0x21, 0xF6]
     = Inr (CMap [(CInt 4, CBool True), (CText [0xE9, 0x61], CList [CInt 30, CInt (-2), CNull])])"
proof -
  have "cbor_encode v = Inr [0xA2, 0x04, 0xF5, 0x63, 0xC3, 0xA9, 0x61, 0x83, 0x18, 0x1E, 0x21, 0xF6]"
    "proper v" "nesting v \<le> 3"
    "canon v = CMap [(CInt 4, CBool True), (CText [0xE9, 0x61], CList [CInt 30, CInt (-2), CNull])]"
    unfolding v_def
    by (simp_all add: enc_head_short enc_head_byte utf8_encode_def utf8_point_def valid_point_def encoding_def
        Cons_le_Cons)
  then show ?thesis using cbor_roundtrip[of v] by metis
qed

text \<open>Two values with the same encoding differ at most in the order of their dictionaries.\<close>
lemma encode_inj:
  assumes "cbor_encode v = Inr bs" "cbor_encode w = Inr bs" "proper v" "proper w"
  shows "canon v = canon w"
proof -
  let ?d = "max (nesting v) (nesting w)"
  have "cbor_decode ?d bs = Inr (canon v)" "cbor_decode ?d bs = Inr (canon w)"
    using readsD[OF reads_proper[of v ?d] assms(1), of "[]" "[]"]
      readsD[OF reads_proper[of w ?d] assms(2), of "[]" "[]"] assms(3,4)
    by (simp_all add: cbor_decode_def)
  then show ?thesis by simp
qed

lemma encode_nonempty: "cbor_encode v = Inr bs \<Longrightarrow> proper v \<Longrightarrow> bs \<noteq> []"
  using readsD[OF reads_proper[of v "Suc (nesting v)"], of bs "[]" "[]"] by (auto simp: read_head_def)

section \<open>Errors\<close>

text \<open>Integers outside the 64-bit range end in the OverflowError of to_bytes, not in a
  CoseError.\<close>
lemma encode_int_overflow:
  "cbor_encode (CInt i) = Inl (Raised OverflowError) \<longleftrightarrow> 2 ^ 64 \<le> i \<or> i < - (2 ^ 64)"
  by (auto simp: enc_head_def Let_def)

text \<open>A list opened once per level of recursion exhausts the interpreter.\<close>
lemma deep_nesting_recursion:
  "depth \<le> n \<Longrightarrow> decode_at depth (pre @ replicate n 0x81) (length pre) = Inl (Raised RecursionError)"
proof (induction depth arbitrary: n pre)
  case 0
  then show ?case by simp
next
  case (Suc depth)
  then obtain m where m: "n = Suc m" "depth \<le> m" by (cases n) auto
  have h: "read_head (pre @ 0x81 # replicate m 0x81) (length pre) = Inr (4, 1, Suc (length pre))"
    by (simp add: read_head_def nth_append Let_def)
  have r: "decode_at depth (pre @ 0x81 # replicate m 0x81) (Suc (length pre)) = Inl (Raised RecursionError)"
    using Suc.IH[OF m(2), of "pre @ [0x81]"] by simp
  show ?case unfolding m(1) replicate_Suc decode_at.simps(2) h by (simp add: r)
qed

end
