(* ===== verification/Cose.thy ===== *)
theory Cose
  imports Cbor
begin

text \<open>
  The signature half of server/cose.py: COSE_Sign1 messages around lifecycle events, and
  their verification.

  Signing, checking a signature and the parser of the json module are arguments, and depth
  is the recursion depth the interpreter grants.  The main results: a message that was
  built verifies (cose_build_verifies), and a message that verifies carries the protected
  header and the payload of a message that was built with the key, when the key checks
  only what was signed (cose_authentic).
\<close>

definition text_of :: "string \<Rightarrow> unicode" where
  "text_of s = map of_char s"

definition COSE_HEADER_ALG :: int where "COSE_HEADER_ALG = 1"
definition COSE_HEADER_KID :: int where "COSE_HEADER_KID = 4"
definition COSE_HEADER_TYP :: int where "COSE_HEADER_TYP = 16"
definition COSE_ALG_EDDSA :: int where "COSE_ALG_EDDSA = -8"
definition CBOR_TAG_COSE_SIGN1 :: nat where "CBOR_TAG_COSE_SIGN1 = 18"
definition DEFAULT_TYP :: unicode where "DEFAULT_TYP = text_of ''application/agtp-lifecycle+json''"

definition protected_map :: "unicode \<Rightarrow> unicode \<Rightarrow> cbor" where
  "protected_map kid typ =
     CMap [(CInt COSE_HEADER_ALG, CInt COSE_ALG_EDDSA), (CInt COSE_HEADER_KID, CText kid),
           (CInt COSE_HEADER_TYP, CText typ)]"

definition sig_structure :: "bytes \<Rightarrow> bytes \<Rightarrow> cbor" where
  "sig_structure protected payload =
     CList [CText (text_of ''Signature1''), CBytes protected, CBytes [], CBytes payload]"

definition build_cose_sign1 :: "(bytes \<Rightarrow> bytes) \<Rightarrow> bytes \<Rightarrow> unicode \<Rightarrow> unicode \<Rightarrow> cbor_error + bytes" where
  "build_cose_sign1 sign payload kid typ =
     bind_res (cbor_encode (protected_map kid typ)) (\<lambda>protected.
     bind_res (cbor_encode (sig_structure protected payload)) (\<lambda>message.
     bind_res (cbor_encode (CList [CBytes protected, CMap [], CBytes payload, CBytes (sign message)])) (\<lambda>cose_sign1.
     bind_res (enc_head 6 CBOR_TAG_COSE_SIGN1) (\<lambda>h. Inr (h @ cose_sign1)))))"

text \<open>The checks on the shape of a decoded message that both readers share.\<close>
definition sign1_array :: "cbor \<Rightarrow> cbor_error + cbor list" where
  "sign1_array decoded =
     (case decoded of
        CTag t v \<Rightarrow>
          if t \<noteq> CBOR_TAG_COSE_SIGN1 then Inl CoseError
          else (case v of CList xs \<Rightarrow> if length xs \<noteq> 4 then Inl CoseError else Inr xs | _ \<Rightarrow> Inl CoseError)
      | _ \<Rightarrow> Inl CoseError)"

definition byte_string :: "cbor \<Rightarrow> cbor_error + bytes" where
  "byte_string v = (case v of CBytes bs \<Rightarrow> Inr bs | _ \<Rightarrow> Inl CoseError)"

definition header_of :: "nat \<Rightarrow> bytes \<Rightarrow> cbor_error + cbor" where
  "header_of depth protected = (if protected \<noteq> [] then cbor_decode depth protected else Inr (CMap []))"

definition as_header :: "cbor \<Rightarrow> cbor_error + cbor" where
  "as_header v = (case v of CMap ps \<Rightarrow> Inr (CMap ps) | _ \<Rightarrow> Inl CoseError)"

definition verify_cose_sign1 :: "(bytes \<Rightarrow> bytes \<Rightarrow> bool) \<Rightarrow> nat \<Rightarrow> bytes \<Rightarrow> cbor_error + cbor" where
  "verify_cose_sign1 check depth cose_bytes =
     bind_res (cbor_decode depth cose_bytes) (\<lambda>decoded.
     bind_res (sign1_array decoded) (\<lambda>xs.
     bind_res (byte_string (xs ! 0)) (\<lambda>protected.
     bind_res (byte_string (xs ! 2)) (\<lambda>payload.
     bind_res (byte_string (xs ! 3)) (\<lambda>signature.
     bind_res (cbor_encode (sig_structure protected payload)) (\<lambda>message.
     if \<not> check signature message then Inl CoseError
     else bind_res (header_of depth protected) as_header))))))"

text \<open>The reader without verification.  The payload must have the decode method of byte
  strings and the protected element is decoded when it is truthy; for a list or a
  dictionary in its place the decoder runs on their item access, which is the argument
  decode_items_of.\<close>
definition unverified_header :: "(cbor \<Rightarrow> cbor_error + cbor) \<Rightarrow> nat \<Rightarrow> cbor \<Rightarrow> cbor_error + cbor" where
  "unverified_header decode_items_of depth v =
     (case v of
        CBytes bs \<Rightarrow> header_of depth bs
      | CNull \<Rightarrow> Inr (CMap [])
      | CBool b \<Rightarrow> if b then Inl (Raised TypeError) else Inr (CMap [])
      | CInt i \<Rightarrow> if i \<noteq> 0 then Inl (Raised TypeError) else Inr (CMap [])
      | CText s \<Rightarrow> if s \<noteq> [] then Inl (Raised TypeError) else Inr (CMap [])
      | CTag _ _ \<Rightarrow> Inl (Raised TypeError)
      | CList xs \<Rightarrow> if xs \<noteq> [] then decode_items_of v else Inr (CMap [])
      | CMap ps \<Rightarrow> if ps \<noteq> [] then decode_items_of v else Inr (CMap []))"

definition json_payload :: "(unicode \<Rightarrow> json option) \<Rightarrow> cbor \<Rightarrow> cbor_error + json" where
  "json_payload loads v =
     (case v of
        CBytes bs \<Rightarrow>
          (case utf8_decode bs of
             Inl _ \<Rightarrow> Inl CoseError
           | Inr s \<Rightarrow> (case loads s of None \<Rightarrow> Inl CoseError | Some j \<Rightarrow> Inr j))
      | _ \<Rightarrow> Inl (Raised AttributeError))"

definition parse_cose_payload ::
  "(unicode \<Rightarrow> json option) \<Rightarrow> (cbor \<Rightarrow> cbor_error + cbor) \<Rightarrow> nat \<Rightarrow> bytes \<Rightarrow> cbor_error + cbor \<times> json" where
  "parse_cose_payload loads decode_items_of depth cose_bytes =
     bind_res (cbor_decode depth cose_bytes) (\<lambda>decoded.
     bind_res (sign1_array decoded) (\<lambda>xs.
     bind_res (json_payload loads (xs ! 2)) (\<lambda>payload.
     bind_res (unverified_header decode_items_of depth (xs ! 0)) (\<lambda>header.
     Inr (header, payload)))))"

definition cose_audit_id :: "(bytes \<Rightarrow> string) \<Rightarrow> bytes \<Rightarrow> string" where
  "cose_audit_id sha256_hex cose_bytes = sha256_hex cose_bytes"

section \<open>Built messages\<close>

lemma canon_sig_structure [simp]: "canon (sig_structure p b) = sig_structure p b"
  "proper (sig_structure p b)" "nesting (sig_structure p b) = 2"
  by (simp_all add: sig_structure_def)

lemma key_encodings:
  "encoding (CInt COSE_HEADER_ALG) = [1]" "encoding (CInt COSE_HEADER_KID) = [4]"
  "encoding (CInt COSE_HEADER_TYP) = [16]"
  by code_simp+

lemma canon_protected_map [simp]: "canon (protected_map kid typ) = protected_map kid typ"
proof -
  have "([1] :: bytes) \<le> [4]" "([4] :: bytes) \<le> [16]" "([1] :: bytes) \<le> [16]" by (simp_all add: Cons_le_Cons)
  then show ?thesis by (simp add: protected_map_def key_encodings)
qed

lemma proper_protected_map [simp]: "proper (protected_map kid typ)" "nesting (protected_map kid typ) = 2"
  by (simp_all add: protected_map_def COSE_HEADER_ALG_def COSE_HEADER_KID_def COSE_HEADER_TYP_def)

text \<open>The message of a signature determines the protected bytes and the payload.\<close>
lemma sig_structure_inj:
  assumes "cbor_encode (sig_structure p b) = Inr m" "cbor_encode (sig_structure p' b') = Inr m"
  shows "p = p' \<and> b = b'"
  using encode_inj[OF assms] by (simp add: sig_structure_def)

lemma protected_map_inj:
  assumes "cbor_encode (protected_map kid typ) = Inr m" "cbor_encode (protected_map kid' typ') = Inr m"
  shows "kid = kid' \<and> typ = typ'"
  using encode_inj[OF assms] unfolding canon_protected_map proper_protected_map(1)
  by (simp add: protected_map_def COSE_HEADER_ALG_def COSE_HEADER_KID_def COSE_HEADER_TYP_def)

lemma protected_nonempty: "cbor_encode (protected_map kid typ) = Inr p \<Longrightarrow> p \<noteq> []"
  using encode_nonempty by simp

lemma header_of_protected:
  assumes "cbor_encode (protected_map kid typ) = Inr p" "2 \<le> depth"
  shows "header_of depth p = Inr (protected_map kid typ)"
  using cbor_roundtrip[OF assms(1), of depth] assms(2) protected_nonempty[OF assms(1)]
  by (simp add: header_of_def)

lemma decode_tagged:
  assumes e: "cbor_encode v = Inr bs" and h: "enc_head 6 t = Inr h" and p: "proper v" and d: "nesting v < depth"
  shows "cbor_decode depth (h @ bs) = Inr (CTag t (canon v))"
proof -
  obtain g where g: "depth = Suc g" "nesting v \<le> g" using d by (cases depth) auto
  have "read_head (h @ bs) 0 = Inr (6, t, length h)" using read_enc_head[OF h, of "[]" bs] by simp
  moreover have "decode_at g (h @ bs) (length h) = Inr (canon v, length h + length bs)"
    using readsD[OF reads_proper[OF p g(2)] e, of h "[]"] by simp
  ultimately show ?thesis by (simp add: cbor_decode_def g(1))
qed

lemma build_parts:
  assumes "build_cose_sign1 sign payload kid typ = Inr bs" and "3 \<le> depth"
  obtains p m where "cbor_encode (protected_map kid typ) = Inr p"
    "cbor_encode (sig_structure p payload) = Inr m"
    "cbor_decode depth bs = Inr (CTag CBOR_TAG_COSE_SIGN1 (CList [CBytes p, CMap [], CBytes payload, CBytes (sign m)]))"
proof -
  from assms(1) obtain p m c h where e: "cbor_encode (protected_map kid typ) = Inr p"
    "cbor_encode (sig_structure p payload) = Inr m"
    "cbor_encode (CList [CBytes p, CMap [], CBytes payload, CBytes (sign m)]) = Inr c"
    "enc_head 6 CBOR_TAG_COSE_SIGN1 = Inr h" "bs = h @ c"
    unfolding build_cose_sign1_def bind_res_Inr by blast
  have "cbor_decode depth bs = Inr (CTag CBOR_TAG_COSE_SIGN1 (canon (CList [CBytes p, CMap [], CBytes payload, CBytes (sign m)])))"
    unfolding e(5) by (rule decode_tagged[OF e(3,4)]) (use assms(2) in simp_all)
  with e(1,2) that show ?thesis by simp
qed

text \<open>A built message verifies under the key that signed it, whatever the header texts and
  the payload, and the verifier returns the header that was signed.\<close>
theorem cose_build_verifies:
  assumes k: "\<And>m. check (sign m) m" and b: "build_cose_sign1 sign payload kid typ = Inr bs" and d: "3 \<le> depth"
  shows "verify_cose_sign1 check depth bs = Inr (protected_map kid typ)"
proof -
  obtain p m where e: "cbor_encode (protected_map kid typ) = Inr p"
    "cbor_encode (sig_structure p payload) = Inr m"
    "cbor_decode depth bs = Inr (CTag CBOR_TAG_COSE_SIGN1 (CList [CBytes p, CMap [], CBytes payload, CBytes (sign m)]))"
    by (rule build_parts[OF b d])
  have h: "header_of depth p = Inr (protected_map kid typ)" using header_of_protected[OF e(1)] d by simp
  show ?thesis
    by (simp add: verify_cose_sign1_def e sign1_array_def byte_string_def k h)
       (simp add: protected_map_def as_header_def)
qed

lemma sign1_array_Inr: "sign1_array v = Inr xs \<longleftrightarrow> v = CTag CBOR_TAG_COSE_SIGN1 (CList xs) \<and> length xs = 4"
  by (auto simp: sign1_array_def split: cbor.splits)

lemma byte_string_Inr: "byte_string v = Inr bs \<longleftrightarrow> v = CBytes bs"
  by (auto simp: byte_string_def split: cbor.splits)

text \<open>What a successful verification establishes: the message decodes to a tagged array of
  four elements whose signature checks on its protected bytes and its payload, and the
  result is the decoded protected header.\<close>
lemma verified_parts:
  assumes "verify_cose_sign1 check depth bs = Inr header"
  obtains p u payload s m where
    "cbor_decode depth bs = Inr (CTag CBOR_TAG_COSE_SIGN1 (CList [CBytes p, u, CBytes payload, CBytes s]))"
    "cbor_encode (sig_structure p payload) = Inr m" "check s m" "header_of depth p = Inr header"
proof -
  from assms obtain xs p payload s m h where e:
    "cbor_decode depth bs = Inr (CTag CBOR_TAG_COSE_SIGN1 (CList xs))" "length xs = 4"
    "xs ! 0 = CBytes p" "xs ! 2 = CBytes payload" "xs ! 3 = CBytes s"
    "cbor_encode (sig_structure p payload) = Inr m" "check s m" "header_of depth p = Inr h" "as_header h = Inr header"
    unfolding verify_cose_sign1_def bind_res_Inr sign1_array_Inr byte_string_Inr
    by (auto simp: bind_res_Inr split: if_splits)
  have "xs = [CBytes p, xs ! 1, CBytes payload, CBytes s]"
    by (rule nth_equalityI) (use e(2-5) in \<open>auto simp: less_Suc_eq numeral_eq_Suc\<close>)
  moreover have "header = h" using e(9) by (auto simp: as_header_def split: cbor.splits)
  ultimately show ?thesis using that e by metis
qed

text \<open>The messages that a signer with the key produces for a set of events.\<close>
definition issued :: "(bytes \<times> unicode \<times> unicode) set \<Rightarrow> bytes \<Rightarrow> bool" where
  "issued events m = (\<exists>(payload, kid, typ) \<in> events. \<exists>p.
     cbor_encode (protected_map kid typ) = Inr p \<and> cbor_encode (sig_structure p payload) = Inr m)"

text \<open>C34: A verified message is authentic.  When the key accepts a signature only for the
  messages of the events it signed, a message that verifies carries, in its protected
  header and in its payload, exactly one of these events: neither part can be exchanged,
  and no byte can move from one part to the other.\<close>
theorem cose_authentic:
  assumes key: "\<And>s m. check s m \<Longrightarrow> issued events m"
    and v: "verify_cose_sign1 check depth bs = Inr header" and d: "2 \<le> depth"
  shows "\<exists>payload kid typ. (payload, kid, typ) \<in> events \<and> header = protected_map kid typ \<and>
     (\<exists>p u s. cbor_decode depth bs = Inr (CTag CBOR_TAG_COSE_SIGN1 (CList [CBytes p, u, CBytes payload, CBytes s])))"
proof -
  obtain p u payload s m where e:
    "cbor_decode depth bs = Inr (CTag CBOR_TAG_COSE_SIGN1 (CList [CBytes p, u, CBytes payload, CBytes s]))"
    "cbor_encode (sig_structure p payload) = Inr m" "check s m" "header_of depth p = Inr header"
    by (rule verified_parts[OF v])
  from key[OF e(3)] obtain payload' kid cty p' where i: "(payload', kid, cty) \<in> events"
    "cbor_encode (protected_map kid cty) = Inr p'" "cbor_encode (sig_structure p' payload') = Inr m"
    unfolding issued_def by blast
  have same: "p = p'" "payload = payload'" using sig_structure_inj[OF e(2) i(3)] by simp_all
  have "header = protected_map kid cty"
    using header_of_protected[OF i(2) d] e(4) same(1) by simp
  with i(1) e(1) same(2) show ?thesis by blast
qed

lemma cose_authentic_witness:
  defines "events \<equiv> {([0x7B, 0x7D], text_of ''k'', text_of ''t'')}"
  shows "\<exists>bs. build_cose_sign1 id [0x7B, 0x7D] (text_of ''k'') (text_of ''t'') = Inr bs \<and>
    (\<exists>payload kid typ. (payload, kid, typ) \<in> events \<and>
       verify_cose_sign1 (\<lambda>s m. s = m \<and> issued events m) 3 bs = Inr (protected_map kid typ))"
proof -
  have t: "utf8_encode (text_of [c]) = Inr [word_of_nat (of_char c)]" if "(of_char c :: nat) < 128" for c
    using that by (simp add: utf8_encode_def utf8_point_def valid_point_def text_of_def)
  have sig: "utf8_encode (text_of ''Signature1'') = Inr (map (\<lambda>c. word_of_nat (of_char c)) ''Signature1'')"
    by (simp add: utf8_encode_def utf8_point_def valid_point_def text_of_def)
  have "is_ok (build_cose_sign1 id [0x7B, 0x7D] (text_of ''k'') (text_of ''t''))"
    by (simp add: build_cose_sign1_def protected_map_def sig_structure_def t sig enc_head_short enc_head_byte
        COSE_HEADER_ALG_def COSE_HEADER_KID_def COSE_HEADER_TYP_def COSE_ALG_EDDSA_def CBOR_TAG_COSE_SIGN1_def)
  then obtain bs where bs: "build_cose_sign1 id [0x7B, 0x7D] (text_of ''k'') (text_of ''t'') = Inr bs"
    by (auto simp: is_ok_def split: sum.splits)
  obtain p m where e: "cbor_encode (protected_map (text_of ''k'') (text_of ''t'')) = Inr p"
    "cbor_encode (sig_structure p [0x7B, 0x7D]) = Inr m"
    "cbor_decode 3 bs = Inr (CTag CBOR_TAG_COSE_SIGN1 (CList [CBytes p, CMap [], CBytes [0x7B, 0x7D], CBytes (id m)]))"
    by (rule build_parts[OF bs, of 3]) simp_all
  have "issued events m" unfolding issued_def events_def using e(1,2) by auto
  then have v: "verify_cose_sign1 (\<lambda>s m. s = m \<and> issued events m) 3 bs = Inr (protected_map (text_of ''k'') (text_of ''t''))"
    using header_of_protected[OF e(1), of 3]
    by (simp add: verify_cose_sign1_def e sign1_array_def byte_string_def)
       (simp add: protected_map_def as_header_def)
  have "\<exists>payload kid typ. (payload, kid, typ) \<in> events \<and>
      protected_map (text_of ''k'') (text_of ''t'') = protected_map kid typ \<and>
      (\<exists>p u s. cbor_decode 3 bs = Inr (CTag CBOR_TAG_COSE_SIGN1 (CList [CBytes p, u, CBytes payload, CBytes s])))"
    by (rule cose_authentic[OF _ v]) simp_all
  with bs v show ?thesis by auto
qed

text \<open>The unprotected header is not signed: exchanging it leaves the verdict and the result
  as they are, while the bytes, and with them the audit identifier, are others.\<close>
lemma unprotected_not_covered:
  assumes "cbor_decode depth bs = Inr (CTag t (CList [p, u, b, s]))"
    and "cbor_decode depth bs' = Inr (CTag t (CList [p, u', b, s]))"
  shows "verify_cose_sign1 check depth bs' = verify_cose_sign1 check depth bs"
  using assms by (simp add: verify_cose_sign1_def sign1_array_def)

section \<open>Errors of the verifier\<close>

lemma bad_utf8: "cbor_decode (Suc depth) [0x61, 0xFF] = Inl UnicodeDecodeError"
  by (simp add: cbor_decode_def read_head_def Let_def slice_def utf8_decode_def)

lemma bad_key: "cbor_decode (Suc (Suc depth)) [0xA1, 0x80, 0x00] = Inl (Raised TypeError)"
  by (simp add: cbor_decode_def read_head_def Let_def put_item_def)

lemma bad_depth: "cbor_decode depth (replicate depth 0x81) = Inl (Raised RecursionError)"
  using deep_nesting_recursion[of depth depth "[]"] by (simp add: cbor_decode_def)

text \<open>The verifier promises a CoseError for every structural failure.  Three malformed
  messages leave it with other exceptions: a text that is not UTF-8, a dictionary with a
  list as key, and a list nested deeper than the interpreter recurses.\<close>
theorem verify_other_errors:
  "verify_cose_sign1 check (Suc (Suc depth)) [0x61, 0xFF] = Inl UnicodeDecodeError"
  "verify_cose_sign1 check (Suc (Suc depth)) [0xA1, 0x80, 0x00] = Inl (Raised TypeError)"
  "verify_cose_sign1 check depth (replicate depth 0x81) = Inl (Raised RecursionError)"
  by (simp_all only: verify_cose_sign1_def bad_utf8 bad_key bad_depth bind_res_simps)

text \<open>Both readers of a built message return the same header, and the parser returns the
  document of the signed payload.\<close>
theorem parse_cose_built:
  assumes "build_cose_sign1 sign payload kid typ = Inr bs" "3 \<le> depth"
    and "utf8_decode payload = Inr s" "loads s = Some j"
  shows "parse_cose_payload loads items depth bs = Inr (protected_map kid typ, j)"
proof -
  obtain p m where e: "cbor_encode (protected_map kid typ) = Inr p"
    "cbor_decode depth bs = Inr (CTag CBOR_TAG_COSE_SIGN1 (CList [CBytes p, CMap [], CBytes payload, CBytes (sign m)]))"
    by (rule build_parts[OF assms(1,2)])
  show ?thesis using header_of_protected[OF e(1), of depth] assms
    by (simp add: parse_cose_payload_def e(2) sign1_array_def json_payload_def unverified_header_def)
qed

end
