(* ===== verification/Base64.thy ===== *)
theory Base64
  imports Prelude "HOL-Library.Word"
begin

text \<open>
  The base64url codec of server/signing.py on the functions of Python's base64 module it
  calls: urlsafe_b64encode without padding, and urlsafe_b64decode, whose decoder skips
  every character outside the alphabet and stops at a complete padding.  The main results:
  decoding inverts encoding (b64url_roundtrip), and the decoder ignores foreign characters
  (b64url_decode_skips), so that one byte string has many texts.
\<close>

type_synonym octets = "8 word list"

definition b64_alphabet :: string where
  "b64_alphabet = ''ABCDEFGHIJKLMNOPQRSTUVWXYZabcdefghijklmnopqrstuvwxyz0123456789-_''"

definition b64_char :: "nat \<Rightarrow> char" where
  "b64_char n = b64_alphabet ! n"

text \<open>The four sextets of three octets, and the octets two sextets join to.\<close>
definition sx1 :: "8 word \<Rightarrow> nat" where "sx1 a = unat a div 4"
definition sx2 :: "8 word \<Rightarrow> 8 word \<Rightarrow> nat" where "sx2 a b = unat a mod 4 * 16 + unat b div 16"
definition sx3 :: "8 word \<Rightarrow> 8 word \<Rightarrow> nat" where "sx3 b c = unat b mod 16 * 4 + unat c div 64"
definition sx4 :: "8 word \<Rightarrow> nat" where "sx4 c = unat c mod 64"

definition oct1 :: "nat \<Rightarrow> nat \<Rightarrow> 8 word" where "oct1 left v = word_of_nat (left * 4 + v div 16)"
definition oct2 :: "nat \<Rightarrow> nat \<Rightarrow> 8 word" where "oct2 left v = word_of_nat (left * 16 + v div 4)"
definition oct3 :: "nat \<Rightarrow> nat \<Rightarrow> 8 word" where "oct3 left v = word_of_nat (left * 64 + v)"

text \<open>urlsafe_b64encode, with the padding stripped.\<close>
fun b64url :: "octets \<Rightarrow> string" where
  "b64url [] = []" |
  "b64url [a] = [b64_char (sx1 a), b64_char (sx2 a 0)]" |
  "b64url [a, b] = [b64_char (sx1 a), b64_char (sx2 a b), b64_char (sx3 b 0)]" |
  "b64url (a # b # c # r) =
     [b64_char (sx1 a), b64_char (sx2 a b), b64_char (sx3 b c), b64_char (sx4 c)] @ b64url r"

text \<open>The value of a character: the decoder translates the url-safe characters to the
  standard ones first, so it reads both alphabets.\<close>
definition b64_value :: "char \<Rightarrow> nat option" where
  "b64_value ch = (let n = of_char ch :: nat in
     if 65 \<le> n \<and> n \<le> 90 then Some (n - 65)
     else if 97 \<le> n \<and> n \<le> 122 then Some (n - 71)
     else if 48 \<le> n \<and> n \<le> 57 then Some (n + 4)
     else if ch = CHR ''-'' \<or> ch = CHR ''+'' then Some 62
     else if ch = CHR ''_'' \<or> ch = CHR ''/'' then Some 63
     else None)"

text \<open>binascii.a2b_base64 without strict mode: the position in a group of four characters,
  the bits left over from the last character and the number of pads seen in a row.\<close>
fun a2b :: "nat \<Rightarrow> nat \<Rightarrow> nat \<Rightarrow> string \<Rightarrow> octets option" where
  "a2b quad left pads [] = (if quad = 0 then Some [] else None)" |
  "a2b quad left pads (ch # r) =
     (if ch = CHR ''='' then
        (if 2 \<le> quad then (if 4 \<le> quad + (pads + 1) then Some [] else a2b quad left (pads + 1) r)
         else a2b quad left pads r)
      else case b64_value ch of
          None \<Rightarrow> a2b quad left pads r
        | Some v \<Rightarrow>
            if quad = 0 then a2b 1 v 0 r
            else if quad = 1 then map_option ((#) (oct1 left v)) (a2b 2 (v mod 16) 0 r)
            else if quad = 2 then map_option ((#) (oct2 left v)) (a2b 3 (v mod 4) 0 r)
            else map_option ((#) (oct3 left v)) (a2b 0 0 0 r))"

definition is_ascii :: "string \<Rightarrow> bool" where
  "is_ascii s = list_all (\<lambda>c. (of_char c :: nat) < 128) s"

text \<open>_b64url_decode: the text is padded to a multiple of four and decoded; text outside
  ASCII and incomplete groups are ValueErrors (binascii.Error is one).\<close>
definition b64url_decode :: "string \<Rightarrow> py_error + octets" where
  "b64url_decode text =
     (if \<not> is_ascii text then Inl ValueError
      else case a2b 0 0 0 (text @ replicate ((4 - length text mod 4) mod 4) (CHR ''='')) of
             None \<Rightarrow> Inl ValueError | Some bs \<Rightarrow> Inr bs)"

section \<open>Round trip\<close>

lemma b64_chars:
  "list_all (\<lambda>n. b64_value (b64_char n) = Some n \<and> b64_char n \<noteq> CHR ''='' \<and> b64_char n \<noteq> CHR ''.'' \<and>
     (of_char (b64_char n) :: nat) < 128) [0..<64]"
  by (simp add: upt_rec b64_char_def b64_alphabet_def b64_value_def Let_def)

lemma b64_value_char [simp]: "n < 64 \<Longrightarrow> b64_value (b64_char n) = Some n"
  and b64_char_pad [simp]: "n < 64 \<Longrightarrow> b64_char n \<noteq> CHR ''=''"
  and b64_char_dot: "n < 64 \<Longrightarrow> b64_char n \<noteq> CHR ''.''"
  and b64_char_ascii: "n < 64 \<Longrightarrow> (of_char (b64_char n) :: nat) < 128"
  using b64_chars by (auto simp: list_all_iff)

lemma octet_less: "unat (a :: 8 word) < 256"
  using unsigned_less[of a, where 'a = nat] by simp

lemma sextet_bounds [simp]: "sx1 a < 64" "sx2 a b < 64" "sx3 b c < 64" "sx4 c < 64"
  using octet_less[of a] octet_less[of b] octet_less[of c]
  by (simp_all add: sx1_def sx2_def sx3_def sx4_def)

lemma octets_joined [simp]:
  "oct1 (sx1 a) (sx2 a b) = a" "oct2 (sx2 a b mod 16) (sx3 b c) = b" "oct3 (sx3 b c mod 4) (sx4 c) = c"
proof -
  have b: "unat b div 16 < 16" and c: "unat c div 64 < 4" using octet_less[of b] octet_less[of c] by simp_all
  have "sx2 a b div 16 = unat a mod 4" "sx2 a b mod 16 = unat b div 16"
    "sx3 b c div 4 = unat b mod 16" "sx3 b c mod 4 = unat c div 64"
    using b c by (simp_all add: sx2_def sx3_def)
  then show "oct1 (sx1 a) (sx2 a b) = a" "oct2 (sx2 a b mod 16) (sx3 b c) = b" "oct3 (sx3 b c mod 4) (sx4 c) = c"
    by (simp_all only: oct1_def oct2_def oct3_def sx1_def sx4_def div_mult_mod_eq) simp_all
qed

definition pad4 :: "string \<Rightarrow> string" where
  "pad4 s = s @ replicate ((4 - length s mod 4) mod 4) (CHR ''='')"

lemma a2b_group:
  "a2b 0 l p (b64url (a # b # c # r) @ s) = map_option (\<lambda>t. a # b # c # t) (a2b 0 0 0 (b64url r @ s))"
  by (simp add: option.map_comp comp_def)

lemma a2b_encoded: "a2b 0 0 0 (pad4 (b64url bs)) = Some bs"
proof (induction bs rule: b64url.induct)
  case 1
  then show ?case by (simp add: pad4_def)
next
  case (2 a)
  have "replicate 2 (CHR ''='') = [CHR ''='', CHR ''='']" by (simp add: numeral_2_eq_2)
  then show ?case by (simp add: pad4_def)
next
  case (3 a b)
  then show ?case by (simp add: pad4_def)
next
  case (4 a b c r)
  have "pad4 (b64url (a # b # c # r)) = b64url (a # b # c # r) @ replicate ((4 - length (b64url r) mod 4) mod 4) (CHR ''='')"
    by (simp add: pad4_def)
  then show ?case using 4 unfolding pad4_def by (simp only: a2b_group option.simps)
qed

lemma b64url_chars: "list_all (\<lambda>ch. ch \<noteq> CHR ''.'' \<and> (of_char ch :: nat) < 128) (b64url bs)"
  by (induction bs rule: b64url.induct) (simp_all add: b64_char_dot b64_char_ascii)

lemma b64url_no_dot: "CHR ''.'' \<notin> set (b64url bs)"
  using b64url_chars[of bs] by (auto simp: list_all_iff)

lemma b64url_ascii [simp]: "is_ascii (b64url bs)"
  using b64url_chars[of bs] by (auto simp: list_all_iff is_ascii_def)

text \<open>The decoder inverts the encoder on every byte string.\<close>
lemma b64url_roundtrip [simp]: "b64url_decode (b64url bs) = Inr bs"
  using a2b_encoded[of bs] by (simp add: b64url_decode_def pad4_def)

lemma b64url_empty [simp]: "b64url bs = [] \<longleftrightarrow> bs = []"
  by (cases bs rule: b64url.cases) simp_all

lemma b64url_values: "list_all (\<lambda>ch. b64_value ch \<noteq> None) (b64url bs)"
  by (induction bs rule: b64url.induct) simp_all

lemma b64_value_no_ws: "b64_value ch \<noteq> None \<Longrightarrow> \<not> is_ws ch"
  by (auto simp: b64_value_def is_ws_def Let_def split: if_splits)

lemma strip_b64url [simp]: "strip (b64url bs) = b64url bs"
  by (rule strip_no_ws) (use b64url_values[of bs] b64_value_no_ws in \<open>simp add: list_all_iff\<close>)

lemma b64url_inj: "b64url a = b64url b \<Longrightarrow> a = b"
  by (metis b64url_roundtrip sum.inject(2))

text \<open>Characters outside both alphabets do not change what is decoded: four of them
  anywhere in a text keep its length modulo four, hence its padding.\<close>
lemma a2b_skip: "ch \<noteq> CHR ''='' \<Longrightarrow> b64_value ch = None \<Longrightarrow> a2b q l p (s @ ch # t) = a2b q l p (s @ t)"
  by (induction q l p s rule: a2b.induct) (auto split: option.split)

lemma a2b_skip_all:
  "\<forall>ch \<in> set w. ch \<noteq> CHR ''='' \<and> b64_value ch = None \<Longrightarrow> a2b q l p (s @ w @ t) = a2b q l p (s @ t)"
  by (induction w) (simp_all add: a2b_skip)

lemma b64url_decode_skips:
  assumes "\<forall>ch \<in> set w. ch \<noteq> CHR ''='' \<and> b64_value ch = None" "is_ascii w" "length w mod 4 = 0" "is_ascii (s @ t)"
  shows "b64url_decode (s @ w @ t) = b64url_decode (s @ t)"
proof -
  obtain k where "length w = 4 * k" using assms(3) by (metis mult_div_mod_eq add.right_neutral)
  then have "length (s @ w @ t) = length (s @ t) + 4 * k" by simp
  then have "length (s @ w @ t) mod 4 = length (s @ t) mod 4" by (simp only: mod_mult_self2)
  then have p: "(4 - length (s @ w @ t) mod 4) mod 4 = (4 - length (s @ t) mod 4) mod 4" by (rule arg_cong)
  have "is_ascii (s @ w @ t)" using assms(2,4) by (simp add: is_ascii_def)
  then show ?thesis using assms(4) a2b_skip_all[OF assms(1), of 0 0 0 s]
    unfolding b64url_decode_def p append_assoc by simp
qed

end
