(* ===== verification/Attribution.thy ===== *)
theory Attribution
  imports Base64
begin

text \<open>
  Attribution records (server/signing.py): the receipts a server stamps on its responses,
  in the compact form of JSON web signatures, their construction, their reader and their
  verifier.

  The canonical JSON writer, the JSON reader (which fails on text that is not UTF-8 or not
  JSON), the hash and the signature scheme are arguments.  What is asked of the two JSON
  functions is that a written object is read back with its text entries.  The main results:
  a signed record is verified and read back (signed_record_verifies), what a verified
  record proves (verified_record), and that records without a signature pass the verifier
  under every key (unsigned_passes).
\<close>

record attribution_record =
  ar_jws :: string
  ar_audit_id :: string
  ar_payload :: jobj

datatype record_error = AttributionRecordError | Escaped py_error

section \<open>Construction\<close>

definition GENESIS_SENTINEL :: string where
  "GENESIS_SENTINEL = replicate 64 (CHR ''0'')"

record record_fields =
  rf_agent_id :: string
  rf_owner_id :: string
  rf_principal_id :: string
  rf_server_id :: string
  rf_session_id :: string
  rf_task_id :: string
  rf_request_id :: string
  rf_response_id :: string
  rf_issued_at :: string
  rf_status :: int
  rf_previous_audit_id :: string
  rf_extra :: json

definition set_if :: "string \<Rightarrow> string \<Rightarrow> jobj \<Rightarrow> jobj" where
  "set_if k v d = (if v \<noteq> [] then dict_set k (JStr v) d else d)"

text \<open>The payload that the signed and the unsigned builder share.\<close>
definition record_payload :: "record_fields \<Rightarrow> jobj" where
  "record_payload f =
     (let base = [(''audit_record_version'', JStr ''1''),
                  (''server_id'', JStr (rf_server_id f)),
                  (''agent_id'', JStr (rf_agent_id f)),
                  (''owner_id'', JStr (rf_owner_id f)),
                  (''request_id'', JStr (rf_request_id f)),
                  (''response_id'', JStr (rf_response_id f)),
                  (''previous_audit_id'', JStr (if rf_previous_audit_id f \<noteq> [] then rf_previous_audit_id f else GENESIS_SENTINEL)),
                  (''issued_at'', JStr (rf_issued_at f)),
                  (''status'', JInt (rf_status f))];
          opt = set_if ''task_id'' (rf_task_id f) (set_if ''session_id'' (rf_session_id f)
                  (set_if ''principal_id'' (rf_principal_id f) base))
      in if truthy (rf_extra f) then dict_set ''extra'' (rf_extra f) opt else opt)"

definition signed_header :: "string \<Rightarrow> jobj" where
  "signed_header key_id = [(''alg'', JStr ''EdDSA''), (''typ'', JStr ''JWT''), (''kid'', JStr key_id)]"

definition unsigned_header :: jobj where
  "unsigned_header = [(''alg'', JStr ''none''), (''typ'', JStr ''JWT'')]"

definition audit_id_for :: "(string \<Rightarrow> string) \<Rightarrow> string \<Rightarrow> py_error + string" where
  "audit_id_for sha256_hex jws = (if is_ascii jws then Inr (sha256_hex jws) else Inl ValueError)"

definition signing_input :: "(jobj \<Rightarrow> octets) \<Rightarrow> jobj \<Rightarrow> jobj \<Rightarrow> string" where
  "signing_input canonical header payload = b64url (canonical header) @ ''.'' @ b64url (canonical payload)"

definition build_attribution_record ::
  "(jobj \<Rightarrow> octets) \<Rightarrow> (string \<Rightarrow> string) \<Rightarrow> (string \<Rightarrow> octets) \<Rightarrow> string \<Rightarrow> record_fields \<Rightarrow> attribution_record" where
  "build_attribution_record canonical sha256_hex sign key_id f =
     (let payload = record_payload f;
          input = signing_input canonical (signed_header key_id) payload;
          jws = input @ ''.'' @ b64url (sign input)
      in \<lparr>ar_jws = jws, ar_audit_id = sha256_hex jws, ar_payload = payload\<rparr>)"

definition build_unsigned_attribution_record ::
  "(jobj \<Rightarrow> octets) \<Rightarrow> (string \<Rightarrow> string) \<Rightarrow> record_fields \<Rightarrow> attribution_record" where
  "build_unsigned_attribution_record canonical sha256_hex f =
     (let payload = record_payload f;
          jws = signing_input canonical unsigned_header payload @ ''.''
      in \<lparr>ar_jws = jws, ar_audit_id = sha256_hex jws, ar_payload = payload\<rparr>)"

section \<open>Reading and verification\<close>

definition json_segment :: "(octets \<Rightarrow> json option) \<Rightarrow> string \<Rightarrow> record_error + json" where
  "json_segment loads s =
     (case b64url_decode s of
        Inl _ \<Rightarrow> Inl AttributionRecordError
      | Inr bs \<Rightarrow> (case loads bs of None \<Rightarrow> Inl AttributionRecordError | Some j \<Rightarrow> Inr j))"

text \<open>The signature segment is decoded outside the try block: its errors escape.\<close>
definition signature_segment :: "string \<Rightarrow> record_error + octets" where
  "signature_segment s =
     (if s \<noteq> [] then (case b64url_decode s of Inl e \<Rightarrow> Inl (Escaped e) | Inr bs \<Rightarrow> Inr bs) else Inr [])"

definition parse_attribution_record :: "(octets \<Rightarrow> json option) \<Rightarrow> string \<Rightarrow> record_error + json \<times> json \<times> octets" where
  "parse_attribution_record loads jws =
     (let parts = split_char (CHR ''.'') jws in
      if length parts \<noteq> 3 then Inl AttributionRecordError
      else bind_res (json_segment loads (parts ! 0)) (\<lambda>header.
           bind_res (json_segment loads (parts ! 1)) (\<lambda>payload.
           bind_res (signature_segment (parts ! 2)) (\<lambda>signature.
           Inr (header, payload, signature)))))"

text \<open>The get method of a parsed document, which only objects have.\<close>
definition doc_get :: "json \<Rightarrow> string \<Rightarrow> record_error + json" where
  "doc_get v k = (case v of JObj d \<Rightarrow> Inr (jget d k) | _ \<Rightarrow> Inl (Escaped AttributeError))"

definition verify_attribution_record ::
  "(octets \<Rightarrow> json option) \<Rightarrow> (octets \<Rightarrow> string \<Rightarrow> bool) \<Rightarrow> string \<Rightarrow> record_error + json" where
  "verify_attribution_record loads check jws =
     bind_res (parse_attribution_record loads jws) (\<lambda>(header, payload, signature).
     bind_res (doc_get header ''alg'') (\<lambda>alg.
       if alg = JStr ''none'' then (if signature \<noteq> [] then Inl AttributionRecordError else Inr payload)
       else if alg \<noteq> JStr ''EdDSA'' then Inl AttributionRecordError
       else let parts = split_char (CHR ''.'') jws; input = parts ! 0 @ ''.'' @ parts ! 1 in
            if check signature input then Inr payload else Inl AttributionRecordError))"

text \<open>The identifier of a key: sixteen hexadecimal digits of the hash of its raw bytes.\<close>
definition derive_key_id :: "(octets \<Rightarrow> string) \<Rightarrow> octets \<Rightarrow> string" where
  "derive_key_id sha256_hex raw = ''ed25519-'' @ take 16 (sha256_hex raw)"

definition service_key_id :: "(octets \<Rightarrow> string) \<Rightarrow> octets \<Rightarrow> string \<Rightarrow> string" where
  "service_key_id sha256_hex raw key_id = (if key_id \<noteq> [] then key_id else derive_key_id sha256_hex raw)"

text \<open>sign_canonical and verify of the signing service.\<close>
definition sign_canonical :: "(jobj \<Rightarrow> octets) \<Rightarrow> (octets \<Rightarrow> octets) \<Rightarrow> jobj \<Rightarrow> octets" where
  "sign_canonical canonical sign payload = sign (canonical payload)"

section \<open>Records read back\<close>

text \<open>What the two JSON functions of the library guarantee: an object that was written is
  read back as an object with the same text entries.\<close>
definition same_texts :: "jobj \<Rightarrow> jobj \<Rightarrow> bool" where
  "same_texts d q = (\<forall>k s. dict_get d k = Some (JStr s) \<longrightarrow> dict_get q k = Some (JStr s))"

definition json_faithful :: "(jobj \<Rightarrow> octets) \<Rightarrow> (octets \<Rightarrow> json option) \<Rightarrow> bool" where
  "json_faithful dumps loads = (\<forall>d. dict_ok d \<longrightarrow> (\<exists>q. loads (dumps d) = Some (JObj q) \<and> same_texts d q))"

lemma same_textsD: "same_texts d q \<Longrightarrow> dict_get d k = Some (JStr s) \<Longrightarrow> jget q k = JStr s"
  by (simp add: same_texts_def jget_def get_or_def)

lemma dict_ok_payload [simp]: "dict_ok (record_payload f)"
  by (simp add: record_payload_def Let_def set_if_def)

lemma payload_entries:
  "dict_get (record_payload f) ''agent_id'' = Some (JStr (rf_agent_id f))"
  "dict_get (record_payload f) ''issued_at'' = Some (JStr (rf_issued_at f))"
  "dict_get (record_payload f) ''previous_audit_id''
     = Some (JStr (if rf_previous_audit_id f \<noteq> [] then rf_previous_audit_id f else GENESIS_SENTINEL))"
  by (simp_all add: record_payload_def Let_def set_if_def)

lemma split_jws:
  "split_char (CHR ''.'') (b64url h @ CHR ''.'' # b64url p @ CHR ''.'' # b64url s) = [b64url h, b64url p, b64url s]"
  by (simp add: split_char_append split_char_free b64url_no_dot)

lemma signature_segment_b64 [simp]: "signature_segment (b64url s) = Inr s"
  by (simp add: signature_segment_def)

text \<open>Any three encoded segments parse to their contents.\<close>
lemma parse_segments:
  assumes "loads h = Some hj" "loads p = Some pj"
  shows "parse_attribution_record loads (b64url h @ CHR ''.'' # b64url p @ CHR ''.'' # b64url s) = Inr (hj, pj, s)"
  using assms by (simp add: parse_attribution_record_def split_jws json_segment_def)

lemma parse_built:
  assumes j: "json_faithful canonical loads" and h: "dict_ok h" and p: "dict_ok p"
  obtains hq pq where
    "parse_attribution_record loads (signing_input canonical h p @ ''.'' @ b64url s) = Inr (JObj hq, JObj pq, s)"
    "same_texts h hq"
    "same_texts p pq"
proof -
  obtain hq where hq: "loads (canonical h) = Some (JObj hq)" "same_texts h hq"
    using j h unfolding json_faithful_def by blast
  obtain pq where pq: "loads (canonical p) = Some (JObj pq)" "same_texts p pq"
    using j p unfolding json_faithful_def by blast
  show ?thesis using that[of hq pq] parse_segments[of loads, OF hq(1) pq(1), of s] hq(2) pq(2)
    by (simp add: signing_input_def)
qed

lemma headers_ok [simp]: "dict_ok (signed_header kid)" "dict_ok unsigned_header"
  "dict_get (signed_header kid) ''alg'' = Some (JStr ''EdDSA'')"
  "dict_get unsigned_header ''alg'' = Some (JStr ''none'')"
  by (simp_all add: signed_header_def unsigned_header_def)

text \<open>The payload of a record as a reader sees it: an object whose text entries are
  those of the fields.\<close>
definition carries :: "record_fields \<Rightarrow> json \<Rightarrow> bool" where
  "carries f v = (\<exists>q. v = JObj q \<and> jget q ''agent_id'' = JStr (rf_agent_id f) \<and> jget q ''issued_at'' = JStr (rf_issued_at f) \<and>
     jget q ''previous_audit_id'' = JStr (if rf_previous_audit_id f \<noteq> [] then rf_previous_audit_id f else GENESIS_SENTINEL))"

lemma carries_same: "same_texts (record_payload f) q \<Longrightarrow> carries f (JObj q)"
  by (simp add: carries_def same_textsD payload_entries)

text \<open>A signed record is parsed and verified with the payload that was signed.\<close>
lemma signed_record_verifies:
  assumes j: "json_faithful canonical loads" and k: "\<And>m. check (sign m) m"
  shows "\<exists>v. carries f v \<and>
    verify_attribution_record loads check (ar_jws (build_attribution_record canonical hash sign kid f)) = Inr v"
proof -
  let ?i = "signing_input canonical (signed_header kid) (record_payload f)"
  obtain hq pq where p:
    "parse_attribution_record loads (?i @ ''.'' @ b64url (sign ?i)) = Inr (JObj hq, JObj pq, sign ?i)"
    "same_texts (signed_header kid) hq"
    "same_texts (record_payload f) pq"
    by (rule parse_built[OF j headers_ok(1) dict_ok_payload])
  have s: "split_char (CHR ''.'') (?i @ ''.'' @ b64url (sign ?i))
      = [b64url (canonical (signed_header kid)), b64url (canonical (record_payload f)), b64url (sign ?i)]"
    by (simp add: signing_input_def split_jws)
  have "verify_attribution_record loads check (?i @ ''.'' @ b64url (sign ?i)) = Inr (JObj pq)"
    unfolding verify_attribution_record_def p(1) s
    using k[of ?i] by (simp add: doc_get_def same_textsD[OF p(2) headers_ok(3)]) (simp add: signing_input_def)
  moreover have "carries f (JObj pq)" by (rule carries_same[OF p(3)])
  ultimately show ?thesis by (auto simp: build_attribution_record_def Let_def)
qed

text \<open>The header a reader of a signed record sees.\<close>
lemma built_signed_header:
  assumes j: "json_faithful canonical loads"
  shows "\<exists>d v s. jget d ''alg'' = JStr ''EdDSA'' \<and>
    parse_attribution_record loads (ar_jws (build_attribution_record canonical hash sign kid f)) = Inr (JObj d, v, s)"
proof -
  let ?i = "signing_input canonical (signed_header kid) (record_payload f)"
  obtain hq pq where "parse_attribution_record loads (?i @ ''.'' @ b64url (sign ?i)) = Inr (JObj hq, JObj pq, sign ?i)"
    "same_texts (signed_header kid) hq" "same_texts (record_payload f) pq"
    by (rule parse_built[OF j headers_ok(1) dict_ok_payload, of kid f "sign ?i"])
  then show ?thesis
    by (auto simp: build_attribution_record_def Let_def intro: same_textsD[OF _ headers_ok(3)])
qed

text \<open>The reader of a built record, signed or not, returns its payload.\<close>
lemma built_record_parses:
  assumes j: "json_faithful canonical loads"
  shows "\<exists>h v s. carries f v \<and> parse_attribution_record loads (ar_jws (build_attribution_record canonical hash sign kid f)) = Inr (h, v, s)"
    and "\<exists>h v s. carries f v \<and> parse_attribution_record loads (ar_jws (build_unsigned_attribution_record canonical hash f)) = Inr (h, v, s)"
proof -
  let ?i = "signing_input canonical (signed_header kid) (record_payload f)"
  obtain hq pq where "parse_attribution_record loads (?i @ ''.'' @ b64url (sign ?i)) = Inr (JObj hq, JObj pq, sign ?i)"
    "same_texts (record_payload f) pq"
    by (rule parse_built[OF j headers_ok(1) dict_ok_payload, of kid f "sign ?i"])
  then show "\<exists>h v s. carries f v \<and> parse_attribution_record loads (ar_jws (build_attribution_record canonical hash sign kid f)) = Inr (h, v, s)"
    by (auto simp: build_attribution_record_def Let_def dest: carries_same)
  obtain hq pq where "parse_attribution_record loads (signing_input canonical unsigned_header (record_payload f) @ ''.'' @ b64url []) = Inr (JObj hq, JObj pq, [])"
    "same_texts (record_payload f) pq"
    by (rule parse_built[OF j headers_ok(2) dict_ok_payload, of f "[]"])
  then show "\<exists>h v s. carries f v \<and> parse_attribution_record loads (ar_jws (build_unsigned_attribution_record canonical hash f)) = Inr (h, v, s)"
    by (auto simp: build_unsigned_attribution_record_def Let_def dest: carries_same)
qed

text \<open>Anybody can write a record that the verifier accepts under every key: one that
  announces the algorithm none.\<close>
lemma unsigned_passes:
  assumes j: "json_faithful canonical loads"
  shows "\<exists>v. carries f v \<and>
    verify_attribution_record loads check (ar_jws (build_unsigned_attribution_record canonical hash f)) = Inr v"
proof -
  obtain hq pq where p: "parse_attribution_record loads (signing_input canonical unsigned_header (record_payload f) @ ''.'' @ b64url []) = Inr (JObj hq, JObj pq, [])"
    "same_texts unsigned_header hq"
    "same_texts (record_payload f) pq"
    by (rule parse_built[OF j headers_ok(2) dict_ok_payload])
  have "verify_attribution_record loads check (signing_input canonical unsigned_header (record_payload f) @ ''.'' @ b64url []) = Inr (JObj pq)"
    unfolding verify_attribution_record_def p(1) by (simp add: doc_get_def same_textsD[OF p(2) headers_ok(4)])
  moreover have "carries f (JObj pq)" by (rule carries_same[OF p(3)])
  ultimately show ?thesis by (auto simp: build_unsigned_attribution_record_def Let_def)
qed

text \<open>What a successful verification proves: the record announces no signature, or its
  signature checks on the first two segments as they stand in the text.\<close>
lemma verified_record:
  assumes "verify_attribution_record loads check jws = Inr payload"
  obtains h p s d signature where "split_char (CHR ''.'') jws = [h, p, s]"
    "json_segment loads h = Inr (JObj d)" "json_segment loads p = Inr payload"
    "signature_segment s = Inr signature"
    "jget d ''alg'' = JStr ''none'' \<and> signature = [] \<or> jget d ''alg'' = JStr ''EdDSA'' \<and> check signature (h @ ''.'' @ p)"
proof -
  from assms obtain header signature alg where v: "parse_attribution_record loads jws = Inr (header, payload, signature)"
    "doc_get header ''alg'' = Inr alg"
    "alg = JStr ''none'' \<and> signature = [] \<or> alg = JStr ''EdDSA'' \<and>
      check signature (split_char (CHR ''.'') jws ! 0 @ ''.'' @ split_char (CHR ''.'') jws ! 1)"
    unfolding verify_attribution_record_def bind_res_Inr by (auto simp: Let_def bind_res_Inr split: if_splits)
  from v(1) have l: "length (split_char (CHR ''.'') jws) = 3" and
    seg: "json_segment loads (split_char (CHR ''.'') jws ! 0) = Inr header"
      "json_segment loads (split_char (CHR ''.'') jws ! 1) = Inr payload"
      "signature_segment (split_char (CHR ''.'') jws ! 2) = Inr signature"
    unfolding parse_attribution_record_def Let_def by (auto simp: bind_res_Inr split: if_splits)
  from l obtain h p s where hps: "split_char (CHR ''.'') jws = [h, p, s]"
    by (auto simp: numeral_3_eq_3 length_Suc_conv)
  from v(2) obtain d where "header = JObj d" "alg = jget d ''alg''"
    by (auto simp: doc_get_def split: json.splits)
  with that hps seg v(3) show ?thesis by simp
qed

end
