(* ===== verification/Audit_Chain.thy ===== *)
theory Audit_Chain
  imports Attribution Wire Cbor
begin

text \<open>
  The audit trail of a server: the stores of chain heads and of records
  (server/audit_chain.py, server/audit_records.py), the response policy that appends to
  them (_finalize_response of server/main.py), and the tool that checks and repairs the
  chains (tools/chain_integrity_check.py).

  The directory of each store is a dictionary from file names to contents.  Whether the
  operating system performs a write is an input of the step that attempts it; the clock,
  fresh identifiers, the hash, signing and the JSON functions are arguments.  A transaction
  holds the append lock, so an append is one step.  The main results: the chain of every
  agent is complete after any history of successful appends (audit_chain_complete), a
  failed record write breaks the chain for good (lost_record_breaks_chain), an unsigned
  forgery of a record is not noticed by the check, even with the key
  (forged_record_unnoticed), and the repair restores lost heads (repair_restores_heads).
\<close>

section \<open>Stores\<close>

record audit_files =
  af_heads :: "(string, octets) dict"
  af_records :: "(string, string) dict"

record audit_lib =
  al_canonical :: "jobj \<Rightarrow> octets"
  al_dumps :: "jobj \<Rightarrow> octets"
  al_loads :: "octets \<Rightarrow> json option"
  al_sha256_hex :: "string \<Rightarrow> string"
  al_str :: "json \<Rightarrow> string"

datatype io_error = OSError | IORaised py_error

record chain_head =
  ch_audit_id :: string
  ch_at_iso :: string

definition BACKSLASH :: char where "BACKSLASH = char_of (92 :: nat)"
definition NUL :: char where "NUL = char_of (0 :: nat)"

text \<open>AuditChainStore._path_for, without the root and the suffix of the path.\<close>
definition head_stem :: "string \<Rightarrow> string" where
  "head_stem agent_id = filter (\<lambda>c. c \<noteq> BACKSLASH) (filter (\<lambda>c. c \<noteq> CHR ''/'') (strip agent_id))"

text \<open>AuditChainStore.head.  A file that is not JSON counts as missing; a file that is not
  UTF-8, a document that is not an object and a name with a null character raise.\<close>
definition read_head :: "audit_lib \<Rightarrow> audit_files \<Rightarrow> string \<Rightarrow> py_error + chain_head option" where
  "read_head lib files agent_id =
     (if NUL \<in> set (head_stem agent_id) then Inl ValueError
      else case dict_get (af_heads files) (head_stem agent_id) of
        None \<Rightarrow> Inr None
      | Some raw \<Rightarrow>
          if \<not> is_ok (utf8_decode raw) then Inl ValueError
          else (case al_loads lib raw of
             None \<Rightarrow> Inr None
           | Some (JObj data) \<Rightarrow>
               (case (jget data ''last_audit_id'', jget data ''last_at'') of
                  (JStr a, JStr t) \<Rightarrow> Inr (Some \<lparr>ch_audit_id = a, ch_at_iso = t\<rparr>)
                | _ \<Rightarrow> Inr None)
           | Some _ \<Rightarrow> Inl AttributeError))"

definition head_document :: "string \<Rightarrow> string \<Rightarrow> jobj" where
  "head_document audit_id at_iso = [(''last_audit_id'', JStr audit_id), (''last_at'', JStr at_iso)]"

text \<open>AuditChainStore.write; stored tells whether the operating system performs the write.\<close>
definition write_head :: "audit_lib \<Rightarrow> bool \<Rightarrow> audit_files \<Rightarrow> string \<Rightarrow> string \<Rightarrow> string \<Rightarrow> io_error + audit_files" where
  "write_head lib stored files agent_id audit_id at_iso =
     (if agent_id = [] then Inr files
      else if NUL \<in> set (head_stem agent_id) then Inl (IORaised ValueError)
      else if \<not> stored then Inl OSError
      else Inr (files\<lparr>af_heads := dict_set (head_stem agent_id) (al_dumps lib (head_document audit_id at_iso)) (af_heads files)\<rparr>))"

definition is_hex :: "char \<Rightarrow> bool" where
  "is_hex c = (c \<in> set ''0123456789abcdef'')"

definition safe_audit_id :: "string \<Rightarrow> py_error + string" where
  "safe_audit_id audit_id =
     (let text = lower (strip audit_id) in
      if length text \<noteq> 64 \<or> \<not> list_all is_hex text then Inl ValueError else Inr text)"

text \<open>AuditRecordStore.write.  The file name repeats the identifier, so the directory is
  keyed by it.\<close>
definition write_record :: "bool \<Rightarrow> audit_files \<Rightarrow> string \<Rightarrow> string \<Rightarrow> io_error + audit_files" where
  "write_record stored files audit_id jws =
     (case safe_audit_id audit_id of
        Inl e \<Rightarrow> Inl (IORaised e)
      | Inr safe \<Rightarrow>
          if \<not> stored then Inl OSError
          else if \<not> is_ascii jws then Inl (IORaised ValueError)
          else Inr (files\<lparr>af_records := dict_set safe jws (af_records files)\<rparr>))"

text \<open>AuditRecordStore.read: a file outside ASCII raises.\<close>
definition read_record :: "audit_files \<Rightarrow> string \<Rightarrow> py_error + string option" where
  "read_record files audit_id =
     (case safe_audit_id audit_id of
        Inl _ \<Rightarrow> Inr None
      | Inr safe \<Rightarrow>
          (case dict_get (af_records files) safe of
             None \<Rightarrow> Inr None
           | Some text \<Rightarrow> if is_ascii text then Inr (Some text) else Inl ValueError))"

section \<open>Appending to a chain\<close>

text \<open>The signing function and the key identifier, when a signing service is loaded.\<close>
type_synonym signing_service = "((string \<Rightarrow> octets) \<times> string) option"

definition build_record :: "audit_lib \<Rightarrow> signing_service \<Rightarrow> record_fields \<Rightarrow> attribution_record" where
  "build_record lib service f =
     (case service of
        Some (sign, key_id) \<Rightarrow> build_attribution_record (al_canonical lib) (al_sha256_hex lib) sign key_id f
      | None \<Rightarrow> build_unsigned_attribution_record (al_canonical lib) (al_sha256_hex lib) f)"

text \<open>A write whose failures of the operating system are logged and swallowed.\<close>
definition best_effort :: "audit_files \<Rightarrow> io_error + audit_files \<Rightarrow> py_error + audit_files" where
  "best_effort files r =
     (case r of Inr files' \<Rightarrow> Inr files' | Inl OSError \<Rightarrow> Inr files | Inl (IORaised e) \<Rightarrow> Inl e)"

definition previous_of :: "audit_lib \<Rightarrow> audit_files \<Rightarrow> string \<Rightarrow> py_error + string" where
  "previous_of lib files agent_id =
     (if agent_id = [] then Inr []
      else bind_res (read_head lib files agent_id) (\<lambda>head.
        Inr (case head of None \<Rightarrow> [] | Some h \<Rightarrow> ch_audit_id h)))"

text \<open>The append transaction of _finalize_response.\<close>
definition append_record ::
  "audit_lib \<Rightarrow> signing_service \<Rightarrow> bool \<Rightarrow> bool \<Rightarrow> record_fields \<Rightarrow> audit_files \<Rightarrow>
   py_error + attribution_record \<times> audit_files" where
  "append_record lib service record_stored head_stored f files =
     bind_res (previous_of lib files (rf_agent_id f)) (\<lambda>previous.
     let r = build_record lib service (f\<lparr>rf_previous_audit_id := previous\<rparr>) in
     bind_res (best_effort files (write_record record_stored files (ar_audit_id r) (ar_jws r))) (\<lambda>files1.
     bind_res (if rf_agent_id f \<noteq> []
               then best_effort files1 (write_head lib head_stored files1 (rf_agent_id f) (ar_audit_id r) (rf_issued_at f))
               else Inr files1) (\<lambda>files2.
     Inr (r, files2))))"

section \<open>Response headers\<close>

record finalize_config =
  fc_server_id :: string
  fc_attribution_enabled :: bool
  fc_signing_service :: signing_service

record finalize_input =
  fi_extra :: json
  fi_owner_id :: string
  fi_principal_id :: string
  fi_trust_tier :: "int option"
  fi_trust_warning :: string
  fi_verification_path :: string
  fi_uuid_hex :: string
  fi_now :: string
  fi_record_stored :: bool
  fi_head_stored :: bool

text \<open>Stamp a header that has a value and that the response does not carry yet.\<close>
definition stamp :: "string \<Rightarrow> string \<Rightarrow> headers \<Rightarrow> headers" where
  "stamp name v h = (if v \<noteq> [] \<and> name \<notin> set (dict_keys h) then dict_set name v h else h)"

text \<open>What _finalize_response reads of the request.\<close>
definition request_header :: "headers option \<Rightarrow> string \<Rightarrow> string" where
  "request_header request name = (case request of None \<Rightarrow> [] | Some h \<Rightarrow> header_in h name)"

definition request_agent_id :: "headers option \<Rightarrow> string" where
  "request_agent_id request = (case request of None \<Rightarrow> [] | Some h \<Rightarrow> read_agent_id h)"

text \<open>The headers up to the trust posture, and the response identifier.\<close>
definition stamp_headers :: "finalize_config option \<Rightarrow> finalize_input \<Rightarrow> headers option \<Rightarrow> headers \<Rightarrow> headers" where
  "stamp_headers config i request h0 =
     (let server_id = (case config of None \<Rightarrow> [] | Some c \<Rightarrow> fc_server_id c);
          h1 = stamp ''Server-ID'' server_id h0;
          h2 = stamp ''Task-ID'' (request_header request ''Task-ID'') h1;
          h3 = stamp ''Request-ID'' (request_header request ''Request-ID'') h2;
          h4 = stamp ''Response-ID'' (''resp-'' @ take 12 (fi_uuid_hex i)) h3;
          h5 = stamp ''Owner-ID'' (fi_owner_id i) h4;
          h6 = (case fi_trust_tier i of None \<Rightarrow> h5 | Some t \<Rightarrow> stamp ''Trust-Tier'' (show_int t) h5);
          h7 = stamp ''Verification-Path'' (fi_verification_path i) h6
      in stamp ''Trust-Warning'' (fi_trust_warning i) h7)"

definition response_fields ::
  "finalize_config \<Rightarrow> finalize_input \<Rightarrow> headers option \<Rightarrow> int \<Rightarrow> headers \<Rightarrow> record_fields" where
  "response_fields c i request status h =
     \<lparr>rf_agent_id = request_agent_id request, rf_owner_id = fi_owner_id i, rf_principal_id = fi_principal_id i,
      rf_server_id = fc_server_id c, rf_session_id = request_header request ''Session-ID'',
      rf_task_id = request_header request ''Task-ID'', rf_request_id = request_header request ''Request-ID'',
      rf_response_id = get_or [] h ''Response-ID'', rf_issued_at = fi_now i, rf_status = status,
      rf_previous_audit_id = [], rf_extra = fi_extra i\<rparr>"

definition finalize_response ::
  "audit_lib \<Rightarrow> finalize_config option \<Rightarrow> finalize_input \<Rightarrow> headers option \<Rightarrow> audit_files \<Rightarrow>
   ('b, 'z) agtp_response_scheme \<Rightarrow> py_error + ('b, 'z) agtp_response_scheme \<times> audit_files" where
  "finalize_response lib config i request files response =
     (let h = stamp_headers config i request (rs_headers response) in
      case config of
        Some c \<Rightarrow>
          if fc_attribution_enabled c then
            bind_res (append_record lib (fc_signing_service c) (fi_record_stored i) (fi_head_stored i)
                (response_fields c i request (rs_status_code response) h) files) (\<lambda>(r, files').
              Inr (response\<lparr>rs_headers := dict_set ''Audit-ID'' (ar_audit_id r)
                     (dict_set ''Attribution-Record'' (ar_jws r) h)\<rparr>, files'))
          else Inr (response\<lparr>rs_headers := h\<rparr>, files)
      | None \<Rightarrow> Inr (response\<lparr>rs_headers := h\<rparr>, files))"

section \<open>Integrity check\<close>

definition MAX_WALK_DEPTH :: nat where "MAX_WALK_DEPTH = 100000"

text \<open>ChainWalkResult; of a signature failure the audit identifier is kept, not the text of
  the exception.\<close>
record walk_result =
  wr_agent_id :: string
  wr_head_audit_id :: "string option"
  wr_records_walked :: nat
  wr_reached_genesis :: bool
  wr_orphaned_head :: bool
  wr_broken :: bool
  wr_break_at :: "string option"
  wr_signature_failures :: "string list"

definition new_walk :: "string \<Rightarrow> string option \<Rightarrow> walk_result" where
  "new_walk agent_id head =
     \<lparr>wr_agent_id = agent_id, wr_head_audit_id = head, wr_records_walked = 0, wr_reached_genesis = False,
      wr_orphaned_head = False, wr_broken = False, wr_break_at = None, wr_signature_failures = []\<rparr>"

abbreviation broken_at :: "string \<Rightarrow> walk_result \<Rightarrow> walk_result" where
  "broken_at current r \<equiv> r\<lparr>wr_broken := True, wr_break_at := Some current\<rparr>"

text \<open>The verification of one record, when a key is given: a malformed record is a
  failure, another exception escapes.\<close>
definition note_signature ::
  "audit_lib \<Rightarrow> (octets \<Rightarrow> string \<Rightarrow> bool) option \<Rightarrow> string \<Rightarrow> string \<Rightarrow> walk_result \<Rightarrow> py_error + walk_result" where
  "note_signature lib key current jws r =
     (case key of
        None \<Rightarrow> Inr r
      | Some check \<Rightarrow>
          (case verify_attribution_record (al_loads lib) check jws of
             Inr _ \<Rightarrow> Inr r
           | Inl AttributionRecordError \<Rightarrow> Inr (r\<lparr>wr_signature_failures := wr_signature_failures r @ [current]\<rparr>)
           | Inl (Escaped e) \<Rightarrow> Inl e))"

definition previous_link :: "audit_lib \<Rightarrow> json \<Rightarrow> py_error + string" where
  "previous_link lib payload =
     (case payload of
        JObj d \<Rightarrow> Inr (py_str (al_str lib) (jor (jget d ''previous_audit_id'') (JStr GENESIS_SENTINEL)))
      | _ \<Rightarrow> Inl AttributeError)"

text \<open>The loop of walk_chain; the first argument counts the remaining iterations of its
  range.\<close>
fun walk_loop ::
  "nat \<Rightarrow> audit_lib \<Rightarrow> audit_files \<Rightarrow> (octets \<Rightarrow> string \<Rightarrow> bool) option \<Rightarrow> string \<Rightarrow> string \<Rightarrow> string list \<Rightarrow>
   walk_result \<Rightarrow> py_error + walk_result" where
  "walk_loop 0 lib files key head current seen r = Inr (broken_at current r)" |
  "walk_loop (Suc n) lib files key head current seen r =
     (if current \<in> set seen then Inr (broken_at current r)
      else bind_res (read_record files current) (\<lambda>stored.
        case stored of
          None \<Rightarrow> Inr ((broken_at current r)\<lparr>wr_orphaned_head := current = head\<rparr>)
        | Some jws \<Rightarrow>
            (case parse_attribution_record (al_loads lib) jws of
               Inl AttributionRecordError \<Rightarrow>
                 Inr ((broken_at current r)\<lparr>wr_signature_failures := wr_signature_failures r @ [current]\<rparr>)
             | Inl (Escaped e) \<Rightarrow> Inl e
             | Inr (_, payload, _) \<Rightarrow>
                 bind_res (note_signature lib key current jws (r\<lparr>wr_records_walked := wr_records_walked r + 1\<rparr>)) (\<lambda>r.
                 bind_res (previous_link lib payload) (\<lambda>previous.
                 if previous = GENESIS_SENTINEL then Inr (r\<lparr>wr_reached_genesis := True\<rparr>)
                 else walk_loop n lib files key head previous (current # seen) r)))))"

definition walk_chain ::
  "audit_lib \<Rightarrow> audit_files \<Rightarrow> (octets \<Rightarrow> string \<Rightarrow> bool) option \<Rightarrow> string \<Rightarrow> py_error + walk_result" where
  "walk_chain lib files key agent_id =
     bind_res (read_head lib files agent_id) (\<lambda>head.
       case head of
         None \<Rightarrow> Inr ((new_walk agent_id None)\<lparr>wr_reached_genesis := True\<rparr>)
       | Some h \<Rightarrow> walk_loop MAX_WALK_DEPTH lib files key (ch_audit_id h) (ch_audit_id h) []
                     (new_walk agent_id (Some (ch_audit_id h))))"

text \<open>discover_agent_ids: the stems of the head files, sorted; a head root that exists.\<close>
definition discover_agent_ids :: "audit_files \<Rightarrow> string list" where
  "discover_agent_ids files = sort (dict_keys (af_heads files))"

definition run_check ::
  "audit_lib \<Rightarrow> audit_files \<Rightarrow> string list \<Rightarrow> (octets \<Rightarrow> string \<Rightarrow> bool) option \<Rightarrow> py_error + walk_result list" where
  "run_check lib files agent_ids key =
     map_res (walk_chain lib files key) (if agent_ids \<noteq> [] then agent_ids else discover_agent_ids files)"

definition broken_chains :: "walk_result list \<Rightarrow> nat" where
  "broken_chains results = length (filter wr_broken results)"

text \<open>The exit code of the tool once the results are there.\<close>
definition exit_code :: "walk_result list \<Rightarrow> nat" where
  "exit_code results = (if broken_chains results \<noteq> 0 then 1 else 0)"

section \<open>Repair\<close>

text \<open>What discover_recoverable_heads keeps of one stored record: its identifier, agent,
  time and predecessor.  A record that cannot be read or parsed is skipped.\<close>
type_synonym stored_record = "string \<times> string \<times> string \<times> string"

definition text_or_empty :: "audit_lib \<Rightarrow> jobj \<Rightarrow> string \<Rightarrow> string" where
  "text_or_empty lib d k = py_str (al_str lib) (jor (jget d k) (JStr []))"

definition scan_record :: "audit_lib \<Rightarrow> string \<times> string \<Rightarrow> py_error + stored_record option" where
  "scan_record lib = (\<lambda>(stem, text).
     if \<not> is_ascii text then Inr None
     else case parse_attribution_record (al_loads lib) text of
       Inl _ \<Rightarrow> Inr None
     | Inr (_, JObj d, _) \<Rightarrow>
         (if text_or_empty lib d ''agent_id'' = [] then Inr None
          else bind_res (previous_link lib (JObj d)) (\<lambda>prev.
            Inr (Some (stem, text_or_empty lib d ''agent_id'', text_or_empty lib d ''issued_at'', prev))))
     | Inr _ \<Rightarrow> Inl AttributeError)"

fun keep_some :: "'a option list \<Rightarrow> 'a list" where
  "keep_some [] = []" |
  "keep_some (None # xs) = keep_some xs" |
  "keep_some (Some x # xs) = x # keep_some xs"

abbreviation sr_id :: "stored_record \<Rightarrow> string" where "sr_id \<equiv> fst"
abbreviation sr_agent :: "stored_record \<Rightarrow> string" where "sr_agent r \<equiv> fst (snd r)"
abbreviation sr_at :: "stored_record \<Rightarrow> string" where "sr_at r \<equiv> fst (snd (snd r))"
abbreviation sr_prev :: "stored_record \<Rightarrow> string" where "sr_prev r \<equiv> snd (snd (snd r))"

text \<open>The loop that follows the predecessors of a tip: it returns whether the walk reached
  genesis, and the identifiers it saw.\<close>
function follow :: "stored_record list \<Rightarrow> string \<Rightarrow> string \<Rightarrow> string list \<Rightarrow> bool \<times> string list" where
  "follow rs agent cur seen =
     (if cur \<in> set seen then (False, seen)
      else case find (\<lambda>r. sr_id r = cur) rs of
        None \<Rightarrow> (False, seen)
      | Some r \<Rightarrow>
          if sr_agent r \<noteq> agent then (False, cur # seen)
          else if sr_prev r = GENESIS_SENTINEL then (True, cur # seen)
          else follow rs agent (sr_prev r) (cur # seen))"
  by pat_completeness auto
termination
proof (relation "measure (\<lambda>(rs, agent, cur, seen). card (sr_id ` set rs - set seen))")
  fix rs :: "stored_record list" and agent cur :: string and seen r
  assume new: "cur \<notin> set seen" and f: "find (\<lambda>r. sr_id r = cur) rs = Some r"
  have "cur \<in> sr_id ` set rs" using f by (auto simp: find_Some_iff)
  with new have "sr_id ` set rs - set (cur # seen) \<subset> sr_id ` set rs - set seen" by auto
  then show "((rs, agent, sr_prev r, cur # seen), (rs, agent, cur, seen))
      \<in> measure (\<lambda>(rs, agent, cur, seen). card (sr_id ` set rs - set seen))"
    by (auto intro: psubset_card_mono)
qed auto

declare follow.simps [simp del]

definition recoverable_head :: "stored_record list \<Rightarrow> string \<Rightarrow> (string \<times> string) option" where
  "recoverable_head rs agent =
     (let own = filter (\<lambda>r. sr_agent r = agent) rs;
          referenced = map sr_prev (filter (\<lambda>r. sr_prev r \<noteq> GENESIS_SENTINEL) own);
          tips = filter (\<lambda>r. sr_id r \<notin> set referenced) own
      in case tips of
           [tip] \<Rightarrow>
             (let (safe, seen) = follow rs agent (sr_id tip) [] in
              if safe \<and> set seen = set (map sr_id own) then Some (sr_id tip, sr_at tip) else None)
         | _ \<Rightarrow> None)"

definition discover_recoverable_heads :: "audit_lib \<Rightarrow> audit_files \<Rightarrow> py_error + (string \<times> string \<times> string) list" where
  "discover_recoverable_heads lib files =
     bind_res (map_res (scan_record lib) (af_records files)) (\<lambda>scanned.
     let rs = keep_some scanned in
     Inr (keep_some (map (\<lambda>a. map_option (Pair a) (recoverable_head rs a)) (rev (remdups (rev (map sr_agent rs)))))))"

text \<open>repair_heads: the heads that differ are written; the first failing write ends it.\<close>
fun repair_each ::
  "audit_lib \<Rightarrow> (string \<Rightarrow> bool) \<Rightarrow> (string \<times> string \<times> string) list \<Rightarrow> audit_files \<Rightarrow> (string, string) dict \<Rightarrow>
   io_error + (string, string) dict \<times> audit_files" where
  "repair_each lib stored [] files repaired = Inr (repaired, files)" |
  "repair_each lib stored ((agent, audit_id, at_iso) # hs) files repaired =
     (case read_head lib files agent of
        Inl e \<Rightarrow> Inl (IORaised e)
      | Inr current \<Rightarrow>
          if map_option ch_audit_id current = Some audit_id then repair_each lib stored hs files repaired
          else (case write_head lib (stored agent) files agent audit_id at_iso of
                  Inl e \<Rightarrow> Inl e
                | Inr files \<Rightarrow> repair_each lib stored hs files (dict_set agent audit_id repaired)))"

definition repair_heads ::
  "audit_lib \<Rightarrow> (string \<Rightarrow> bool) \<Rightarrow> audit_files \<Rightarrow> io_error + (string, string) dict \<times> audit_files" where
  "repair_heads lib stored files =
     (case discover_recoverable_heads lib files of
        Inl e \<Rightarrow> Inl (IORaised e)
      | Inr hs \<Rightarrow> repair_each lib stored hs files [])"

section \<open>Complete chains\<close>

definition next_link :: "string list \<Rightarrow> string" where
  "next_link ids = (case ids of [] \<Rightarrow> GENESIS_SENTINEL | i # _ \<Rightarrow> i)"

definition signature_ok :: "audit_lib \<Rightarrow> (octets \<Rightarrow> string \<Rightarrow> bool) option \<Rightarrow> string \<Rightarrow> bool" where
  "signature_ok lib key jws =
     (case key of None \<Rightarrow> True | Some check \<Rightarrow> is_ok (verify_attribution_record (al_loads lib) check jws))"

text \<open>A stored record whose reader sees the given predecessor.\<close>
definition links_to :: "audit_lib \<Rightarrow> (octets \<Rightarrow> string \<Rightarrow> bool) option \<Rightarrow> string \<Rightarrow> string \<Rightarrow> bool" where
  "links_to lib key jws prev = (is_ascii jws \<and> signature_ok lib key jws \<and>
     (\<exists>h q s. parse_attribution_record (al_loads lib) jws = Inr (h, JObj q, s) \<and> jget q ''previous_audit_id'' = JStr prev))"

text \<open>A chain, newest record first, in which every record links to the next older one and
  the oldest to the sentinel.\<close>
fun linked :: "audit_lib \<Rightarrow> audit_files \<Rightarrow> (octets \<Rightarrow> string \<Rightarrow> bool) option \<Rightarrow> string list \<Rightarrow> bool" where
  "linked lib files key [] = True" |
  "linked lib files key (i # ids) =
     ((\<exists>jws. read_record files i = Inr (Some jws) \<and> links_to lib key jws (next_link ids)) \<and> linked lib files key ids)"

definition chain_ids :: "string list \<Rightarrow> bool" where
  "chain_ids ids = (distinct ids \<and> GENESIS_SENTINEL \<notin> set ids \<and> [] \<notin> set ids)"

lemma note_signature_ok: "signature_ok lib key jws \<Longrightarrow> note_signature lib key i jws r = Inr r"
  by (auto simp: signature_ok_def note_signature_def is_ok_def split: option.splits sum.splits)

lemma previous_link_text:
  "jget q ''previous_audit_id'' = JStr prev \<Longrightarrow> prev \<noteq> [] \<Longrightarrow> previous_link lib (JObj q) = Inr prev"
  by (simp add: previous_link_def)

lemma sentinel_nonempty [simp]: "GENESIS_SENTINEL \<noteq> []"
  by (simp add: GENESIS_SENTINEL_def)

lemma walk_linked:
  assumes "linked lib files key (i # ids)" "chain_ids (i # ids)" "set (i # ids) \<inter> set seen = {}" "length (i # ids) \<le> n"
  shows "walk_loop n lib files key head i seen r =
    Inr (r\<lparr>wr_records_walked := wr_records_walked r + length (i # ids), wr_reached_genesis := True\<rparr>)"
  using assms
proof (induction ids arbitrary: i n seen r)
  case Nil
  then obtain m where m: "n = Suc m" by (cases n) auto
  from Nil.prems(1) obtain jws h q s where j: "read_record files i = Inr (Some jws)" "signature_ok lib key jws"
    "parse_attribution_record (al_loads lib) jws = Inr (h, JObj q, s)" "jget q ''previous_audit_id'' = JStr GENESIS_SENTINEL"
    by (auto simp: links_to_def next_link_def)
  show ?case using Nil.prems(3)
    by (simp add: m j note_signature_ok previous_link_text)
next
  case (Cons i' ids)
  then obtain m where m: "n = Suc m" "length (i' # ids) \<le> m" by (cases n) auto
  from Cons.prems(1) obtain jws h q s where j: "read_record files i = Inr (Some jws)" "signature_ok lib key jws"
    "parse_attribution_record (al_loads lib) jws = Inr (h, JObj q, s)" "jget q ''previous_audit_id'' = JStr i'"
    by (auto simp: links_to_def next_link_def)
  have i': "i' \<noteq> []" "i' \<noteq> GENESIS_SENTINEL" using Cons.prems(2) by (auto simp: chain_ids_def)
  have ch: "chain_ids (i' # ids)" "set (i' # ids) \<inter> set (i # seen) = {}"
    using Cons.prems(2,3) by (auto simp: chain_ids_def)
  have l: "linked lib files key (i' # ids)" using Cons.prems(1) by simp
  have "walk_loop n lib files key head i seen r
      = walk_loop m lib files key head i' (i # seen) (r\<lparr>wr_records_walked := wr_records_walked r + 1\<rparr>)"
    using Cons.prems(3) i' by (simp add: m(1) j note_signature_ok previous_link_text)
  then show ?case using Cons.IH[OF l ch m(2), of "r\<lparr>wr_records_walked := wr_records_walked r + 1\<rparr>"] by simp
qed

text \<open>The clean verdict on a chain.\<close>
definition clean_walk :: "string \<Rightarrow> string \<Rightarrow> nat \<Rightarrow> walk_result" where
  "clean_walk agent_id head n = (new_walk agent_id (Some head))\<lparr>wr_records_walked := n, wr_reached_genesis := True\<rparr>"

lemma clean_walk_sound: "\<not> wr_broken (clean_walk a h n)" "wr_signature_failures (clean_walk a h n) = []"
  "wr_reached_genesis (clean_walk a h n)" "wr_records_walked (clean_walk a h n) = n"
  by (simp_all add: clean_walk_def new_walk_def)

lemma walk_chain_linked:
  assumes "read_head lib files agent = Inr (Some h)" "linked lib files key ids" "ids \<noteq> []" "ch_audit_id h = hd ids"
    "chain_ids ids" "length ids \<le> MAX_WALK_DEPTH"
  shows "walk_chain lib files key agent = Inr (clean_walk agent (hd ids) (length ids))"
proof -
  obtain i rest where ids: "ids = i # rest" using assms(3) by (cases ids) auto
  show ?thesis
    using walk_linked[of lib files key i rest "[]" MAX_WALK_DEPTH i "new_walk agent (Some i)"] assms
    by (simp add: walk_chain_def ids clean_walk_def new_walk_def)
qed

section \<open>Honest histories\<close>

text \<open>What is asked of the JSON functions: written objects are read back with their text
  entries, and a head file is UTF-8.\<close>
definition lib_ok :: "audit_lib \<Rightarrow> bool" where
  "lib_ok lib = (json_faithful (al_canonical lib) (al_loads lib) \<and> json_faithful (al_dumps lib) (al_loads lib) \<and>
     (\<forall>d. is_ok (utf8_decode (al_dumps lib d))))"

text \<open>A verification key fits a service when it accepts what the service signs.\<close>
definition key_fits :: "signing_service \<Rightarrow> (octets \<Rightarrow> string \<Rightarrow> bool) option \<Rightarrow> bool" where
  "key_fits service key =
     (case (service, key) of (Some (sign, _), Some check) \<Rightarrow> \<forall>m. check (sign m) m | _ \<Rightarrow> True)"

lemma is_ascii_jws: "is_ascii (b64url a @ CHR ''.'' # b64url b @ CHR ''.'' # b64url c)"
  using b64url_ascii[of a] b64url_ascii[of b] b64url_ascii[of c] by (simp add: is_ascii_def)

lemma built_links:
  assumes "json_faithful (al_canonical lib) (al_loads lib)" "key_fits service key"
  shows "links_to lib key (ar_jws (build_record lib service f))
    (if rf_previous_audit_id f \<noteq> [] then rf_previous_audit_id f else GENESIS_SENTINEL)"
proof (cases service)
  case None
  have "signature_ok lib key (ar_jws (build_record lib service f))"
  proof (cases key)
    case (Some check)
    from unsigned_passes[OF assms(1), of f check "al_sha256_hex lib"] show ?thesis
      by (auto simp: signature_ok_def build_record_def None Some)
  qed (simp add: signature_ok_def)
  moreover have "is_ascii (ar_jws (build_record lib service f))"
    using None is_ascii_jws[of _ _ "[]"]
    by (simp add: build_record_def build_unsigned_attribution_record_def Let_def signing_input_def)
  ultimately show ?thesis
    using built_record_parses(2)[OF assms(1), of f "al_sha256_hex lib"] None
    unfolding links_to_def carries_def build_record_def by fastforce
next
  case (Some sk)
  obtain sign kid where sk: "sk = (sign, kid)" by fastforce
  have "signature_ok lib key (ar_jws (build_record lib service f))"
  proof (cases key)
    case c: (Some check)
    have "\<And>m. check (sign m) m" using assms(2) by (simp add: key_fits_def Some sk c)
    from signed_record_verifies[OF assms(1), of check sign f "al_sha256_hex lib" kid, OF this] show ?thesis
      by (auto simp: signature_ok_def build_record_def Some sk c)
  qed (simp add: signature_ok_def)
  moreover have "is_ascii (ar_jws (build_record lib service f))"
    using Some sk is_ascii_jws
    by (simp add: build_record_def build_attribution_record_def Let_def signing_input_def)
  ultimately show ?thesis
    using built_record_parses(1)[OF assms(1), of f "al_sha256_hex lib" sign kid] Some sk
    unfolding links_to_def carries_def build_record_def by fastforce
qed

type_synonym trail = "(string \<times> attribution_record) list"

definition own :: "string \<Rightarrow> string \<times> 'a \<Rightarrow> bool" where
  "own stem p = (fst p \<noteq> [] \<and> head_stem (fst p) = stem)"

definition ids_of :: "string \<Rightarrow> trail \<Rightarrow> string list" where
  "ids_of stem t = map (\<lambda>p. ar_audit_id (snd p)) (filter (own stem) t)"

text \<open>A history of appends whose writes succeed, with the records it wrote, newest first.\<close>
fun run_appends ::
  "audit_lib \<Rightarrow> signing_service \<Rightarrow> record_fields list \<Rightarrow> audit_files \<Rightarrow> trail \<Rightarrow> py_error + audit_files \<times> trail" where
  "run_appends lib service [] files t = Inr (files, t)" |
  "run_appends lib service (f # fs) files t =
     bind_res (append_record lib service True True f files) (\<lambda>(r, files').
       run_appends lib service fs files' ((rf_agent_id f, r) # t))"

text \<open>An audit identifier that the hash gives a new record: sixty-four hexadecimal digits,
  not the sentinel, and not the name of a stored record.\<close>
definition fresh_id :: "audit_files \<Rightarrow> string \<Rightarrow> bool" where
  "fresh_id files i = (safe_audit_id i = Inr i \<and> i \<noteq> GENESIS_SENTINEL \<and> dict_get (af_records files) i = None)"

text \<open>No agent name holds a null character and the hash does not collide on the records
  of the history.\<close>
fun honest :: "audit_lib \<Rightarrow> signing_service \<Rightarrow> record_fields list \<Rightarrow> audit_files \<Rightarrow> bool" where
  "honest lib service [] files = True" |
  "honest lib service (f # fs) files =
     (NUL \<notin> set (head_stem (rf_agent_id f)) \<and>
      (case append_record lib service True True f files of
         Inl _ \<Rightarrow> True
       | Inr (r, files') \<Rightarrow> fresh_id files (ar_audit_id r) \<and> honest lib service fs files'))"

definition no_files :: audit_files where
  "no_files = \<lparr>af_heads = [], af_records = []\<rparr>"

definition head_is :: "audit_lib \<Rightarrow> audit_files \<Rightarrow> string \<Rightarrow> string list \<Rightarrow> bool" where
  "head_is lib files stem ids =
     (case ids of [] \<Rightarrow> dict_get (af_heads files) stem = None
      | i # _ \<Rightarrow> \<exists>at_iso. dict_get (af_heads files) stem = Some (al_dumps lib (head_document i at_iso)))"

text \<open>The invariant of an honest history.\<close>
definition good :: "audit_lib \<Rightarrow> (octets \<Rightarrow> string \<Rightarrow> bool) option \<Rightarrow> audit_files \<Rightarrow> trail \<Rightarrow> bool" where
  "good lib key files t = (
     (\<forall>stem. linked lib files key (ids_of stem t) \<and> head_is lib files stem (ids_of stem t)) \<and>
     distinct (map (\<lambda>p. ar_audit_id (snd p)) t) \<and>
     (\<forall>p \<in> set t. safe_audit_id (ar_audit_id (snd p)) = Inr (ar_audit_id (snd p)) \<and>
        ar_audit_id (snd p) \<noteq> GENESIS_SENTINEL) \<and>
     af_records files = rev (map (\<lambda>p. (ar_audit_id (snd p), ar_jws (snd p))) t))"

lemma good_empty: "good lib key no_files []"
  by (simp add: good_def no_files_def ids_of_def head_is_def)

lemma read_head_stored:
  assumes "lib_ok lib" "NUL \<notin> set (head_stem a)"
    and "dict_get (af_heads files) (head_stem a) = Some (al_dumps lib (head_document i at_iso))"
  shows "read_head lib files a = Inr (Some \<lparr>ch_audit_id = i, ch_at_iso = at_iso\<rparr>)"
proof -
  have "dict_ok (head_document i at_iso)" by (simp add: head_document_def)
  then obtain q where q: "al_loads lib (al_dumps lib (head_document i at_iso)) = Some (JObj q)" "same_texts (head_document i at_iso) q"
    using assms(1) unfolding lib_ok_def json_faithful_def by blast
  have "jget q ''last_audit_id'' = JStr i" "jget q ''last_at'' = JStr at_iso"
    by (rule same_textsD[OF q(2)]; simp add: head_document_def)+
  with assms q(1) show ?thesis by (simp add: read_head_def lib_ok_def)
qed

lemma previous_of_good:
  assumes "lib_ok lib" "NUL \<notin> set (head_stem a)" "a \<noteq> []" "head_is lib files (head_stem a) ids"
  shows "previous_of lib files a = Inr (case ids of [] \<Rightarrow> [] | i # _ \<Rightarrow> i)"
proof (cases ids)
  case Nil
  with assms show ?thesis by (simp add: previous_of_def read_head_def head_is_def)
next
  case (Cons i rest)
  with assms(4) obtain at_iso where "dict_get (af_heads files) (head_stem a) = Some (al_dumps lib (head_document i at_iso))"
    by (auto simp: head_is_def)
  from read_head_stored[OF assms(1,2) this] assms(3) Cons show ?thesis by (simp add: previous_of_def)
qed

lemma linked_cong:
  "(\<And>i. i \<in> set ids \<Longrightarrow> read_record files' i = read_record files i) \<Longrightarrow>
   linked lib files' key ids = linked lib files key ids"
  by (induction ids) simp_all

lemma update_fresh: "k \<notin> fst ` set d \<Longrightarrow> AList.update k v d = d @ [(k, v)]"
  by (induction d) auto

lemma build_record_ascii:
  "json_faithful (al_canonical lib) (al_loads lib) \<Longrightarrow> is_ascii (ar_jws (build_record lib service f))"
  using built_links[of lib service None f] by (simp add: key_fits_def links_to_def split: option.splits)

text \<open>The outcome of an append whose writes succeed.\<close>
lemma append_outcome:
  assumes l: "lib_ok lib" and n: "NUL \<notin> set (head_stem (rf_agent_id f))" and p: "previous_of lib files (rf_agent_id f) = Inr prev"
    and s: "safe_audit_id (ar_audit_id r) = Inr (ar_audit_id r)"
    and r_def: "r = build_record lib service (f\<lparr>rf_previous_audit_id := prev\<rparr>)"
  shows "append_record lib service True True f files = Inr (r,
     \<lparr>af_heads = (if rf_agent_id f \<noteq> [] then dict_set (head_stem (rf_agent_id f))
          (al_dumps lib (head_document (ar_audit_id r) (rf_issued_at f))) (af_heads files) else af_heads files),
      af_records = dict_set (ar_audit_id r) (ar_jws r) (af_records files)\<rparr>)"
proof -
  have a: "is_ascii (ar_jws r)" unfolding r_def using l build_record_ascii by (simp add: lib_ok_def)
  have w: "write_record True files (ar_audit_id r) (ar_jws r)
      = Inr (files\<lparr>af_records := dict_set (ar_audit_id r) (ar_jws r) (af_records files)\<rparr>)"
    using s a by (simp add: write_record_def)
  show ?thesis
    using n w unfolding append_record_def p bind_res_simps Let_def r_def[symmetric] w best_effort_def
    by (cases files) (simp add: write_head_def)
qed

lemma append_id:
  assumes "append_record lib service rs hs f files = Inr (r, files')"
  shows "\<exists>prev. previous_of lib files (rf_agent_id f) = Inr prev \<and> r = build_record lib service (f\<lparr>rf_previous_audit_id := prev\<rparr>)"
  using assms unfolding append_record_def bind_res_Inr Let_def by (auto simp: bind_res_Inr)

lemma ids_of_Cons:
  "ids_of stem ((a, r) # t) = (if a \<noteq> [] \<and> head_stem a = stem then ar_audit_id r # ids_of stem t else ids_of stem t)"
  by (simp add: ids_of_def own_def)

lemma ids_of_subset: "set (ids_of stem t) \<subseteq> (\<lambda>p. ar_audit_id (snd p)) ` set t"
  by (auto simp: ids_of_def)

lemma no_empty_id [simp]: "safe_audit_id [] = Inl ValueError"
  by (simp add: safe_audit_id_def strip_def lstrip_def rstrip_def lower_def)

lemma good_id:
  "good lib key files t \<Longrightarrow> i \<in> (\<lambda>p. ar_audit_id (snd p)) ` set t \<Longrightarrow> safe_audit_id i = Inr i \<and> i \<noteq> GENESIS_SENTINEL"
  by (auto simp: good_def)

lemma good_append:
  assumes l: "lib_ok lib" and k: "key_fits service key" and g: "good lib key files t"
    and n: "NUL \<notin> set (head_stem (rf_agent_id f))"
    and a: "append_record lib service True True f files = Inr (r, files')" and fr: "fresh_id files (ar_audit_id r)"
  shows "good lib key files' ((rf_agent_id f, r) # t)"
proof -
  define ag where "ag = rf_agent_id f"
  define i where "i = ar_audit_id r"
  obtain prev where prev: "previous_of lib files ag = Inr prev" "r = build_record lib service (f\<lparr>rf_previous_audit_id := prev\<rparr>)"
    using append_id[OF a] unfolding ag_def by blast
  have safe: "safe_audit_id i = Inr i" "i \<noteq> GENESIS_SENTINEL" and new: "i \<notin> fst ` set (af_records files)"
    using fr by (auto simp: fresh_id_def i_def map_of_eq_None_iff)
  have files': "files' = \<lparr>af_heads = (if ag \<noteq> [] then dict_set (head_stem ag)
          (al_dumps lib (head_document i (rf_issued_at f))) (af_heads files) else af_heads files),
      af_records = dict_set i (ar_jws r) (af_records files)\<rparr>"
    using append_outcome[OF l n prev(1)[unfolded ag_def] _ prev(2)] a safe(1)
    unfolding ag_def i_def by simp
  have recs: "af_records files = rev (map (\<lambda>p. (ar_audit_id (snd p), ar_jws (snd p))) t)"
    and heads: "\<And>stem. linked lib files key (ids_of stem t)" "\<And>stem. head_is lib files stem (ids_of stem t)"
    using g by (simp_all add: good_def)
  have old: "i \<notin> (\<lambda>p. ar_audit_id (snd p)) ` set t" using new unfolding recs by (auto simp: image_iff)
  have same: "read_record files' j = read_record files j" if "j \<in> (\<lambda>p. ar_audit_id (snd p)) ` set t" for j
  proof -
    have "safe_audit_id j = Inr j" "j \<noteq> i" using that old g by (auto simp: good_def)
    then show ?thesis by (simp add: read_record_def files')
  qed
  have keep: "linked lib files' key (ids_of stem t)" for stem
    using heads(1)[of stem] linked_cong[OF same] ids_of_subset[of stem t] by (meson subsetD)
  have link: "links_to lib key (ar_jws r) (if prev \<noteq> [] then prev else GENESIS_SENTINEL)"
    using built_links[of lib service key "f\<lparr>rf_previous_audit_id := prev\<rparr>"] l k
    by (cases "prev = []") (simp_all add: lib_ok_def prev(2))
  have here: "read_record files' i = Inr (Some (ar_jws r))"
    using safe link by (simp add: read_record_def files' links_to_def)
  have "linked lib files' key (ids_of stem ((ag, r) # t))" for stem
  proof (cases "ag \<noteq> [] \<and> head_stem ag = stem")
    case True
    have ne: "j \<noteq> []" if "j \<in> set (ids_of stem t)" for j
      using good_id[OF g subsetD[OF ids_of_subset that]] by auto
    have "prev = (case ids_of stem t of [] \<Rightarrow> [] | j # _ \<Rightarrow> j)"
      using previous_of_good[OF l n[folded ag_def], of files "ids_of stem t"] heads(2)[of stem] True prev(1) by simp
    then have "(if prev \<noteq> [] then prev else GENESIS_SENTINEL) = next_link (ids_of stem t)"
      using ne by (auto simp: next_link_def split: list.splits)
    with link here keep[of stem] True show ?thesis by (simp add: ids_of_Cons i_def[symmetric])
  next
    case False
    with keep show ?thesis by (auto simp: ids_of_Cons)
  qed
  moreover have "head_is lib files' stem (ids_of stem ((ag, r) # t))" for stem
    using heads(2)[of stem] by (auto simp: ids_of_Cons head_is_def files' i_def split: list.splits)
  moreover have "af_records files' = rev (map (\<lambda>p. (ar_audit_id (snd p), ar_jws (snd p))) ((ag, r) # t))"
    using update_fresh[OF new, of "ar_jws r"] by (simp add: files' recs i_def)
  ultimately show ?thesis using g old safe unfolding good_def ag_def i_def by auto
qed

lemma good_run:
  assumes "lib_ok lib" "key_fits service key" "good lib key files t" "honest lib service fs files"
    and "run_appends lib service fs files t = Inr (files', t')"
  shows "good lib key files' t' \<and>
    map fst t' = rev (map rf_agent_id fs) @ map fst t"
  using assms(3-)
proof (induction fs arbitrary: files t)
  case Nil
  then show ?case by simp
next
  case (Cons f fs)
  from Cons.prems(3) obtain r files1 where a: "append_record lib service True True f files = Inr (r, files1)"
    and run: "run_appends lib service fs files1 ((rf_agent_id f, r) # t) = Inr (files', t')"
    by (auto simp: bind_res_Inr)
  have h: "NUL \<notin> set (head_stem (rf_agent_id f))" "fresh_id files (ar_audit_id r)" "honest lib service fs files1"
    using Cons.prems(2) by (simp_all add: a)
  show ?case
    using Cons.IH[OF good_append[OF assms(1,2) Cons.prems(1) h(1) a h(2)] h(3) run] by simp
qed

lemma ids_of_length: "length (ids_of stem t) = length (filter (\<lambda>a. a \<noteq> [] \<and> head_stem a = stem) (map fst t))"
  by (simp add: ids_of_def own_def[abs_def] filter_map comp_def)

text \<open>The number of records of a history that chain under one head file.\<close>
definition own_count :: "string \<Rightarrow> record_fields list \<Rightarrow> nat" where
  "own_count stem fs = length (filter (\<lambda>f. rf_agent_id f \<noteq> [] \<and> head_stem (rf_agent_id f) = stem) fs)"

lemma run_own_count:
  "map fst t = rev (map rf_agent_id fs) \<Longrightarrow> length (ids_of stem t) = own_count stem fs"
proof -
  assume m: "map fst t = rev (map rf_agent_id fs)"
  have "length (filter P (rev xs)) = length (filter P xs)" for P and xs :: "string list"
    by (simp add: rev_filter[symmetric])
  then show ?thesis unfolding ids_of_length m own_count_def by (simp add: filter_map comp_def)
qed

lemma good_chain_ids: "good lib key files t \<Longrightarrow> chain_ids (ids_of stem t)"
proof -
  assume g: "good lib key files t"
  have "distinct (ids_of stem t)" unfolding ids_of_def
    using g by (auto simp: good_def distinct_map intro: inj_on_subset)
  then show ?thesis using good_id[OF g subsetD[OF ids_of_subset]] by (fastforce simp: chain_ids_def)
qed

lemma good_walk:
  assumes l: "lib_ok lib" and g: "good lib key files t" and n: "NUL \<notin> set (head_stem a)"
    and ne: "ids_of (head_stem a) t \<noteq> []" and d: "length (ids_of (head_stem a) t) \<le> MAX_WALK_DEPTH"
  shows "walk_chain lib files key a = Inr (clean_walk a (hd (ids_of (head_stem a) t)) (length (ids_of (head_stem a) t)))"
proof -
  obtain i ids where ids: "ids_of (head_stem a) t = i # ids" using ne by (cases "ids_of (head_stem a) t") auto
  have "head_is lib files (head_stem a) (i # ids)" using g ids unfolding good_def by metis
  then obtain at_iso where h: "dict_get (af_heads files) (head_stem a) = Some (al_dumps lib (head_document i at_iso))"
    by (auto simp: head_is_def)
  have "linked lib files key (ids_of (head_stem a) t)" using g by (simp add: good_def)
  then show ?thesis
    using walk_chain_linked[OF read_head_stored[OF l n h], of key "ids_of (head_stem a) t"] good_chain_ids[OF g, of "head_stem a"] ids d by simp
qed


section \<open>What the check does not notice\<close>

text \<open>Two contents of the store that differ in one record, where both texts look alike to
  the check: readable, with a passing signature and the same predecessor.\<close>
lemma walk_loop_replaced:
  assumes o: "dict_get (af_records files) i = Some jws" "links_to lib key jws prev"
    and f: "links_to lib key forged prev"
  shows "walk_loop n lib (files\<lparr>af_records := dict_set i forged (af_records files)\<rparr>) key head current seen r
    = walk_loop n lib files key head current seen r"
proof (induction n arbitrary: current seen r)
  case 0
  then show ?case by simp
next
  case (Suc n)
  let ?files = "files\<lparr>af_records := dict_set i forged (af_records files)\<rparr>"
  from o(2) obtain h q s where jo: "is_ascii jws" "signature_ok lib key jws"
    "parse_attribution_record (al_loads lib) jws = Inr (h, JObj q, s)" "jget q ''previous_audit_id'' = JStr prev"
    by (auto simp: links_to_def)
  from f obtain h' q' s' where jf: "is_ascii forged" "signature_ok lib key forged"
    "parse_attribution_record (al_loads lib) forged = Inr (h', JObj q', s')" "jget q' ''previous_audit_id'' = JStr prev"
    by (auto simp: links_to_def)
  have prevs: "previous_link lib (JObj q') = previous_link lib (JObj q)" by (simp add: previous_link_def jo(4) jf(4))
  show ?case
  proof (cases "safe_audit_id current = Inr i")
    case True
    then have "read_record files current = Inr (Some jws)" "read_record ?files current = Inr (Some forged)"
      using o(1) jo(1) jf(1) by (simp_all add: read_record_def)
    then show ?thesis by (simp add: jo(3) jf(3) note_signature_ok[OF jo(2)] note_signature_ok[OF jf(2)] prevs Suc.IH cong: if_cong)
  next
    case False
    then have eq: "read_record ?files current = read_record files current"
      by (auto simp: read_record_def split: sum.splits)
    show ?thesis by (simp only: walk_loop.simps eq Suc.IH)
  qed
qed

text \<open>C32: The integrity check does not notice a forged record, not even with the key.  Any
  stored record of any chain can be overwritten by an unsigned record of arbitrary content
  that repeats its predecessor, and the verdict on every agent stays what it was.\<close>
theorem forged_record_unnoticed:
  assumes lib: "lib_ok lib" and stored: "dict_get (af_records files) i = Some jws"
    and genuine: "links_to lib key jws prev" and prev: "prev \<noteq> []"
    and forged: "forged = ar_jws (build_unsigned_attribution_record (al_canonical lib) (al_sha256_hex lib)
                   (f\<lparr>rf_previous_audit_id := prev\<rparr>))"
  shows "walk_chain lib (files\<lparr>af_records := dict_set i forged (af_records files)\<rparr>) key agent
    = walk_chain lib files key agent"
proof -
  have "links_to lib key forged prev"
    using built_links[of lib None key "f\<lparr>rf_previous_audit_id := prev\<rparr>"] lib prev
    by (simp add: forged build_record_def key_fits_def lib_ok_def)
  note same = walk_loop_replaced[OF stored genuine this]
  have "read_head lib (files\<lparr>af_records := x\<rparr>) agent = read_head lib files agent" for x
    by (simp add: read_head_def)
  then show ?thesis by (simp only: walk_chain_def same)
qed

text \<open>An append whose record write fails while its head write succeeds leaves a head that
  points nowhere: the check reports an orphaned head, as if the store had been tampered
  with.\<close>
lemma lost_record_orphans_head:
  assumes l: "lib_ok lib" and n: "NUL \<notin> set (head_stem (rf_agent_id f))" and ag: "rf_agent_id f \<noteq> []"
    and a: "append_record lib service False True f files = Inr (r, files')" and fr: "fresh_id files (ar_audit_id r)"
  shows "\<exists>w. walk_chain lib files' key (rf_agent_id f) = Inr w \<and> wr_broken w \<and> wr_orphaned_head w \<and>
     wr_break_at w = Some (ar_audit_id r) \<and> wr_records_walked w = 0"
proof -
  define i where "i = ar_audit_id r"
  have safe: "safe_audit_id i = Inr i" "dict_get (af_records files) i = None" using fr by (simp_all add: fresh_id_def i_def)
  obtain prev where prev: "previous_of lib files (rf_agent_id f) = Inr prev" "r = build_record lib service (f\<lparr>rf_previous_audit_id := prev\<rparr>)"
    using append_id[OF a] by blast
  have files': "files' = files\<lparr>af_heads := dict_set (head_stem (rf_agent_id f)) (al_dumps lib (head_document i (rf_issued_at f))) (af_heads files)\<rparr>"
    using a n ag safe(1) unfolding append_record_def prev(1) bind_res_simps Let_def prev(2)[symmetric]
    by (simp add: write_record_def best_effort_def write_head_def i_def)
  have "dict_get (af_heads files') (head_stem (rf_agent_id f)) = Some (al_dumps lib (head_document i (rf_issued_at f)))"
    by (simp add: files')
  note h = read_head_stored[OF l n this]
  have "read_record files' i = Inr None" using safe by (simp add: read_record_def files')
  moreover obtain m where m: "MAX_WALK_DEPTH = Suc m"
    using not0_implies_Suc[of MAX_WALK_DEPTH] by (auto simp: MAX_WALK_DEPTH_def)
  ultimately show ?thesis unfolding walk_chain_def h m by (simp add: i_def new_walk_def)
qed

text \<open>A wrong signature is reported and does not count: a chain whose records all fail the
  given key is not broken and the tool exits with success.\<close>
lemma failures_do_not_break: "(\<And>r. r \<in> set rs \<Longrightarrow> \<not> wr_broken r) \<Longrightarrow> exit_code rs = 0"
  by (induction rs) (auto simp: exit_code_def broken_chains_def)

section \<open>Repaired heads\<close>

text \<open>A list of stored records of one agent, from a tip back to a first record.\<close>
fun descent :: "stored_record list \<Rightarrow> string \<Rightarrow> stored_record list \<Rightarrow> bool" where
  "descent rs agent [] = False" |
  "descent rs agent [r] = (r \<in> set rs \<and> sr_agent r = agent \<and> sr_prev r = GENESIS_SENTINEL)" |
  "descent rs agent (r # r' # ds) =
     (r \<in> set rs \<and> sr_agent r = agent \<and> sr_prev r = sr_id r' \<and> descent rs agent (r' # ds))"

lemma descent_head: "descent rs agent ds \<Longrightarrow> hd ds \<in> set rs"
  by (induction rs agent ds rule: descent.induct) auto

lemma follow_descent:
  "follow rs agent cur seen = (True, seen') \<Longrightarrow>
   \<exists>ds. descent rs agent ds \<and> sr_id (hd ds) = cur \<and> seen' = rev (map sr_id ds) @ seen"
proof (induction rs agent cur seen rule: follow.induct)
  case (1 rs agent cur seen)
  from 1(2) obtain r where r: "cur \<notin> set seen" "find (\<lambda>r. sr_id r = cur) rs = Some r" "sr_agent r = agent"
    by (auto simp: follow.simps[of rs agent cur seen] split: if_splits option.splits)
  have mem: "r \<in> set rs" "sr_id r = cur" using r(2) by (auto simp: find_Some_iff)
  show ?case
  proof (cases "sr_prev r = GENESIS_SENTINEL")
    case True
    with 1(2) r have "seen' = cur # seen" by (simp add: follow.simps[of rs agent cur seen])
    with True r(3) mem show ?thesis by (intro exI[of _ "[r]"]) simp
  next
    case False
    with 1(2) r have "follow rs agent (sr_prev r) (cur # seen) = (True, seen')"
      by (simp add: follow.simps[of rs agent cur seen])
    with 1(1)[OF r(1,2)] r(3) False obtain ds where ds: "descent rs agent ds" "sr_id (hd ds) = sr_prev r"
      "seen' = rev (map sr_id ds) @ cur # seen" by auto
    then have "descent rs agent (r # ds)" using mem r(3) by (cases ds) auto
    with ds(3) mem(2) show ?thesis by (intro exI[of _ "r # ds"]) simp
  qed
qed

text \<open>C33: The repair installs only heads of complete chains.  A head it infers for an agent
  is a stored record from which the predecessors lead to a first record, through every
  stored record of this agent and no other, and no record of the agent refers to it.\<close>
theorem recovered_head_complete:
  assumes d: "distinct (map sr_id rs)" and r: "recoverable_head rs agent = Some (tip, at_iso)"
  shows "\<exists>ds. descent rs agent ds \<and> sr_id (hd ds) = tip \<and> sr_at (hd ds) = at_iso \<and>
    set (map sr_id ds) = {sr_id r | r. r \<in> set rs \<and> sr_agent r = agent} \<and>
    (\<forall>r \<in> set rs. sr_agent r = agent \<and> sr_prev r \<noteq> GENESIS_SENTINEL \<longrightarrow> sr_prev r \<noteq> tip)"
proof -
  define ours where "ours = filter (\<lambda>r. sr_agent r = agent) rs"
  define referenced where "referenced = map sr_prev (filter (\<lambda>r. sr_prev r \<noteq> GENESIS_SENTINEL) ours)"
  from r obtain t seen where t: "filter (\<lambda>r. sr_id r \<notin> set referenced) ours = [t]"
    "follow rs agent (sr_id t) [] = (True, seen)" "set seen = set (map sr_id ours)" "tip = sr_id t" "at_iso = sr_at t"
    unfolding recoverable_head_def Let_def ours_def[symmetric] referenced_def[symmetric]
    by (auto split: list.splits prod.splits if_splits)
  have t_in: "t \<in> set rs" "tip \<notin> set referenced"
  proof -
    have "t \<in> set (filter (\<lambda>r. sr_id r \<notin> set referenced) ours)" unfolding t(1) by simp
    then show "t \<in> set rs" "tip \<notin> set referenced" by (auto simp: ours_def t(4))
  qed
  obtain ds where ds: "descent rs agent ds" "sr_id (hd ds) = tip" "set (map sr_id ds) = set (map sr_id ours)"
    using follow_descent[OF t(2)] t(3,4) by auto
  have "hd ds \<in> set rs" using descent_head[OF ds(1)] .
  then have "hd ds = t" using d ds(2) t_in(1) t(4) by (auto simp: distinct_map inj_on_def)
  moreover have "\<forall>r \<in> set rs. sr_agent r = agent \<and> sr_prev r \<noteq> GENESIS_SENTINEL \<longrightarrow> sr_prev r \<noteq> tip"
    using t_in(2) by (auto simp: referenced_def ours_def)
  moreover have "set (map sr_id ours) = {sr_id r | r. r \<in> set rs \<and> sr_agent r = agent}"
    unfolding ours_def set_map set_filter by blast
  ultimately show ?thesis using ds t(5) by blast
qed

section \<open>Examples\<close>

text \<open>A pair of functions with the properties asked of the JSON functions: the writer
  writes the text entries of an object, one character as three bytes below 128.\<close>

definition example_chars :: "string \<Rightarrow> nat list" where
  "example_chars s = concat (map (\<lambda>c. [1, of_char c div 16, of_char c mod 16]) s) @ [0]"

definition example_dumps :: "jobj \<Rightarrow> octets" where
  "example_dumps d = map word_of_nat (concat (map (\<lambda>(k, v).
     case v of JStr s \<Rightarrow> example_chars k @ example_chars s | _ \<Rightarrow> []) d))"

fun example_texts :: "nat list \<Rightarrow> string \<Rightarrow> string list" where
  "example_texts (0 # r) acc = acc # example_texts r []" |
  "example_texts (x # a # b # r) acc = example_texts r (acc @ [char_of (a * 16 + b)])" |
  "example_texts r acc = []"

fun example_pairs :: "string list \<Rightarrow> jobj" where
  "example_pairs (k # s # r) = (k, JStr s) # example_pairs r" |
  "example_pairs r = []"

definition example_loads :: "octets \<Rightarrow> json option" where
  "example_loads bs = Some (JObj (example_pairs (example_texts (map unat bs) [])))"

lemma example_texts_char:
  "example_texts (1 # a # b # r) acc = example_texts r (acc @ [char_of (a * 16 + b)])"
  by simp

lemma example_texts_chars: "example_texts (example_chars s @ r) acc = (acc @ s) # example_texts r []"
proof (induction s arbitrary: acc)
  case Nil
  then show ?case by (simp add: example_chars_def)
next
  case (Cons c s)
  have "example_chars (c # s) @ r = 1 # (of_char c div 16) # (of_char c mod 16) # example_chars s @ r"
    by (simp add: example_chars_def)
  then show ?case by (simp only: example_texts_char div_mult_mod_eq char_of_char Cons.IH append_assoc append_Cons append_Nil)
qed

lemma example_chars_small: "b \<in> set (example_chars s) \<Longrightarrow> b < 128"
proof (induction s)
  case (Cons c s)
  have "(of_char c :: nat) div 16 < 16" using nat_of_char_less_256[of c] by (simp add: less_mult_imp_div_less)
  then have "(of_char c :: nat) div 16 < 128" "(of_char c :: nat) mod 16 < 128" by simp_all
  moreover have "example_chars (c # s) = [1, of_char c div 16, of_char c mod 16] @ example_chars s"
    by (simp add: example_chars_def)
  ultimately show ?case using Cons by auto
qed (simp add: example_chars_def)

definition example_lib :: audit_lib where
  "example_lib = \<lparr>al_canonical = example_dumps, al_dumps = example_dumps, al_loads = example_loads,
     al_sha256_hex = (\<lambda>s. replicate 64 (CHR ''a'')), al_str = (\<lambda>v. [])\<rparr>"

lemma example_written:
  "example_pairs (example_texts (concat (map (\<lambda>(k, v).
     case v of JStr s \<Rightarrow> example_chars k @ example_chars s | _ \<Rightarrow> []) d)) [])
   = filter (\<lambda>(k, v). case v of JStr s \<Rightarrow> True | _ \<Rightarrow> False) d"
  by (induction d) (auto simp: example_texts_chars split: json.split)

lemma example_bytes:
  fixes d :: jobj
  assumes "b \<in> set (concat (map (\<lambda>(k, v). case v of JStr s \<Rightarrow> example_chars k @ example_chars s | _ \<Rightarrow> []) d))"
  shows "b < 128"
  using assms by (auto split: json.splits dest: example_chars_small)

lemma example_unat:
  fixes bs :: "nat list"
  shows "(\<And>b. b \<in> set bs \<Longrightarrow> b < 128) \<Longrightarrow> map unat (map word_of_nat bs :: octets) = bs"
proof (induction bs)
  case (Cons b bs)
  have "b < 128" by (rule Cons.prems) simp
  then have "b mod 256 = b" by simp
  with Cons show ?case by (simp add: unat_of_nat)
qed simp

lemma utf8_points_small: "(\<And>b. b \<in> set bs \<Longrightarrow> b < 128) \<Longrightarrow> utf8_points bs = Some bs"
  by (induction bs) simp_all

lemma same_texts_filter:
  "dict_ok d \<Longrightarrow> same_texts d (filter (\<lambda>(k, v). case v of JStr s \<Rightarrow> True | _ \<Rightarrow> False) d)"
  by (auto simp: same_texts_def dict_ok_filter map_of_eq_Some_iff)

lemma example_lib_ok: "lib_ok example_lib"
proof -
  have u: "map unat (example_dumps d) = concat (map (\<lambda>(k, v).
      case v of JStr s \<Rightarrow> example_chars k @ example_chars s | _ \<Rightarrow> []) d)" for d
    unfolding example_dumps_def using example_bytes by (rule example_unat)
  have "json_faithful example_dumps example_loads"
    unfolding json_faithful_def example_loads_def u example_written using same_texts_filter by blast
  moreover have "utf8_points (map unat (example_dumps d)) = Some (map unat (example_dumps d))" for d
    unfolding u using example_bytes by (rule utf8_points_small)
  then have "is_ok (utf8_decode (example_dumps d))" for d
    by (simp add: utf8_decode_def)
  ultimately show ?thesis by (simp add: lib_ok_def example_lib_def)
qed

definition example_fields :: record_fields where
  "example_fields = \<lparr>rf_agent_id = ''agent'', rf_owner_id = ''owner'', rf_principal_id = [], rf_server_id = ''srv'',
     rf_session_id = [], rf_task_id = ''t1'', rf_request_id = ''r1'', rf_response_id = ''resp-1'',
     rf_issued_at = ''2026-01-01T00:00:00Z'', rf_status = 200, rf_previous_audit_id = [], rf_extra = JNull\<rparr>"

lemma example_run:
  obtains files t where "run_appends example_lib None [example_fields] no_files [] = Inr (files, t)"
    "honest example_lib None [example_fields] no_files"
proof -
  define r where "r = build_record example_lib None (example_fields\<lparr>rf_previous_audit_id := []\<rparr>)"
  have i: "ar_audit_id r = replicate 64 (CHR ''a'')"
    by (simp add: r_def build_record_def build_unsigned_attribution_record_def example_lib_def Let_def)
  have s: "safe_audit_id (replicate 64 (CHR ''a'')) = Inr (replicate 64 (CHR ''a''))"
    by code_simp
  have n: "NUL \<notin> set (head_stem (rf_agent_id example_fields))" by code_simp
  have p: "previous_of example_lib no_files (rf_agent_id example_fields) = Inr []"
    using n by (simp add: previous_of_def read_head_def no_files_def example_fields_def)
  obtain files where a: "append_record example_lib None True True example_fields no_files = Inr (r, files)"
    using append_outcome[OF example_lib_ok n p _ r_def] s by (simp add: i)
  have "replicate 64 (CHR ''a'') \<noteq> GENESIS_SENTINEL"
    by (simp add: GENESIS_SENTINEL_def replicate_eq_replicate)
  then have "fresh_id no_files (ar_audit_id r)" using s by (simp add: fresh_id_def i no_files_def)
  with n have "honest example_lib None [example_fields] no_files" by (simp add: a)
  with a that show ?thesis by simp
qed


definition example_genuine :: string where
  "example_genuine = ar_jws (build_record example_lib (Some (\<lambda>s. [1], ''kid'')) example_fields)"

definition example_forged :: string where
  "example_forged = ar_jws (build_unsigned_attribution_record (al_canonical example_lib) (al_sha256_hex example_lib)
     ((example_fields\<lparr>rf_status := 500\<rparr>)\<lparr>rf_previous_audit_id := GENESIS_SENTINEL\<rparr>))"

definition example_files :: audit_files where
  "example_files = \<lparr>af_heads = [], af_records = [(replicate 64 (CHR ''a''), example_genuine)]\<rparr>"

lemma forged_record_unnoticed_witness:
  "walk_chain example_lib (example_files\<lparr>af_records := dict_set (replicate 64 (CHR ''a'')) example_forged (af_records example_files)\<rparr>)
       (Some (\<lambda>s m. s = [1])) ''agent''
     = walk_chain example_lib example_files (Some (\<lambda>s m. s = [1])) ''agent''"
proof -
  have k: "links_to example_lib (Some (\<lambda>s m. s = [1])) example_genuine GENESIS_SENTINEL"
    using built_links[of example_lib "Some (\<lambda>s. [1], ''kid'')" "Some (\<lambda>s m. s = [1])" example_fields] example_lib_ok
    by (simp add: example_genuine_def lib_ok_def key_fits_def example_fields_def)
  show ?thesis
    by (rule forged_record_unnoticed[OF example_lib_ok _ k sentinel_nonempty example_forged_def]) (simp add: example_files_def)
qed

lemma recovered_head_complete_witness:
  "recoverable_head [(''i1'', ''a'', ''t1'', GENESIS_SENTINEL), (''i2'', ''a'', ''t2'', ''i1'')] ''a'' = Some (''i2'', ''t2'') \<and>
   (\<exists>ds. descent [(''i1'', ''a'', ''t1'', GENESIS_SENTINEL), (''i2'', ''a'', ''t2'', ''i1'')] ''a'' ds \<and> sr_id (hd ds) = ''i2'')"
proof -
  have n: "''i1'' \<noteq> GENESIS_SENTINEL" "''i2'' \<noteq> GENESIS_SENTINEL" by (simp_all add: GENESIS_SENTINEL_def numeral_eq_Suc)
  have r: "recoverable_head [(''i1'', ''a'', ''t1'', GENESIS_SENTINEL), (''i2'', ''a'', ''t2'', ''i1'')] ''a'' = Some (''i2'', ''t2'')"
    using n by (simp add: recoverable_head_def Let_def follow.simps insert_commute del: set_filter set_map)
  have d: "distinct (map sr_id [(''i1'', ''a'', ''t1'', GENESIS_SENTINEL), (''i2'', ''a'', ''t2'', ''i1'')])" by simp
  from recovered_head_complete[OF d r] r show ?thesis by blast
qed

end
