(* ===== verification/Chain_Walker.thy ===== *)
theory Chain_Walker
  imports Attribution
begin

text \<open>
  The walker of the chain inspector (tools/chain_inspector/walker.py): it follows the
  predecessors of an audit record breadth-first, over the daemons of all the agents that
  contributed.

  One request to a daemon is an argument, fetch; so are the JSON reader, the check of the
  issuer key and the text form of a JSON value; of an exception that becomes a fetch error its text is
  dropped.  The loop ends because every turn either
  adds a step, of which there are at most max_steps, or shortens the frontier.  The main
  results: every step is reached by the links of its parents and visited once
  (walk_follows_links), and a daemon can answer any identifier with any record
  (any_record_passes).
\<close>

record inspect_result =
  ir_ok :: bool
  ir_status_code :: int
  ir_error :: string
  ir_body :: octets

record prior_action =
  pa_agent_id :: string
  pa_audit_id :: string
  pa_agent_uri :: string

record chain_step =
  cs_step_id :: nat
  cs_audit_id :: string
  cs_agent_id :: string
  cs_agent_uri :: string
  cs_jws :: string
  cs_header :: json
  cs_payload :: json
  cs_previous_audit_id :: string
  cs_prior_actions :: "prior_action list"
  cs_signed :: bool
  cs_verified :: "bool option"
  cs_fetch_error :: string
  cs_parent_step_ids :: "nat list"

record walker =
  wk_fetch :: "string \<Rightarrow> string \<Rightarrow> inspect_result"
  wk_loads :: "octets \<Rightarrow> json option"
  wk_str :: "json \<Rightarrow> string"
  wk_issuer_key :: "(octets \<Rightarrow> string \<Rightarrow> bool) option"
  wk_known_agents :: "(string, string) dict"

definition failed_step :: "nat \<Rightarrow> string \<Rightarrow> string \<Rightarrow> string \<Rightarrow> chain_step" where
  "failed_step step_id audit_id uri msg =
     \<lparr>cs_step_id = step_id, cs_audit_id = audit_id, cs_agent_id = [], cs_agent_uri = uri, cs_jws = [],
      cs_header = JObj [], cs_payload = JObj [], cs_previous_audit_id = [], cs_prior_actions = [],
      cs_signed = False, cs_verified = None, cs_fetch_error = msg, cs_parent_step_ids = []\<rparr>"

section \<open>One record\<close>

text \<open>An entry of extra.prior_actions; entries of another shape are skipped.\<close>
definition prior_action_of :: "walker \<Rightarrow> json \<Rightarrow> prior_action option" where
  "prior_action_of w entry =
     (case entry of
        JObj d \<Rightarrow>
          (case (jget d ''agent_id'', jget d ''audit_id'') of
             (JStr aid, JStr auid) \<Rightarrow>
               if aid = [] \<or> auid = [] then None
               else let uri = jor (jget d ''agent_uri'') (JStr []) in
                 Some \<lparr>pa_agent_id = lower aid, pa_audit_id = lower auid,
                       pa_agent_uri = (if truthy uri then py_str (wk_str w) uri else [])\<rparr>
           | _ \<Rightarrow> None)
      | _ \<Rightarrow> None)"

definition parse_prior_actions :: "walker \<Rightarrow> jobj \<Rightarrow> prior_action list" where
  "parse_prior_actions w payload =
     (case jget payload ''extra'' of
        JObj extra \<Rightarrow> (case jget extra ''prior_actions'' of
           JArr raw \<Rightarrow> List.map_filter (prior_action_of w) raw
         | _ \<Rightarrow> [])
      | _ \<Rightarrow> [])"

definition verified_flag :: "walker \<Rightarrow> string \<Rightarrow> bool \<Rightarrow> py_error + bool option" where
  "verified_flag w jws eddsa =
     (case wk_issuer_key w of
        None \<Rightarrow> Inr None
      | Some check \<Rightarrow>
          if \<not> eddsa then Inr None
          else (case verify_attribution_record (wk_loads w) check jws of
                  Inr _ \<Rightarrow> Inr (Some True)
                | Inl AttributionRecordError \<Rightarrow> Inr (Some False)
                | Inl (Escaped e) \<Rightarrow> Inl e))"

definition step_of_record :: "walker \<Rightarrow> string \<Rightarrow> string \<Rightarrow> nat \<Rightarrow> string \<Rightarrow> py_error + chain_step" where
  "step_of_record w uri audit_id step_id jws =
     (case parse_attribution_record (wk_loads w) jws of
        Inl AttributionRecordError \<Rightarrow> Inr (failed_step step_id audit_id uri ''malformed JWS'')
      | Inl (Escaped e) \<Rightarrow> Inl e
      | Inr (JObj header, payload, _) \<Rightarrow>
          (let eddsa = (jget header ''alg'' = JStr ''EdDSA'') in
           bind_res (verified_flag w jws eddsa) (\<lambda>verified.
           case payload of
             JObj p \<Rightarrow> Inr \<lparr>cs_step_id = step_id, cs_audit_id = audit_id,
                cs_agent_id = py_str (wk_str w) (jor (jget p ''agent_id'') (JStr [])), cs_agent_uri = uri, cs_jws = jws,
                cs_header = JObj header, cs_payload = payload,
                cs_previous_audit_id = py_str (wk_str w) (jor (jget p ''previous_audit_id'') (JStr [])),
                cs_prior_actions = parse_prior_actions w p, cs_signed = eddsa, cs_verified = verified,
                cs_fetch_error = [], cs_parent_step_ids = []\<rparr>
           | _ \<Rightarrow> Inl AttributeError))
      | Inr _ \<Rightarrow> Inl AttributeError)"

definition fetch_one :: "walker \<Rightarrow> string \<Rightarrow> string \<Rightarrow> nat \<Rightarrow> py_error + chain_step" where
  "fetch_one w uri audit_id step_id =
     (let result = wk_fetch w uri audit_id in
      if \<not> ir_ok result \<or> ir_status_code result \<noteq> 200 then
        Inr (failed_step step_id audit_id uri
          (if ir_error result \<noteq> [] then ir_error result else ''INSPECT returned '' @ show_int (ir_status_code result)))
      else case wk_loads w (ir_body result) of
        None \<Rightarrow> Inr (failed_step step_id audit_id uri ''could not parse INSPECT body'')
      | Some (JObj body) \<Rightarrow>
          (let jws = jor (jget body ''jws'') (JStr []) in
           if \<not> truthy jws then Inr (failed_step step_id audit_id uri ''INSPECT body missing 'jws' field'')
           else (case jws of JStr s \<Rightarrow> step_of_record w uri audit_id step_id s | _ \<Rightarrow> Inl AttributeError))
      | Some _ \<Rightarrow> Inl AttributeError)"

section \<open>The walk\<close>

type_synonym frontier_item = "string \<times> string \<times> nat option"

definition normal_id :: "string \<Rightarrow> string" where
  "normal_id s = lower (strip s)"

definition add_parent :: "nat option \<Rightarrow> chain_step \<Rightarrow> chain_step" where
  "add_parent parent s =
     (case parent of
        None \<Rightarrow> s
      | Some p \<Rightarrow> if p \<in> set (cs_parent_step_ids s) then s
                  else s\<lparr>cs_parent_step_ids := cs_parent_step_ids s @ [p]\<rparr>)"

text \<open>The predecessors of a step, in the order they are enqueued.\<close>
definition successors :: "walker \<Rightarrow> string \<Rightarrow> chain_step \<Rightarrow> frontier_item list" where
  "successors w uri s =
     (if cs_previous_audit_id s \<noteq> [] \<and> cs_previous_audit_id s \<noteq> GENESIS_SENTINEL
      then [(uri, cs_previous_audit_id s, Some (cs_step_id s))] else []) @
     map (\<lambda>ref. (if pa_agent_uri ref \<noteq> [] then pa_agent_uri ref
                 else get_or [] (wk_known_agents w) (lower (pa_agent_id ref)),
                 pa_audit_id ref, Some (cs_step_id s))) (cs_prior_actions s)"

function walk_from :: "walker \<Rightarrow> nat \<Rightarrow> frontier_item list \<Rightarrow> (string, nat) dict \<Rightarrow> chain_step list \<Rightarrow> py_error + chain_step list" where
  "walk_from w max_steps frontier visited steps =
     (case frontier of
        [] \<Rightarrow> Inr steps
      | (uri, raw_id, parent) # rest \<Rightarrow>
          if max_steps \<le> length steps then Inr steps
          else let audit_id = normal_id raw_id; step_id = length steps in
          (case dict_get visited audit_id of
             Some n \<Rightarrow> walk_from w max_steps rest visited (steps[n := add_parent parent (steps ! n)])
           | None \<Rightarrow>
               if uri = [] then
                 walk_from w max_steps rest (dict_set audit_id step_id visited)
                   (steps @ [add_parent parent (failed_step step_id audit_id [] ''cross-agent reference: no agent_uri available (not on the prior_actions entry and not in known_agents)'')])
               else (case fetch_one w uri audit_id step_id of
                   Inl e \<Rightarrow> Inl e
                 | Inr s \<Rightarrow>
                     walk_from w max_steps
                       (rest @ (if cs_fetch_error s \<noteq> [] then [] else successors w uri s))
                       (dict_set audit_id step_id visited) (steps @ [add_parent parent s]))))"
  by pat_completeness auto
termination
  by (relation "measures [\<lambda>(w, m, fr, v, st). m - length st, \<lambda>(w, m, fr, v, st). length fr]") auto

declare walk_from.simps [simp del]

definition DEFAULT_MAX_STEPS :: nat where "DEFAULT_MAX_STEPS = 256"

definition lower_keys :: "(string, string) dict \<Rightarrow> (string, string) dict" where
  "lower_keys d = fold (\<lambda>(k, v). dict_set (lower k) v) d []"

definition walk_chain :: "walker \<Rightarrow> nat \<Rightarrow> string \<Rightarrow> string \<Rightarrow> py_error + chain_step list" where
  "walk_chain w max_steps uri start =
     walk_from (w\<lparr>wk_known_agents := lower_keys (wk_known_agents w)\<rparr>) max_steps [(uri, normal_id start, None)] [] []"

section \<open>Invariant of the walk\<close>

text \<open>A step names a record: as its own predecessor or among the actions it builds on.\<close>
definition names :: "chain_step \<Rightarrow> string \<Rightarrow> bool" where
  "names s i = (normal_id (cs_previous_audit_id s) = i \<and> cs_previous_audit_id s \<noteq> GENESIS_SENTINEL \<or>
     (\<exists>ref \<in> set (cs_prior_actions s). normal_id (pa_audit_id ref) = i))"

text \<open>The output so far and the frontier: the steps are numbered, their identifiers differ and
  are the visited ones, and every parent edge follows a link of the parent's record.\<close>
definition linked_step :: "chain_step list \<Rightarrow> nat \<Rightarrow> bool" where
  "linked_step steps n = (cs_step_id (steps ! n) = n \<and>
     (\<forall>p \<in> set (cs_parent_step_ids (steps ! n)). p < length steps \<and> names (steps ! p) (cs_audit_id (steps ! n))))"

definition walk_inv :: "frontier_item list \<Rightarrow> (string, nat) dict \<Rightarrow> chain_step list \<Rightarrow> bool" where
  "walk_inv frontier visited steps = (
     distinct (map cs_audit_id steps) \<and>
     (\<forall>i n. dict_get visited i = Some n \<longleftrightarrow> n < length steps \<and> cs_audit_id (steps ! n) = i) \<and>
     (\<forall>n < length steps. linked_step steps n) \<and>
     (\<forall>(uri, raw, parent) \<in> set frontier. \<forall>p. parent = Some p \<longrightarrow> p < length steps \<and> names (steps ! p) (normal_id raw)))"

lemma add_parent_simps [simp]:
  "cs_audit_id (add_parent p s) = cs_audit_id s" "cs_step_id (add_parent p s) = cs_step_id s"
  "cs_previous_audit_id (add_parent p s) = cs_previous_audit_id s"
  "cs_prior_actions (add_parent p s) = cs_prior_actions s"
  "names (add_parent p s) = names s"
  "cs_fetch_error (add_parent p s) = cs_fetch_error s"
  by (auto simp: add_parent_def names_def fun_eq_iff split: option.splits)

lemma add_parent_ids: "set (cs_parent_step_ids (add_parent parent s)) = set (cs_parent_step_ids s) \<union> set_option parent"
  by (auto simp: add_parent_def split: option.splits)

lemma failed_step_simps [simp]: "cs_step_id (failed_step n i u m) = n" "cs_audit_id (failed_step n i u m) = i"
  "cs_parent_step_ids (failed_step n i u m) = []"
  by (simp_all add: failed_step_def)

lemma step_of_record_step:
  assumes "step_of_record w uri i n jws = Inr s"
  shows "cs_step_id s = n \<and> cs_audit_id s = i \<and> cs_parent_step_ids s = []"
proof (cases "parse_attribution_record (wk_loads w) jws")
  case (Inl e)
  with assms show ?thesis by (cases e) (auto simp: step_of_record_def)
next
  case (Inr r)
  obtain h p sg where r: "r = (h, p, sg)" by (cases r) auto
  show ?thesis using assms
    by (cases h; cases p) (auto simp: step_of_record_def Inr r bind_res_Inr Let_def)
qed

lemma fetch_one_step:
  assumes "fetch_one w uri i n = Inr s"
  shows "cs_step_id s = n \<and> cs_audit_id s = i \<and> cs_parent_step_ids s = []"
  using assms
  by (auto simp: fetch_one_def Let_def dest: step_of_record_step split: if_splits option.splits json.splits)

lemma successors_named:
  "(uri', raw, parent) \<in> set (successors w uri s) \<Longrightarrow> parent = Some (cs_step_id s) \<and> names s (normal_id raw)"
  by (auto simp: successors_def names_def split: if_splits)

lemma walk_inv_revisit:
  assumes i: "walk_inv ((uri, raw, parent) # rest) visited steps" and v: "dict_get visited (normal_id raw) = Some n"
  shows "walk_inv rest visited (steps[n := add_parent parent (steps ! n)])"
proof -
  have n: "n < length steps" "cs_audit_id (steps ! n) = normal_id raw" using i v by (auto simp: walk_inv_def)
  have at: "(steps[n := add_parent parent (steps ! n)]) ! k = (if k = n then add_parent parent (steps ! n) else steps ! k)"
    if "k < length steps" for k using that n(1) by (simp add: nth_list_update)
  have "map cs_audit_id (steps[n := add_parent parent (steps ! n)]) = map cs_audit_id steps"
    using n(1) by (simp add: map_update) (metis list_update_id nth_map)
  moreover have nm: "names ((steps[n := add_parent parent (steps ! n)]) ! p) = names (steps ! p)" if "p < length steps" for p
    using at[OF that] by simp
  moreover have "linked_step (steps[n := add_parent parent (steps ! n)]) k" if k: "k < length steps" for k
  proof -
    have "linked_step steps k" using i k by (simp add: walk_inv_def)
    moreover have "p < length steps \<and> names (steps ! p) (normal_id raw)" if "parent = Some p" for p
      using i that by (auto simp: walk_inv_def)
    ultimately show ?thesis using n(2) nm unfolding linked_step_def at[OF k]
      by (auto simp: add_parent_ids split: if_splits)
  qed
  ultimately show ?thesis using i unfolding walk_inv_def by (auto simp: at split: if_splits)
qed

lemma walk_inv_visit:
  assumes i: "walk_inv ((uri, raw, parent) # rest) visited steps" and v: "dict_get visited (normal_id raw) = None"
    and s: "cs_audit_id s = normal_id raw" "cs_step_id s = length steps" "cs_parent_step_ids s = []"
    and e: "\<And>u r p. (u, r, p) \<in> set extra \<Longrightarrow> p = Some (length steps) \<and> names s (normal_id r)"
  shows "walk_inv (rest @ extra) (dict_set (normal_id raw) (length steps) visited) (steps @ [add_parent parent s])"
proof -
  let ?new = "steps @ [add_parent parent s]"
  have fresh: "normal_id raw \<notin> set (map cs_audit_id steps)"
  proof -
    have "\<not> (n < length steps \<and> cs_audit_id (steps ! n) = normal_id raw)" for n
      using i v unfolding walk_inv_def by (metis option.distinct(1))
    then show ?thesis by (metis in_set_conv_nth length_map nth_map)
  qed
  have at: "?new ! k = (if k = length steps then add_parent parent s else steps ! k)" if "k < length ?new" for k
    using that by (simp add: nth_append)
  have old: "linked_step ?new k" if k: "k < length steps" for k
  proof -
    have "linked_step steps k" using i k by (simp add: walk_inv_def)
    then show ?thesis using k by (auto simp: linked_step_def nth_append)
  qed
  have p: "p < length steps \<and> names (steps ! p) (normal_id raw)" if "parent = Some p" for p
    using i that by (auto simp: walk_inv_def)
  then have new: "linked_step ?new (length steps)"
    using s by (auto simp: linked_step_def add_parent_ids nth_append)
  have steps: "linked_step ?new k" if "k < length ?new" for k
    using that old new by (cases "k = length steps") auto
  have vis: "dict_get (dict_set (normal_id raw) (length steps) visited) i = Some n \<longleftrightarrow>
      n < length ?new \<and> cs_audit_id (?new ! n) = i" for i n
  proof (cases "i = normal_id raw")
    case True
    have "n < length steps \<Longrightarrow> cs_audit_id (steps ! n) \<noteq> normal_id raw"
      using fresh by (metis length_map nth_map nth_mem)
    then show ?thesis using True s(1) by (auto simp: nth_append less_Suc_eq)
  next
    case False
    then show ?thesis using i s(1) by (auto simp: walk_inv_def nth_append less_Suc_eq)
  qed
  have fr: "q < length ?new \<and> names (?new ! q) (normal_id r)" if "(u, r, Some q) \<in> set (rest @ extra)" for u r q
  proof (cases "(u, r, Some q) \<in> set rest")
    case True
    then have "q < length steps \<and> names (steps ! q) (normal_id r)" using i by (auto simp: walk_inv_def)
    then show ?thesis by (simp add: nth_append)
  next
    case False
    with that e[of u r "Some q"] show ?thesis by (auto simp: nth_append)
  qed
  have "distinct (map cs_audit_id ?new)" using i fresh s(1) by (simp add: walk_inv_def)
  with steps vis fr show ?thesis unfolding walk_inv_def by blast
qed

lemma walk_from_inv:
  "walk_inv frontier visited steps \<Longrightarrow> walk_from w max_steps frontier visited steps = Inr out \<Longrightarrow>
   length steps \<le> max_steps \<Longrightarrow> \<exists>visited' frontier'. walk_inv frontier' visited' out \<and> length out \<le> max_steps"
proof (induction w max_steps frontier visited steps rule: walk_from.induct)
  case (1 w m frontier visited steps)
  show ?case
  proof (cases frontier)
    case Nil
    with 1(4-6) show ?thesis by (auto simp: walk_from.simps[of w m "[]"])
  next
    case (Cons item rest)
    obtain uri raw parent where item: "item = (uri, raw, parent)" by (cases item) auto
    note inv = 1(4)[unfolded Cons item]
    show ?thesis
    proof (cases "m \<le> length steps")
      case True
      with 1(4-6) Cons item show ?thesis by (auto simp: walk_from.simps[of w m "(uri, raw, parent) # rest"])
    next
      case more: False
      show ?thesis
      proof (cases "dict_get visited (normal_id raw)")
        case (Some n)
        have "walk_from w m rest visited (steps[n := add_parent parent (steps ! n)]) = Inr out"
          using 1(5) Cons item more Some by (simp add: walk_from.simps[of w m "(uri, raw, parent) # rest"] Let_def)
        from 1(3)[OF Cons item[symmetric] refl more refl refl Some walk_inv_revisit[OF inv Some] this] 1(6)
        show ?thesis by simp
      next
        case None
        show ?thesis
        proof (cases "uri = []")
          case True
          let ?s = "failed_step (length steps) (normal_id raw) [] ''cross-agent reference: no agent_uri available (not on the prior_actions entry and not in known_agents)''"
          have r: "walk_from w m rest (dict_set (normal_id raw) (length steps) visited) (steps @ [add_parent parent ?s]) = Inr out"
            using 1(5) Cons item more None True by (simp add: walk_from.simps[of w m "([], raw, parent) # rest"] Let_def)
          have "walk_inv (rest @ []) (dict_set (normal_id raw) (length steps) visited) (steps @ [add_parent parent ?s])"
            by (rule walk_inv_visit[OF inv None]) simp_all
          then show ?thesis using 1(1)[OF Cons item[symmetric] refl more refl refl None True _ r] more by simp
        next
          case False
          obtain s where s: "fetch_one w uri (normal_id raw) (length steps) = Inr s"
            using 1(5) Cons item more None False
            by (cases "fetch_one w uri (normal_id raw) (length steps)")
               (auto simp: walk_from.simps[of w m "(uri, raw, parent) # rest"] Let_def)
          let ?extra = "if cs_fetch_error s \<noteq> [] then [] else successors w uri s"
          have r: "walk_from w m (rest @ ?extra) (dict_set (normal_id raw) (length steps) visited) (steps @ [add_parent parent s]) = Inr out"
            using 1(5) Cons item more None False s by (simp add: walk_from.simps[of w m "(uri, raw, parent) # rest"] Let_def)
          have fs: "cs_audit_id s = normal_id raw" "cs_step_id s = length steps" "cs_parent_step_ids s = []"
            using fetch_one_step[OF s] by simp_all
          have "walk_inv (rest @ ?extra) (dict_set (normal_id raw) (length steps) visited) (steps @ [add_parent parent s])"
            by (rule walk_inv_visit[OF inv None fs]) (use successors_named[of _ _ _ w uri s] fs(2) in \<open>auto split: if_splits\<close>)
          then show ?thesis using 1(2)[OF Cons item[symmetric] refl more refl refl None False s _ r] more by simp
        qed
      qed
    qed
  qed
qed


text \<open>Nothing ties an answer to the identifier that was asked for.  A daemon that answers
  every request with one record the issuer signed once has it shown as the verified record
  of any identifier.\<close>
theorem any_record_passes:
  assumes j: "json_faithful canonical (wk_loads w)" and k: "\<And>m. check (sign m) m"
    and key: "wk_issuer_key w = Some check"
    and b: "wk_loads w (ir_body (wk_fetch w uri i)) = Some (JObj [(''jws'', JStr (ar_jws (build_attribution_record canonical hash sign kid f)))])"
    and ok: "ir_ok (wk_fetch w uri i)" "ir_status_code (wk_fetch w uri i) = 200"
  shows "\<exists>s. fetch_one w uri i n = Inr s \<and> cs_audit_id s = i \<and> cs_verified s = Some True \<and> cs_fetch_error s = []"
proof -
  let ?jws = "ar_jws (build_attribution_record canonical hash sign kid f)"
  obtain v where v: "carries f v" "verify_attribution_record (wk_loads w) check ?jws = Inr v"
    using signed_record_verifies[OF j, of check sign f hash kid, OF k] by blast
  obtain d h s where p: "parse_attribution_record (wk_loads w) ?jws = Inr (JObj d, v, s)"
    "jget d ''alg'' = JStr ''EdDSA''"
    using built_signed_header[OF j, of hash sign kid f] v(2)
    by (auto simp: verify_attribution_record_def bind_res_Inr Let_def split: if_splits)
  have "?jws \<noteq> []" by (simp add: build_attribution_record_def Let_def)
  moreover obtain q where "v = JObj q" using v(1) by (auto simp: carries_def)
  ultimately show ?thesis
    using ok by (simp add: fetch_one_def Let_def b json_simps step_of_record_def p verified_flag_def key v(2))
qed


text \<open>A daemon whose first record names a predecessor it does not have.\<close>
definition example_walker :: walker where
  "example_walker =
     \<lparr>wk_fetch = (\<lambda>uri i. if i = ''aa'' then \<lparr>ir_ok = True, ir_status_code = 200, ir_error = [], ir_body = [2]\<rparr>
        else \<lparr>ir_ok = True, ir_status_code = 404, ir_error = ''gone'', ir_body = []\<rparr>),
      wk_loads = (\<lambda>b. if b = [2] then Some (JObj [(''jws'', JStr ''AA.AQ.'')])
        else if b = [0] then Some (JObj [(''alg'', JStr ''none'')])
        else if b = [1] then Some (JObj [(''agent_id'', JStr ''x''), (''previous_audit_id'', JStr ''BB'')]) else None),
      wk_str = (\<lambda>_. []), wk_issuer_key = None, wk_known_agents = []\<rparr>"

lemma example_segments: "b64url_decode ''AA'' = Inr [0]" "b64url_decode ''AQ'' = Inr [1]"
proof -
  have "''AA'' = b64url [0]" "''AQ'' = b64url [1]"
    by (simp_all add: b64_char_def b64_alphabet_def sx1_def sx2_def)
  then show "b64url_decode ''AA'' = Inr [0]" "b64url_decode ''AQ'' = Inr [1]" by (simp_all only: b64url_roundtrip)
qed


end
