(* ===== verification/Ids.thy ===== *)
theory Ids
  imports Prelude
begin

text \<open>
  Agent identifiers and agtp:// addresses (core/ids.py): validation, the parser of the
  address forms and the writer of canonical addresses.

  The regular expressions are written out as matchers: their character classes are
  disjoint from what follows them, so the greedy match is the only one, and the dollar
  sign also matches before a final line feed.  The main results: a canonical address is
  parsed back to the components it was written from (format_parse), and every address that
  parses has a canonical address with the same agent, name and host (canonical_address).
\<close>

datatype id_error = AgentIDError

section \<open>Character classes\<close>

definition is_alnum :: "char \<Rightarrow> bool" where
  "is_alnum c = (is_digit c \<or> is_upper c \<or> is_lower c)"

definition hex_char :: "char \<Rightarrow> bool" where
  "hex_char c = (is_digit c \<or> (let n = of_char c :: nat in 97 \<le> n \<and> n \<le> 102))"

definition host_char :: "char \<Rightarrow> bool" where
  "host_char c = (is_alnum c \<or> c = CHR ''.'' \<or> c = CHR ''-'')"

definition handle_char :: "char \<Rightarrow> bool" where
  "handle_char c = (is_alnum c \<or> c = CHR ''.'' \<or> c = CHR ''_'' \<or> c = CHR ''-'')"

definition LINE_FEED :: char where "LINE_FEED = CHR 0x0A"

definition at_end :: "string \<Rightarrow> bool" where
  "at_end s = (s = [] \<or> s = [LINE_FEED])"

text \<open>The text a pattern anchored by a dollar sign matches: all of it, or all but a final
  line feed.\<close>
definition anchored :: "(string \<Rightarrow> bool) \<Rightarrow> string \<Rightarrow> bool" where
  "anchored p s = (p s \<or> (s \<noteq> [] \<and> last s = LINE_FEED \<and> p (butlast s)))"

section \<open>Patterns\<close>

definition AGENT_ID_HEX_LENGTH :: nat where "AGENT_ID_HEX_LENGTH = 64"
definition DEFAULT_AGTP_PORT :: int where "DEFAULT_AGTP_PORT = 4480"

definition agent_id_pattern :: "string \<Rightarrow> bool" where
  "agent_id_pattern = anchored (\<lambda>s. length s = 64 \<and> list_all hex_char s)"

definition label_ok :: "string \<Rightarrow> bool" where
  "label_ok l = (l \<noteq> [] \<and> length l \<le> 63 \<and> is_alnum (hd l) \<and> is_alnum (last l) \<and>
     list_all (\<lambda>c. is_alnum c \<or> c = CHR ''-'') l)"

definition hostname_pattern :: "string \<Rightarrow> bool" where
  "hostname_pattern = anchored (\<lambda>s. list_all label_ok (split_char (CHR ''.'') s))"

definition handle_pattern :: "string \<Rightarrow> bool" where
  "handle_pattern = anchored (\<lambda>s. s \<noteq> [] \<and> is_alnum (hd s) \<and> list_all handle_char s)"

text \<open>The optional port group: a colon and at least one digit.\<close>
definition opt_port :: "string \<Rightarrow> string option \<times> string" where
  "opt_port s =
     (case s of
        c # r \<Rightarrow> if c = CHR '':'' \<and> takeWhile is_digit r \<noteq> [] then (Some (takeWhile is_digit r), dropWhile is_digit r)
                 else (None, s)
      | [] \<Rightarrow> (None, s))"

definition SCHEME :: string where "SCHEME = ''agtp://''"

definition after_scheme :: "string \<Rightarrow> string option" where
  "after_scheme s = (if starts_with SCHEME s then Some (drop (length SCHEME) s) else None)"

text \<open>The optional query group at the end of an agent address; the dot matches no line feed.\<close>
definition opt_query :: "string \<Rightarrow> string option option" where
  "opt_query s =
     (case s of
        c # r \<Rightarrow>
          if c = CHR ''?'' then
            (if LINE_FEED \<notin> set r then Some (Some r)
             else if last r = LINE_FEED \<and> LINE_FEED \<notin> set (butlast r) then Some (Some (butlast r)) else None)
          else if at_end s then Some None else None
      | [] \<Rightarrow> Some None)"

text \<open>The groups of the agent pattern: identifier, host, port and query.\<close>
definition agent_match :: "string \<Rightarrow> (string \<times> string option \<times> string option \<times> string option) option" where
  "agent_match text =
     (case after_scheme text of
        None \<Rightarrow> None
      | Some s \<Rightarrow>
          let i = take 64 s; rest = drop 64 s in
          if length i = 64 \<and> list_all hex_char i then
            (case rest of
               c # r \<Rightarrow>
                 if c = CHR ''@'' \<and> takeWhile host_char r \<noteq> [] then
                   (let (port, r') = opt_port (dropWhile host_char r) in
                    map_option (\<lambda>q. (i, Some (takeWhile host_char r), port, q)) (opt_query r'))
                 else map_option (\<lambda>q. (i, None, None, q)) (opt_query rest)
             | [] \<Rightarrow> Some (i, None, None, None))
          else None)"

text \<open>The groups of the domain pattern: host, port and handle.\<close>
definition domain_match :: "string \<Rightarrow> (string \<times> string option \<times> string) option" where
  "domain_match text =
     (case after_scheme text of
        None \<Rightarrow> None
      | Some s \<Rightarrow>
          let host = takeWhile host_char s; (port, r) = opt_port (dropWhile host_char s) in
          if host \<noteq> [] \<and> starts_with ''/agents/'' r then
            (let h = drop 8 r; handle = takeWhile handle_char h in
             if handle \<noteq> [] \<and> is_alnum (hd handle) \<and> at_end (dropWhile handle_char h)
             then Some (host, port, handle) else None)
          else None)"

text \<open>The groups of the server pattern: host and port.\<close>
definition server_match :: "string \<Rightarrow> (string \<times> string option) option" where
  "server_match text =
     (case after_scheme text of
        None \<Rightarrow> None
      | Some s \<Rightarrow>
          let host = takeWhile host_char s; (port, r) = opt_port (dropWhile host_char s) in
          if host \<noteq> [] \<and> at_end r then Some (host, port) else None)"

section \<open>Addresses\<close>

record parsed_uri =
  pu_agent_id :: "string option"
  pu_agent_handle :: "string option"
  pu_host :: "string option"
  pu_port :: "int option"
  pu_query :: "string option"

definition has_explicit_host :: "parsed_uri \<Rightarrow> bool" where
  "has_explicit_host p = (pu_host p \<noteq> None)"

definition is_server_level :: "parsed_uri \<Rightarrow> bool" where
  "is_server_level p = (pu_agent_id p = None \<and> pu_agent_handle p = None)"

definition is_domain_anchored :: "parsed_uri \<Rightarrow> bool" where
  "is_domain_anchored p = (pu_agent_handle p \<noteq> None)"

definition uri_form :: "parsed_uri \<Rightarrow> string" where
  "uri_form p =
     (if pu_agent_id p \<noteq> None then (if pu_host p \<noteq> None then ''1a'' else ''1'')
      else if pu_agent_handle p \<noteq> None then
        (if starts_with ''agtp.'' (case pu_host p of None \<Rightarrow> [] | Some h \<Rightarrow> h) then ''4'' else ''3'')
      else ''2'')"

definition effective_port :: "parsed_uri \<Rightarrow> int" where
  "effective_port p = (case pu_port p of None \<Rightarrow> DEFAULT_AGTP_PORT | Some n \<Rightarrow> n)"

definition format_param :: "parsed_uri \<Rightarrow> string option" where
  "format_param p =
     (case pu_query p of
        None \<Rightarrow> None
      | Some q \<Rightarrow> if q = [] then None
          else map_option (drop 7) (find (starts_with ''format='') (split_char (CHR ''&'') q)))"

definition validate_agent_id :: "string \<Rightarrow> id_error + unit" where
  "validate_agent_id i =
     (if length i \<noteq> AGENT_ID_HEX_LENGTH then Inl AgentIDError
      else if \<not> agent_id_pattern i then Inl AgentIDError else Inr ())"

text \<open>The port group is a run of digits, so int reads it.\<close>
definition parse_port :: "string option \<Rightarrow> id_error + int option" where
  "parse_port text =
     (case text of
        None \<Rightarrow> Inr None
      | Some ds \<Rightarrow> (let port = int (nat_of_digits 0 ds) in
          if 1 \<le> port \<and> port \<le> 65535 then Inr (Some port) else Inl AgentIDError))"

definition parse_uri :: "string \<Rightarrow> id_error + parsed_uri" where
  "parse_uri uri =
     (let text = strip uri in
      case agent_match text of
        Some (i, host, port, query) \<Rightarrow>
          bind_res (parse_port port) (\<lambda>port.
            Inr \<lparr>pu_agent_id = Some i, pu_agent_handle = None, pu_host = host, pu_port = port, pu_query = query\<rparr>)
      | None \<Rightarrow>
        (case domain_match text of
           Some (host, port, handle) \<Rightarrow>
             if \<not> hostname_pattern host then Inl AgentIDError
             else if \<not> handle_pattern handle then Inl AgentIDError
             else bind_res (parse_port port) (\<lambda>port.
               Inr \<lparr>pu_agent_id = None, pu_agent_handle = Some handle, pu_host = Some host, pu_port = port, pu_query = None\<rparr>)
         | None \<Rightarrow>
           (case server_match text of
              Some (host, port) \<Rightarrow>
                if \<not> hostname_pattern host then Inl AgentIDError
                else bind_res (parse_port port) (\<lambda>port.
                  Inr \<lparr>pu_agent_id = None, pu_agent_handle = None, pu_host = Some host, pu_port = port, pu_query = None\<rparr>)
            | None \<Rightarrow> Inl AgentIDError)))"

definition format_uri :: "string option \<Rightarrow> string option \<Rightarrow> string option \<Rightarrow> string option \<Rightarrow> id_error + string" where
  "format_uri agent_id agent_handle host fmt =
     (if agent_id = None \<and> agent_handle = None \<and> host = None then Inl AgentIDError
      else if agent_handle \<noteq> None \<and> host = None then Inl AgentIDError
      else case agent_id of
        Some i \<Rightarrow>
          bind_res (validate_agent_id i) (\<lambda>_.
            Inr (SCHEME @ i @
              (case host of Some h \<Rightarrow> if h \<noteq> [] then ''@'' @ h else [] | None \<Rightarrow> []) @
              (case fmt of Some f \<Rightarrow> if f \<noteq> [] then ''?format='' @ f else [] | None \<Rightarrow> [])))
      | None \<Rightarrow>
        (let h = (case host of Some h \<Rightarrow> h | None \<Rightarrow> []) in
         if \<not> hostname_pattern h then Inl AgentIDError
         else case agent_handle of
           Some n \<Rightarrow> if \<not> handle_pattern n then Inl AgentIDError else Inr (SCHEME @ h @ ''/agents/'' @ n)
         | None \<Rightarrow> Inr (SCHEME @ h)))"

text \<open>generate_agent_id: the hexadecimal form of thirty-two random bytes.\<close>
definition hex_digit :: "nat \<Rightarrow> char" where
  "hex_digit n = ''0123456789abcdef'' ! n"

definition generate_agent_id :: "nat list \<Rightarrow> string" where
  "generate_agent_id random_bytes = concat (map (\<lambda>b. [hex_digit (b div 16), hex_digit (b mod 16)]) random_bytes)"

section \<open>Canonical addresses are read back\<close>

abbreviation no_ws :: "string \<Rightarrow> bool" where
  "no_ws s \<equiv> list_all (\<lambda>c. \<not> is_ws c) s"

lemma class_facts:
  "is_digit c \<Longrightarrow> \<not> is_ws c" "is_alnum c \<Longrightarrow> \<not> is_ws c" "hex_char c \<Longrightarrow> \<not> is_ws c"
  "host_char c \<Longrightarrow> \<not> is_ws c" "handle_char c \<Longrightarrow> \<not> is_ws c"
  "hex_char c \<Longrightarrow> host_char c" "is_alnum c \<Longrightarrow> host_char c" "is_alnum c \<Longrightarrow> handle_char c"
  "\<not> host_char (CHR ''/'')" "\<not> host_char (CHR '':'')" "\<not> host_char (CHR ''?'')" "\<not> host_char (CHR ''@'')"
  "is_ws LINE_FEED" "\<not> hex_char (CHR ''.'')" "\<not> is_digit (CHR ''/'')"
  by (auto simp: is_digit_def is_alnum_def is_upper_def is_lower_def hex_char_def host_char_def handle_char_def
      is_ws_def Let_def LINE_FEED_def)

lemma no_ws_no_lf: "no_ws s \<Longrightarrow> LINE_FEED \<notin> set s"
  using class_facts(13) by (auto simp: list_all_iff)

lemma anchored_no_lf: "LINE_FEED \<notin> set s \<Longrightarrow> anchored p s \<longleftrightarrow> p s"
  unfolding anchored_def by (metis last_in_set)

lemma after_scheme_append [simp]: "after_scheme (SCHEME @ s) = Some s"
  by (simp add: after_scheme_def)

lemma opt_port_none: "s = [] \<or> hd s \<noteq> CHR '':'' \<Longrightarrow> opt_port s = (None, s)"
  by (cases s) (auto simp: opt_port_def)

lemma takeWhile_stop: "list_all p a \<Longrightarrow> b = [] \<or> \<not> p (hd b) \<Longrightarrow> takeWhile p (a @ b) = a \<and> dropWhile p (a @ b) = b"
proof (induction a)
  case Nil
  then show ?case by (cases b) auto
qed simp

text \<open>A host name that the pattern accepts starts with no sixty-four hexadecimal digits, so
  it is never read as an agent identifier.\<close>
lemma hostname_not_id:
  assumes "list_all label_ok (split_char (CHR ''.'') h)" and "length h \<ge> 64"
  shows "\<not> list_all hex_char (take 64 h)"
proof
  assume hex: "list_all hex_char (take 64 h)"
  obtain l ls where l: "split_char (CHR ''.'') h = l # ls" by (cases "split_char (CHR ''.'') h") auto
  have h: "h = join_with ''.'' (l # ls)" using join_split_char[of "CHR ''.''" h] l by simp
  have len: "length l \<le> 63" using assms(1) by (simp add: l label_ok_def)
  show False
  proof (cases ls)
    case Nil
    then have "h = l" using h by simp
    with len assms(2) show False by simp
  next
    case (Cons v vs)
    then have "h = l @ CHR ''.'' # join_with ''.'' (v # vs)" using h by simp
    then have "h ! length l = CHR ''.''" by simp
    moreover have "take 64 h ! length l = h ! length l" "length l < length (take 64 h)" using len assms(2) by simp_all
    ultimately have "CHR ''.'' \<in> set (take 64 h)" by (metis nth_mem)
    with hex class_facts(14) show False by (auto simp: list_all_iff)
  qed
qed

lemma split_char_chars:
  "c \<in> set s \<Longrightarrow> c = sep \<or> (\<exists>w \<in> set (split_char sep s). c \<in> set w)"
  by (induction s) (auto split: list.splits)

lemma hostname_chars:
  assumes "list_all label_ok (split_char (CHR ''.'') h)"
  shows "list_all host_char h" "h \<noteq> []"
proof -
  show "list_all host_char h"
    unfolding list_all_iff
  proof
    fix c assume "c \<in> set h"
    from split_char_chars[OF this, of "CHR ''.''"] show "host_char c"
      using assms by (auto simp: list_all_iff label_ok_def host_char_def)
  qed
  show "h \<noteq> []" using assms by (auto simp: label_ok_def)
qed

lemma host_no_ws: "list_all host_char h \<Longrightarrow> no_ws h"
  using class_facts(4) by (auto simp: list_all_iff)

lemma scheme_no_ws: "no_ws SCHEME"
  by (simp add: SCHEME_def is_ws_def Let_def)

lemma agent_match_host:
  assumes "list_all label_ok (split_char (CHR ''.'') h)" and "r = [] \<or> \<not> hex_char (hd r)"
  shows "agent_match (SCHEME @ h @ r) = None"
proof -
  have "\<not> (length (take 64 (h @ r)) = 64 \<and> list_all hex_char (take 64 (h @ r)))"
  proof (cases "64 \<le> length h")
    case True
    then show ?thesis using hostname_not_id[OF assms(1)] by simp
  next
    case False
    show ?thesis
    proof (cases r)
      case Nil
      then show ?thesis using False by simp
    next
      case (Cons c r')
      then have "c \<in> set (take 64 (h @ r))" using False by (simp add: take_Cons' not_le)
      with assms(2) Cons show ?thesis by (auto simp: list_all_iff)
    qed
  qed
  then show ?thesis unfolding agent_match_def after_scheme_append option.case Let_def by (rule if_not_P)
qed

lemma agent_match_id:
  assumes i: "length i = 64" "list_all hex_char i"
  shows "agent_match (SCHEME @ i) = Some (i, None, None, None)"
    and "q = [] \<or> hd q = CHR ''?'' \<Longrightarrow> agent_match (SCHEME @ i @ q) = map_option (\<lambda>q. (i, None, None, q)) (opt_query q)"
    and "\<lbrakk>h \<noteq> []; list_all host_char h; q = [] \<or> hd q = CHR ''?''\<rbrakk> \<Longrightarrow>
      agent_match (SCHEME @ i @ CHR ''@'' # h @ q) = map_option (\<lambda>q. (i, Some h, None, q)) (opt_query q)"
proof -
  show "agent_match (SCHEME @ i) = Some (i, None, None, None)"
    using i by (simp add: agent_match_def Let_def)
  show "agent_match (SCHEME @ i @ q) = map_option (\<lambda>q. (i, None, None, q)) (opt_query q)" if "q = [] \<or> hd q = CHR ''?''"
    using i that by (cases q) (auto simp: agent_match_def Let_def opt_query_def)
  show "agent_match (SCHEME @ i @ CHR ''@'' # h @ q) = map_option (\<lambda>q. (i, Some h, None, q)) (opt_query q)"
    if h: "h \<noteq> []" "list_all host_char h" and q: "q = [] \<or> hd q = CHR ''?''"
  proof -
    have tw: "takeWhile host_char (h @ q) = h" "dropWhile host_char (h @ q) = q"
      using takeWhile_stop[OF h(2), of q] q class_facts(11) by auto
    have op: "opt_port q = (None, q)" using q by (intro opt_port_none) auto
    show ?thesis using i h(1) by (simp add: agent_match_def Let_def tw op)
  qed
qed

text \<open>The query a canonical address carries: format= and a value without white space.\<close>
definition format_query :: "string option \<Rightarrow> string option" where
  "format_query f = (case f of Some v \<Rightarrow> if v \<noteq> [] then Some (''format='' @ v) else None | None \<Rightarrow> None)"

lemma opt_query_format:
  assumes "no_ws v"
  shows "opt_query (CHR ''?'' # ''format='' @ v) = Some (Some (''format='' @ v))"
  using no_ws_no_lf[OF assms] by (auto simp: opt_query_def LINE_FEED_def)

lemma domain_match_host:
  assumes h: "list_all host_char h" "h \<noteq> []" and n: "n \<noteq> []" "is_alnum (hd n)" "list_all handle_char n"
  shows "domain_match (SCHEME @ h @ ''/agents/'' @ n) = Some (h, None, n)"
proof -
  have tw: "takeWhile host_char (h @ ''/agents/'' @ n) = h" "dropWhile host_char (h @ ''/agents/'' @ n) = ''/agents/'' @ n"
    using takeWhile_stop[OF h(1), of "''/agents/'' @ n"] class_facts(9) by auto
  have hn: "takeWhile handle_char n = n" "dropWhile handle_char n = []"
    using takeWhile_stop[OF n(3), of "[]"] by auto
  have op: "opt_port (''/agents/'' @ n) = (None, ''/agents/'' @ n)" by (rule opt_port_none) simp
  show ?thesis using h(2) n(1,2)
    unfolding domain_match_def after_scheme_append option.case Let_def tw op prod.case
    by (simp add: starts_with_def hn at_end_def)
qed

lemma host_alone:
  assumes h: "list_all host_char h" "h \<noteq> []"
  shows "domain_match (SCHEME @ h) = None" "server_match (SCHEME @ h) = Some (h, None)"
proof -
  have tw: "takeWhile host_char h = h" "dropWhile host_char h = []"
    using takeWhile_stop[OF h(1), of "[]"] by auto
  show "domain_match (SCHEME @ h) = None" "server_match (SCHEME @ h) = Some (h, None)"
    using h(2) by (simp_all add: domain_match_def server_match_def Let_def tw opt_port_none starts_with_def at_end_def)
qed

lemma validate_agent_id_Inr: "validate_agent_id i = Inr u \<longleftrightarrow> length i = 64 \<and> list_all hex_char i"
proof -
  have "anchored (\<lambda>s. length s = 64 \<and> list_all hex_char s) i \<longleftrightarrow> list_all hex_char i" if "length i = 64"
    using that by (auto simp: anchored_def)
  then show ?thesis by (auto simp: validate_agent_id_def agent_id_pattern_def AGENT_ID_HEX_LENGTH_def)
qed

text \<open>Components a caller may write: texts without white space, and host names of the
  characters an agent address admits.\<close>
definition components_ok :: "string option \<Rightarrow> string option \<Rightarrow> string option \<Rightarrow> bool" where
  "components_ok handle host fmt =
     ((case handle of Some n \<Rightarrow> no_ws n | None \<Rightarrow> True) \<and>
      (case host of Some h \<Rightarrow> h \<noteq> [] \<and> list_all host_char h | None \<Rightarrow> True) \<and>
      (case fmt of Some f \<Rightarrow> no_ws f | None \<Rightarrow> True))"

text \<open>A canonical address is read back.  Whatever components an address is written
  from, the parser returns them: the identifier with its host and format, else the name
  with its host, else the host; never a port.\<close>
theorem format_parse:
  assumes f: "format_uri agent_id handle host fmt = Inr u" and ok: "components_ok handle host fmt"
  shows "parse_uri u = Inr (case agent_id of
      Some i \<Rightarrow> \<lparr>pu_agent_id = Some i, pu_agent_handle = None, pu_host = host, pu_port = None, pu_query = format_query fmt\<rparr>
    | None \<Rightarrow> \<lparr>pu_agent_id = None, pu_agent_handle = handle, pu_host = host, pu_port = None, pu_query = None\<rparr>)"
proof (cases agent_id)
  case (Some i)
  define q where "q = (case format_query fmt of None \<Rightarrow> [] | Some v \<Rightarrow> CHR ''?'' # v)"
  have i: "length i = 64" "list_all hex_char i"
    and u: "u = SCHEME @ i @ (case host of Some h \<Rightarrow> CHR ''@'' # h | None \<Rightarrow> []) @ q"
    using f ok Some by (auto simp: format_uri_def bind_res_Inr validate_agent_id_Inr q_def format_query_def
        components_ok_def split: option.splits if_splits)
  have q: "q = [] \<or> hd q = CHR ''?''" "opt_query q = Some (format_query fmt)" "no_ws q"
  proof -
    have e: "opt_query [] = Some None" by (simp add: opt_query_def)
    have w: "no_ws ''?format=''" by (simp add: is_ws_def Let_def)
    have v: "no_ws v" if "fmt = Some v" for v using ok that by (simp add: components_ok_def)
    show "q = [] \<or> hd q = CHR ''?''" by (auto simp: q_def split: option.splits)
    show "opt_query q = Some (format_query fmt)" "no_ws q"
      using e w v opt_query_format by (auto simp: q_def format_query_def split: option.splits)
  qed
  have host: "no_ws (case host of Some h \<Rightarrow> CHR ''@'' # h | None \<Rightarrow> [])"
    using ok host_no_ws by (auto simp: components_ok_def is_ws_def Let_def split: option.splits)
  have "no_ws u" unfolding u using scheme_no_ws i(2) q(3) host class_facts(3) by (auto simp: list_all_iff)
  then have s: "strip u = u" by (rule strip_no_ws)
  have m: "agent_match u = Some (i, host, None, format_query fmt)"
  proof (cases host)
    case None
    then show ?thesis unfolding u using agent_match_id(2)[OF i q(1)] by (simp add: q(2))
  next
    case h: (Some h)
    then have "h \<noteq> []" "list_all host_char h" using ok by (simp_all add: components_ok_def)
    then show ?thesis unfolding u using agent_match_id(3)[OF i _ _ q(1), of h] by (simp add: q(2) h)
  qed
  show ?thesis by (simp add: parse_uri_def s m Some parse_port_def)
next
  case None
  then obtain h where h: "host = Some h" using f by (auto simp: format_uri_def split: option.splits if_splits)
  have hc: "h \<noteq> []" "list_all host_char h" using ok h by (simp_all add: components_ok_def)
  have pat: "hostname_pattern h" using f None h by (auto simp: format_uri_def split: if_splits)
  then have lab: "list_all label_ok (split_char (CHR ''.'') h)"
    using anchored_no_lf[OF no_ws_no_lf[OF host_no_ws[OF hc(2)]]] by (simp add: hostname_pattern_def)
  show ?thesis
  proof (cases handle)
    case hn: (Some n)
    have np: "handle_pattern n" and nw: "no_ws n" using f ok None h hn by (auto simp: format_uri_def components_ok_def split: if_splits)
    then have n: "n \<noteq> []" "is_alnum (hd n)" "list_all handle_char n"
      using anchored_no_lf[OF no_ws_no_lf] by (auto simp: handle_pattern_def)
    have u: "u = SCHEME @ h @ ''/agents/'' @ n" using f None h hn pat np by (simp add: format_uri_def)
    have "no_ws ''/agents/''" by (simp add: is_ws_def Let_def)
    then have "no_ws u" unfolding u list_all_append using scheme_no_ws host_no_ws[OF hc(2)] nw by simp
    then have s: "strip u = u" by (rule strip_no_ws)
    have "agent_match u = None" unfolding u by (rule agent_match_host[OF lab]) (simp add: hex_char_def is_digit_def Let_def)
    then show ?thesis using domain_match_host[OF hc(2,1) n] pat np
      by (simp add: parse_uri_def s None hn h parse_port_def) (simp add: u parse_port_def)
  next
    case hn: None
    have u: "u = SCHEME @ h" using f None h hn pat by (simp add: format_uri_def)
    have "no_ws u" unfolding u list_all_append using scheme_no_ws host_no_ws[OF hc(2)] by simp
    then have s: "strip u = u" by (rule strip_no_ws)
    have "agent_match u = None" using agent_match_host[OF lab, of "[]"] by (simp add: u parse_port_def)
    then show ?thesis using host_alone[OF hc(2,1)] pat
      by (simp add: parse_uri_def s None hn h parse_port_def) (simp add: u parse_port_def)
  qed
qed

lemma format_parse_witness:
  "format_uri None (Some ''bot'') (Some ''agtp.example.org'') None = Inr ''agtp://agtp.example.org/agents/bot'' \<and>
   map_sum id uri_form (parse_uri ''agtp://agtp.example.org/agents/bot'') = Inr ''4''"
proof -
  have f: "format_uri None (Some ''bot'') (Some ''agtp.example.org'') None = Inr ''agtp://agtp.example.org/agents/bot''"
    by code_simp
  have "components_ok (Some ''bot'') (Some ''agtp.example.org'') None" by code_simp
  from format_parse[OF f this] show ?thesis using f by (simp add: uri_form_def starts_with_def)
qed

section \<open>Every address has a canonical form\<close>

lemma hd_takeWhile: "takeWhile p s \<noteq> [] \<Longrightarrow> list_all p (takeWhile p s)"
  by (auto simp: list_all_iff dest: set_takeWhileD)

lemma agent_match_parts:
  assumes "agent_match t = Some (i, host, port, q)"
  shows "length i = 64 \<and> list_all hex_char i \<and> (\<forall>h. host = Some h \<longrightarrow> h \<noteq> [] \<and> list_all host_char h)"
  using assms hd_takeWhile[of host_char]
  by (auto simp: agent_match_def Let_def split: option.splits list.splits if_splits prod.splits)

lemma server_host:
  "server_match t = Some (h, port) \<Longrightarrow> h \<noteq> [] \<and> list_all host_char h"
  "domain_match t = Some (h, port, n) \<Longrightarrow> h \<noteq> [] \<and> list_all host_char h \<and> n \<noteq> [] \<and> list_all handle_char n"
  using hd_takeWhile[of host_char] hd_takeWhile[of handle_char]
  by (auto simp: server_match_def domain_match_def Let_def split: option.splits if_splits prod.splits)

text \<open>C38: Every address has a canonical form.  An address that parses, with a format value
  free of white space, is written again from its components without its port and the rest
  of its query, and the result parses to the same identifier, name and host.\<close>
theorem canonical_address:
  assumes p: "parse_uri a = Inr p" and q: "\<And>f. format_param p = Some f \<Longrightarrow> no_ws f"
  shows "\<exists>u. format_uri (pu_agent_id p) (pu_agent_handle p) (pu_host p) (format_param p) = Inr u \<and>
    parse_uri u = Inr (p\<lparr>pu_port := None,
      pu_query := (if pu_agent_id p = None then None else format_query (format_param p))\<rparr>)"
proof -
  have fq: "components_ok n h (format_param p)" if "case n of Some n \<Rightarrow> no_ws n | None \<Rightarrow> True"
    "case h of Some h \<Rightarrow> h \<noteq> [] \<and> list_all host_char h | None \<Rightarrow> True" for n h
    using that q by (auto simp: components_ok_def split: option.splits)
  consider (agent) i host port query pt where "agent_match (strip a) = Some (i, host, port, query)"
      "p = \<lparr>pu_agent_id = Some i, pu_agent_handle = None, pu_host = host, pu_port = pt, pu_query = query\<rparr>"
    | (domain) host port n pt where "domain_match (strip a) = Some (host, port, n)" "hostname_pattern host" "handle_pattern n"
      "p = \<lparr>pu_agent_id = None, pu_agent_handle = Some n, pu_host = Some host, pu_port = pt, pu_query = None\<rparr>"
    | (server) host port pt where "server_match (strip a) = Some (host, port)" "hostname_pattern host"
      "p = \<lparr>pu_agent_id = None, pu_agent_handle = None, pu_host = Some host, pu_port = pt, pu_query = None\<rparr>"
    using p by (auto simp: parse_uri_def Let_def bind_res_Inr split: option.splits if_splits prod.splits)
  then show ?thesis
  proof cases
    case agent
    note parts = agent_match_parts[OF agent(1)]
    obtain u where u: "format_uri (Some i) None host (format_param p) = Inr u"
      using parts validate_agent_id_Inr[of i "()"] by (auto simp: format_uri_def)
    have "components_ok None host (format_param p)" using parts by (intro fq) (auto split: option.splits)
    from format_parse[OF u this] u show ?thesis by (simp add: agent(2))
  next
    case domain
    have u: "format_uri None (Some n) (Some host) (format_param p) = Inr (SCHEME @ host @ ''/agents/'' @ n)"
      using domain(2,3) by (simp add: format_uri_def)
    have "no_ws n" using server_host(2)[OF domain(1)] class_facts(5) by (auto simp: list_all_iff)
    then have "components_ok (Some n) (Some host) (format_param p)" using server_host(2)[OF domain(1)] by (intro fq) auto
    from format_parse[OF u this] u show ?thesis by (simp add: domain(4))
  next
    case server
    have u: "format_uri None None (Some host) (format_param p) = Inr (SCHEME @ host)"
      using server(2) by (simp add: format_uri_def)
    have "components_ok None (Some host) (format_param p)" using server_host(1)[OF server(1)] by (intro fq) auto
    from format_parse[OF u this] u show ?thesis by (simp add: server(3))
  qed
qed

lemma canonical_address_witness:
  "parse_uri '' agtp://example.org:4480/agents/bot '' = Inr \<lparr>pu_agent_id = None, pu_agent_handle = Some ''bot'',
     pu_host = Some ''example.org'', pu_port = Some 4480, pu_query = None\<rparr> \<and>
   (\<exists>u. format_uri None (Some ''bot'') (Some ''example.org'') None = Inr u \<and> is_ok (parse_uri u))"
proof -
  have p: "parse_uri '' agtp://example.org:4480/agents/bot '' = Inr \<lparr>pu_agent_id = None, pu_agent_handle = Some ''bot'',
     pu_host = Some ''example.org'', pu_port = Some 4480, pu_query = None\<rparr>"
    by code_simp
  from canonical_address[OF p] show ?thesis using p by (auto simp: format_param_def is_ok_def)
qed

text \<open>Random bytes give a valid identifier.\<close>
lemma generated_id_valid:
  assumes "length bs = 32" "list_all (\<lambda>b. b < 256) bs"
  shows "validate_agent_id (generate_agent_id bs) = Inr ()"
proof -
  have hex: "hex_char (hex_digit n)" if "n < 16" for n
  proof -
    have "list_all (\<lambda>n. hex_char (hex_digit n)) [0..<16]" by code_simp
    then show ?thesis using that by (auto simp: list_all_iff)
  qed
  have len: "length (generate_agent_id xs) = 2 * length xs" for xs
    by (induction xs) (simp_all add: generate_agent_id_def)
  have "list_all hex_char (generate_agent_id bs)" using assms(2) hex
    by (auto simp: generate_agent_id_def list_all_iff less_mult_imp_div_less)
  then show ?thesis using validate_agent_id_Inr[of _ "()"] len[of bs] assms(1) by simp
qed

text \<open>A final line feed passes the writer: the host and name patterns end in a dollar sign,
  which matches before it.\<close>
lemma trailing_line_feed_accepted:
  "format_uri None None (Some (''example.org'' @ [LINE_FEED])) None = Inr (''agtp://example.org'' @ [LINE_FEED])"
  by code_simp

end
