(* ===== verification/Genesis.thy ===== *)
theory Genesis
  imports Base64
begin

text \<open>
  The permanent identity documents of agents (core/genesis.py) and the encodings of the
  keys they carry (core/key_encoding.py).

  The canonical JSON writer, the hash, signing, and the loading and exporting of keys in
  PEM are arguments.  The main results: a document survives its JSON form, so that its
  agent identifier is stable (genesis_roundtrip), the agent identifier fixes everything
  but the signature (agent_id_fixes_genesis), and the fingerprint of a key does not depend
  on its encoding (fingerprint_encoding).
\<close>

datatype genesis_error = GenesisFormatError | GenesisSignatureError | GenesisRaised py_error

definition GENESIS_VERSION :: string where "GENESIS_VERSION = ''agtp-genesis/1''"

definition VALID_VERIFICATION_PATHS :: "string list" where
  "VALID_VERIFICATION_PATHS = [''dns-anchored'', ''log-anchored'', ''hybrid'', ''org-asserted'', ''self-signed'']"

definition VALID_ARCHETYPES :: "string list" where
  "VALID_ARCHETYPES = [''assistant'', ''analyst'', ''executor'', ''orchestrator'', ''monitor'']"

record agent_genesis =
  ag_name :: string
  ag_owner_id :: string
  ag_principal_id :: string
  ag_agent_public_key :: string
  ag_issued_at :: string
  ag_issuer :: string
  ag_issuer_public_key :: string
  ag_archetype :: "string option"
  ag_governance_zone :: json
  ag_trust_tier :: int
  ag_verification_path :: string
  ag_signature :: string
  ag_version :: string

section \<open>JSON form\<close>

text \<open>The entries in canonical order; optional fields without a value are left out.\<close>
definition genesis_to_dict :: "agent_genesis \<Rightarrow> jobj" where
  "genesis_to_dict g =
     [(''agtp_genesis_version'', JStr (ag_version g)), (''name'', JStr (ag_name g)),
      (''owner_id'', JStr (ag_owner_id g)), (''principal_id'', JStr (ag_principal_id g)),
      (''agent_public_key'', JStr (ag_agent_public_key g))] @
     (case ag_archetype g of None \<Rightarrow> [] | Some a \<Rightarrow> [(''archetype'', JStr a)]) @
     (if ag_governance_zone g = JNull then [] else [(''governance_zone'', ag_governance_zone g)]) @
     [(''trust_tier'', JInt (ag_trust_tier g)), (''verification_path'', JStr (ag_verification_path g)),
      (''issued_at'', JStr (ag_issued_at g)), (''issuer'', JStr (ag_issuer g)),
      (''issuer_public_key'', JStr (ag_issuer_public_key g)), (''signature'', JStr (ag_signature g))]"

definition genesis_canonical :: "(jobj \<Rightarrow> octets) \<Rightarrow> bool \<Rightarrow> agent_genesis \<Rightarrow> octets" where
  "genesis_canonical canonical exclude_signature g =
     canonical (if exclude_signature then dict_del ''signature'' (genesis_to_dict g) else genesis_to_dict g)"

definition canonical_agent_id :: "(jobj \<Rightarrow> octets) \<Rightarrow> (octets \<Rightarrow> string) \<Rightarrow> agent_genesis \<Rightarrow> string" where
  "canonical_agent_id canonical sha256_hex g = sha256_hex (genesis_canonical canonical True g)"

section \<open>Reading\<close>

definition required_fields :: "string list" where
  "required_fields = [''name'', ''owner_id'', ''principal_id'', ''agent_public_key'', ''issued_at'', ''issuer'', ''issuer_public_key'']"

text \<open>Membership of a frozen set of texts: the value is hashed first.\<close>
definition in_texts :: "json \<Rightarrow> string list \<Rightarrow> genesis_error + unit" where
  "in_texts v names =
     (if \<not> hashable v then Inl (GenesisRaised TypeError)
      else case v of JStr s \<Rightarrow> if s \<in> set names then Inr () else Inl GenesisFormatError
           | _ \<Rightarrow> Inl GenesisFormatError)"

definition read_tier :: "json \<Rightarrow> genesis_error + int" where
  "read_tier v =
     (case hkey v of JInt n \<Rightarrow> if n \<in> {1, 2, 3} then Inr n else Inl GenesisFormatError
      | _ \<Rightarrow> Inl GenesisFormatError)"

definition read_archetype :: "json \<Rightarrow> genesis_error + string option" where
  "read_archetype v =
     (if v = JNull then Inr None
      else bind_res (in_texts v VALID_ARCHETYPES) (\<lambda>_.
        case v of JStr s \<Rightarrow> Inr (Some s) | _ \<Rightarrow> Inr None))"

text \<open>parse_genesis; show is the text form of the values str does not spell out.\<close>
definition parse_genesis :: "(json \<Rightarrow> string) \<Rightarrow> json \<Rightarrow> genesis_error + agent_genesis" where
  "parse_genesis show data =
     (case data of
        JObj d \<Rightarrow>
          (let text = (\<lambda>k. py_str show (jget d k));
               version = jor (jget d ''agtp_genesis_version'') (JStr GENESIS_VERSION) in
           if version \<noteq> JStr GENESIS_VERSION then Inl GenesisFormatError
           else if \<not> list_all (\<lambda>k. truthy (jget d k)) required_fields then Inl GenesisFormatError
           else bind_res (read_tier (get_or (JInt 2) d ''trust_tier'')) (\<lambda>tier.
             bind_res (in_texts (get_or (JStr ''self-signed'') d ''verification_path'') VALID_VERIFICATION_PATHS) (\<lambda>_.
             bind_res (read_archetype (jget d ''archetype'')) (\<lambda>archetype.
             Inr \<lparr>ag_name = text ''name'', ag_owner_id = text ''owner_id'', ag_principal_id = text ''principal_id'',
                  ag_agent_public_key = text ''agent_public_key'', ag_issued_at = text ''issued_at'',
                  ag_issuer = text ''issuer'', ag_issuer_public_key = text ''issuer_public_key'',
                  ag_archetype = archetype, ag_governance_zone = jget d ''governance_zone'', ag_trust_tier = tier,
                  ag_verification_path = py_str show (get_or (JStr ''self-signed'') d ''verification_path''),
                  ag_signature = py_str show (jor (jget d ''signature'') (JStr [])), ag_version = GENESIS_VERSION\<rparr>))))
      | _ \<Rightarrow> Inl GenesisFormatError)"

definition load_genesis_json :: "(json \<Rightarrow> string) \<Rightarrow> (string \<Rightarrow> json option) \<Rightarrow> string \<Rightarrow> genesis_error + agent_genesis" where
  "load_genesis_json show loads text =
     (case loads text of None \<Rightarrow> Inl GenesisFormatError | Some data \<Rightarrow> parse_genesis show data)"

section \<open>Signature\<close>

definition sign_genesis :: "(jobj \<Rightarrow> octets) \<Rightarrow> (octets \<Rightarrow> octets) \<Rightarrow> agent_genesis \<Rightarrow> genesis_error + agent_genesis" where
  "sign_genesis canonical sign g =
     (if ag_issuer_public_key g = [] then Inl GenesisFormatError
      else Inr (g\<lparr>ag_signature := b64url (sign (genesis_canonical canonical True g))\<rparr>))"

text \<open>load_key gives the key of a PEM text, None when loading raises.\<close>
definition verify_genesis ::
  "(jobj \<Rightarrow> octets) \<Rightarrow> (string \<Rightarrow> 'k option) \<Rightarrow> ('k \<Rightarrow> octets \<Rightarrow> octets \<Rightarrow> bool) \<Rightarrow> agent_genesis \<Rightarrow> genesis_error + unit" where
  "verify_genesis canonical load_key check g =
     (if ag_signature g = [] then Inl GenesisSignatureError
      else case load_key (ag_issuer_public_key g) of
        None \<Rightarrow> Inl GenesisSignatureError
      | Some key \<Rightarrow>
          (case b64url_decode (ag_signature g) of
             Inl _ \<Rightarrow> Inl GenesisSignatureError
           | Inr sig \<Rightarrow>
               if check key sig (genesis_canonical canonical True g) then Inr () else Inl GenesisSignatureError))"

definition issuer_key_fingerprint ::
  "(string \<Rightarrow> 'k option) \<Rightarrow> ('k \<Rightarrow> octets) \<Rightarrow> (octets \<Rightarrow> string) \<Rightarrow> agent_genesis \<Rightarrow> genesis_error + string" where
  "issuer_key_fingerprint load_key raw sha256_hex g =
     (case load_key (ag_issuer_public_key g) of
        None \<Rightarrow> Inl (GenesisRaised ValueError)
      | Some key \<Rightarrow> Inr (sha256_hex (raw key)))"

definition verify_cert_genesis_binding ::
  "(jobj \<Rightarrow> octets) \<Rightarrow> (octets \<Rightarrow> string) \<Rightarrow> (string \<Rightarrow> 'k option) \<Rightarrow> ('k \<Rightarrow> octets \<Rightarrow> octets \<Rightarrow> bool) \<Rightarrow>
   agent_genesis \<Rightarrow> string \<Rightarrow> genesis_error + unit" where
  "verify_cert_genesis_binding canonical sha256_hex load_key check g subject_agent_id =
     bind_res (verify_genesis canonical load_key check g) (\<lambda>_.
       if canonical_agent_id canonical sha256_hex g \<noteq> lower subject_agent_id then Inl GenesisFormatError else Inr ())"

section \<open>Key encodings\<close>

datatype key_error = KeyEncodingError

definition contains :: "string \<Rightarrow> string \<Rightarrow> bool" where
  "contains p s = list_ex (starts_with p) (suffixes s)"

definition detect_format :: "string \<Rightarrow> string" where
  "detect_format key = (if contains ''-----BEGIN'' key then ''pem'' else ''b64url_raw'')"

definition pem_to_b64url_raw :: "(string \<Rightarrow> 'k option) \<Rightarrow> ('k \<Rightarrow> octets) \<Rightarrow> string \<Rightarrow> key_error + string" where
  "pem_to_b64url_raw load_key raw pem =
     (case load_key pem of None \<Rightarrow> Inl KeyEncodingError | Some key \<Rightarrow> Inr (b64url (raw key)))"

text \<open>The thirty-two bytes of a key in its raw form.\<close>
definition raw_key_bytes :: "string \<Rightarrow> key_error + octets" where
  "raw_key_bytes key =
     (case b64url_decode (strip key) of
        Inl _ \<Rightarrow> Inl KeyEncodingError
      | Inr raw \<Rightarrow> if length raw \<noteq> 32 then Inl KeyEncodingError else Inr raw)"

definition b64url_raw_to_pem :: "(octets \<Rightarrow> 'k option) \<Rightarrow> ('k \<Rightarrow> string) \<Rightarrow> string \<Rightarrow> key_error + string" where
  "b64url_raw_to_pem from_raw pem_of text =
     (if strip text = [] then Inl KeyEncodingError
      else bind_res (raw_key_bytes text) (\<lambda>raw.
        case from_raw raw of None \<Rightarrow> Inl KeyEncodingError | Some key \<Rightarrow> Inr (pem_of key)))"

definition fingerprint_b64url_raw ::
  "(string \<Rightarrow> 'k option) \<Rightarrow> ('k \<Rightarrow> octets) \<Rightarrow> (octets \<Rightarrow> string) \<Rightarrow> string \<Rightarrow> key_error + string" where
  "fingerprint_b64url_raw load_key raw sha256_hex key =
     (if detect_format key = ''pem'' then
        (case load_key key of None \<Rightarrow> Inl KeyEncodingError | Some k \<Rightarrow> Inr (sha256_hex (raw k)))
      else bind_res (raw_key_bytes key) (\<lambda>bs. Inr (sha256_hex bs)))"

definition issuer_public_key_b64url_raw :: "(string \<Rightarrow> 'k option) \<Rightarrow> ('k \<Rightarrow> octets) \<Rightarrow> agent_genesis \<Rightarrow> key_error + string" where
  "issuer_public_key_b64url_raw load_key raw g =
     (if ag_issuer_public_key g = [] then Inr []
      else if detect_format (ag_issuer_public_key g) = ''pem'' then pem_to_b64url_raw load_key raw (ag_issuer_public_key g)
      else Inr (strip (ag_issuer_public_key g)))"

definition issuer_public_key_fingerprint ::
  "(string \<Rightarrow> 'k option) \<Rightarrow> ('k \<Rightarrow> octets) \<Rightarrow> (octets \<Rightarrow> string) \<Rightarrow> agent_genesis \<Rightarrow> key_error + string" where
  "issuer_public_key_fingerprint load_key raw sha256_hex g =
     (if ag_issuer_public_key g = [] then Inr []
      else fingerprint_b64url_raw load_key raw sha256_hex (ag_issuer_public_key g))"

section \<open>Round trip\<close>

text \<open>A document whose fields a parser could have read.\<close>
definition genesis_ok :: "agent_genesis \<Rightarrow> bool" where
  "genesis_ok g = (ag_name g \<noteq> [] \<and> ag_owner_id g \<noteq> [] \<and> ag_principal_id g \<noteq> [] \<and> ag_agent_public_key g \<noteq> [] \<and>
     ag_issued_at g \<noteq> [] \<and> ag_issuer g \<noteq> [] \<and> ag_issuer_public_key g \<noteq> [] \<and>
     ag_trust_tier g \<in> {1, 2, 3} \<and> ag_verification_path g \<in> set VALID_VERIFICATION_PATHS \<and>
     (case ag_archetype g of None \<Rightarrow> True | Some a \<Rightarrow> a \<in> set VALID_ARCHETYPES) \<and> ag_version g = GENESIS_VERSION)"

lemma genesis_entries [simp]:
  "jget (genesis_to_dict g) ''agtp_genesis_version'' = JStr (ag_version g)"
  "jget (genesis_to_dict g) ''name'' = JStr (ag_name g)"
  "jget (genesis_to_dict g) ''owner_id'' = JStr (ag_owner_id g)"
  "jget (genesis_to_dict g) ''principal_id'' = JStr (ag_principal_id g)"
  "jget (genesis_to_dict g) ''agent_public_key'' = JStr (ag_agent_public_key g)"
  "jget (genesis_to_dict g) ''issued_at'' = JStr (ag_issued_at g)"
  "jget (genesis_to_dict g) ''issuer'' = JStr (ag_issuer g)"
  "jget (genesis_to_dict g) ''issuer_public_key'' = JStr (ag_issuer_public_key g)"
  "jget (genesis_to_dict g) ''signature'' = JStr (ag_signature g)"
  "jget (genesis_to_dict g) ''governance_zone'' = ag_governance_zone g"
  "jget (genesis_to_dict g) ''archetype'' = (case ag_archetype g of None \<Rightarrow> JNull | Some a \<Rightarrow> JStr a)"
  "get_or x (genesis_to_dict g) ''trust_tier'' = JInt (ag_trust_tier g)"
  "get_or x (genesis_to_dict g) ''verification_path'' = JStr (ag_verification_path g)"
  by (simp_all add: genesis_to_dict_def json_simps get_or_def split: option.split)

lemma get_or_lookup: "dict_get q k = dict_get d k \<Longrightarrow> get_or x q k = get_or x d k"
  by (simp add: get_or_def)

lemma jget_lookup: "dict_get q k = dict_get d k \<Longrightarrow> jget q k = jget d k"
  by (simp add: jget_def get_or_def)

lemma parse_genesis_entries:
  assumes q: "\<And>k. dict_get q k = dict_get (genesis_to_dict g) k" and ok: "genesis_ok g"
  shows "parse_genesis show (JObj q) = Inr g"
proof -
  note same = jget_lookup[OF q] get_or_lookup[OF q]
  have tier: "read_tier (JInt (ag_trust_tier g)) = Inr (ag_trust_tier g)"
    using ok by (auto simp: read_tier_def genesis_ok_def)
  have path: "in_texts (JStr (ag_verification_path g)) VALID_VERIFICATION_PATHS = Inr ()"
    using ok by (simp add: in_texts_def genesis_ok_def)
  have arch: "read_archetype (case ag_archetype g of None \<Rightarrow> JNull | Some a \<Rightarrow> JStr a) = Inr (ag_archetype g)"
    using ok by (auto simp: read_archetype_def in_texts_def genesis_ok_def split: option.splits)
  have version: "ag_version g = GENESIS_VERSION" "GENESIS_VERSION \<noteq> []"
    using ok by (simp_all add: genesis_ok_def GENESIS_VERSION_def)
  have sigv: "py_str show (jor (JStr (ag_signature g)) (JStr [])) = ag_signature g"
    by (simp add: jor_def)
  have req: "list_all (\<lambda>k. truthy (jget q k)) required_fields"
    using ok by (simp add: required_fields_def same genesis_ok_def)
  show ?thesis
    unfolding parse_genesis_def json.case Let_def
    by (cases g) (use req tier path arch version sigv in \<open>simp add: same jor_def\<close>)
qed

lemma char_lower_upper [simp]: "char_lower (char_upper c) = char_lower c"
proof (cases "is_lower c")
  case True
  then have n: "97 \<le> (of_char c :: nat)" "(of_char c :: nat) \<le> 122"
    by (auto simp: is_lower_def Let_def)
  then have e: "(of_char (char_upper c) :: nat) = of_char c - 32"
    using True by (simp add: char_upper_def)
  have "is_upper (char_upper c)" unfolding is_upper_def Let_def e using n by linarith
  moreover have "\<not> is_upper c" using n by (simp add: is_upper_def Let_def)
  moreover have "(of_char c :: nat) - 32 + 32 = of_char c" using n by linarith
  ultimately show ?thesis by (simp add: char_lower_def e)
qed (simp add: char_upper_def)

text \<open>C39: An identity document is permanent.  A signed document read back from any object
  with its entries, whatever their order, is the document itself; its signature verifies,
  its agent identifier is the one of the unsigned document, and a certificate that names
  this identifier, in either case of its letters, is bound to it.\<close>
theorem genesis_roundtrip:
  assumes ok: "genesis_ok g" and s: "sign_genesis canonical sign g = Inr s"
    and q: "\<And>k. dict_get q k = dict_get (genesis_to_dict s) k"
    and key: "load_key (ag_issuer_public_key g) = Some key"
    and scheme: "\<And>m. check key (sign m) m" "\<And>m. sign m \<noteq> []"
    and hex: "\<And>m. lower (sha256_hex m) = sha256_hex m"
  shows "parse_genesis show (JObj q) = Inr s \<and> verify_genesis canonical load_key check s = Inr () \<and>
    canonical_agent_id canonical sha256_hex s = canonical_agent_id canonical sha256_hex g \<and>
    verify_cert_genesis_binding canonical sha256_hex load_key check s (upper (canonical_agent_id canonical sha256_hex g)) = Inr ()"
proof -
  have s': "s = g\<lparr>ag_signature := b64url (sign (genesis_canonical canonical True g))\<rparr>"
    using s by (auto simp: sign_genesis_def split: if_splits)
  have strip: "dict_del ''signature'' (genesis_to_dict (g\<lparr>ag_signature := x\<rparr>)) = dict_del ''signature'' (genesis_to_dict g)" for x
    by (simp add: genesis_to_dict_def split: option.split)
  have can: "genesis_canonical canonical True s = genesis_canonical canonical True g"
    by (simp add: genesis_canonical_def s' strip)
  have "genesis_ok s" using ok by (simp add: s' genesis_ok_def)
  then have p: "parse_genesis show (JObj q) = Inr s" by (rule parse_genesis_entries[OF q])
  have v: "verify_genesis canonical load_key check s = Inr ()"
  proof -
    have "ag_signature s = b64url (sign (genesis_canonical canonical True g))" "ag_issuer_public_key s = ag_issuer_public_key g"
      by (simp_all add: s')
    then show ?thesis using scheme key by (simp add: verify_genesis_def can)
  qed
  have i: "canonical_agent_id canonical sha256_hex s = canonical_agent_id canonical sha256_hex g"
    by (simp add: canonical_agent_id_def can)
  have low: "lower (upper t) = lower t" for t
    by (induction t) (auto simp: lower_def upper_def)
  have "verify_cert_genesis_binding canonical sha256_hex load_key check s (upper (canonical_agent_id canonical sha256_hex g)) = Inr ()"
    by (simp add: verify_cert_genesis_binding_def v i low) (simp add: canonical_agent_id_def hex)
  with p v i show ?thesis by simp
qed

definition example_genesis :: agent_genesis where
  "example_genesis = \<lparr>ag_name = ''lauren'', ag_owner_id = ''owner'', ag_principal_id = ''p'', ag_agent_public_key = ''k'',
     ag_issued_at = ''2026-01-01'', ag_issuer = ''self'', ag_issuer_public_key = ''k'', ag_archetype = Some ''analyst'',
     ag_governance_zone = JNull, ag_trust_tier = 2, ag_verification_path = ''self-signed'', ag_signature = [],
     ag_version = GENESIS_VERSION\<rparr>"

lemma genesis_roundtrip_witness:
  defines "s \<equiv> example_genesis\<lparr>ag_signature := ''AQ''\<rparr>"
  shows "parse_genesis (\<lambda>v. []) (JObj (genesis_to_dict s)) = Inr s \<and>
    verify_genesis (\<lambda>d. []) (\<lambda>t. Some ()) (\<lambda>k sig m. sig = [1]) s = Inr ()"
proof -
  have ok: "genesis_ok example_genesis"
    by (simp add: genesis_ok_def example_genesis_def VALID_VERIFICATION_PATHS_def VALID_ARCHETYPES_def)
  have "b64url [1] = ''AQ''" by (simp add: sx1_def sx2_def b64_char_def b64_alphabet_def)
  then have sg: "sign_genesis (\<lambda>d. []) (\<lambda>m. [1]) example_genesis = Inr s"
    by (simp add: sign_genesis_def s_def example_genesis_def)
  from genesis_roundtrip[OF ok sg refl, of "\<lambda>t. Some ()" "()" "\<lambda>k sig m. sig = [1]" "\<lambda>m. []" "\<lambda>v. []"]
  show ?thesis by (simp add: lower_def)
qed

section \<open>What an identifier fixes\<close>

text \<open>Two documents bound to one agent identifier have the same fields but for the signature,
  when hash and canonical JSON do not collide on them.\<close>
lemma agent_id_fixes_genesis:
  assumes b: "verify_cert_genesis_binding canonical sha256_hex load_key check g i = Inr ()"
      "verify_cert_genesis_binding canonical sha256_hex load_key check h i = Inr ()"
    and inj: "sha256_hex (genesis_canonical canonical True g) = sha256_hex (genesis_canonical canonical True h) \<Longrightarrow>
      (\<And>k. dict_get (dict_del ''signature'' (genesis_to_dict g)) k = dict_get (dict_del ''signature'' (genesis_to_dict h)) k)"
  shows "h\<lparr>ag_signature := ag_signature g\<rparr> = g"
proof -
  have "sha256_hex (genesis_canonical canonical True g) = sha256_hex (genesis_canonical canonical True h)"
    using b by (auto simp: verify_cert_genesis_binding_def canonical_agent_id_def bind_res_Inr split: if_splits)
  note eq = inj[OF this]
  have l: "k \<noteq> ''signature'' \<Longrightarrow> dict_get (genesis_to_dict g) k = dict_get (genesis_to_dict h) k" for k
    using eq[of k] by simp
  note j = jget_lookup[OF l]
  have tier: "get_or x (genesis_to_dict g) ''trust_tier'' = get_or x (genesis_to_dict h) ''trust_tier''"
    "get_or x (genesis_to_dict g) ''verification_path'' = get_or x (genesis_to_dict h) ''verification_path''" for x
    by (rule get_or_lookup[OF l]; simp)+
  show ?thesis
    using j[of "''name''"] j[of "''owner_id''"] j[of "''principal_id''"] j[of "''agent_public_key''"] j[of "''issued_at''"]
      j[of "''issuer''"] j[of "''issuer_public_key''"] j[of "''archetype''"] j[of "''governance_zone''"]
      j[of "''agtp_genesis_version''"] tier
    by (cases g; cases h) (auto split: option.splits)
qed

section \<open>Fingerprints\<close>

text \<open>The fingerprint does not depend on the encoding of a key.\<close>
lemma fingerprint_encoding:
  assumes "load_key pem = Some k" "detect_format pem = ''pem''" "length (raw k) = 32" "pem_to_b64url_raw load_key raw pem = Inr t"
    and "detect_format t \<noteq> ''pem''"
  shows "fingerprint_b64url_raw load_key raw sha256_hex t = fingerprint_b64url_raw load_key raw sha256_hex pem"
  using assms by (auto simp: fingerprint_b64url_raw_def pem_to_b64url_raw_def raw_key_bytes_def)

text \<open>The alphabet of base64url spells the mark that detects PEM: a raw key whose text
  contains it is read as PEM.\<close>
lemma pem_mark_in_alphabet:
  "list_all (\<lambda>c. b64_value c \<noteq> None) ''-----BEGIN'' \<and> detect_format ''-----BEGINAAAAAAAAAAAAAAAAAAAAAAAAAAAAAAAAA'' = ''pem''"
  by (simp add: b64_value_def Let_def detect_format_def contains_def starts_with_def)

end
