(* ===== verification/Manifest.thy ===== *)
theory Manifest
  imports Method_Registry Methods_Policy
begin

text \<open>
  The server manifest and what agents make of it: the manifest and its wire form
  (core/manifest.py), its generation from the state of a server (server/manifest.py) and
  the handshake that matches the methods an agent requires (core/handshake.py).

  The clock and the character that marks a shortened summary, which lies outside the 8-bit
  characters of the model, are arguments.  A method name in a manifest that is not a text
  counts as the TypeError that sorting mixed names raises.  The main results: a private
  server's manifest tells nothing about its agents (private_manifest_hides_agents), the
  handshake on the manifest and on its wire form agree when the manifest carries policies
  (handshake_on_the_wire), and a match splits the required methods (match_splits_needs).
\<close>

section \<open>Manifest\<close>

record server_info =
  si_server_id :: string
  si_operator :: string
  si_contact :: string
  si_supported_features :: "string list"
  si_domain :: "string option"
  si_issued :: string
  si_updated :: string

record policy_block =
  pb_wildcards_accepted :: bool
  pb_anonymous_discovery :: bool
  pb_scope_required :: bool
  pb_synthesis_enabled :: bool
  pb_max_synthesis_depth :: int
  pb_methods :: "jobj option"

record api_endpoint =
  ap_path :: string
  ap_methods :: "string list"
  ap_description :: "string option"

definition make_api_endpoint :: "json \<Rightarrow> string list \<Rightarrow> string option \<Rightarrow> py_error + api_endpoint" where
  "make_api_endpoint path methods description =
     (case path of
        JStr p \<Rightarrow>
          if \<not> starts_with ''/'' p then Inl ValueError
          else if methods = [] then Inl ValueError
          else Inr \<lparr>ap_path = p, ap_methods = methods, ap_description = description\<rparr>
      | _ \<Rightarrow> Inl ValueError)"

definition text_if :: "string \<Rightarrow> string option \<Rightarrow> jobj" where
  "text_if k v = (case v of Some s \<Rightarrow> if s \<noteq> [] then [(k, JStr s)] else [] | None \<Rightarrow> [])"

definition api_to_dict :: "api_endpoint \<Rightarrow> jobj" where
  "api_to_dict a =
     [(''path'', JStr (ap_path a)), (''methods'', JArr (map JStr (ap_methods a)))] @ text_if ''description'' (ap_description a)"

record hosted_protocol =
  hp_protocol :: string
  hp_version :: string
  hp_endpoint :: string
  hp_catalog :: "string option"

definition make_hosted_protocol :: "string \<Rightarrow> string \<Rightarrow> string \<Rightarrow> string option \<Rightarrow> py_error + hosted_protocol" where
  "make_hosted_protocol protocol version endpoint catalog =
     (if protocol = [] then Inl ValueError
      else if endpoint = [] then Inl ValueError
      else Inr \<lparr>hp_protocol = protocol, hp_version = version, hp_endpoint = endpoint, hp_catalog = catalog\<rparr>)"

definition protocol_to_dict :: "hosted_protocol \<Rightarrow> jobj" where
  "protocol_to_dict p =
     [(''protocol'', JStr (hp_protocol p)), (''version'', JStr (hp_version p)), (''endpoint'', JStr (hp_endpoint p))] @
     text_if ''catalog'' (hp_catalog p)"

record server_manifest =
  sm_agtp_version :: string
  sm_agtp_api_version :: string
  sm_document_version :: string
  sm_server :: server_info
  sm_embedded_methods :: "jobj list"
  sm_agent_disclosure :: string
  sm_hosted_agents :: "jobj list"
  sm_custom_methods :: "jobj list"
  sm_policies :: "policy_block option"
  sm_assurance :: "jobj option"
  sm_security :: "jobj option"
  sm_apis :: "api_endpoint list"
  sm_hosted_protocols :: "hosted_protocol list"
  sm_endpoints :: "jobj list"
  sm_agent_disclosure_notice :: "string option"
  sm_catalog_version :: string
  sm_catalog_versions_supported :: "string list"

definition opt_text :: "string option \<Rightarrow> json" where
  "opt_text v = (case v of None \<Rightarrow> JNull | Some s \<Rightarrow> JStr s)"

definition server_to_dict :: "server_info \<Rightarrow> jobj" where
  "server_to_dict s =
     [(''server_id'', JStr (si_server_id s)), (''operator'', JStr (si_operator s)), (''contact'', JStr (si_contact s)),
      (''supported_features'', JArr (map JStr (si_supported_features s))), (''domain'', opt_text (si_domain s)),
      (''issued'', JStr (si_issued s)), (''updated'', JStr (si_updated s))]"

definition policies_to_dict :: "policy_block \<Rightarrow> jobj" where
  "policies_to_dict p =
     [(''wildcards_accepted'', JBool (pb_wildcards_accepted p)), (''anonymous_discovery'', JBool (pb_anonymous_discovery p)),
      (''scope_required_for_invocation'', JBool (pb_scope_required p)), (''synthesis_enabled'', JBool (pb_synthesis_enabled p)),
      (''max_synthesis_depth'', JInt (pb_max_synthesis_depth p))] @
     (case pb_methods p of Some d \<Rightarrow> if d \<noteq> [] then [(''methods'', JObj d)] else [] | None \<Rightarrow> [])"

definition objects_if :: "string \<Rightarrow> jobj list \<Rightarrow> jobj" where
  "objects_if k xs = (if xs \<noteq> [] then [(k, JArr (map JObj xs))] else [])"

definition block_if :: "string \<Rightarrow> jobj option \<Rightarrow> jobj" where
  "block_if k v = (case v of None \<Rightarrow> [] | Some d \<Rightarrow> [(k, JObj d)])"

text \<open>ServerManifest.to_dict: the blocks in order, empty optional ones left out.\<close>
definition manifest_to_dict :: "server_manifest \<Rightarrow> jobj" where
  "manifest_to_dict m =
     [(''agtp_version'', JStr (sm_agtp_version m)), (''agtp_api_version'', JStr (sm_agtp_api_version m)),
      (''document_version'', JStr (sm_document_version m))] @
     text_if ''catalog_version'' (Some (sm_catalog_version m)) @
     (if sm_catalog_versions_supported m \<noteq> []
      then [(''catalog_versions_supported'', JArr (map JStr (sm_catalog_versions_supported m)))] else []) @
     [(''server'', JObj (server_to_dict (sm_server m))), (''embedded_methods'', JArr (map JObj (sm_embedded_methods m)))] @
     objects_if ''custom_methods'' (sm_custom_methods m) @ objects_if ''endpoints'' (sm_endpoints m) @
     [(''agent_disclosure'', JStr (sm_agent_disclosure m)), (''hosted_agents'', JArr (map JObj (sm_hosted_agents m)))] @
     text_if ''agent_disclosure_notice'' (sm_agent_disclosure_notice m) @
     objects_if ''apis'' (map api_to_dict (sm_apis m)) @
     objects_if ''hosted_protocols'' (map protocol_to_dict (sm_hosted_protocols m)) @
     block_if ''security'' (sm_security m) @ block_if ''assurance'' (sm_assurance m) @
     block_if ''policies'' (map_option policies_to_dict (sm_policies m))"

section \<open>Generation\<close>

definition AGTP_API_VERSION :: string where "AGTP_API_VERSION = ''1.0''"

definition first_sentence :: "string \<Rightarrow> string" where
  "first_sentence text = strip (takeWhile (\<lambda>c. c \<noteq> CHR 0x0A) (takeWhile (\<lambda>c. c \<noteq> CHR ''.'') text))"

text \<open>One skill: a value that is false counts as an empty text, another one that is not a
  text has no strip method.\<close>
definition skill_snippet :: "json \<Rightarrow> py_error + string" where
  "skill_snippet skill =
     (if \<not> truthy skill then Inr []
      else case skill of JStr s \<Rightarrow> Inr (if strip s = [] then [] else first_sentence (strip s)) | _ \<Rightarrow> Inl AttributeError)"

definition shorten :: "char \<Rightarrow> nat \<Rightarrow> string \<Rightarrow> string" where
  "shorten ellipsis limit s = (if limit < length s then rstrip (take (limit - 1) s) @ [ellipsis] else s)"

definition summarize_skills :: "char \<Rightarrow> nat \<Rightarrow> json list \<Rightarrow> py_error + string" where
  "summarize_skills ellipsis limit skills =
     bind_res (map_res skill_snippet skills) (\<lambda>snippets.
       Inr (shorten ellipsis limit (join_with '', '' (filter (\<lambda>s. s \<noteq> []) snippets))))"

definition agent_entry :: "char \<Rightarrow> agent_document \<Rightarrow> py_error + jobj" where
  "agent_entry ellipsis doc =
     bind_res (summarize_skills ellipsis 140 (ad_skills doc)) (\<lambda>summary.
       Inr [(''agent_id'', JStr (ad_agent_id doc)), (''name'', JStr (ad_name doc)), (''skills_summary'', JStr summary),
            (''methods_count'', JInt (int (length (rd_methods (ad_requires doc)))))])"

definition private_notice :: string where
  "private_notice = ''This server hides its agent roster. Authenticate and request directly via DESCRIBE with a known Agent-ID.''"

definition limited_notice :: string where
  "limited_notice = ''This server lists publicly-disclosed agents only. Additional agents may be reachable via direct DESCRIBE.''"

definition disclosure_notice :: "string \<Rightarrow> string option" where
  "disclosure_notice level =
     (if level = ''private'' then Some private_notice else if level = ''limited'' then Some limited_notice else None)"

definition bucket_methods :: "verb_catalog \<Rightarrow> 'h methods \<Rightarrow> jobj list \<times> jobj list" where
  "bucket_methods cg ms =
     (let by_name = sort_key ms_name;
          specs = dict_values ms
      in (map method_to_dict (by_name (filter (\<lambda>s. ms_name s \<in> set (cg_embedded cg)) specs)),
          map method_to_dict (by_name (filter (\<lambda>s. ms_name s \<notin> set (cg_embedded cg)) specs))))"

record manifest_config =
  mc_server :: server_info
  mc_disclosure :: string
  mc_policies :: policy_block
  mc_methods_policy :: "methods_policy option"
  mc_mtls_mode :: string
  mc_attribution_enabled :: bool
  mc_apis :: "api_endpoint list"
  mc_hosted_protocols :: "hosted_protocol list"

definition identity_binding :: "string \<Rightarrow> string" where
  "identity_binding mode =
     (let m = lower (if mode = [] then ''disabled'' else mode) in
      if m = ''optional'' then ''optional'' else if m = ''required'' then ''required'' else ''none'')"

definition posture :: "string \<Rightarrow> bool \<Rightarrow> string" where
  "posture binding attribution =
     (if binding = ''none'' \<and> \<not> attribution then ''demo''
      else if binding = ''required'' \<and> attribution then ''hardened'' else ''mixed'')"

definition default_supported_features :: "string list" where
  "default_supported_features = [''embedded-methods/12'', ''manifest/v2'', ''form2-server-uris'']"

definition listed_agents :: "char \<Rightarrow> string \<Rightarrow> (string, agent_document) dict \<Rightarrow> py_error + jobj list" where
  "listed_agents ellipsis disclosure agents =
     (if disclosure = ''private'' then Inr [] else map_res (agent_entry ellipsis) (dict_values agents))"

definition generated_server :: "server_info \<Rightarrow> string list \<Rightarrow> string \<Rightarrow> server_info" where
  "generated_server s supported_features now =
     s\<lparr>si_supported_features := (if supported_features \<noteq> [] then supported_features else default_supported_features),
       si_issued := (if si_issued s \<noteq> [] then si_issued s else now), si_updated := now\<rparr>"

definition generate ::
  "char \<Rightarrow> (json \<Rightarrow> string) \<Rightarrow> verb_catalog \<Rightarrow> 'h methods \<Rightarrow> manifest_config \<Rightarrow> (string, agent_document) dict \<Rightarrow>
   string list \<Rightarrow> api_endpoint list option \<Rightarrow> hosted_protocol list option \<Rightarrow> 'k registry option \<Rightarrow> string \<Rightarrow>
   py_error + server_manifest" where
  "generate ellipsis repr cg ms c agents supported_features apis protocols registry now =
     (let (embedded, custom) = bucket_methods cg ms;
          binding = identity_binding (mc_mtls_mode c) in
      bind_res (listed_agents ellipsis (mc_disclosure c) agents) (\<lambda>agent_list.
      bind_res (case registry of None \<Rightarrow> Inr [] | Some rg \<Rightarrow> render_manifest_section rg) (\<lambda>endpoints.
      Inr \<lparr>sm_agtp_version = ''1.0'', sm_agtp_api_version = AGTP_API_VERSION, sm_document_version = ''v2'',
           sm_server = generated_server (mc_server c) supported_features now,
           sm_embedded_methods = embedded, sm_agent_disclosure = mc_disclosure c, sm_hosted_agents = agent_list,
           sm_custom_methods = custom,
           sm_policies = Some ((mc_policies c)\<lparr>pb_methods := map_option policy_to_wire (mc_methods_policy c)\<rparr>),
           sm_assurance = Some [(''identity_binding'', JStr binding), (''attribution_records'', JBool (mc_attribution_enabled c)),
             (''anonymous_discovery'', JBool (pb_anonymous_discovery (mc_policies c))),
             (''posture'', JStr (posture binding (mc_attribution_enabled c)))],
           sm_security = Some [(''identity_binding'', JStr binding)],
           sm_apis = (case apis of None \<Rightarrow> mc_apis c | Some xs \<Rightarrow> xs),
           sm_hosted_protocols = (case protocols of None \<Rightarrow> mc_hosted_protocols c | Some xs \<Rightarrow> xs),
           sm_endpoints = endpoints, sm_agent_disclosure_notice = disclosure_notice (mc_disclosure c),
           sm_catalog_version = catalog_version repr cg,
           sm_catalog_versions_supported = catalog_versions_supported repr cg\<rparr>)))"

section \<open>Handshake\<close>

record match_outcome =
  mo_kind :: string
  mo_matched :: "string list"
  mo_missing :: "string list"
  mo_universe :: "string list"
  mo_agent_wants_wildcards :: bool
  mo_server_accepts_wildcards :: bool

definition is_actionable :: "match_outcome \<Rightarrow> bool" where
  "is_actionable r = (mo_kind r = ''full'' \<or> mo_kind r = ''partial'')"

definition summary_line :: "match_outcome \<Rightarrow> string" where
  "summary_line r = ''Match: '' @ upper (mo_kind r) @ ''  (matched='' @ show_int (int (length (mo_matched r))) @
     '' missing='' @ show_int (int (length (mo_missing r))) @ '' universe='' @ show_int (int (length (mo_universe r))) @ '')''"

text \<open>The name of a method entry.\<close>
definition entry_name :: "json \<Rightarrow> py_error + string" where
  "entry_name e =
     (case e of
        JObj d \<Rightarrow> (case dict_get d ''name'' of None \<Rightarrow> Inl (KeyError ''name'') | Some (JStr s) \<Rightarrow> Inr s | Some _ \<Rightarrow> Inl TypeError)
      | _ \<Rightarrow> Inl TypeError)"

definition universe_of :: "json list \<Rightarrow> json list \<Rightarrow> py_error + string list" where
  "universe_of embedded custom =
     bind_res (map_res entry_name embedded) (\<lambda>a. bind_res (map_res entry_name custom) (\<lambda>b.
       Inr (sort (remdups (a @ b)))))"

definition explicit_match :: "string list \<Rightarrow> string list \<Rightarrow> bool \<Rightarrow> bool \<Rightarrow> match_outcome" where
  "explicit_match agent_methods universe agent_wildcards server_accepts =
     (let needs = remdups agent_methods;
          matched = sort (filter (\<lambda>m. m \<in> set universe) needs);
          missing = sort (filter (\<lambda>m. m \<notin> set universe) needs);
          kind = (if needs = [] then (if universe \<noteq> [] then ''full'' else ''none'')
                  else if missing = [] then ''full''
                  else if matched = [] then ''none'' else ''partial'')
      in \<lparr>mo_kind = kind, mo_matched = matched, mo_missing = missing, mo_universe = universe,
          mo_agent_wants_wildcards = agent_wildcards, mo_server_accepts_wildcards = server_accepts\<rparr>)"

definition match_for_wildcards :: "string list \<Rightarrow> string list \<Rightarrow> bool \<Rightarrow> bool \<Rightarrow> match_outcome" where
  "match_for_wildcards agent_methods universe agent_wildcards server_accepts =
     (if \<not> agent_wildcards \<or> \<not> server_accepts then explicit_match agent_methods universe agent_wildcards server_accepts
      else \<lparr>mo_kind = ''full'', mo_matched = universe, mo_missing = [], mo_universe = universe,
            mo_agent_wants_wildcards = True, mo_server_accepts_wildcards = True\<rparr>)"

text \<open>The methods a document requires; those of a checked document are texts.\<close>
definition required_methods :: "agent_document \<Rightarrow> string list" where
  "required_methods doc = List.map_filter (\<lambda>m. case m of JStr s \<Rightarrow> Some s | _ \<Rightarrow> None) (rd_methods (ad_requires doc))"

definition match_manifest :: "agent_document \<Rightarrow> server_manifest \<Rightarrow> py_error + match_outcome" where
  "match_manifest agent m =
     bind_res (universe_of (map JObj (sm_embedded_methods m)) (map JObj (sm_custom_methods m))) (\<lambda>universe.
       Inr (match_for_wildcards (required_methods agent) universe (rd_wildcards (ad_requires agent))
         (case sm_policies m of None \<Rightarrow> False | Some p \<Rightarrow> pb_wildcards_accepted p)))"

definition items_of :: "json \<Rightarrow> py_error + json list" where
  "items_of v = (if truthy v then iter_items v else Inr [])"

definition object_of :: "json \<Rightarrow> py_error + jobj" where
  "object_of v = (if truthy v then (case v of JObj d \<Rightarrow> Inr d | _ \<Rightarrow> Inl AttributeError) else Inr [])"

text \<open>match_from_manifest_dict, on the wire form of the manifest, current or legacy.\<close>
definition match_from_manifest_dict :: "agent_document \<Rightarrow> jobj \<Rightarrow> py_error + match_outcome" where
  "match_from_manifest_dict agent m =
     bind_res (if jget m ''embedded_methods'' = JNull \<and> jget m ''custom_methods'' = JNull then
         bind_res (object_of (jget m ''methods'')) (\<lambda>legacy. Inr (jget legacy ''embedded'', jget legacy ''custom''))
       else Inr (jget m ''embedded_methods'', jget m ''custom_methods'')) (\<lambda>(embedded, custom).
     bind_res (items_of embedded) (\<lambda>embedded. bind_res (items_of custom) (\<lambda>custom.
     bind_res (universe_of embedded custom) (\<lambda>universe.
     bind_res (object_of (jor (jget m ''policies'') (jor (jget m ''policy'') (JObj [])))) (\<lambda>policies.
       Inr (match_for_wildcards (required_methods agent) universe (rd_wildcards (ad_requires agent))
         (truthy (get_or (JBool True) policies ''wildcards_accepted''))))))))"

definition wildcard_note :: string where
  "wildcard_note = ''Note: agent declares wildcards but server policy refuses them; non-embedded invocations will return 462.''"

definition format_outcome :: "match_outcome \<Rightarrow> string" where
  "format_outcome r =
     (let line = (\<lambda>label ms. if ms \<noteq> [] then [label @ '' ('' @ show_int (int (length ms)) @ ''): '' @ join_with '', '' ms] else []) in
      join_with [CHR 0x0A] ([summary_line r] @ line ''Matched'' (mo_matched r) @ line ''Missing'' (mo_missing r) @
        line ''Server has'' (mo_universe r) @
        (if mo_agent_wants_wildcards r \<and> \<not> mo_server_accepts_wildcards r then [wildcard_note] else [])))"

section \<open>Properties\<close>

lemma summarize_skills_bound:
  "summarize_skills e limit skills = Inr s \<Longrightarrow> 0 < limit \<Longrightarrow> length s \<le> limit"
proof -
  have "length (dropWhile P xs) \<le> length xs" for P and xs :: string
    by (rule length_dropWhile_le)
  then have "length (rstrip xs) \<le> length xs" for xs by (metis length_rev rstrip_def)
  then have "length (rstrip (take (limit - 1) xs)) \<le> limit - 1" for xs
    by (metis le_trans length_take min.cobounded2)
  then have "length (shorten e limit xs) \<le> limit" if "0 < limit" for xs
    using that by (simp add: shorten_def Suc_le_eq less_Suc_eq_le[symmetric] le_less_trans)
  then show "summarize_skills e limit skills = Inr s \<Longrightarrow> 0 < limit \<Longrightarrow> length s \<le> limit"
    by (auto simp: summarize_skills_def bind_res_Inr)
qed

text \<open>A private server's manifest tells nothing about its agents: with any two sets of
  agents the same manifest is generated, and it lists none.\<close>
lemma private_manifest_hides_agents:
  assumes "mc_disclosure c = ''private''"
  shows "generate e repr cg ms c agents f apis protocols rg now = generate e repr cg ms c agents' f apis protocols rg now"
    "generate e repr cg ms c agents f apis protocols rg now = Inr m \<Longrightarrow> sm_hosted_agents m = []"
proof -
  have "listed_agents e (mc_disclosure c) a = Inr []" for a using assms by (simp add: listed_agents_def)
  note l = this
  show "generate e repr cg ms c agents f apis protocols rg now = generate e repr cg ms c agents' f apis protocols rg now"
    by (simp only: generate_def l)
  show "generate e repr cg ms c agents f apis protocols rg now = Inr m \<Longrightarrow> sm_hosted_agents m = []"
    unfolding generate_def l by (auto simp: bind_res_Inr case_prod_unfold Let_def)
qed

text \<open>The notice of a limited server speaks of publicly disclosed agents only; the list is
  that of a public server.\<close>
lemma limited_lists_all: "listed_agents e ''limited'' agents = listed_agents e ''public'' agents"
  by (simp add: listed_agents_def)

lemma jget_skip:
  "k \<noteq> k' \<Longrightarrow> jget (text_if k v @ d) k' = jget d k'" "k \<noteq> k' \<Longrightarrow> jget (objects_if k xs @ d) k' = jget d k'"
  "k \<noteq> k' \<Longrightarrow> jget (block_if k b @ d) k' = jget d k'" "k \<noteq> k' \<Longrightarrow> jget (block_if k b) k' = JNull"
  "k \<noteq> k' \<Longrightarrow> jget ((if c then [(k, x)] else []) @ d) k' = jget d k'"
  by (auto simp: text_if_def objects_if_def block_if_def json_simps split: option.split)

lemma jget_here:
  "jget (objects_if k xs @ d) k = (if xs \<noteq> [] then JArr (map JObj xs) else jget d k)"
  "jget (block_if k b) k = (case b of None \<Rightarrow> JNull | Some d \<Rightarrow> JObj d)"
  by (auto simp: objects_if_def block_if_def json_simps split: option.split)

lemma manifest_entries:
  "jget (manifest_to_dict m) ''embedded_methods'' = JArr (map JObj (sm_embedded_methods m))"
  "jget (manifest_to_dict m) ''custom_methods'' =
     (if sm_custom_methods m \<noteq> [] then JArr (map JObj (sm_custom_methods m)) else JNull)"
  "jget (manifest_to_dict m) ''policies'' = (case sm_policies m of None \<Rightarrow> JNull | Some p \<Rightarrow> JObj (policies_to_dict p))"
  "jget (manifest_to_dict m) ''policy'' = JNull"
  unfolding manifest_to_dict_def append_assoc append_Cons append_Nil
  by (simp_all add: jget_skip jget_here json_simps option.case_distrib map_option_case split: option.split)


text \<open>The names of method entries do not depend on which form of the manifest is read.\<close>
lemma wire_items:
  "items_of (jget (manifest_to_dict m) ''embedded_methods'') = Inr (map JObj (sm_embedded_methods m))"
  "items_of (jget (manifest_to_dict m) ''custom_methods'') = Inr (map JObj (sm_custom_methods m))"
  by (simp_all add: manifest_entries items_of_def)

text \<open>C36: The handshake reads the same from a manifest with policies and from its wire form:
  the same methods are matched and missing, the same outcome is reported and the same error
  is raised on an entry without a name.\<close>
theorem handshake_on_the_wire:
  assumes "sm_policies m = Some p"
  shows "match_from_manifest_dict agent (manifest_to_dict m) = match_manifest agent m"
proof -
  have "jget (manifest_to_dict m) ''embedded_methods'' \<noteq> JNull" by (simp add: manifest_entries)
  moreover have "jor (jget (manifest_to_dict m) ''policies'') x = JObj (policies_to_dict p)" for x
    by (simp add: manifest_entries assms jor_def policies_to_dict_def)
  moreover have "object_of (JObj (policies_to_dict p)) = Inr (policies_to_dict p)"
    by (simp add: object_of_def)
  moreover have "truthy (get_or (JBool True) (policies_to_dict p) ''wildcards_accepted'') = pb_wildcards_accepted p"
    by (simp add: policies_to_dict_def get_or_def)
  ultimately show ?thesis
    by (simp add: match_from_manifest_dict_def match_manifest_def wire_items assms)
qed

text \<open>Without policies the two forms differ: the manifest refuses wildcards, its wire form
  accepts them.\<close>
lemma wire_wildcards_default:
  assumes "sm_policies m = None" "sm_embedded_methods m = []" "sm_custom_methods m = []"
  shows "match_manifest agent m = Inr (match_for_wildcards (required_methods agent) [] (rd_wildcards (ad_requires agent)) False)"
    "match_from_manifest_dict agent (manifest_to_dict m) =
       Inr (match_for_wildcards (required_methods agent) [] (rd_wildcards (ad_requires agent)) True)"
proof -
  show "match_manifest agent m = Inr (match_for_wildcards (required_methods agent) [] (rd_wildcards (ad_requires agent)) False)"
    using assms by (simp add: match_manifest_def universe_of_def)
  have "jget (manifest_to_dict m) ''embedded_methods'' \<noteq> JNull" by (simp add: manifest_entries)
  then show "match_from_manifest_dict agent (manifest_to_dict m) =
       Inr (match_for_wildcards (required_methods agent) [] (rd_wildcards (ad_requires agent)) True)"
    using assms by (simp add: match_from_manifest_dict_def manifest_entries items_of_def universe_of_def object_of_def jor_def get_or_def)
qed

text \<open>A match splits the required methods: each of them is matched or missing and none both,
  the matched ones are offered, and the kind of the outcome tells whether some are missing.\<close>
lemma match_splits_needs:
  assumes "r = match_for_wildcards needs universe w accepts" "\<not> (w \<and> accepts)"
  shows "set (mo_matched r) \<union> set (mo_missing r) = set needs" "set (mo_matched r) \<inter> set (mo_missing r) = {}"
    "set (mo_matched r) \<subseteq> set universe" "set (mo_missing r) \<inter> set universe = {}"
    "distinct (mo_matched r)" "distinct (mo_missing r)"
    "needs \<noteq> [] \<Longrightarrow> (mo_kind r = ''full'') = (mo_missing r = [])"
    "needs \<noteq> [] \<Longrightarrow> is_actionable r = (mo_matched r \<noteq> [])"
proof -
  have r: "r = explicit_match needs universe w accepts" using assms by (auto simp: match_for_wildcards_def)
  show "set (mo_matched r) \<union> set (mo_missing r) = set needs" "set (mo_matched r) \<inter> set (mo_missing r) = {}"
    "set (mo_matched r) \<subseteq> set universe" "set (mo_missing r) \<inter> set universe = {}"
    "distinct (mo_matched r)" "distinct (mo_missing r)"
    by (auto simp: r explicit_match_def Let_def)
  show "needs \<noteq> [] \<Longrightarrow> (mo_kind r = ''full'') = (mo_missing r = [])"
    by (simp add: r explicit_match_def Let_def)
  show "needs \<noteq> [] \<Longrightarrow> is_actionable r = (mo_matched r \<noteq> [])"
    by (simp add: r explicit_match_def Let_def is_actionable_def flip: set_empty)
qed


definition example_manifest :: server_manifest where
  "example_manifest =
     \<lparr>sm_agtp_version = ''1.0'', sm_agtp_api_version = ''1.0'', sm_document_version = ''v2'',
      sm_server = \<lparr>si_server_id = ''s'', si_operator = ''o'', si_contact = ''c'', si_supported_features = [],
        si_domain = None, si_issued = [], si_updated = []\<rparr>,
      sm_embedded_methods = [[(''name'', JStr ''QUERY'')], [(''name'', JStr ''DISCOVER'')]], sm_agent_disclosure = ''public'',
      sm_hosted_agents = [], sm_custom_methods = [[(''name'', JStr ''BOOK'')]],
      sm_policies = Some \<lparr>pb_wildcards_accepted = False, pb_anonymous_discovery = True, pb_scope_required = False,
        pb_synthesis_enabled = True, pb_max_synthesis_depth = 3, pb_methods = None\<rparr>,
      sm_assurance = None, sm_security = None, sm_apis = [], sm_hosted_protocols = [], sm_endpoints = [],
      sm_agent_disclosure_notice = None, sm_catalog_version = ''1'', sm_catalog_versions_supported = []\<rparr>"

definition example_agent :: agent_document where
  "example_agent =
     \<lparr>ad_agtp_version = ''1.0'', ad_document_version = ''1'', ad_agent_id = ''a'', ad_name = ''n'', ad_role = [],
      ad_principal = ''p'', ad_principal_id = ''p'', ad_description = [], ad_status = ''active'', ad_skills = [],
      ad_requires = \<lparr>rd_methods = [JStr ''QUERY'', JStr ''PAY''], rd_scopes = [], rd_wildcards = True\<rparr>,
      ad_scopes_accepted = [], ad_trust_tier = 2, ad_verification_path = [], ad_trust_warning = [], ad_trust_score = None,
      ad_trust_score_computed_at = [], ad_owner_id = [], ad_issued_at = [], ad_issuer = [], ad_manifest_issuer = [],
      ad_manifest_issuer_public_key = [], ad_manifest_signature = [], ad_policies = []\<rparr>"

lemma handshake_on_the_wire_witness:
  "\<exists>r. match_from_manifest_dict example_agent (manifest_to_dict example_manifest) = Inr r \<and>
     mo_kind r = ''partial'' \<and> mo_matched r = [''QUERY''] \<and> mo_missing r = [''PAY'']"
proof -
  obtain p where p: "sm_policies example_manifest = Some p" by (simp add: example_manifest_def)
  have "universe_of (map JObj (sm_embedded_methods example_manifest)) (map JObj (sm_custom_methods example_manifest)) =
      Inr (sort [''QUERY'', ''DISCOVER'', ''BOOK''])"
    by (simp add: universe_of_def example_manifest_def entry_name_def)
  moreover have "sm_policies example_manifest = Some p \<Longrightarrow> \<not> pb_wildcards_accepted p" by (auto simp: example_manifest_def)
  moreover have "required_methods example_agent = [''QUERY'', ''PAY'']"
    by (simp add: required_methods_def example_agent_def map_filter_simps)
  ultimately show ?thesis
    unfolding handshake_on_the_wire[OF p] using p
    by (simp add: match_manifest_def match_for_wildcards_def explicit_match_def Let_def)
qed

end
