(* ===== verification/Agent_Cert.thy ===== *)
theory Agent_Cert
  imports Cbor Status Presence_Records
begin

text \<open>
  Agent certificates: the nine AGTP extensions with their encoders and parsers
  (server/agent_cert_ext.py) and the verification of a client certificate with the
  cross-checks of the request headers (server/mtls.py).

  The X.509 library is an argument: what it reads of a certificate is the record x509, and
  a builder refuses to add an extension twice.  Texts have 8-bit characters; an extension
  whose UTF-8 text has others is outside the model and counts as malformed.  The main
  results: the extensions of a certificate the encoders wrote are read back in canonical
  form (extensions_roundtrip), whatever is read is well formed (parsed_extensions_ok), and
  a scope commitment with empty tokens passes for canonical (empty_tokens_canonical).
\<close>

section \<open>Extensions\<close>

datatype oid =
  OID_SUBJECT_AGENT_ID | OID_PRINCIPAL_ID | OID_AUTHORITY_SCOPE_COMMITMENT | OID_GOVERNANCE_ZONE |
  OID_TRUST_TIER | OID_ARCHETYPE | OID_ACTIVATION_CERTIFICATE_ID | OID_AGTP_CTL_SCT |
  OID_PRESENCE_VISIBILITY | Other_Oid string

datatype ext_error = CertExtensionError | AlreadySet

definition CRITICAL_OIDS :: "oid list" where
  "CRITICAL_OIDS = [OID_SUBJECT_AGENT_ID, OID_PRINCIPAL_ID, OID_AUTHORITY_SCOPE_COMMITMENT]"

definition tiers :: "int list" where "tiers = [1, 2, 3]"

definition archetypes :: "string list" where
  "archetypes = [''assistant'', ''analyst'', ''executor'', ''orchestrator'', ''monitor'']"

text \<open>The seven extensions the gateway reads, with the certificate timestamp and the
  visibility envelope.\<close>
record agent_cert_extensions = cert_extensions +
  ce_agtp_ctl_sct :: "bytes option"
  ce_presence_visibility :: "string option"

type_synonym cert_builder = "(oid \<times> bytes \<times> bool) list"

definition add_extension :: "cert_builder \<Rightarrow> oid \<Rightarrow> bytes \<Rightarrow> bool \<Rightarrow> ext_error + cert_builder" where
  "add_extension builder i payload critical =
     (if i \<in> fst ` set builder then Inl AlreadySet else Inr (builder @ [(i, payload, critical)]))"

text \<open>UTF-8 of the characters of the model, and its inverse.\<close>
definition text_bytes :: "string \<Rightarrow> bytes" where
  "text_bytes s = (case utf8_encode (map of_char s) of Inl _ \<Rightarrow> [] | Inr bs \<Rightarrow> bs)"

definition bytes_text :: "bytes \<Rightarrow> string option" where
  "bytes_text bs =
     (case utf8_decode bs of
        Inl _ \<Rightarrow> None
      | Inr ps \<Rightarrow> if list_all (\<lambda>p. p < 256) ps then Some (map char_of ps) else None)"

definition ascii_text :: "bytes \<Rightarrow> string option" where
  "ascii_text bs = (if list_all (\<lambda>b. b < 128) bs then Some (map (\<lambda>b. char_of (unat b)) bs) else None)"

definition is_hex_char :: "char \<Rightarrow> bool" where
  "is_hex_char c = (c \<in> set ''0123456789abcdef'')"

section \<open>Encoders\<close>

definition hex_id_bytes :: "string \<Rightarrow> ext_error + bytes" where
  "hex_id_bytes v =
     (let text = lower (strip v) in
      if length text \<noteq> 64 \<or> \<not> list_all is_hex_char text then Inl CertExtensionError else Inr (text_bytes text))"

definition add_subject_agent_id :: "cert_builder \<Rightarrow> string \<Rightarrow> ext_error + cert_builder" where
  "add_subject_agent_id b v = bind_res (hex_id_bytes v) (\<lambda>p. add_extension b OID_SUBJECT_AGENT_ID p True)"

definition add_principal_id :: "cert_builder \<Rightarrow> string \<Rightarrow> ext_error + cert_builder" where
  "add_principal_id b v =
     (if 256 < length (text_bytes v) then Inl CertExtensionError
      else add_extension b OID_PRINCIPAL_ID (text_bytes v) True)"

text \<open>The loop keeps the first of equal tokens and sorts at the end.\<close>
fun scope_tokens :: "string list \<Rightarrow> string list \<Rightarrow> ext_error + string list" where
  "scope_tokens [] out = Inr out" |
  "scope_tokens (s # ss) out =
     (let t = strip s in
      if t = [] then scope_tokens ss out
      else if CHR '','' \<in> set t then Inl CertExtensionError
      else scope_tokens ss (if t \<in> set out then out else out @ [t]))"

definition canonical_scopes :: "string list \<Rightarrow> ext_error + string list" where
  "canonical_scopes scopes = bind_res (scope_tokens scopes []) (\<lambda>out. Inr (sort out))"

definition add_authority_scope_commitment :: "cert_builder \<Rightarrow> string list \<Rightarrow> ext_error + cert_builder" where
  "add_authority_scope_commitment b scopes =
     bind_res (canonical_scopes scopes) (\<lambda>canonical.
       add_extension b OID_AUTHORITY_SCOPE_COMMITMENT (text_bytes (join_with '','' canonical)) True)"

definition add_governance_zone :: "cert_builder \<Rightarrow> string \<Rightarrow> ext_error + cert_builder" where
  "add_governance_zone b zone =
     (if zone = [] then Inl CertExtensionError else add_extension b OID_GOVERNANCE_ZONE (text_bytes zone) False)"

definition add_trust_tier :: "cert_builder \<Rightarrow> int \<Rightarrow> ext_error + cert_builder" where
  "add_trust_tier b tier =
     (if tier \<notin> set tiers then Inl CertExtensionError
      else add_extension b OID_TRUST_TIER [2, 1, word_of_int tier] False)"

definition add_archetype :: "cert_builder \<Rightarrow> string \<Rightarrow> ext_error + cert_builder" where
  "add_archetype b a =
     (if a \<notin> set archetypes then Inl CertExtensionError else add_extension b OID_ARCHETYPE (text_bytes a) False)"

definition add_activation_certificate_id :: "cert_builder \<Rightarrow> string \<Rightarrow> ext_error + cert_builder" where
  "add_activation_certificate_id b v =
     bind_res (hex_id_bytes v) (\<lambda>p. add_extension b OID_ACTIVATION_CERTIFICATE_ID p False)"

definition add_agtp_ctl_sct :: "cert_builder \<Rightarrow> bytes \<Rightarrow> ext_error + cert_builder" where
  "add_agtp_ctl_sct b sct = (if sct = [] then Inl CertExtensionError else add_extension b OID_AGTP_CTL_SCT sct False)"

definition presence_modes :: "string list" where
  "presence_modes = [''public'', ''tier-scoped'', ''owner-domain'', ''explicit-only'', ''invisible'']"

definition disclosure_modes :: "string list" where
  "disclosure_modes = [''full'', ''capabilities'', ''identity-only'', ''existence-only'']"

definition add_presence_visibility :: "cert_builder \<Rightarrow> string \<Rightarrow> string \<Rightarrow> string \<Rightarrow> ext_error + cert_builder" where
  "add_presence_visibility b presence disclosure audience =
     (if presence \<notin> set presence_modes then Inl CertExtensionError
      else if disclosure \<notin> set disclosure_modes then Inl CertExtensionError
      else if CHR ''|'' \<in> set audience then Inl CertExtensionError
      else add_extension b OID_PRESENCE_VISIBILITY
        (text_bytes (presence @ ''|'' @ disclosure @ ''|'' @ audience)) False)"

section \<open>Parsers\<close>

definition parse_hex_id :: "bytes option \<Rightarrow> ext_error + string option" where
  "parse_hex_id ext =
     (case ext of
        None \<Rightarrow> Inr None
      | Some raw \<Rightarrow>
          (case ascii_text raw of
             None \<Rightarrow> Inl CertExtensionError
           | Some text \<Rightarrow> if length text \<noteq> 64 \<or> \<not> list_all is_hex_char text then Inl CertExtensionError
                          else Inr (Some text)))"

definition parse_utf8 :: "nat option \<Rightarrow> bytes option \<Rightarrow> ext_error + string option" where
  "parse_utf8 max_bytes ext =
     (case ext of
        None \<Rightarrow> Inr None
      | Some raw \<Rightarrow>
          if (case max_bytes of None \<Rightarrow> False | Some m \<Rightarrow> m < length raw) then Inl CertExtensionError
          else (case bytes_text raw of None \<Rightarrow> Inl CertExtensionError | Some s \<Rightarrow> Inr (Some s)))"

definition parse_scope_commitment :: "bytes option \<Rightarrow> ext_error + string list option" where
  "parse_scope_commitment ext =
     (case ext of
        None \<Rightarrow> Inr None
      | Some raw \<Rightarrow>
          (case bytes_text raw of
             None \<Rightarrow> Inl CertExtensionError
           | Some text \<Rightarrow>
               if text = [] then Inr (Some [])
               else (let tokens = filter (\<lambda>s. s \<noteq> []) (split_char (CHR '','') text) in
                     if tokens \<noteq> sort (remdups tokens) then Inl CertExtensionError else Inr (Some tokens))))"

definition parse_trust_tier :: "bytes option \<Rightarrow> ext_error + int option" where
  "parse_trust_tier ext =
     (case ext of
        None \<Rightarrow> Inr None
      | Some [a, b, c] \<Rightarrow>
          if a \<noteq> 2 \<or> b \<noteq> 1 then Inl CertExtensionError
          else if uint c \<notin> set tiers then Inl CertExtensionError else Inr (Some (uint c))
      | Some _ \<Rightarrow> Inl CertExtensionError)"

definition parse_archetype :: "bytes option \<Rightarrow> ext_error + string option" where
  "parse_archetype ext =
     (case ext of
        None \<Rightarrow> Inr None
      | Some raw \<Rightarrow>
          (case bytes_text raw of
             None \<Rightarrow> Inl CertExtensionError
           | Some text \<Rightarrow> if text \<notin> set archetypes then Inl CertExtensionError else Inr (Some text)))"

text \<open>The extensions of a certificate, by identifier; a later one replaces an earlier one.\<close>
definition parse_extensions :: "(oid \<times> bytes) list \<Rightarrow> ext_error + agent_cert_extensions" where
  "parse_extensions exts =
     (let by_oid = fold (\<lambda>(i, v). dict_set i v) exts []; get = dict_get by_oid in
      bind_res (parse_hex_id (get OID_SUBJECT_AGENT_ID)) (\<lambda>subject.
      bind_res (parse_utf8 (Some 256) (get OID_PRINCIPAL_ID)) (\<lambda>principal.
      bind_res (parse_scope_commitment (get OID_AUTHORITY_SCOPE_COMMITMENT)) (\<lambda>scopes.
      bind_res (parse_utf8 None (get OID_GOVERNANCE_ZONE)) (\<lambda>zone.
      bind_res (parse_trust_tier (get OID_TRUST_TIER)) (\<lambda>tier.
      bind_res (parse_archetype (get OID_ARCHETYPE)) (\<lambda>archetype.
      bind_res (parse_hex_id (get OID_ACTIVATION_CERTIFICATE_ID)) (\<lambda>activation.
      bind_res (parse_utf8 None (get OID_PRESENCE_VISIBILITY)) (\<lambda>visibility.
      Inr \<lparr>ce_subject_agent_id = subject, ce_principal_id = principal, ce_authority_scopes = scopes,
           ce_governance_zone = zone, ce_trust_tier = tier, ce_archetype = archetype,
           ce_activation_certificate_id = activation, ce_agtp_ctl_sct = get OID_AGTP_CTL_SCT,
           ce_presence_visibility = visibility\<rparr>)))))))))"

text \<open>split with maxsplit 2.\<close>
definition split_bars :: "string \<Rightarrow> string list" where
  "split_bars s =
     (case split_char (CHR ''|'') s of
        a # b # c # r \<Rightarrow> [a, b, join_with ''|'' (c # r)]
      | parts \<Rightarrow> parts)"

definition visibility_envelope :: "agent_cert_extensions \<Rightarrow> visibility option" where
  "visibility_envelope exts =
     (case ce_presence_visibility exts of
        None \<Rightarrow> None
      | Some text \<Rightarrow>
          if text = [] then None
          else (let parts = split_bars text;
                    part = (\<lambda>n dflt. if n < length parts \<and> parts ! n \<noteq> [] then parts ! n else dflt)
                in Some \<lparr>v_presence_mode = part 0 ''public'', v_disclosure_mode = part 1 ''capabilities'',
                         v_audience_scope = part 2 []\<rparr>))"


section \<open>Reading back\<close>

lemma text_bytes_eq: "text_bytes s = map word_of_nat (concat (map utf8_point (map of_char s)))"
proof -
  have "list_all valid_point (map of_char s)"
    by (simp add: list_all_iff valid_point_def less_trans[OF nat_of_char_less_256])
  then show ?thesis by (simp add: text_bytes_def utf8_encode_def)
qed

lemma bytes_text_inverse [simp]: "bytes_text (text_bytes s) = Some s"
proof -
  have v: "list_all valid_point (map of_char s)"
    by (simp add: list_all_iff valid_point_def less_trans[OF nat_of_char_less_256])
  then have "utf8_decode (text_bytes s) = Inr (map of_char s)"
    by (intro utf8_roundtrip) (simp add: text_bytes_eq utf8_encode_def)
  then show ?thesis by (simp add: bytes_text_def list_all_iff o_def)
qed

lemma ascii_text_inverse: "list_all is_hex_char s \<Longrightarrow> ascii_text (text_bytes s) = Some s"
proof -
  assume h: "list_all is_hex_char s"
  have n: "(of_char c :: nat) < 128" if "is_hex_char c" for c using that by (auto simp: is_hex_char_def)
  have "text_bytes s = map (\<lambda>c. word_of_nat (of_char c)) s"
    using h n by (induction s) (auto simp: text_bytes_eq utf8_point_def)
  moreover have "unat (word_of_nat (of_char c) :: 8 word) = of_char c" for c :: char
    by (simp add: unat_of_nat take_bit_nat_eq_self)
  moreover have "(word_of_nat (of_char c) :: 8 word) < 128" if "c \<in> set s" for c
    using h n that by (simp add: list_all_iff word_less_nat_alt unat_of_nat take_bit_nat_eq_self)
  ultimately show ?thesis by (simp add: ascii_text_def list_all_iff o_def)
qed

lemma hex_id_back: "hex_id_bytes v = Inr p \<Longrightarrow> parse_hex_id (Some p) = Inr (Some (lower (strip v)))"
  by (auto simp: hex_id_bytes_def parse_hex_id_def Let_def ascii_text_inverse split: if_splits)

lemma scope_tokens_ok:
  "scope_tokens ss out = Inr r \<Longrightarrow> distinct out \<Longrightarrow> (\<forall>t \<in> set out. t \<noteq> [] \<and> CHR '','' \<notin> set t) \<Longrightarrow>
   distinct r \<and> (\<forall>t \<in> set r. t \<noteq> [] \<and> CHR '','' \<notin> set t) \<and>
   set r = set out \<union> (strip ` set ss - {[]})"
proof (induction ss arbitrary: out)
  case (Cons s ss)
  show ?case
  proof (cases "strip s = []")
    case True
    then have r: "scope_tokens ss out = Inr r" using Cons.prems(1) by (simp add: Let_def)
    have "strip ` set (s # ss) - {[]} = strip ` set ss - {[]}" using True by (simp add: insert_Diff_if)
    with Cons.IH[OF r Cons.prems(2,3)] show ?thesis by metis
  next
    case False
    let ?out = "if strip s \<in> set out then out else out @ [strip s]"
    have c: "CHR '','' \<notin> set (strip s)" and r: "scope_tokens ss ?out = Inr r"
      using Cons.prems(1) False by (auto simp: Let_def split: if_splits)
    have d: "distinct ?out" using Cons.prems(2) by simp
    have t: "\<forall>t \<in> set ?out. t \<noteq> [] \<and> CHR '','' \<notin> set t" using Cons.prems(3) False c by simp
    have "set ?out \<union> (strip ` set ss - {[]}) = set out \<union> (strip ` set (s # ss) - {[]})"
      using False by auto
    with Cons.IH[OF r d t] show ?thesis by metis
  qed
qed simp

lemma canonical_scopes_ok:
  assumes "canonical_scopes ss = Inr ts"
  shows "sorted ts" "distinct ts" "\<forall>t \<in> set ts. t \<noteq> [] \<and> CHR '','' \<notin> set t"
    "set ts = (strip ` set ss - {[]})"
proof -
  obtain out where out: "scope_tokens ss [] = Inr out" "ts = sort out" using assms by (auto simp: canonical_scopes_def bind_res_Inr)
  from scope_tokens_ok[OF out(1)] have f: "distinct out" "\<forall>t \<in> set out. t \<noteq> [] \<and> CHR '','' \<notin> set t"
    "set out = strip ` set ss - {[]}" by simp_all
  show "sorted ts" "distinct ts" "set ts = strip ` set ss - {[]}" using f out(2) by simp_all
  show "\<forall>t \<in> set ts. t \<noteq> [] \<and> CHR '','' \<notin> set t" using f(2) out(2) by simp
qed

lemma scope_commitment_back:
  assumes "canonical_scopes ss = Inr ts"
  shows "parse_scope_commitment (Some (text_bytes (join_with '','' ts))) = Inr (Some ts)"
proof (cases ts)
  case Nil
  then show ?thesis by (simp add: parse_scope_commitment_def)
next
  case (Cons t r)
  have ok: "sorted ts" "distinct ts" "\<forall>t \<in> set ts. t \<noteq> [] \<and> CHR '','' \<notin> set t"
    using canonical_scopes_ok[OF assms] by blast+
  have split: "split_char (CHR '','') (join_with '','' ts) = ts" using Cons ok(3) by (intro split_join_char) auto
  moreover have "filter (\<lambda>s. s \<noteq> []) ts = ts" using ok(3) by (simp add: filter_id_conv)
  moreover have "join_with '','' ts \<noteq> []"
  proof
    assume "join_with '','' ts = []"
    with split have "ts = [[]]" by simp
    with ok(3) show False by simp
  qed
  moreover have "sort (remdups ts) = ts" using ok(1,2) by (simp add: distinct_remdups_id sort_key_id_if_sorted)
  ultimately show ?thesis by (simp add: parse_scope_commitment_def)
qed


lemma tier_back: "tier \<in> set tiers \<Longrightarrow> parse_trust_tier (Some [2, 1, word_of_int tier]) = Inr (Some tier)"
  by (auto simp: parse_trust_tier_def tiers_def uint_word_of_int)

lemma add_extension_Inr:
  "add_extension b i p c = Inr b' \<longleftrightarrow> i \<notin> fst ` set b \<and> b' = b @ [(i, p, c)]"
  by (auto simp: add_extension_def)

text \<open>What the encoders write, in the order of the parser.\<close>
record cert_claims =
  cl_subject :: string
  cl_principal :: string
  cl_scopes :: "string list"
  cl_zone :: string
  cl_tier :: int
  cl_archetype :: string
  cl_activation :: string
  cl_sct :: bytes
  cl_presence :: visibility

definition write_claims :: "cert_claims \<Rightarrow> ext_error + cert_builder" where
  "write_claims c =
     bind_res (add_subject_agent_id [] (cl_subject c)) (\<lambda>b.
     bind_res (add_principal_id b (cl_principal c)) (\<lambda>b.
     bind_res (add_authority_scope_commitment b (cl_scopes c)) (\<lambda>b.
     bind_res (add_governance_zone b (cl_zone c)) (\<lambda>b.
     bind_res (add_trust_tier b (cl_tier c)) (\<lambda>b.
     bind_res (add_archetype b (cl_archetype c)) (\<lambda>b.
     bind_res (add_activation_certificate_id b (cl_activation c)) (\<lambda>b.
     bind_res (add_agtp_ctl_sct b (cl_sct c)) (\<lambda>b.
     add_presence_visibility b (v_presence_mode (cl_presence c)) (v_disclosure_mode (cl_presence c))
       (v_audience_scope (cl_presence c))))))))))"

definition ext_values :: "cert_builder \<Rightarrow> (oid \<times> bytes) list" where
  "ext_values b = map (\<lambda>(i, p, _). (i, p)) b"

lemma written_claims:
  assumes "write_claims c = Inr b"
  obtains i ts j where "hex_id_bytes (cl_subject c) = Inr i" "canonical_scopes (cl_scopes c) = Inr ts"
    "hex_id_bytes (cl_activation c) = Inr j" "length (text_bytes (cl_principal c)) \<le> 256" "cl_zone c \<noteq> []"
    "cl_tier c \<in> set tiers" "cl_archetype c \<in> set archetypes" "cl_sct c \<noteq> []"
    "v_presence_mode (cl_presence c) \<in> set presence_modes" "v_disclosure_mode (cl_presence c) \<in> set disclosure_modes"
    "CHR ''|'' \<notin> set (v_audience_scope (cl_presence c))"
    "b = [(OID_SUBJECT_AGENT_ID, i, True), (OID_PRINCIPAL_ID, text_bytes (cl_principal c), True),
          (OID_AUTHORITY_SCOPE_COMMITMENT, text_bytes (join_with '','' ts), True),
          (OID_GOVERNANCE_ZONE, text_bytes (cl_zone c), False), (OID_TRUST_TIER, [2, 1, word_of_int (cl_tier c)], False),
          (OID_ARCHETYPE, text_bytes (cl_archetype c), False), (OID_ACTIVATION_CERTIFICATE_ID, j, False),
          (OID_AGTP_CTL_SCT, cl_sct c, False),
          (OID_PRESENCE_VISIBILITY, text_bytes (v_presence_mode (cl_presence c) @ ''|'' @
            v_disclosure_mode (cl_presence c) @ ''|'' @ v_audience_scope (cl_presence c)), False)]"
  using assms unfolding write_claims_def bind_res_Inr add_subject_agent_id_def add_principal_id_def
    add_authority_scope_commitment_def add_governance_zone_def add_trust_tier_def add_archetype_def
    add_activation_certificate_id_def add_agtp_ctl_sct_def add_presence_visibility_def
  by (auto simp: add_extension_Inr bind_res_Inr split: if_splits)

text \<open>C40: A certificate tells what its issuer wrote.  When the encoders accept the claims of an
  agent, the parser reads them back: the identifiers in lower case and stripped, the scopes
  stripped, sorted and without repetition, the other values as they are, and the visibility
  envelope with its three parts.  The critical extensions are the ones listed as critical.\<close>
theorem extensions_roundtrip:
  assumes "write_claims c = Inr b"
  shows "\<exists>x ts. parse_extensions (ext_values b) = Inr x \<and> canonical_scopes (cl_scopes c) = Inr ts \<and>
    ce_subject_agent_id x = Some (lower (strip (cl_subject c))) \<and> ce_principal_id x = Some (cl_principal c) \<and>
    ce_authority_scopes x = Some ts \<and> ce_governance_zone x = Some (cl_zone c) \<and> ce_trust_tier x = Some (cl_tier c) \<and>
    ce_archetype x = Some (cl_archetype c) \<and>
    ce_activation_certificate_id x = Some (lower (strip (cl_activation c))) \<and> ce_agtp_ctl_sct x = Some (cl_sct c) \<and>
    visibility_envelope x = Some (cl_presence c) \<and> map fst (filter (\<lambda>(_, _, critical). critical) b) = CRITICAL_OIDS"
  using assms
proof (rule written_claims)
  fix i ts j
  let ?v = "cl_presence c"
  let ?text = "v_presence_mode ?v @ ''|'' @ v_disclosure_mode ?v @ ''|'' @ v_audience_scope ?v"
  assume ids: "hex_id_bytes (cl_subject c) = Inr i" "hex_id_bytes (cl_activation c) = Inr j"
    and ts: "canonical_scopes (cl_scopes c) = Inr ts" and p: "length (text_bytes (cl_principal c)) \<le> 256"
    and t: "cl_tier c \<in> set tiers" and a: "cl_archetype c \<in> set archetypes"
    and modes: "v_presence_mode ?v \<in> set presence_modes" "v_disclosure_mode ?v \<in> set disclosure_modes"
    and bar: "CHR ''|'' \<notin> set (v_audience_scope ?v)"
    and b: "b = [(OID_SUBJECT_AGENT_ID, i, True), (OID_PRINCIPAL_ID, text_bytes (cl_principal c), True),
          (OID_AUTHORITY_SCOPE_COMMITMENT, text_bytes (join_with '','' ts), True),
          (OID_GOVERNANCE_ZONE, text_bytes (cl_zone c), False), (OID_TRUST_TIER, [2, 1, word_of_int (cl_tier c)], False),
          (OID_ARCHETYPE, text_bytes (cl_archetype c), False), (OID_ACTIVATION_CERTIFICATE_ID, j, False),
          (OID_AGTP_CTL_SCT, cl_sct c, False), (OID_PRESENCE_VISIBILITY, text_bytes ?text, False)]"
  let ?x = "\<lparr>ce_subject_agent_id = Some (lower (strip (cl_subject c))), ce_principal_id = Some (cl_principal c),
    ce_authority_scopes = Some ts, ce_governance_zone = Some (cl_zone c), ce_trust_tier = Some (cl_tier c),
    ce_archetype = Some (cl_archetype c), ce_activation_certificate_id = Some (lower (strip (cl_activation c))),
    ce_agtp_ctl_sct = Some (cl_sct c), ce_presence_visibility = Some ?text\<rparr>"
  have "fold (\<lambda>(i, v). dict_set i v) (ext_values b) [] = ext_values b"
    by (simp add: b ext_values_def)
  then have "parse_extensions (ext_values b) = Inr ?x"
    using p a by (simp add: parse_extensions_def Let_def b ext_values_def hex_id_back[OF ids(1)] hex_id_back[OF ids(2)]
      scope_commitment_back[OF ts] tier_back[OF t] parse_utf8_def parse_archetype_def)
  moreover have "split_bars ?text = [v_presence_mode ?v, v_disclosure_mode ?v, v_audience_scope ?v]"
  proof -
    have "CHR ''|'' \<notin> set (v_presence_mode ?v)" "CHR ''|'' \<notin> set (v_disclosure_mode ?v)"
      using modes by (auto simp: presence_modes_def disclosure_modes_def)
    with bar show ?thesis by (simp add: split_bars_def split_char_append split_char_free)
  qed
  then have "visibility_envelope ?x = Some ?v"
    using modes by (auto simp: visibility_envelope_def Let_def presence_modes_def disclosure_modes_def)
  moreover have "map fst (filter (\<lambda>(_, _, critical). critical) b) = CRITICAL_OIDS" by (simp add: b CRITICAL_OIDS_def)
  ultimately show ?thesis using ts by (intro exI[of _ ?x] exI[of _ ts]) simp
qed


definition example_claims :: cert_claims where
  "example_claims =
     \<lparr>cl_subject = '' '' @ replicate 64 (CHR ''A''), cl_principal = ''acme'', cl_scopes = [''b'', '' a'', ''b''], cl_zone = ''zone:x'',
      cl_tier = 1, cl_archetype = ''monitor'', cl_activation = replicate 64 (CHR ''0''), cl_sct = [7],
      cl_presence = \<lparr>v_presence_mode = ''invisible'', v_disclosure_mode = ''full'', v_audience_scope = []\<rparr>\<rparr>"

lemma hex_id_replicate:
  "char_lower c = d \<Longrightarrow> is_hex_char d \<Longrightarrow> \<not> is_ws c \<Longrightarrow> is_ws s \<Longrightarrow>
   \<exists>i. hex_id_bytes (s # replicate 64 c) = Inr i \<and> lower (strip (s # replicate 64 c)) = replicate 64 d"
  "char_lower c = d \<Longrightarrow> is_hex_char d \<Longrightarrow> \<not> is_ws c \<Longrightarrow>
   \<exists>i. hex_id_bytes (replicate 64 c) = Inr i \<and> lower (strip (replicate 64 c)) = replicate 64 d"
proof -
  assume c: "char_lower c = d" "is_hex_char d" "\<not> is_ws c"
  have d: "dropWhile is_ws (replicate 64 c) = replicate 64 c"
    using c(3) by (simp add: dropWhile_eq_self_iff)
  then have s: "strip (replicate 64 c) = replicate 64 c" by (simp add: strip_def lstrip_def rstrip_def)
  show "\<exists>i. hex_id_bytes (replicate 64 c) = Inr i \<and> lower (strip (replicate 64 c)) = replicate 64 d"
    unfolding hex_id_bytes_def s using c by (simp add: Let_def lower_def list_all_iff)
  assume w: "is_ws s"
  then have s': "strip (s # replicate 64 c) = replicate 64 c" using d by (simp add: strip_def lstrip_def rstrip_def)
  show "\<exists>i. hex_id_bytes (s # replicate 64 c) = Inr i \<and> lower (strip (s # replicate 64 c)) = replicate 64 d"
    unfolding hex_id_bytes_def s' using c by (simp add: Let_def lower_def list_all_iff)
qed

lemma extensions_roundtrip_witness:
  "\<exists>b x. write_claims example_claims = Inr b \<and> parse_extensions (ext_values b) = Inr x \<and>
     ce_subject_agent_id x = Some (replicate 64 (CHR ''a'')) \<and> ce_authority_scopes x = Some [''a'', ''b''] \<and>
     ce_trust_tier x = Some 1"
proof -
  have f: "char_lower (CHR ''A'') = CHR ''a''" "char_lower (CHR ''0'') = CHR ''0''" "is_hex_char (CHR ''a'')" "is_hex_char (CHR ''0'')"
    "\<not> is_ws (CHR ''A'')" "\<not> is_ws (CHR ''0'')" "is_ws (CHR '' '')" by code_simp+
  obtain i where i: "hex_id_bytes ('' '' @ replicate 64 (CHR ''A'')) = Inr i"
    "lower (strip ('' '' @ replicate 64 (CHR ''A''))) = replicate 64 (CHR ''a'')"
    using hex_id_replicate(1)[OF f(1,3,5,7)] by auto
  obtain j where j: "hex_id_bytes (replicate 64 (CHR ''0'')) = Inr j" using hex_id_replicate(2)[OF f(2,4,6)] by blast
  have sc: "canonical_scopes [''b'', '' a'', ''b''] = Inr [''a'', ''b'']"
    by (simp add: canonical_scopes_def strip_def lstrip_def rstrip_def is_ws_def Let_def)
  have l: "length (text_bytes ''acme'') \<le> 256" by (simp add: text_bytes_eq utf8_point_def)
  have "\<exists>b. write_claims example_claims = Inr b"
    using l by (simp add: write_claims_def example_claims_def add_subject_agent_id_def add_principal_id_def
      add_authority_scope_commitment_def add_governance_zone_def add_trust_tier_def add_archetype_def
      add_activation_certificate_id_def add_agtp_ctl_sct_def add_presence_visibility_def i[simplified] j sc add_extension_def
      tiers_def archetypes_def presence_modes_def disclosure_modes_def)
  then obtain b where b: "write_claims example_claims = Inr b" by blast
  from extensions_roundtrip[OF this] show ?thesis
    using b i(2) sc by (auto simp: example_claims_def)
qed

text \<open>Whatever the parser accepts is well formed: identifiers of 64 hexadecimal digits, a tier
  and an archetype that exist, scopes in strict order without the separator.\<close>
lemma parsed_extensions_ok:
  assumes "parse_extensions exts = Inr x"
  shows "\<And>i. ce_subject_agent_id x = Some i \<Longrightarrow> length i = 64 \<and> list_all is_hex_char i"
    "\<And>i. ce_activation_certificate_id x = Some i \<Longrightarrow> length i = 64 \<and> list_all is_hex_char i"
    "\<And>t. ce_trust_tier x = Some t \<Longrightarrow> t \<in> set tiers" "\<And>a. ce_archetype x = Some a \<Longrightarrow> a \<in> set archetypes"
    "\<And>ss. ce_authority_scopes x = Some ss \<Longrightarrow> sorted ss \<and> distinct ss \<and> (\<forall>s \<in> set ss. s \<noteq> [] \<and> CHR '','' \<notin> set s)"
proof -
  note d = assms[unfolded parse_extensions_def Let_def bind_res_Inr]
  show "length i = 64 \<and> list_all is_hex_char i" if "ce_subject_agent_id x = Some i" for i
    using d that by (auto simp: parse_hex_id_def split: option.splits if_splits)
  show "length i = 64 \<and> list_all is_hex_char i" if "ce_activation_certificate_id x = Some i" for i
    using d that by (auto simp: parse_hex_id_def split: option.splits if_splits)
  show "t \<in> set tiers" if "ce_trust_tier x = Some t" for t
    using d that by (auto simp: parse_trust_tier_def split: option.splits if_splits list.splits)
  show "a \<in> set archetypes" if "ce_archetype x = Some a" for a
    using d that by (auto simp: parse_archetype_def split: option.splits if_splits)
  have scopes: "sorted ss \<and> distinct ss \<and> (\<forall>s \<in> set ss. s \<noteq> [] \<and> CHR '','' \<notin> set s)"
    if p: "parse_scope_commitment e = Inr (Some ss)" for e ss
  proof -
    obtain raw where "ss = [] \<or> ss = filter (\<lambda>s. s \<noteq> []) (split_char (CHR '','') raw) \<and> ss = sort (remdups ss)"
      using p by (auto simp: parse_scope_commitment_def Let_def split: option.splits if_splits)
    then show ?thesis
    proof
      assume t: "ss = filter (\<lambda>s. s \<noteq> []) (split_char (CHR '','') raw) \<and> ss = sort (remdups ss)"
      have "sorted (sort (remdups ss))" "distinct (sort (remdups ss))" by simp_all
      then have "sorted ss" "distinct ss" using t by metis+
      moreover have "\<forall>s \<in> set (filter (\<lambda>s. s \<noteq> []) (split_char (CHR '','') raw)). s \<noteq> [] \<and> CHR '','' \<notin> set s"
        using split_char_no_sep by auto
      ultimately show ?thesis using t by metis
    qed simp
  qed
  show "sorted ss \<and> distinct ss \<and> (\<forall>s \<in> set ss. s \<noteq> [] \<and> CHR '','' \<notin> set s)"
    if "ce_authority_scopes x = Some ss" for ss
  proof -
    have "parse_scope_commitment (dict_get (fold (\<lambda>(i, v). dict_set i v) exts []) OID_AUTHORITY_SCOPE_COMMITMENT) =
        Inr (ce_authority_scopes x)" using d by auto
    with that show ?thesis by (intro scopes) simp
  qed
qed

text \<open>A scope commitment with empty tokens is no canonical form, and is accepted as one.\<close>
lemma empty_tokens_canonical: "parse_scope_commitment (Some (text_bytes '',a,,b'')) = Inr (Some [''a'', ''b''])"
  by (simp add: parse_scope_commitment_def)


section \<open>Verification\<close>

text \<open>What the library reads of a certificate: the Ed25519 public key if it is one, the
  validity window, the common name, and the extensions, whose reading may raise.\<close>
record x509 =
  xc_ed25519 :: "bytes option"
  xc_not_before :: rat
  xc_not_after :: rat
  xc_common_name :: string
  xc_extensions :: "py_error + (oid \<times> bytes) list"

datatype mtls_error = CertVerificationError string | Mtls_Raised py_error

record checked_cert =
  kc_agent_id :: string
  kc_fingerprint :: string
  kc_not_before :: rat
  kc_not_after :: rat
  kc_common_name :: string
  kc_extensions :: agent_cert_extensions

definition derive_agent_id_from_public_key :: "(bytes \<Rightarrow> string) \<Rightarrow> bytes \<Rightarrow> string" where
  "derive_agent_id_from_public_key sha256_hex key = sha256_hex key"

definition cert_agent_id :: "agent_cert_extensions \<Rightarrow> string \<Rightarrow> string" where
  "cert_agent_id exts derived = text_or_else (ce_subject_agent_id exts) derived"

definition verify_peer_cert ::
  "(bytes \<Rightarrow> string) \<Rightarrow> (bytes \<Rightarrow> x509 option) \<Rightarrow> rat \<Rightarrow> bytes \<Rightarrow> mtls_error + checked_cert" where
  "verify_peer_cert sha256_hex load now der =
     (if der = [] then Inl (CertVerificationError ''not-presented'')
      else case load der of
        None \<Rightarrow> Inl (CertVerificationError ''not-x509'')
      | Some cert \<Rightarrow>
          (case xc_ed25519 cert of
             None \<Rightarrow> Inl (CertVerificationError ''not-ed25519'')
           | Some key \<Rightarrow>
               if now < xc_not_before cert \<or> xc_not_after cert < now then Inl (CertVerificationError ''expired'')
               else case xc_extensions cert of
                 Inl e \<Rightarrow> Inl (Mtls_Raised e)
               | Inr exts \<Rightarrow>
                   (case parse_extensions exts of
                      Inl _ \<Rightarrow> Inl (CertVerificationError ''malformed-extension'')
                    | Inr x \<Rightarrow>
                        Inr \<lparr>kc_agent_id = cert_agent_id x (derive_agent_id_from_public_key sha256_hex key),
                             kc_fingerprint = sha256_hex der, kc_not_before = xc_not_before cert,
                             kc_not_after = xc_not_after cert, kc_common_name = xc_common_name cert,
                             kc_extensions = x\<rparr>)))"

text \<open>The part of it that the request carries.\<close>
definition carried_cert :: "checked_cert \<Rightarrow> verified_cert" where
  "carried_cert k = \<lparr>vc_agent_id = kc_agent_id k, vc_fingerprint = kc_fingerprint k,
     vc_extensions = Some (cert_extensions.truncate (kc_extensions k))\<rparr>"

definition cross_check_agent_id_header :: "verified_cert \<Rightarrow> string \<Rightarrow> mtls_error + unit" where
  "cross_check_agent_id_header v h =
     (if h = [] then Inr ()
      else if lower h \<noteq> lower (vc_agent_id v) then Inl (CertVerificationError ''agent-id-mismatch'') else Inr ())"

definition cross_check_principal_id_header :: "verified_cert \<Rightarrow> string \<Rightarrow> mtls_error + unit" where
  "cross_check_principal_id_header v h =
     (if h = [] then Inr ()
      else let p = (case vc_extensions v of None \<Rightarrow> [] | Some x \<Rightarrow> text_or_else (ce_principal_id x) []) in
        if p = [] then Inr ()
        else if strip h \<noteq> strip p then Inl (CertVerificationError ''principal-id-mismatch'') else Inr ())"

text \<open>A certificate that verifies names a subject that is an agent identifier, or the digest
  of its key.\<close>
lemma verified_identity:
  assumes "verify_peer_cert sha256_hex load now der = Inr k"
  shows "\<exists>cert key. load der = Some cert \<and> xc_ed25519 cert = Some key \<and>
    xc_not_before cert \<le> now \<and> now \<le> xc_not_after cert \<and>
    (case ce_subject_agent_id (kc_extensions k) of
       Some i \<Rightarrow> kc_agent_id k = i \<and> length i = 64 \<and> list_all is_hex_char i
     | None \<Rightarrow> kc_agent_id k = sha256_hex key)"
proof -
  from assms obtain cert key exts x where c: "load der = Some cert" "xc_ed25519 cert = Some key"
    "\<not> (now < xc_not_before cert \<or> xc_not_after cert < now)" "parse_extensions exts = Inr x"
    "kc_extensions k = x" "kc_agent_id k = cert_agent_id x (sha256_hex key)"
    by (auto simp: verify_peer_cert_def derive_agent_id_from_public_key_def split: if_splits option.splits sum.splits)
  show ?thesis
  proof (cases "ce_subject_agent_id x")
    case (Some i)
    then have "length i = 64 \<and> list_all is_hex_char i" using parsed_extensions_ok(1)[OF c(4)] by blast
    moreover from this have "i \<noteq> []" by auto
    ultimately show ?thesis using c Some by (auto simp: cert_agent_id_def text_or_else_def)
  qed (use c in \<open>auto simp: cert_agent_id_def text_or_else_def\<close>)
qed

end
