(* ===== verification/Spec2Isabelle.thy ===== *)
theory Spec2Isabelle
  imports Presence_Gossip Presence_Visibility Presence_Partition DHT_Kademlia Proposal_Store Cert_Sessions
    Dispatch Cose Audit_Chain Chain_Walker Ids Genesis Manifest Agent_Cert Connection
begin

text \<open>
  Verification library of the AGTP reference implementation (the Python code
  under core/, server/, presence/, dht/ and tools/).

  AGTP is a request and response protocol for agents.  A client writes requests
  onto a stream; the server reads them, checks method and path against the verb
  catalog, the path grammar and its method policy, and dispatches them to
  handlers, some of which are compositions of other methods (syntheses).
  Coordinators keep presence records of live agents and reconcile them by
  gossip; a distributed hash table finds the coordinator of an identifier.

  Parts, theories and sources.
  \<^item> Messages.  Wire: core/wire.py, the framing of requests and responses and
    the readers of the identity headers.
  \<^item> Vocabulary.  Catalog: core/methods.py, the verb catalog and the suggestions
    for an unknown verb.  Path_Grammar: core/path_grammar.py.  Methods_Policy:
    the class MethodsPolicy of server/config.py with its loader.
  \<^item> Synthesis.  Synthesis_Plan: server/synthesis/plan.py, recipes.py, policies.py
    and the choice of a plan.  Synthesis_Runtime: server/synthesis/runtime.py, the
    contracts, their sweeps and the execution of a plan through the dispatcher.
    Durations: server/synthesis_duration.py.
  \<^item> Negotiation.  Proposal_Store: server/proposal_store.py and the poll endpoint of
    server/builtins.py.
  \<^item> Trust.  Cert_Sessions: server/cert_sessions.py.  Identity: core/identity.py, the agent
    document, its reader and its canonical signed form.  Oauth: server/oauth_context.py and
    the composition of agent policy and bearer tokens in server/methods.py.  Genesis:
    core/genesis.py and core/key_encoding.py, the signed birth document of an agent.
    Agent_Cert: server/agent_cert_ext.py and server/mtls.py, the certificates of agents.
  \<^item> Addresses and discovery.  Ids: core/ids.py, the forms of an agtp address.  Manifest:
    core/manifest.py, server/manifest.py and core/handshake.py, the manifest of a server and
    what an agent makes of it.
  \<^item> Audit.  Base64 and Attribution: server/signing.py, the signed records of answers.
    Audit_Chain: server/audit_chain.py, server/audit_records.py, the response policy of
    server/main.py that appends to them, and tools/chain_integrity_check.py.  Chain_Walker:
    tools/chain_inspector/walker.py.  Cbor and Cose: server/cose.py.
  \<^item> Endpoints.  Endpoint: core/endpoint.py, the declaration of an endpoint and its JSON
    form.  Endpoint_Registry: server/endpoint_registry.py with the tiers of
    core/endpoint_tiers.py and the validation of server/schema_validation.py.
    Endpoint_Serve: the serving of one endpoint in server/methods.py, with the hooks of
    server/hooks.py and the handler contexts of agtp/handlers.py.
  \<^item> Responses.  Status: core/status.py, the status codes and every response the server
    builds.
  \<^item> Dispatch.  Method_Registry: the registry of handlers of server/methods.py.
    Rcns_State and Rcns_Gate: server/rcns_state.py and rcns_gate.py, the negotiation gate
    with its rate limiter and its idempotency cache.  Lifecycle: the lifecycle verbs of
    server/methods.py (ACTIVATE, DEACTIVATE, REINSTATE, REVOKE, DEPRECATE, SUSPEND).
    Dispatch: the dispatcher of server/methods.py, which sends a request through the
    lifecycle gate, the OAuth gate, the method policy, the agent policy, the syntheses and
    the endpoints, in the order of the code.
  \<^item> Connection: server/main.py from the received bytes to the stamped answer, which joins
    the certificates, the manifest, the dispatcher and the audit chain.
  \<^item> Presence.  Presence_Records, Presence_Store, Presence_Gossip,
    Presence_Visibility, Presence_Partition: the modules of presence/ of those names.
  \<^item> Lookup.  DHT_Distance, DHT_Routing, DHT_Kademlia: the modules of dht/.

  Modelling conventions (theory Prelude).  A Python string is a list of characters;
  a dictionary is an association list in insertion order, whose updates keep the
  position of an old key; a set is a list without duplicates; a parsed JSON or TOML
  document is a value of the type json.  A raised exception is the left of a sum, and
  a method that changes an object returns the changed record, also when it raises.
  The clock, fresh identifiers, hashes, the regular expression engine, the transport
  and the dispatcher are arguments.  A method that holds a lock is one atomic step.

  Interfaces (locales of Prelude and DHT_Distance), each interpreted on the model.
  \<^item> keyed_store: what a lookup returns after an insert.  Presence_Store.
  \<^item> absorbing_machine: a state machine whose steps keep an invariant and an absorbing
    observation, with its consequences for every run.  Proposal_Store (a decided
    proposal) and Synthesis_Runtime (the terms of a contract that is still served).
  \<^item> lww_replica: a replica that keeps the later of two records.  Presence_Gossip.
  \<^item> window_limiter: a sliding window rate limiter.  Rcns_State, on the limiter kept in
    memory and on the one kept in the database.
  \<^item> unidirectional_metric: the laws of the exclusive or distance.  DHT_Distance.

  What the groups of lemmas show.
  \<^item> Wire: written and read messages agree, framing included, so that messages written
    one after the other are read one after the other.
  \<^item> Catalog: the two-row edit distance is the least number of edits, by way of a
    recursive distance and an inductive relation of alignments; the suggestions are the
    nearest verbs.  Path_Grammar: the validator decides the documented grammar.
    Methods_Policy: a loaded policy leads only to known verbs.
  \<^item> Synthesis_Plan: composed plans are well formed, the first applicable recipe wins.
    Synthesis_Runtime: the lifetime of a contract over any history, exact sweeps, and an
    execution that dispatches the steps of its plan in order.
  \<^item> Presence: the capability index is exact after any history, queries equal a scan of the
    live records, a gossip round converges, audience expressions follow their grammar, and
    where bounding a posture reduces visibility and where it does not.
  \<^item> DHT: the routing table invariant, nearest nodes, termination and bounds of a lookup,
    disjointness of lookup paths.  Partition: leaves form a prefix-free cover.
  \<^item> Endpoints: the registry holds exactly what its history registered, a registered
    endpoint keeps its tier contract, the manifest hides the bindings, a declaration survives
    its JSON form, and a handler sees only validated requests.
  \<^item> Dispatch: an agent that is not active reaches no handler, the contract of one agent
    serves no other, a refused request changes nothing outside the gate, the lifecycle trail
    follows the transition table, a revocation needs its authority, a locked contract gates
    the verbs it names, and the rate limiter admits a bounded number per window and always
    admits a quiet agent.

  \<^item> Audit: base64, CBOR and the records survive their encoding, a verified message carries
    what was signed, the chain of an agent is complete after any history of appends, a
    repaired head ends such a chain, and what the integrity check does not notice.
  \<^item> Identity: a genesis, the extensions of a certificate and the canonical form of an
    address are read back as they were written; the handshake agrees on both forms of a
    manifest.
  \<^item> Connection: a certificate opens the agents of its identity only, a method that an agent
    does not require is refused, anonymous discovery is refused where the policy says so,
    and every answer is stamped; and where these gates have gaps.

  Loops and fuel.  The dispatcher calls itself for the steps of a synthesis and for a
  canonical verb; its fuel is the recursion depth of the interpreter, and running out of it
  is the RecursionError that the interpreter raises, not a missing result.
  The CBOR decoder recurses to the recursion depth of the interpreter in the same way.  The
  integrity check walks at most MAX_WALK_DEPTH records and the chain walker at most max_steps,
  with a measure.  The audience parser runs on fuel, shown to suffice for every token
  list; the lookup loop is the while combinator of the library, shown to return; the
  remaining loops are structural recursions or come with a measure.

  Not modelled.  Sockets, threads, TLS, files other than the stores of the audit chain, the
  command lines, the graphical client, the runtimes and gateways for other languages, the
  attribution distribution prototype, the registrar services, and the demonstration handlers
  of the embedded methods: they are input and output around the modelled modules, or code
  whose meaning is that of a library it calls.
\<close>

end
